(* ===== verification/Prelude.thy ===== *)
theory Prelude
  imports Main "HOL-Library.Word" "HOL-Library.Char_ord" "HOL-Library.List_Lexorder"
begin

text \<open>
  What every other theory of the development shares: the Go values the program computes
  with (times, 32-bit integers, byte strings), the functions of Go's \<open>strings\<close> package it
  calls, the shape of a computation that reads and writes the database and may fail, and
  the collections of facts the component proofs use.

  A \<open>time.Time\<close> is the number of nanoseconds since Go's zero time, so \<open>IsZero\<close> is
  equality with 0 and \<open>Before\<close> is \<open>(<)\<close>.  A string is a list of bytes.  Case folding and
  white space are those of ASCII; Go applies the Unicode tables, which agree on ASCII.
\<close>

named_theorems effect_simps
  \<comment> \<open>equations that run the effect combinators one step\<close>
named_theorems keeps_intros
  \<comment> \<open>rules that build up \<open>keeps\<close> along the structure of a computation\<close>
named_theorems fold_simps
  \<comment> \<open>facts about loops written as folds\<close>

section \<open>Times and machine integers\<close>

type_synonym gotime = int
type_synonym int32 = "32 word"

definition IsZero :: "gotime \<Rightarrow> bool" where
  "IsZero t \<longleftrightarrow> t = 0"

definition microsecond :: int where
  "microsecond = 1000"

text \<open>\<open>t.Truncate(time.Microsecond)\<close>: rounds down to a multiple since the zero time.\<close>

definition truncate_us :: "gotime \<Rightarrow> gotime" where
  "truncate_us t = t - t mod microsecond"

lemma truncate_us_idem [simp]: "truncate_us (truncate_us t) = truncate_us t"
  by (simp add: truncate_us_def microsecond_def mod_diff_left_eq)

lemma truncate_us_le: "truncate_us t \<le> t"
  by (simp add: truncate_us_def microsecond_def)

lemma truncate_us_mono: "s \<le> t \<Longrightarrow> truncate_us s \<le> truncate_us t"
  by (simp add: truncate_us_def microsecond_def minus_mod_eq_mult_div zdiv_mono1)

text \<open>Signed comparison of 32-bit values, as Go compares \<open>int32\<close>.\<close>

definition i32_less :: "int32 \<Rightarrow> int32 \<Rightarrow> bool" where
  "i32_less a b \<longleftrightarrow> sint a < sint b"

definition i32_max :: "int32 \<Rightarrow> int32 \<Rightarrow> int32" where
  "i32_max a b = (if i32_less a b then b else a)"

lemma word_of_int_sint32: "word_of_int (sint (w :: int32)) = w"
  by (metis scast_eq scast_id)

lemma sint32_eq_iff: "sint (a :: int32) = sint b \<longleftrightarrow> a = b"
  by (metis word_of_int_sint32)

lemma i32_less_irrefl [simp]: "\<not> i32_less a a"
  by (simp add: i32_less_def)

lemma i32_less_asym: "i32_less a b \<Longrightarrow> \<not> i32_less b a"
  by (simp add: i32_less_def)

lemma i32_not_less_trans:
  "\<not> i32_less c b \<Longrightarrow> \<not> i32_less b a \<Longrightarrow> \<not> i32_less c a"
  by (simp add: i32_less_def)

section \<open>Go's \<open>strings\<close> package\<close>

definition HasPrefix :: "string \<Rightarrow> string \<Rightarrow> bool" where
  "HasPrefix s p \<longleftrightarrow> take (length p) s = p"

definition CutPrefix :: "string \<Rightarrow> string \<Rightarrow> string" where
  "CutPrefix s p = (if HasPrefix s p then drop (length p) s else s)"

fun Contains :: "string \<Rightarrow> string \<Rightarrow> bool" where
  "Contains [] p = (p = [])"
| "Contains (c # s) p = (HasPrefix (c # s) p \<or> Contains s p)"

text \<open>\<open>strings.Split(s, sep)\<close> for a separator of one byte: never the empty list.\<close>

fun Split :: "char \<Rightarrow> string \<Rightarrow> string list" where
  "Split sep [] = [[]]"
| "Split sep (c # s) =
     (if c = sep then [] # Split sep s
      else case Split sep s of [] \<Rightarrow> [[c]] | p # ps \<Rightarrow> (c # p) # ps)"

fun Join :: "string \<Rightarrow> string list \<Rightarrow> string" where
  "Join sep [] = []"
| "Join sep [s] = s"
| "Join sep (s # ss) = s @ sep @ Join sep ss"

definition is_lower :: "char \<Rightarrow> bool" where
  "is_lower c \<longleftrightarrow> 97 \<le> (of_char c :: nat) \<and> (of_char c :: nat) \<le> 122"

definition is_upper :: "char \<Rightarrow> bool" where
  "is_upper c \<longleftrightarrow> 65 \<le> (of_char c :: nat) \<and> (of_char c :: nat) \<le> 90"

definition is_digit :: "char \<Rightarrow> bool" where
  "is_digit c \<longleftrightarrow> 48 \<le> (of_char c :: nat) \<and> (of_char c :: nat) \<le> 57"

definition is_alpha :: "char \<Rightarrow> bool" where
  "is_alpha c \<longleftrightarrow> is_lower c \<or> is_upper c"

definition is_space :: "char \<Rightarrow> bool" where
  "is_space c \<longleftrightarrow> (of_char c :: nat) = 32 \<or> (9 \<le> (of_char c :: nat) \<and> (of_char c :: nat) \<le> 13)"

definition to_lower :: "char \<Rightarrow> char" where
  "to_lower c = (if is_upper c then char_of ((of_char c :: nat) + 32) else c)"

definition to_upper :: "char \<Rightarrow> char" where
  "to_upper c = (if is_lower c then char_of ((of_char c :: nat) - 32) else c)"

definition ToLower :: "string \<Rightarrow> string" where
  "ToLower s = map to_lower s"

definition EqualFold :: "string \<Rightarrow> string \<Rightarrow> bool" where
  "EqualFold s t \<longleftrightarrow> ToLower s = ToLower t"

definition TrimSpace :: "string \<Rightarrow> string" where
  "TrimSpace s = rev (dropWhile is_space (rev (dropWhile is_space s)))"

lemma Split_nonempty [simp]: "Split sep s \<noteq> []"
  by (induction s) (auto split: list.splits)

lemma Split_no_sep: "p \<in> set (Split sep s) \<Longrightarrow> sep \<notin> set p"
proof (induction s arbitrary: p)
  case (Cons c s)
  then show ?case
    by (cases "Split sep s") (auto split: if_splits)
qed simp

lemma Join_Cons: "ss \<noteq> [] \<Longrightarrow> Join sep (s # ss) = s @ sep @ Join sep ss"
  by (cases ss) auto

lemma Join_Split: "Join [sep] (Split sep s) = s"
proof (induction s)
  case (Cons c s)
  then show ?case
    by (cases "Split sep s"; cases "tl (Split sep s)") (auto simp: Join_Cons split: if_splits)
qed simp

lemma HasPrefix_self_append [simp]: "HasPrefix (p @ s) p"
  by (simp add: HasPrefix_def)

lemma HasPrefix_iff: "HasPrefix s p \<longleftrightarrow> (\<exists>r. s = p @ r)"
  by (auto simp: HasPrefix_def) (metis append_take_drop_id)

text \<open>Decimal text of a number, as \<open>%d\<close> prints it.\<close>

function nat_text :: "nat \<Rightarrow> string" where
  "nat_text n = (if n < 10 then [char_of (48 + n)] else nat_text (n div 10) @ [char_of (48 + n mod 10)])"
  by pat_completeness auto
termination
  by (relation "measure id") auto

declare nat_text.simps [simp del]

definition int_text :: "int \<Rightarrow> string" where
  "int_text i = (if i < 0 then CHR ''-'' # nat_text (nat (- i)) else nat_text (nat i))"

text \<open>
  \<open>%q\<close>: the string between double quotes with backslash escapes.  Bytes above 126 are
  copied, as Go copies printable UTF-8.
\<close>

definition hex_digit :: "nat \<Rightarrow> char" where
  "hex_digit n = (if n < 10 then char_of (48 + n) else char_of (87 + n))"

definition quote_byte :: "char \<Rightarrow> string" where
  "quote_byte c =
     (let n = (of_char c :: nat); bs = char_of (92::nat) in
      if n = 34 \<or> n = 92 then [bs, c]
      else if n = 7 then [bs, CHR ''a''] else if n = 8 then [bs, CHR ''b'']
      else if n = 9 then [bs, CHR ''t''] else if n = 10 then [bs, CHR ''n'']
      else if n = 11 then [bs, CHR ''v''] else if n = 12 then [bs, CHR ''f'']
      else if n = 13 then [bs, CHR ''r'']
      else if n < 32 \<or> n = 127 then [bs, CHR ''x'', hex_digit (n div 16), hex_digit (n mod 16)]
      else [c])"

definition go_quote :: "string \<Rightarrow> string" where
  "go_quote s = [char_of (34::nat)] @ concat (map quote_byte s) @ [char_of (34::nat)]"

section \<open>Computations that may fail\<close>

text \<open>
  A Go function that talks to the database takes the world and returns either an error or
  a value, with the new world.  \<open>call m h k\<close> is the idiom
  \<^verbatim>\<open>x, err := m; if err != nil { return h(err) }; k(x)\<close>, and \<open>bindE\<close> the case where the error
  is returned as it is.
\<close>

type_synonym ('e, 's, 'a) effect = "'s \<Rightarrow> ('e + 'a) \<times> 's"

definition returnE :: "'a \<Rightarrow> ('e, 's, 'a) effect" where
  "returnE x = (\<lambda>s. (Inr x, s))"

definition raiseE :: "'e \<Rightarrow> ('e, 's, 'a) effect" where
  "raiseE e = (\<lambda>s. (Inl e, s))"

definition call :: "('d, 's, 'a) effect \<Rightarrow> ('d \<Rightarrow> 'e) \<Rightarrow> ('a \<Rightarrow> ('e, 's, 'b) effect) \<Rightarrow> ('e, 's, 'b) effect"
  where
  "call m h k = (\<lambda>s. case m s of (Inl d, s') \<Rightarrow> (Inl (h d), s') | (Inr x, s') \<Rightarrow> k x s')"

definition bindE :: "('e, 's, 'a) effect \<Rightarrow> ('a \<Rightarrow> ('e, 's, 'b) effect) \<Rightarrow> ('e, 's, 'b) effect" where
  "bindE m k = call m id k"

text \<open>\<open>if svcErr := check; svcErr != nil { return svcErr }\<close>\<close>

definition guardE :: "'e option \<Rightarrow> ('e, 's, 'b) effect \<Rightarrow> ('e, 's, 'b) effect" where
  "guardE c k = (case c of Some e \<Rightarrow> raiseE e | None \<Rightarrow> k)"

fun forE :: "'a list \<Rightarrow> ('a \<Rightarrow> ('e, 's, 'b) effect) \<Rightarrow> ('e, 's, 'b list) effect" where
  "forE [] f = returnE []"
| "forE (x # xs) f = bindE (f x) (\<lambda>y. bindE (forE xs f) (\<lambda>ys. returnE (y # ys)))"

lemma returnE_run [effect_simps]: "returnE x s = (Inr x, s)"
  by (simp add: returnE_def)

lemma raiseE_run [effect_simps]: "raiseE e s = (Inl e, s)"
  by (simp add: raiseE_def)

lemma call_run [effect_simps]:
  "call m h k s = (case m s of (Inl d, s') \<Rightarrow> (Inl (h d), s') | (Inr x, s') \<Rightarrow> k x s')"
  by (simp add: call_def)

lemma bindE_run [effect_simps]:
  "bindE m k s = (case m s of (Inl e, s') \<Rightarrow> (Inl e, s') | (Inr x, s') \<Rightarrow> k x s')"
  by (simp add: bindE_def call_def split: prod.splits sum.splits)

lemma guardE_run [effect_simps]:
  "guardE c k s = (case c of Some e \<Rightarrow> (Inl e, s) | None \<Rightarrow> k s)"
  by (simp add: guardE_def raiseE_def split: option.splits)

lemma call_InrE:
  assumes "call m h k s = (Inr y, s')"
  obtains x t where "m s = (Inr x, t)" "k x t = (Inr y, s')"
  using assms by (auto simp: call_def split: prod.splits sum.splits)

lemma bindE_InrE:
  assumes "bindE m k s = (Inr y, s')"
  obtains x t where "m s = (Inr x, t)" "k x t = (Inr y, s')"
  using assms by (auto simp: bindE_def elim: call_InrE)

lemma guardE_InrE:
  assumes "guardE c k s = (Inr y, s')"
  obtains "c = None" "k s = (Inr y, s')"
  using assms by (auto simp: guardE_def raiseE_def split: option.splits)

lemma returnE_Inr: "returnE x s = (r, s') \<longleftrightarrow> r = Inr x \<and> s' = s"
  by (auto simp: returnE_def)

lemma raiseE_Inr [simp]: "raiseE e s \<noteq> (Inr y, s')"
  by (simp add: raiseE_def)

lemmas effect_elims = call_InrE bindE_InrE guardE_InrE

text \<open>
  \<open>keeps R m\<close>: whatever \<open>m\<close> returns, the world it leaves is related by \<open>R\<close> to the world it
  found.  With a reflexive and transitive \<open>R\<close> the rules below carry it through every
  combinator, so a fact about each database call is a fact about each service operation.
\<close>

definition keeps :: "('s \<Rightarrow> 's \<Rightarrow> bool) \<Rightarrow> ('e, 's, 'a) effect \<Rightarrow> bool" where
  "keeps R m \<longleftrightarrow> (\<forall>s r s'. m s = (r, s') \<longrightarrow> R s s')"

lemma keepsI: "(\<And>s r s'. m s = (r, s') \<Longrightarrow> R s s') \<Longrightarrow> keeps R m"
  by (simp add: keeps_def)

lemma keepsD: "keeps R m \<Longrightarrow> m s = (r, s') \<Longrightarrow> R s s'"
  by (auto simp: keeps_def)

locale world_relation =
  fixes R :: "'s \<Rightarrow> 's \<Rightarrow> bool"
  assumes R_refl: "R s s"
    and R_trans: "R s t \<Longrightarrow> R t u \<Longrightarrow> R s u"
begin

lemma keeps_returnE: "keeps R (returnE x)"
  by (auto simp: keeps_def returnE_def R_refl)

lemma keeps_raiseE: "keeps R (raiseE e)"
  by (auto simp: keeps_def raiseE_def R_refl)

lemma keeps_call: "keeps R m \<Longrightarrow> (\<And>x. keeps R (k x)) \<Longrightarrow> keeps R (call m h k)"
  unfolding keeps_def call_def
  by (auto split: prod.splits sum.splits) (meson R_trans)

lemma keeps_bindE: "keeps R m \<Longrightarrow> (\<And>x. keeps R (k x)) \<Longrightarrow> keeps R (bindE m k)"
  unfolding bindE_def by (rule keeps_call)

lemma keeps_guardE: "keeps R k \<Longrightarrow> keeps R (guardE c k)"
  by (auto simp: guardE_def keeps_raiseE split: option.splits)

lemma keeps_if: "keeps R m \<Longrightarrow> keeps R n \<Longrightarrow> keeps R (if b then m else n)"
  by simp

lemma keeps_forE: "(\<And>x. keeps R (f x)) \<Longrightarrow> keeps R (forE xs f)"
  by (induction xs) (auto intro!: keeps_bindE keeps_returnE)

lemmas keeps_rules = keeps_returnE keeps_raiseE keeps_call keeps_bindE keeps_guardE keeps_if keeps_forE

end

section \<open>Lists and maps\<close>

text \<open>Consecutive checks, each returning the first error: none fails when all pass.\<close>

lemma first_error_None [simp]:
  "(case x of Some e \<Rightarrow> Some e | None \<Rightarrow> y) = None \<longleftrightarrow> x = None \<and> y = None"
  by (cases x) auto

lemma first_wrapped_None [simp]:
  "(case x of Some e \<Rightarrow> Some (h e) | None \<Rightarrow> y) = None \<longleftrightarrow> x = None \<and> y = None"
  by (cases x) auto

fun find_first :: "('a \<Rightarrow> bool) \<Rightarrow> 'a list \<Rightarrow> 'a option" where
  "find_first P [] = None"
| "find_first P (x # xs) = (if P x then Some x else find_first P xs)"

lemma find_first_Some:
  "find_first P xs = Some x \<Longrightarrow> x \<in> set xs \<and> P x"
  by (induction xs) (auto split: if_splits)

lemma find_first_None: "find_first P xs = None \<longleftrightarrow> (\<forall>x\<in>set xs. \<not> P x)"
  by (induction xs) auto

lemma find_first_unique:
  assumes "x \<in> set xs" "P x" "\<And>y. y \<in> set xs \<Longrightarrow> P y \<Longrightarrow> y = x"
  shows "find_first P xs = Some x"
  using assms find_first_Some [of P xs] find_first_None [of P xs]
  by (cases "find_first P xs") blast+

lemma find_first_key:
  "distinct (map f xs) \<Longrightarrow> x \<in> set xs \<Longrightarrow> f x = k \<Longrightarrow> find_first (\<lambda>y. f y = k) xs = Some x"
  by (rule find_first_unique) (auto simp: distinct_map inj_on_def)

lemma find_first_key_None: "k \<notin> f ` set xs \<Longrightarrow> find_first (\<lambda>y. f y = k) xs = None"
  by (auto simp: find_first_None image_iff)

lemma find_first_map:
  "(\<And>x. P (f x) = P x) \<Longrightarrow> find_first P (map f xs) = map_option f (find_first P xs)"
  by (induction xs) auto

lemma foldl_upd_notin [fold_simps]:
  "k \<notin> f ` set xs \<Longrightarrow> foldl (\<lambda>m x. m(f x \<mapsto> g x)) m xs k = m k"
  by (induction xs arbitrary: m) auto

lemma foldl_upd_in [fold_simps]:
  "distinct (map f xs) \<Longrightarrow> x \<in> set xs \<Longrightarrow> foldl (\<lambda>m x. m(f x \<mapsto> g x)) m xs (f x) = Some (g x)"
  by (induction xs arbitrary: m) (auto simp: fold_simps)

end
