(* ===== verification/Json.thy ===== *)
theory Json
  imports Complex_Main Prelude
begin

text \<open>
  JSON as the program uses it: values decoded into Go's \<open>any\<close> (\<open>encoding/json\<close>), the byte
  columns that hold them (\<open>datatypes.JSON\<close>), \<open>reflect.DeepEqual\<close> on decoded values, and
  \<open>jsonEqual\<close> of \<open>pkg/services/util.go\<close>.  A number is the exact value of the \<open>float64\<close> it
  decodes to.  A JSON string written from a \<open>time.Time\<close> is \<open>JTime\<close>; every other JSON string
  is \<open>JStr\<close>.  An object is its list of members; key order carries no meaning.
\<close>

datatype json =
    JNull
  | JBool bool
  | JNum rat
  | JStr string
  | JTime gotime
  | JArr "json list"
  | JObj "(string \<times> json) list"

text \<open>A byte column: no bytes, bytes that are not JSON, or a document.\<close>

datatype jsonb = JEmpty | JMalformed string | JDoc json

fun Unmarshal :: "jsonb \<Rightarrow> json option" where
  "Unmarshal (JDoc j) = Some j"
| "Unmarshal JEmpty = None"
| "Unmarshal (JMalformed _) = None"

text \<open>\<open>reflect.DeepEqual\<close>: slices element by element, maps as sets of entries.\<close>

fun DeepEqual :: "json \<Rightarrow> json \<Rightarrow> bool"
  and DeepEqual_list :: "json list \<Rightarrow> json list \<Rightarrow> bool"
  and DeepEqual_members :: "(string \<times> json) list \<Rightarrow> (string \<times> json) list \<Rightarrow> bool" where
  "DeepEqual JNull b = (b = JNull)"
| "DeepEqual (JBool x) b = (b = JBool x)"
| "DeepEqual (JNum x) b = (b = JNum x)"
| "DeepEqual (JStr x) b = (b = JStr x)"
| "DeepEqual (JTime x) b = (b = JTime x)"
| "DeepEqual (JArr xs) b = (case b of JArr ys \<Rightarrow> DeepEqual_list xs ys | _ \<Rightarrow> False)"
| "DeepEqual (JObj xs) b =
     (case b of JObj ys \<Rightarrow> length xs = length ys \<and> DeepEqual_members xs ys | _ \<Rightarrow> False)"
| "DeepEqual_list [] ys = (ys = [])"
| "DeepEqual_list (x # xs) ys =
     (case ys of [] \<Rightarrow> False | y # ys' \<Rightarrow> DeepEqual x y \<and> DeepEqual_list xs ys')"
| "DeepEqual_members [] ys = True"
| "DeepEqual_members ((k, v) # xs) ys =
     ((case map_of ys k of None \<Rightarrow> False | Some w \<Rightarrow> DeepEqual v w) \<and> DeepEqual_members xs ys)"

text \<open>
  \<open>jsonEqual\<close> (\<open>services/util.go\<close>): two empty columns are equal; otherwise both must decode
  and their values must be deeply equal.
\<close>

definition jsonEqual :: "jsonb \<Rightarrow> jsonb \<Rightarrow> bool" where
  "jsonEqual a b =
     (if a = JEmpty \<and> b = JEmpty then True
      else case Unmarshal a of
             None \<Rightarrow> False
           | Some va \<Rightarrow> (case Unmarshal b of None \<Rightarrow> False | Some vb \<Rightarrow> DeepEqual va vb))"

text \<open>What every decoded value satisfies: an object has each key once.\<close>

fun json_ok :: "json \<Rightarrow> bool" where
  "json_ok (JArr xs) = list_all json_ok xs"
| "json_ok (JObj xs) = (distinct (map fst xs) \<and> list_all (\<lambda>m. json_ok (snd m)) xs)"
| "json_ok _ = True"

lemma DeepEqual_listI: "(\<And>x. x \<in> set xs \<Longrightarrow> DeepEqual x x) \<Longrightarrow> DeepEqual_list xs xs"
  by (induction xs) auto

lemma DeepEqual_membersI:
  "(\<And>k v. (k, v) \<in> set xs \<Longrightarrow> \<exists>w. map_of ys k = Some w \<and> DeepEqual v w) \<Longrightarrow> DeepEqual_members xs ys"
proof (induction xs)
  case (Cons x xs)
  then show ?case by (cases x) (fastforce split: option.splits)
qed simp

lemma DeepEqual_refl: "json_ok j \<Longrightarrow> DeepEqual j j"
proof (induction j rule: json_ok.induct)
  case (1 xs)
  then show ?case by (auto simp: list_all_iff intro: DeepEqual_listI)
next
  case (2 xs)
  have "DeepEqual_members xs xs"
  proof (rule DeepEqual_membersI)
    fix k v assume kv: "(k, v) \<in> set xs"
    with 2 have "DeepEqual v v" by (force simp: list_all_iff)
    moreover from kv 2(2) have "map_of xs k = Some v" by simp
    ultimately show "\<exists>w. map_of xs k = Some w \<and> DeepEqual v w" by blast
  qed
  then show ?case by simp
qed auto

lemma jsonEqual_refl: "Unmarshal a = Some v \<Longrightarrow> json_ok v \<Longrightarrow> jsonEqual a a"
  by (simp add: jsonEqual_def DeepEqual_refl)

lemma jsonEqual_undecodable: "Unmarshal a = None \<Longrightarrow> b \<noteq> JEmpty \<or> a \<noteq> JEmpty \<Longrightarrow> \<not> jsonEqual a b"
  by (auto simp: jsonEqual_def)

lemma DeepEqual_list_map:
  assumes "\<And>x y. DeepEqual (f x) (f y) \<longleftrightarrow> x = y" and "inj f"
  shows "DeepEqual_list (map f xs) (map f ys) \<longleftrightarrow> xs = ys"
proof (induction xs arbitrary: ys)
  case (Cons x xs)
  then show ?case by (cases ys) (auto simp: assms(1))
qed auto

section \<open>Decoding into struct fields\<close>

text \<open>
  \<open>json.Unmarshal\<close> into a struct: an absent or null member leaves the field's zero value, a
  member of another type is an error, an unknown member is ignored.
\<close>

definition member_string :: "(string \<times> json) list \<Rightarrow> string \<Rightarrow> string option" where
  "member_string fs k =
     (case map_of fs k of
        None \<Rightarrow> Some [] | Some JNull \<Rightarrow> Some [] | Some (JStr s) \<Rightarrow> Some s | _ \<Rightarrow> None)"

definition member_string_ptr :: "(string \<times> json) list \<Rightarrow> string \<Rightarrow> string option option" where
  "member_string_ptr fs k =
     (case map_of fs k of
        None \<Rightarrow> Some None | Some JNull \<Rightarrow> Some None | Some (JStr s) \<Rightarrow> Some (Some s) | _ \<Rightarrow> None)"

definition member_time :: "(string \<times> json) list \<Rightarrow> string \<Rightarrow> gotime option" where
  "member_time fs k =
     (case map_of fs k of
        None \<Rightarrow> Some 0 | Some JNull \<Rightarrow> Some 0 | Some (JTime t) \<Rightarrow> Some t | _ \<Rightarrow> None)"

definition member_int32 :: "(string \<times> json) list \<Rightarrow> string \<Rightarrow> int32 option" where
  "member_int32 fs k =
     (case map_of fs k of
        None \<Rightarrow> Some 0 | Some JNull \<Rightarrow> Some 0
      | Some (JNum r) \<Rightarrow>
          (if r = of_int \<lfloor>r\<rfloor> \<and> - (2 ^ 31) \<le> \<lfloor>r\<rfloor> \<and> \<lfloor>r\<rfloor> < 2 ^ 31 then Some (word_of_int \<lfloor>r\<rfloor>) else None)
      | _ \<Rightarrow> None)"

lemmas member_defs = member_string_def member_string_ptr_def member_time_def member_int32_def

fun decode_all :: "('a \<Rightarrow> 'b option) \<Rightarrow> 'a list \<Rightarrow> 'b list option" where
  "decode_all f [] = Some []"
| "decode_all f (x # xs) =
     (case f x of None \<Rightarrow> None
      | Some y \<Rightarrow> (case decode_all f xs of None \<Rightarrow> None | Some ys \<Rightarrow> Some (y # ys)))"

lemma decode_all_map: "(\<And>x. f (g x) = Some (h x)) \<Longrightarrow> decode_all f (map g xs) = Some (map h xs)"
  by (induction xs) auto

text \<open>Into a slice: null is the nil slice, an array decodes element by element.\<close>

definition decode_slice :: "(json \<Rightarrow> 'a option) \<Rightarrow> jsonb \<Rightarrow> 'a list option" where
  "decode_slice f b =
     (case Unmarshal b of
        Some (JArr xs) \<Rightarrow> decode_all f xs | Some JNull \<Rightarrow> Some [] | _ \<Rightarrow> None)"

end
