(* ===== verification/Errors.thy ===== *)
theory Errors
  imports Prelude
begin

text \<open>
  \<open>pkg/errors/errors.go\<close>: the service errors of the API, their codes and HTTP status codes,
  and their RFC 9457 problem documents; and the part of \<open>fmt.Sprintf\<close> the error texts use.
\<close>

section \<open>fmt.Sprintf\<close>

datatype fmt_arg = FS string | FD int

fun fmt_plain :: "fmt_arg \<Rightarrow> string" where
  "fmt_plain (FS s) = s"
| "fmt_plain (FD i) = int_text i"

fun fmt_quoted :: "fmt_arg \<Rightarrow> string" where
  "fmt_quoted (FS s) = go_quote s"
| "fmt_quoted (FD i) = int_text i"

text \<open>Verbs \<open>%s\<close>, \<open>%d\<close>, \<open>%v\<close> and \<open>%q\<close>; a verb with no argument left prints \<open>MISSING\<close>.\<close>

fun Sprintf :: "string \<Rightarrow> fmt_arg list \<Rightarrow> string" where
  "Sprintf (c # v # f) args =
     (if c = CHR ''%'' then
        (case args of
           [] \<Rightarrow> ''%!'' @ [v] @ ''(MISSING)'' @ Sprintf f []
         | a # as \<Rightarrow> (if v = CHR ''q'' then fmt_quoted a else fmt_plain a) @ Sprintf f as)
      else c # Sprintf (v # f) args)"
| "Sprintf f args = f"

declare Sprintf.simps [simp del]

section \<open>Error types, codes and definitions\<close>

definition ErrorTypeBase :: string where
  "ErrorTypeBase = ''https://api.hyperfleet.io/errors/''"

definition ErrorTypeValidation :: string where "ErrorTypeValidation = ErrorTypeBase @ ''validation-error''"
definition ErrorTypeAuth :: string where "ErrorTypeAuth = ErrorTypeBase @ ''authentication-error''"
definition ErrorTypePermissionDenied :: string where "ErrorTypePermissionDenied = ErrorTypeBase @ ''permission-denied''"
definition ErrorTypeNotFound :: string where "ErrorTypeNotFound = ErrorTypeBase @ ''not-found''"
definition ErrorTypeConflict :: string where "ErrorTypeConflict = ErrorTypeBase @ ''conflict''"
definition ErrorTypeRateLimit :: string where "ErrorTypeRateLimit = ErrorTypeBase @ ''rate-limit''"
definition ErrorTypeInternal :: string where "ErrorTypeInternal = ErrorTypeBase @ ''internal-error''"
definition ErrorTypeService :: string where "ErrorTypeService = ErrorTypeBase @ ''service-unavailable''"
definition ErrorTypeBadRequest :: string where "ErrorTypeBadRequest = ErrorTypeBase @ ''bad-request''"
definition ErrorTypeMalformed :: string where "ErrorTypeMalformed = ErrorTypeBase @ ''malformed-request''"
definition ErrorTypeNotImpl :: string where "ErrorTypeNotImpl = ErrorTypeBase @ ''not-implemented''"

lemmas error_type_defs = ErrorTypeBase_def ErrorTypeValidation_def ErrorTypeAuth_def
  ErrorTypePermissionDenied_def ErrorTypeNotFound_def ErrorTypeConflict_def ErrorTypeRateLimit_def
  ErrorTypeInternal_def ErrorTypeService_def ErrorTypeBadRequest_def ErrorTypeMalformed_def
  ErrorTypeNotImpl_def

text \<open>The codes, in the order of the source.\<close>

datatype error_code =
    CodeValidationMultiple | CodeValidationRequired | CodeValidationInvalid
  | CodeValidationFormat | CodeValidationRange
  | CodeAuthNoCredentials | CodeAuthInvalidCredentials | CodeAuthExpiredToken
  | CodeAuthzPermissionDenied
  | CodeNotFoundEndpoint | CodeNotFoundGeneric | CodeNotFoundCluster | CodeNotFoundNodePool
  | CodeConflictExists | CodeConflictVersion | CodeConflictState
  | CodeRateLimitExceeded
  | CodeInternalGeneral | CodeInternalDatabase
  | CodeServiceUnavailable | CodeServiceTimeout
  | CodeBadRequest | CodeMalformedBody | CodeSearchParseFail | CodeNotImplemented
  | CodeOther string

fun code_text :: "error_code \<Rightarrow> string" where
  "code_text CodeValidationMultiple = ''HYPERFLEET-VAL-000''"
| "code_text CodeValidationRequired = ''HYPERFLEET-VAL-001''"
| "code_text CodeValidationInvalid = ''HYPERFLEET-VAL-002''"
| "code_text CodeValidationFormat = ''HYPERFLEET-VAL-003''"
| "code_text CodeValidationRange = ''HYPERFLEET-VAL-004''"
| "code_text CodeAuthNoCredentials = ''HYPERFLEET-AUT-001''"
| "code_text CodeAuthInvalidCredentials = ''HYPERFLEET-AUT-002''"
| "code_text CodeAuthExpiredToken = ''HYPERFLEET-AUT-003''"
| "code_text CodeAuthzPermissionDenied = ''HYPERFLEET-AUZ-001''"
| "code_text CodeNotFoundEndpoint = ''HYPERFLEET-NTF-000''"
| "code_text CodeNotFoundGeneric = ''HYPERFLEET-NTF-001''"
| "code_text CodeNotFoundCluster = ''HYPERFLEET-NTF-002''"
| "code_text CodeNotFoundNodePool = ''HYPERFLEET-NTF-003''"
| "code_text CodeConflictExists = ''HYPERFLEET-CNF-001''"
| "code_text CodeConflictVersion = ''HYPERFLEET-CNF-002''"
| "code_text CodeConflictState = ''HYPERFLEET-CNF-003''"
| "code_text CodeRateLimitExceeded = ''HYPERFLEET-LMT-001''"
| "code_text CodeInternalGeneral = ''HYPERFLEET-INT-001''"
| "code_text CodeInternalDatabase = ''HYPERFLEET-INT-002''"
| "code_text CodeServiceUnavailable = ''HYPERFLEET-SVC-001''"
| "code_text CodeServiceTimeout = ''HYPERFLEET-SVC-002''"
| "code_text CodeBadRequest = ''HYPERFLEET-VAL-005''"
| "code_text CodeMalformedBody = ''HYPERFLEET-VAL-006''"
| "code_text CodeSearchParseFail = ''HYPERFLEET-VAL-007''"
| "code_text CodeNotImplemented = ''HYPERFLEET-INT-003''"
| "code_text (CodeOther s) = s"

record validation_detail =
  vd_Field :: string
  vd_Value :: string
  vd_Constraint :: string
  vd_Message :: string

record service_error =
  se_RFC9457Code :: error_code
  se_Type :: string
  se_Title :: string
  se_Reason :: string
  se_Details :: "validation_detail list"
  se_HTTPCode :: nat

record error_definition =
  def_Type :: string
  def_Title :: string
  def_Reason :: string
  def_HTTPCode :: nat

text \<open>The \<open>errorDefinitions\<close> table; a code that is not a key of the map has none.\<close>

fun errorDefinitions :: "error_code \<Rightarrow> error_definition option" where
  "errorDefinitions CodeAuthNoCredentials = Some \<lparr>def_Type = ErrorTypeAuth, def_Title = ''Authentication Required'',
     def_Reason = ''Account authentication could not be verified'', def_HTTPCode = 401\<rparr>"
| "errorDefinitions CodeAuthInvalidCredentials = Some \<lparr>def_Type = ErrorTypeAuth, def_Title = ''Invalid Credentials'',
     def_Reason = ''The provided credentials are invalid'', def_HTTPCode = 401\<rparr>"
| "errorDefinitions CodeAuthExpiredToken = Some \<lparr>def_Type = ErrorTypeAuth, def_Title = ''Invalid Token'',
     def_Reason = ''Invalid token provided'', def_HTTPCode = 401\<rparr>"
| "errorDefinitions CodeAuthzPermissionDenied = Some \<lparr>def_Type = ErrorTypePermissionDenied, def_Title = ''Permission Denied'',
     def_Reason = ''The caller's tenant identity does not grant access to this resource'', def_HTTPCode = 403\<rparr>"
| "errorDefinitions CodeValidationMultiple = Some \<lparr>def_Type = ErrorTypeValidation, def_Title = ''Validation Failed'',
     def_Reason = ''Multiple validation errors occurred'', def_HTTPCode = 400\<rparr>"
| "errorDefinitions CodeValidationRequired = Some \<lparr>def_Type = ErrorTypeValidation, def_Title = ''Required Field Missing'',
     def_Reason = ''A required field is missing'', def_HTTPCode = 400\<rparr>"
| "errorDefinitions CodeValidationInvalid = Some \<lparr>def_Type = ErrorTypeValidation, def_Title = ''Invalid Value'',
     def_Reason = ''The provided value is invalid'', def_HTTPCode = 400\<rparr>"
| "errorDefinitions CodeValidationFormat = Some \<lparr>def_Type = ErrorTypeValidation, def_Title = ''Invalid Format'',
     def_Reason = ''The provided value has an invalid format'', def_HTTPCode = 400\<rparr>"
| "errorDefinitions CodeValidationRange = Some \<lparr>def_Type = ErrorTypeValidation, def_Title = ''Value Out of Range'',
     def_Reason = ''The provided value is out of the allowed range'', def_HTTPCode = 400\<rparr>"
| "errorDefinitions CodeBadRequest = Some \<lparr>def_Type = ErrorTypeBadRequest, def_Title = ''Bad Request'',
     def_Reason = ''Bad request'', def_HTTPCode = 400\<rparr>"
| "errorDefinitions CodeMalformedBody = Some \<lparr>def_Type = ErrorTypeMalformed, def_Title = ''Malformed Request'',
     def_Reason = ''Unable to read request body'', def_HTTPCode = 400\<rparr>"
| "errorDefinitions CodeSearchParseFail = Some \<lparr>def_Type = ErrorTypeValidation, def_Title = ''Invalid Search Query'',
     def_Reason = ''Failed to parse search query'', def_HTTPCode = 400\<rparr>"
| "errorDefinitions CodeNotFoundEndpoint = Some \<lparr>def_Type = ErrorTypeNotFound, def_Title = ''Endpoint Not Found'',
     def_Reason = ''The requested endpoint does not exist'', def_HTTPCode = 404\<rparr>"
| "errorDefinitions CodeNotFoundGeneric = Some \<lparr>def_Type = ErrorTypeNotFound, def_Title = ''Resource Not Found'',
     def_Reason = ''Resource not found'', def_HTTPCode = 404\<rparr>"
| "errorDefinitions CodeNotFoundCluster = Some \<lparr>def_Type = ErrorTypeNotFound, def_Title = ''Cluster Not Found'',
     def_Reason = ''The specified cluster was not found'', def_HTTPCode = 404\<rparr>"
| "errorDefinitions CodeNotFoundNodePool = Some \<lparr>def_Type = ErrorTypeNotFound, def_Title = ''NodePool Not Found'',
     def_Reason = ''The specified node pool was not found'', def_HTTPCode = 404\<rparr>"
| "errorDefinitions CodeConflictExists = Some \<lparr>def_Type = ErrorTypeConflict, def_Title = ''Resource Conflict'',
     def_Reason = ''An entity with the specified unique values already exists'', def_HTTPCode = 409\<rparr>"
| "errorDefinitions CodeConflictVersion = Some \<lparr>def_Type = ErrorTypeConflict, def_Title = ''Version Conflict'',
     def_Reason = ''The resource version does not match'', def_HTTPCode = 409\<rparr>"
| "errorDefinitions CodeConflictState = Some \<lparr>def_Type = ErrorTypeConflict, def_Title = ''State Conflict'',
     def_Reason = ''Operation not allowed in current state'', def_HTTPCode = 409\<rparr>"
| "errorDefinitions CodeRateLimitExceeded = Some \<lparr>def_Type = ErrorTypeRateLimit, def_Title = ''Rate Limit Exceeded'',
     def_Reason = ''Too many requests, please try again later'', def_HTTPCode = 429\<rparr>"
| "errorDefinitions CodeInternalGeneral = Some \<lparr>def_Type = ErrorTypeInternal, def_Title = ''Internal Server Error'',
     def_Reason = ''Unspecified error'', def_HTTPCode = 500\<rparr>"
| "errorDefinitions CodeInternalDatabase = Some \<lparr>def_Type = ErrorTypeInternal, def_Title = ''Database Error'',
     def_Reason = ''A database error occurred'', def_HTTPCode = 500\<rparr>"
| "errorDefinitions CodeNotImplemented = Some \<lparr>def_Type = ErrorTypeNotImpl, def_Title = ''Not Implemented'',
     def_Reason = ''Functionality not implemented'', def_HTTPCode = 501\<rparr>"
| "errorDefinitions CodeServiceUnavailable = Some \<lparr>def_Type = ErrorTypeService, def_Title = ''Service Unavailable'',
     def_Reason = ''The service is temporarily unavailable'', def_HTTPCode = 503\<rparr>"
| "errorDefinitions CodeServiceTimeout = Some \<lparr>def_Type = ErrorTypeService, def_Title = ''Service Timeout'',
     def_Reason = ''The service request timed out'', def_HTTPCode = 504\<rparr>"
| "errorDefinitions (CodeOther s) = None"

section \<open>Find, New and the constructors\<close>

definition Find :: "error_code \<Rightarrow> service_error option" where
  "Find code = (case errorDefinitions code of
     None \<Rightarrow> None
   | Some d \<Rightarrow> Some \<lparr>se_RFC9457Code = code, se_Type = def_Type d, se_Title = def_Title d,
                     se_Reason = def_Reason d, se_Details = [], se_HTTPCode = def_HTTPCode d\<rparr>)"

text \<open>\<open>New\<close>: an undefined code becomes the internal error; a non-empty reason replaces the default.\<close>

definition New :: "error_code \<Rightarrow> string \<Rightarrow> fmt_arg list \<Rightarrow> service_error" where
  "New code reason values =
     (let err = (case Find code of
            Some e \<Rightarrow> e
          | None \<Rightarrow> \<lparr>se_RFC9457Code = CodeInternalGeneral, se_Type = ErrorTypeInternal,
                     se_Title = ''Internal Server Error'', se_Reason = ''Unspecified error'',
                     se_Details = [], se_HTTPCode = 500\<rparr>)
      in if reason \<noteq> []
         then err\<lparr>se_Reason := if values \<noteq> [] then Sprintf reason values else reason\<rparr>
         else err)"

definition Error_text :: "service_error \<Rightarrow> string" where
  "Error_text e = Sprintf ''%s: %s'' [FS (code_text (se_RFC9457Code e)), FS (se_Reason e)]"

definition Is404 :: "service_error \<Rightarrow> bool" where
  "Is404 e \<longleftrightarrow> se_Type e = ErrorTypeNotFound"

definition IsConflict :: "service_error \<Rightarrow> bool" where
  "IsConflict e \<longleftrightarrow> se_Type e = ErrorTypeConflict"

definition NotFound :: "string \<Rightarrow> fmt_arg list \<Rightarrow> service_error" where "NotFound = New CodeNotFoundGeneric"
definition GeneralError :: "string \<Rightarrow> fmt_arg list \<Rightarrow> service_error" where "GeneralError = New CodeInternalGeneral"
definition Unauthenticated :: "string \<Rightarrow> fmt_arg list \<Rightarrow> service_error" where "Unauthenticated = New CodeAuthNoCredentials"
definition NotImplemented :: "string \<Rightarrow> fmt_arg list \<Rightarrow> service_error" where "NotImplemented = New CodeNotImplemented"
definition Conflict :: "string \<Rightarrow> fmt_arg list \<Rightarrow> service_error" where "Conflict = New CodeConflictExists"
definition ConflictState :: "string \<Rightarrow> fmt_arg list \<Rightarrow> service_error" where "ConflictState = New CodeConflictState"
definition Validation :: "string \<Rightarrow> fmt_arg list \<Rightarrow> service_error" where "Validation = New CodeValidationMultiple"
definition ValidationWithDetails :: "string \<Rightarrow> validation_detail list \<Rightarrow> service_error" where
  "ValidationWithDetails reason details =
     (New CodeValidationMultiple ''%s'' [FS reason])\<lparr>se_Details := details\<rparr>"
definition MalformedRequest :: "string \<Rightarrow> fmt_arg list \<Rightarrow> service_error" where "MalformedRequest = New CodeMalformedBody"
definition BadRequest :: "string \<Rightarrow> fmt_arg list \<Rightarrow> service_error" where "BadRequest = New CodeBadRequest"
definition FailedToParseSearch :: "string \<Rightarrow> fmt_arg list \<Rightarrow> service_error" where
  "FailedToParseSearch reason = New CodeSearchParseFail (Sprintf ''Failed to parse search query: %s'' [FS reason])"
definition DatabaseAdvisoryLock :: service_error where
  "DatabaseAdvisoryLock = New CodeInternalDatabase ''internal database error'' []"
definition ServiceUnavailable :: "string \<Rightarrow> fmt_arg list \<Rightarrow> service_error" where "ServiceUnavailable = New CodeServiceUnavailable"
definition InvalidToken :: "string \<Rightarrow> fmt_arg list \<Rightarrow> service_error" where "InvalidToken = New CodeAuthExpiredToken"
definition Forbidden :: "string \<Rightarrow> fmt_arg list \<Rightarrow> service_error" where "Forbidden = New CodeAuthzPermissionDenied"

lemmas constructor_defs = NotFound_def GeneralError_def Unauthenticated_def NotImplemented_def
  Conflict_def ConflictState_def Validation_def ValidationWithDetails_def MalformedRequest_def
  BadRequest_def FailedToParseSearch_def DatabaseAdvisoryLock_def ServiceUnavailable_def
  InvalidToken_def Forbidden_def

section \<open>Problem documents\<close>

record validation_problem =
  vp_Field :: string
  vp_Message :: string
  vp_Value :: string
  vp_Constraint :: "string option"

record problem_details =
  pd_Type :: string
  pd_Title :: string
  pd_Status :: nat
  pd_Detail :: string
  pd_Code :: string
  pd_Timestamp :: gotime
  pd_Instance :: "string option"
  pd_TraceId :: "string option"
  pd_Errors :: "validation_problem list option"

definition validConstraints :: "string list" where
  "validConstraints = [''required'', ''min'', ''max'', ''min_length'', ''max_length'', ''pattern'',
     ''enum'', ''format'', ''unique'']"

definition isValidConstraint :: "string \<Rightarrow> bool" where
  "isValidConstraint c \<longleftrightarrow> List.member validConstraints c"

definition problem_of_detail :: "validation_detail \<Rightarrow> validation_problem" where
  "problem_of_detail d = \<lparr>vp_Field = vd_Field d, vp_Message = vd_Message d, vp_Value = vd_Value d,
     vp_Constraint = (if vd_Constraint d \<noteq> [] \<and> isValidConstraint (vd_Constraint d)
                      then Some (vd_Constraint d) else None)\<rparr>"

definition AsProblemDetails :: "gotime \<Rightarrow> service_error \<Rightarrow> string \<Rightarrow> string \<Rightarrow> problem_details" where
  "AsProblemDetails now e inst traceID =
     \<lparr>pd_Type = se_Type e, pd_Title = se_Title e, pd_Status = se_HTTPCode e, pd_Detail = se_Reason e,
      pd_Code = code_text (se_RFC9457Code e), pd_Timestamp = now,
      pd_Instance = (if inst \<noteq> [] then Some inst else None),
      pd_TraceId = (if traceID \<noteq> [] then Some traceID else None),
      pd_Errors = (if se_Details e \<noteq> [] then Some (map problem_of_detail (se_Details e)) else None)\<rparr>"

section \<open>Facts\<close>

lemma New_HTTPCode: "se_HTTPCode (New c r vs) = (case errorDefinitions c of None \<Rightarrow> 500 | Some d \<Rightarrow> def_HTTPCode d)"
  by (simp add: New_def Find_def Let_def split: option.splits)

lemma New_Type: "se_Type (New c r vs) = (case errorDefinitions c of None \<Rightarrow> ErrorTypeInternal | Some d \<Rightarrow> def_Type d)"
  by (simp add: New_def Find_def Let_def split: option.splits)

lemma New_Code: "se_RFC9457Code (New c r vs) = (if errorDefinitions c = None then CodeInternalGeneral else c)"
  by (simp add: New_def Find_def Let_def split: option.splits)

lemma New_Reason: "r \<noteq> [] \<Longrightarrow> se_Reason (New c r []) = r"
  by (simp add: New_def Let_def)

lemma New_Details: "se_Details (New c r vs) = []"
  by (simp add: New_def Find_def Let_def split: option.splits)

lemma definition_status: "errorDefinitions c = Some d \<Longrightarrow> 400 \<le> def_HTTPCode d \<and> def_HTTPCode d < 600"
  by (cases c) auto

lemma New_status: "400 \<le> se_HTTPCode (New c r vs) \<and> se_HTTPCode (New c r vs) < 600"
  using definition_status [of c] by (auto simp: New_HTTPCode split: option.splits)

lemma constructor_codes [simp]:
  "se_HTTPCode (NotFound r vs) = 404" "se_HTTPCode (GeneralError r vs) = 500"
  "se_HTTPCode (Conflict r vs) = 409" "se_HTTPCode (ConflictState r vs) = 409"
  "se_HTTPCode (Validation r vs) = 400" "se_HTTPCode (BadRequest r vs) = 400"
  "se_HTTPCode (ServiceUnavailable r vs) = 503" "se_HTTPCode (Forbidden r vs) = 403"
  "se_HTTPCode (ValidationWithDetails r ds) = 400" "se_HTTPCode (MalformedRequest r vs) = 400"
  by (simp_all add: constructor_defs New_HTTPCode)

lemma type_conflict_iff:
  "errorDefinitions c = Some d \<Longrightarrow> def_Type d = ErrorTypeConflict \<longleftrightarrow> def_HTTPCode d = 409"
  by (cases c) (auto simp: error_type_defs)

lemma type_not_found_iff:
  "errorDefinitions c = Some d \<Longrightarrow> def_Type d = ErrorTypeNotFound \<longleftrightarrow> def_HTTPCode d = 404"
  by (cases c) (auto simp: error_type_defs)

end
