(* ===== verification/Auth.thy ===== *)
theory Auth
  imports Json Errors
begin

text \<open>
  Authentication and caller identity: \<open>pkg/auth\<close> (\<open>jwt_handler.go\<close>, \<open>context.go\<close>, \<open>identity.go\<close>,
  \<open>auth_middleware.go\<close>) and the header-name checks of \<open>pkg/validation\<close>.  The token parser (the
  JWT library with its keys) and the compiled identity pattern are parameters: a parser maps a
  raw token to an error or to a token.  A middleware is a function from a request to either the
  error response it writes or the request it passes on.
\<close>

section \<open>Requests and their context\<close>

text \<open>\<open>jwt.Token\<close>: its claims are a \<open>MapClaims\<close> or a value of another type (its \<open>%T\<close> name).\<close>

datatype jwt_token = MapClaims "(string \<times> json) list" | OtherClaims string

record jwt_issuer_config =
  ji_CompiledPattern :: "(string \<Rightarrow> bool) option"
  ji_IssuerURL :: string
  ji_JWKCertURL :: string
  ji_JWKCertFile :: string
  ji_JWKCertCAFile :: string
  ji_Header :: string
  ji_IdentityHeader :: string
  ji_Audience :: string
  ji_IdentityClaim :: string
  ji_IdentityClaimPattern :: string

record resolved_tenant =
  rt_Dimensions :: "(string \<times> string) list"
  rt_System :: bool

text \<open>The values the middlewares attach to a request's context.\<close>

record req_context =
  cx_Username :: "string option"
  cx_Token :: "jwt_token option"
  cx_Issuer :: "jwt_issuer_config option"
  cx_Tenant :: "resolved_tenant option"

definition Background :: req_context where
  "Background = \<lparr>cx_Username = None, cx_Token = None, cx_Issuer = None, cx_Tenant = None\<rparr>"

text \<open>A request: the header map is keyed by canonical names, as \<open>net/http\<close> builds it.\<close>

record http_request =
  rq_Method :: string
  rq_Path :: string
  rq_Header :: "(string \<times> string list) list"
  rq_Context :: req_context

text \<open>\<open>http.CanonicalHeaderKey\<close>: capitals after the start and each dash; a name with a byte that is
  not a token byte is returned as it is.\<close>

definition is_tchar :: "char \<Rightarrow> bool" where
  "is_tchar c \<longleftrightarrow> is_alpha c \<or> is_digit c \<or>
     List.member [33, 35, 36, 37, 38, 39, 42, 43, 45, 46, 94, 95, 96, 124, 126] (of_char c :: nat)"

fun canonical_bytes :: "bool \<Rightarrow> string \<Rightarrow> string" where
  "canonical_bytes upper [] = []"
| "canonical_bytes upper (c # s) =
     (if upper then to_upper c else to_lower c) # canonical_bytes (c = CHR ''-'') s"

definition CanonicalHeaderKey :: "string \<Rightarrow> string" where
  "CanonicalHeaderKey s = (if list_all is_tchar s then canonical_bytes True s else s)"

definition Header_Get :: "http_request \<Rightarrow> string \<Rightarrow> string" where
  "Header_Get r name =
     (case map_of (rq_Header r) (CanonicalHeaderKey name) of Some (v # vs) \<Rightarrow> v | _ \<Rightarrow> [])"

section \<open>\<open>pkg/validation\<close>\<close>

definition forbiddenIdentityHeaderNames :: "string list" where
  "forbiddenIdentityHeaderNames = [''Authorization'', ''Cookie'', ''Set-Cookie'', ''X-Api-Key'',
     ''X-Auth-Token'', ''X-Forwarded-Authorization'', ''Proxy-Authorization'']"

definition IsForbiddenIdentityHeaderName :: "string \<Rightarrow> bool" where
  "IsForbiddenIdentityHeaderName name = List.member forbiddenIdentityHeaderNames (CanonicalHeaderKey name)"

definition IsForbiddenJWTSourceHeaderName :: "string \<Rightarrow> bool" where
  "IsForbiddenJWTSourceHeaderName name = List.member [''Cookie'', ''Set-Cookie''] (CanonicalHeaderKey name)"

definition IsValidHeaderName :: "string \<Rightarrow> bool" where
  "IsValidHeaderName name \<longleftrightarrow> name \<noteq> [] \<and> list_all is_tchar name"

section \<open>\<open>context.go\<close>\<close>

definition SetUsernameContext :: "req_context \<Rightarrow> string \<Rightarrow> req_context" where
  "SetUsernameContext cx u = cx\<lparr>cx_Username := Some u\<rparr>"

definition GetUsernameFromContext :: "req_context \<Rightarrow> string" where
  "GetUsernameFromContext cx = (case cx_Username cx of None \<Rightarrow> [] | Some u \<Rightarrow> u)"

definition string_of_claim :: "(string \<times> json) list \<Rightarrow> string \<Rightarrow> string option" where
  "string_of_claim claims k = (case map_of claims k of Some (JStr s) \<Rightarrow> Some s | _ \<Rightarrow> None)"

definition stringClaim :: "(string \<times> json) list \<Rightarrow> string \<Rightarrow> string option" where
  "stringClaim claims key =
     (case string_of_claim claims key of Some s \<Rightarrow> if s \<noteq> [] then Some s else None | None \<Rightarrow> None)"

record payload =
  pl_Username :: string
  pl_FirstName :: string
  pl_LastName :: string
  pl_Email :: string
  pl_Issuer :: string
  pl_ClientID :: string

text \<open>\<open>if v, ok := claims[k].(string); ok { field = v }\<close>\<close>

definition claim_or :: "(string \<times> json) list \<Rightarrow> string \<Rightarrow> string \<Rightarrow> string" where
  "claim_or claims k old = (case string_of_claim claims k of Some s \<Rightarrow> s | None \<Rightarrow> old)"

definition split_name :: "(string \<times> json) list \<Rightarrow> string \<times> string \<Rightarrow> string \<times> string" where
  "split_name claims fl =
     (case string_of_claim claims ''name'' of
        None \<Rightarrow> fl
      | Some name \<Rightarrow>
          (case Split (CHR '' '') name of
             f # l # rest \<Rightarrow> (f, l) | [f] \<Rightarrow> (f, snd fl) | [] \<Rightarrow> fl))"

definition GetAuthPayloadFromContext :: "req_context \<Rightarrow> string + payload" where
  "GetAuthPayloadFromContext cx =
     (case cx_Token cx of
        None \<Rightarrow> Inl ''JWT token in context is nil, unauthorized''
      | Some (OtherClaims ty) \<Rightarrow> Inl (Sprintf ''unable to parse JWT token claims: unexpected type %T'' [FS ty])
      | Some (MapClaims claims) \<Rightarrow>
          (let username = claim_or claims ''username'' [];
               username = (if username = [] then claim_or claims ''preferred_username'' username else username);
               first = claim_or claims ''first_name'' [];
               last = claim_or claims ''last_name'' [];
               first = (if first = [] then claim_or claims ''given_name'' first else first);
               last = (if last = [] then claim_or claims ''family_name'' last else last);
               (first, last) = (if first = [] \<or> last = [] then split_name claims (first, last) else (first, last))
           in Inr \<lparr>pl_Username = username, pl_FirstName = first, pl_LastName = last,
                   pl_Email = claim_or claims ''email'' [], pl_Issuer = claim_or claims ''iss'' [],
                   pl_ClientID = claim_or claims ''clientId'' []\<rparr>))"

definition DefaultJWTIdentityClaim :: string where "DefaultJWTIdentityClaim = ''email''"

definition payload_identity :: "string \<Rightarrow> payload \<Rightarrow> string" where
  "payload_identity claim p =
     (if claim = ''email'' then pl_Email p
      else if claim = ''username'' \<or> claim = ''preferred_username'' then pl_Username p
      else if claim = ''first_name'' \<or> claim = ''given_name'' then pl_FirstName p
      else if claim = ''last_name'' \<or> claim = ''family_name'' then pl_LastName p
      else if claim = ''clientId'' then pl_ClientID p
      else if claim = ''iss'' then pl_Issuer p
      else [])"

definition GetIdentityFromContext :: "req_context \<Rightarrow> string \<Rightarrow> string + string" where
  "GetIdentityFromContext cx claim0 =
     (let identityClaim = (if claim0 = [] then DefaultJWTIdentityClaim else claim0) in
      case cx_Token cx of
        None \<Rightarrow> Inl ''JWT token in context is nil, unauthorized''
      | Some (OtherClaims ty) \<Rightarrow> Inl (Sprintf ''unable to parse JWT token claims: unexpected type %T'' [FS ty])
      | Some (MapClaims claims) \<Rightarrow>
          (case stringClaim claims identityClaim of
             Some identity \<Rightarrow> Inr identity
           | None \<Rightarrow>
               (case GetAuthPayloadFromContext cx of
                  Inl err \<Rightarrow> Inl (Sprintf ''identity claim %q not found: %w'' [FS identityClaim, FS err])
                | Inr p \<Rightarrow>
                    if payload_identity identityClaim p \<noteq> [] then Inr (payload_identity identityClaim p)
                    else Inl (Sprintf ''identity claim %q not found or empty'' [FS identityClaim]))))"

definition GetClaimFromContext :: "req_context \<Rightarrow> string \<Rightarrow> string option" where
  "GetClaimFromContext cx claim =
     (case cx_Token cx of Some (MapClaims claims) \<Rightarrow> stringClaim claims claim | _ \<Rightarrow> None)"

definition ClaimUnusableInContext :: "req_context \<Rightarrow> string \<Rightarrow> bool" where
  "ClaimUnusableInContext cx claim =
     (case cx_Token cx of
        Some (MapClaims claims) \<Rightarrow>
          (case map_of claims claim of None \<Rightarrow> False | Some (JStr s) \<Rightarrow> False | Some v \<Rightarrow> True)
      | _ \<Rightarrow> False)"

section \<open>\<open>identity.go\<close> and \<open>auth_middleware.go\<close>\<close>

definition maxCallerIdentityLen :: nat where "maxCallerIdentityLen = 256"

definition control_byte :: "char \<Rightarrow> bool" where
  "control_byte c \<longleftrightarrow> (of_char c :: nat) < 32 \<or> (of_char c :: nat) = 127"

definition normalizeIdentity :: "string \<Rightarrow> string \<Rightarrow> string + string" where
  "normalizeIdentity raw source =
     (let v = TrimSpace raw in
      if v = [] then Inr []
      else if length v > maxCallerIdentityLen then
        Inl (Sprintf ''%s value exceeds maximum length %d'' [FS source, FD (int maxCallerIdentityLen)])
      else if list_ex control_byte v then Inl (Sprintf ''%s value contains invalid characters'' [FS source])
      else Inr v)"

definition matchIdentityPattern :: "string \<Rightarrow> string \<Rightarrow> jwt_issuer_config \<Rightarrow> string option" where
  "matchIdentityPattern identity source cfg =
     (case ji_CompiledPattern cfg of
        Some matches \<Rightarrow> if \<not> matches identity then Some (Sprintf ''%s does not match required pattern'' [FS source]) else None
      | None \<Rightarrow> None)"

definition identity_from_claim :: "req_context \<Rightarrow> jwt_issuer_config \<Rightarrow> string + string" where
  "identity_from_claim cx cfg =
     (if ji_IdentityClaim cfg = [] then Inr []
      else case GetIdentityFromContext cx (ji_IdentityClaim cfg) of
             Inl err \<Rightarrow> Inl err
           | Inr raw \<Rightarrow>
               (case normalizeIdentity raw (Sprintf ''JWT claim %q'' [FS (ji_IdentityClaim cfg)]) of
                  Inl err \<Rightarrow> Inl err
                | Inr identity \<Rightarrow>
                    if identity \<noteq> [] then
                      (case matchIdentityPattern identity ''identity claim value'' cfg of
                         Some err \<Rightarrow> Inl err | None \<Rightarrow> Inr identity)
                    else Inr identity))"

definition CallerIdentityFromRequest :: "http_request \<Rightarrow> string + string" where
  "CallerIdentityFromRequest r =
     (case cx_Issuer (rq_Context r) of
        None \<Rightarrow> Inr []
      | Some cfg \<Rightarrow>
          if ji_IdentityHeader cfg \<noteq> [] then
            (case normalizeIdentity (Header_Get r (ji_IdentityHeader cfg))
                    (Sprintf ''header %q'' [FS (ji_IdentityHeader cfg)]) of
               Inl err \<Rightarrow> Inl err
             | Inr identity \<Rightarrow>
                 if identity \<noteq> [] then
                   (case matchIdentityPattern identity ''identity header value'' cfg of
                      Some err \<Rightarrow> Inl err | None \<Rightarrow> Inr identity)
                 else identity_from_claim (rq_Context r) cfg)
          else identity_from_claim (rq_Context r) cfg)"

definition ShouldSkipCallerIdentity :: "string \<Rightarrow> bool" where
  "ShouldSkipCallerIdentity path \<longleftrightarrow>
     HasPrefix path ''/api/hyperfleet/v1/openapi'' \<or> HasPrefix path ''/api/hyperfleet/v1/errors''"

definition isMutatingMethod :: "string \<Rightarrow> bool" where
  "isMutatingMethod m \<longleftrightarrow> m = ''POST'' \<or> m = ''PATCH'' \<or> m = ''DELETE'' \<or> m = ''PUT''"

text \<open>\<open>handleError\<close> writes the problem document of this error.\<close>

definition handleAuthError :: "error_code \<Rightarrow> string \<Rightarrow> service_error" where
  "handleAuthError code reason = New code ''%s'' [FS reason]"

definition ResolveCallerIdentity :: "http_request \<Rightarrow> service_error + http_request" where
  "ResolveCallerIdentity r =
     (if ShouldSkipCallerIdentity (rq_Path r) then Inr r
      else case CallerIdentityFromRequest r of
             Inr (c # identity) \<Rightarrow> Inr (r\<lparr>rq_Context := SetUsernameContext (rq_Context r) (c # identity)\<rparr>)
           | Inr [] \<Rightarrow>
               if isMutatingMethod (rq_Method r) then
                 Inl (handleAuthError CodeAuthNoCredentials
                   ''Caller identity is required for mutating requests but could not be resolved'')
               else Inr r
           | Inl err \<Rightarrow>
               if isMutatingMethod (rq_Method r) then
                 Inl (handleAuthError CodeAuthNoCredentials
                   (Sprintf ''Unable to resolve caller identity: %s'' [FS err]))
               else Inr r)"

section \<open>\<open>jwt_handler.go\<close>\<close>

text \<open>The error of the JWT library: expired, or another one.\<close>

datatype jwt_error = TokenExpired | OtherJWTError string

record issuer_validator =
  iv_Parse :: "string \<Rightarrow> jwt_error + jwt_token"
  iv_Header :: string
  iv_Issuer :: jwt_issuer_config

fun fields_from :: "string \<Rightarrow> string \<Rightarrow> string list" where
  "fields_from acc [] = (if acc = [] then [] else [acc])"
| "fields_from acc (c # s) =
     (if is_space c then (if acc = [] then fields_from [] s else acc # fields_from [] s)
      else fields_from (acc @ [c]) s)"

text \<open>\<open>strings.Fields\<close>: the maximal runs of bytes that are not space.\<close>

definition Fields :: "string \<Rightarrow> string list" where
  "Fields s = fields_from [] s"

text \<open>The loop of \<open>matchValidator\<close>, with \<open>sawNonBearer\<close> and \<open>lastErr\<close>; \<open>Inr\<close> is the validated
  token.\<close>

fun matchValidator ::
  "issuer_validator list \<Rightarrow> http_request \<Rightarrow> bool \<Rightarrow> jwt_error option \<Rightarrow>
     (bool \<times> jwt_error option) + (jwt_token \<times> jwt_issuer_config)" where
  "matchValidator [] r sawNonBearer lastErr = Inl (sawNonBearer, lastErr)"
| "matchValidator (v # vs) r sawNonBearer lastErr =
     (let headerVal = Header_Get r (iv_Header v) in
      if headerVal = [] then matchValidator vs r sawNonBearer lastErr
      else case Fields headerVal of
             [scheme, raw] \<Rightarrow>
               if \<not> EqualFold scheme ''Bearer'' then matchValidator vs r True lastErr
               else (case iv_Parse v raw of
                       Inl err \<Rightarrow> matchValidator vs r sawNonBearer
                                    (if lastErr = Some TokenExpired then lastErr else Some err)
                     | Inr token \<Rightarrow> Inr (token, iv_Issuer v))
           | _ \<Rightarrow> matchValidator vs r True lastErr)"

definition JWT_Middleware :: "issuer_validator list \<Rightarrow> http_request \<Rightarrow> service_error + http_request" where
  "JWT_Middleware validators r =
     (case matchValidator validators r False None of
        Inr (token, cfg) \<Rightarrow>
          Inr (r\<lparr>rq_Context := (rq_Context r)\<lparr>cx_Token := Some token, cx_Issuer := Some cfg\<rparr>\<rparr>)
      | Inl (sawNonBearer, Some TokenExpired) \<Rightarrow> Inl (handleAuthError CodeAuthExpiredToken ''JWT token has expired'')
      | Inl (sawNonBearer, Some (OtherJWTError e)) \<Rightarrow> Inl (handleAuthError CodeAuthInvalidCredentials ''invalid JWT token'')
      | Inl (True, None) \<Rightarrow>
          Inl (handleAuthError CodeAuthInvalidCredentials ''authorization header does not use Bearer scheme'')
      | Inl (False, None) \<Rightarrow> Inl (handleAuthError CodeAuthNoCredentials ''missing authorization header''))"

section \<open>Facts\<close>

lemma normalizeIdentity_Inr:
  "normalizeIdentity raw src = Inr v \<Longrightarrow>
     v = TrimSpace raw \<and> length v \<le> maxCallerIdentityLen \<and> \<not> list_ex control_byte v"
  by (auto simp: normalizeIdentity_def Let_def maxCallerIdentityLen_def split: if_splits)

lemma matchIdentityPattern_None:
  "matchIdentityPattern v src cfg = None \<longleftrightarrow> (\<forall>matches. ji_CompiledPattern cfg = Some matches \<longrightarrow> matches v)"
  by (auto simp: matchIdentityPattern_def split: option.splits)

text \<open>An identity fit for the audit columns of the issuer that vouches for it.\<close>

definition identity_fit :: "jwt_issuer_config \<Rightarrow> string \<Rightarrow> bool" where
  "identity_fit cfg v \<longleftrightarrow>
     length v \<le> maxCallerIdentityLen \<and> \<not> list_ex control_byte v \<and>
     (\<forall>matches. ji_CompiledPattern cfg = Some matches \<longrightarrow> matches v)"

lemma identity_from_claim_fit:
  "identity_from_claim cx cfg = Inr v \<Longrightarrow> v \<noteq> [] \<Longrightarrow> identity_fit cfg v"
  by (auto simp: identity_from_claim_def identity_fit_def matchIdentityPattern_None
      split: if_splits sum.splits option.splits dest!: normalizeIdentity_Inr)

lemma CallerIdentity_fit:
  "CallerIdentityFromRequest r = Inr v \<Longrightarrow> v \<noteq> [] \<Longrightarrow>
     \<exists>cfg. cx_Issuer (rq_Context r) = Some cfg \<and> identity_fit cfg v"
  by (auto simp: CallerIdentityFromRequest_def identity_fit_def matchIdentityPattern_None
      split: if_splits sum.splits option.splits
      dest!: normalizeIdentity_Inr dest: identity_from_claim_fit [unfolded identity_fit_def])

text \<open>Which validator vouches for the token: the first that parses the bearer token of its header.\<close>

lemma matchValidator_Inr:
  "matchValidator vs r b e = Inr (token, cfg) \<Longrightarrow>
     \<exists>v\<in>set vs. iv_Issuer v = cfg \<and> (\<exists>scheme raw. Fields (Header_Get r (iv_Header v)) = [scheme, raw] \<and>
        EqualFold scheme ''Bearer'' \<and> iv_Parse v raw = Inr token)"
proof (induction vs arbitrary: b e)
  case (Cons v vs)
  let ?x = "Header_Get r (iv_Header v)"
  show ?case
  proof (cases "?x \<noteq> [] \<and> (\<exists>scheme raw t. Fields ?x = [scheme, raw] \<and> EqualFold scheme ''Bearer'' \<and> iv_Parse v raw = Inr t)")
    case True
    with Cons.prems show ?thesis by (auto simp: Let_def)
  next
    case False
    with Cons.prems obtain b' e' where "matchValidator vs r b' e' = Inr (token, cfg)"
      by (auto simp: Let_def split: if_splits list.splits sum.splits)
    from Cons.IH [OF this] show ?thesis by auto
  qed
qed simp

lemma ResolveCallerIdentity_fit:
  assumes "ResolveCallerIdentity r = Inr r'" "isMutatingMethod (rq_Method r)"
    and "\<not> ShouldSkipCallerIdentity (rq_Path r)"
  shows "GetUsernameFromContext (rq_Context r') \<noteq> [] \<and>
     (\<exists>cfg. cx_Issuer (rq_Context r) = Some cfg \<and> identity_fit cfg (GetUsernameFromContext (rq_Context r')))"
proof -
  from assms obtain c s where "CallerIdentityFromRequest r = Inr (c # s)"
      "r' = r\<lparr>rq_Context := SetUsernameContext (rq_Context r) (c # s)\<rparr>"
    by (auto simp: ResolveCallerIdentity_def split: sum.splits list.splits if_splits)
  with CallerIdentity_fit [of r "c # s"] show ?thesis
    by (simp add: GetUsernameFromContext_def SetUsernameContext_def)
qed


definition sample_request :: http_request where
  "sample_request = \<lparr>rq_Method = ''POST'', rq_Path = ''/api/hyperfleet/v1/clusters'',
     rq_Header = [(''X-Org'', [''acme'']), (''Authorization'', [''Bearer t0''])],
     rq_Context = Background\<lparr>cx_Token := Some (MapClaims [(''email'', JStr ''ann@acme''), (''org'', JStr ''acme'')]),
       cx_Issuer := Some \<lparr>ji_CompiledPattern = None, ji_IssuerURL = ''https://issuer'',
          ji_JWKCertURL = ''https://issuer/keys'', ji_JWKCertFile = [], ji_JWKCertCAFile = [], ji_Header = ''Authorization'',
          ji_IdentityHeader = [], ji_Audience = [],
          ji_IdentityClaim = ''email'', ji_IdentityClaimPattern = []\<rparr>\<rparr>\<rparr>"


text \<open>The JWT middleware lets a request through only with a token that one of the configured
  issuers accepted from the bearer credentials in that issuer's own header, and it attaches that
  token together with that issuer's configuration.\<close>

lemma JWT_Middleware_accepts:
  assumes "JWT_Middleware validators r = Inr r'"
  shows "\<exists>v\<in>set validators. \<exists>scheme raw token.
     Fields (Header_Get r (iv_Header v)) = [scheme, raw] \<and> EqualFold scheme ''Bearer'' \<and>
     iv_Parse v raw = Inr token \<and>
     cx_Token (rq_Context r') = Some token \<and> cx_Issuer (rq_Context r') = Some (iv_Issuer v)"
proof -
  from assms obtain token cfg where m: "matchValidator validators r False None = Inr (token, cfg)"
      and r': "r' = r\<lparr>rq_Context := (rq_Context r)\<lparr>cx_Token := Some token, cx_Issuer := Some cfg\<rparr>\<rparr>"
    by (auto simp: JWT_Middleware_def split: sum.splits option.splits jwt_error.splits bool.splits)
  from matchValidator_Inr [OF m] r' show ?thesis by fastforce
qed

end
