(* ===== verification/Tenant.thy ===== *)
theory Tenant
  imports Auth "HOL-Library.AList"
begin

text \<open>
  Tenant enforcement: \<open>pkg/tenant\<close> and the configuration it is driven by (\<open>pkg/config/tenant.go\<close>).
  A tenancy map is an association list in insertion order.  The SQL predicate a scope clause binds
  (\<open>tenancy @> ?\<close>, JSONB containment) is given its meaning for the arguments the code binds, maps
  from dimension keys to strings.
\<close>

section \<open>Configuration (\<open>pkg/config/tenant.go\<close>)\<close>

record tenant_dimension =
  td_Header :: string
  td_Claim :: string
  td_Key :: string
  td_Required :: bool

definition EffectiveClaim :: "tenant_dimension \<Rightarrow> string" where
  "EffectiveClaim d = (if td_Claim d \<noteq> [] then td_Claim d else td_Key d)"

record tenant_config =
  tc_SystemHeader :: string
  tc_Dimensions :: "tenant_dimension list"
  tc_Enabled :: bool
  tc_ClaimsEnabled :: bool

text \<open>The lower-cased headers, the keys and the claims of the dimensions already validated.\<close>

type_synonym seen = "string list \<times> string list \<times> string list"

fun validateDimension :: "tenant_config \<Rightarrow> nat \<Rightarrow> tenant_dimension \<Rightarrow> seen \<Rightarrow> string + seen" where
  "validateDimension c i dm (seenHeaders, seenKeys, seenClaims) =
     (if td_Header dm = [] then Inl (Sprintf ''server.tenant.dimensions[%d].header is required'' [FD (int i)])
      else if td_Key dm = [] then Inl (Sprintf ''server.tenant.dimensions[%d].key is required'' [FD (int i)])
      else if \<not> IsValidHeaderName (td_Header dm) then
        Inl (Sprintf ''server.tenant.dimensions[%d].header %q is not a valid HTTP header name'' [FD (int i), FS (td_Header dm)])
      else if IsForbiddenIdentityHeaderName (td_Header dm) then
        Inl (Sprintf ''server.tenant.dimensions[%d].header %q is not allowed'' [FD (int i), FS (td_Header dm)])
      else if EqualFold (td_Header dm) (tc_SystemHeader c) then
        Inl (Sprintf ''server.tenant.dimensions[%d].header %q must differ from system_header'' [FD (int i), FS (td_Header dm)])
      else if List.member seenHeaders (ToLower (td_Header dm)) then
        Inl (Sprintf ''server.tenant.dimensions[%d].header %q is a duplicate'' [FD (int i), FS (td_Header dm)])
      else if List.member seenKeys (td_Key dm) then
        Inl (Sprintf ''server.tenant.dimensions[%d].key %q is a duplicate'' [FD (int i), FS (td_Key dm)])
      else if List.member seenClaims (EffectiveClaim dm) then
        Inl (Sprintf ''server.tenant.dimensions[%d] resolves duplicate claim %q'' [FD (int i), FS (EffectiveClaim dm)])
      else Inr (ToLower (td_Header dm) # seenHeaders, td_Key dm # seenKeys, EffectiveClaim dm # seenClaims))"

fun validateDimensions :: "tenant_config \<Rightarrow> nat \<Rightarrow> tenant_dimension list \<Rightarrow> seen \<Rightarrow> nat \<Rightarrow> string + nat" where
  "validateDimensions c i [] seen requiredCount = Inr requiredCount"
| "validateDimensions c i (dm # dims) seen requiredCount =
     (case validateDimension c i dm seen of
        Inl err \<Rightarrow> Inl err
      | Inr seen' \<Rightarrow>
          validateDimensions c (i + 1) dims seen' (if td_Required dm then requiredCount + 1 else requiredCount))"

definition TenantConfig_Validate :: "tenant_config \<Rightarrow> string option" where
  "TenantConfig_Validate c =
     (if \<not> tc_Enabled c then None
      else if tc_SystemHeader c = [] then
        Some ''server.tenant.system_header is required when tenant is enabled''
      else if \<not> IsValidHeaderName (tc_SystemHeader c) then
        Some (Sprintf ''server.tenant.system_header %q is not a valid HTTP header name'' [FS (tc_SystemHeader c)])
      else if IsForbiddenIdentityHeaderName (tc_SystemHeader c) then
        Some (Sprintf ''server.tenant.system_header %q is not allowed'' [FS (tc_SystemHeader c)])
      else if tc_Dimensions c = [] then
        Some ''server.tenant.dimensions requires at least one dimension when tenant is enabled''
      else case validateDimensions c 0 (tc_Dimensions c) ([], [], []) 0 of
             Inl err \<Rightarrow> Some err
           | Inr requiredCount \<Rightarrow>
               if requiredCount = 0 then
                 Some ''server.tenant.dimensions requires at least one dimension with required: true''
               else None)"

section \<open>The resolver (\<open>middleware.go\<close>)\<close>

definition maxDimensionValueLen :: nat where "maxDimensionValueLen = 63"
definition maxClaimValueLen :: nat where "maxClaimValueLen = 255"
definition hfSystemClaim :: string where "hfSystemClaim = ''hf_system''"

text \<open>\<open>^[A-Za-z0-9._-]+$\<close>\<close>

definition dimensionValuePattern :: "string \<Rightarrow> bool" where
  "dimensionValuePattern s \<longleftrightarrow> s \<noteq> [] \<and>
     list_all (\<lambda>c. is_alpha c \<or> is_digit c \<or> c = CHR ''.'' \<or> c = CHR ''_'' \<or> c = CHR ''-'') s"

fun claim_dims :: "req_context \<Rightarrow> tenant_dimension list \<Rightarrow> (string \<times> string) list \<Rightarrow> string + (string \<times> string) list" where
  "claim_dims cx [] dims = Inr dims"
| "claim_dims cx (d # ds) dims =
     (let claim = EffectiveClaim d in
      case GetClaimFromContext cx claim of
        None \<Rightarrow>
          if ClaimUnusableInContext cx claim then Inl (Sprintf ''tenant claim %q has an unusable value'' [FS claim])
          else if td_Required d then Inl (Sprintf ''required tenant claim %q is missing'' [FS claim])
          else claim_dims cx ds dims
      | Some val \<Rightarrow>
          if length val > maxClaimValueLen \<or> \<not> dimensionValuePattern val then
            Inl (Sprintf ''tenant claim %q has an invalid value'' [FS claim])
          else claim_dims cx ds (AList.update (td_Key d) val dims))"

definition resolveClaimDimensions :: "tenant_config \<Rightarrow> req_context \<Rightarrow> string + (string \<times> string) list" where
  "resolveClaimDimensions cfg cx =
     (case claim_dims cx (tc_Dimensions cfg) [] of
        Inl err \<Rightarrow> Inl err
      | Inr dims \<Rightarrow> if dims = [] then Inl ''caller resolved no tenant dimensions'' else Inr dims)"

fun header_dims :: "http_request \<Rightarrow> tenant_dimension list \<Rightarrow> (string \<times> string) list \<Rightarrow> string + (string \<times> string) list" where
  "header_dims r [] dims = Inr dims"
| "header_dims r (d # ds) dims =
     (let val = TrimSpace (Header_Get r (td_Header d)) in
      if val = [] then
        (if td_Required d then Inl (Sprintf ''required tenant header %q is missing'' [FS (td_Header d)])
         else header_dims r ds dims)
      else if length val > maxDimensionValueLen \<or> \<not> dimensionValuePattern val then
        Inl (Sprintf ''tenant header %q has an invalid value'' [FS (td_Header d)])
      else header_dims r ds (AList.update (td_Key d) val dims))"

definition resolveDimensions :: "tenant_config \<Rightarrow> http_request \<Rightarrow> string + (string \<times> string) list" where
  "resolveDimensions cfg r =
     (case header_dims r (tc_Dimensions cfg) [] of
        Inl err \<Rightarrow> Inl err
      | Inr dims \<Rightarrow> if dims = [] then Inl ''caller resolved no tenant dimensions'' else Inr dims)"

definition WithTenant :: "http_request \<Rightarrow> resolved_tenant \<Rightarrow> http_request" where
  "WithTenant r t = r\<lparr>rq_Context := (rq_Context r)\<lparr>cx_Tenant := Some t\<rparr>\<rparr>"

definition handleForbidden :: "string \<Rightarrow> service_error" where
  "handleForbidden err = Forbidden ''%s'' [FS err]"

definition resolveFromClaims :: "tenant_config \<Rightarrow> http_request \<Rightarrow> service_error + http_request" where
  "resolveFromClaims cfg r =
     (let system = (case GetClaimFromContext (rq_Context r) hfSystemClaim of None \<Rightarrow> [] | Some s \<Rightarrow> s) in
      if EqualFold (TrimSpace system) ''true'' then
        Inr (WithTenant r \<lparr>rt_Dimensions = [], rt_System = True\<rparr>)
      else case resolveClaimDimensions cfg (rq_Context r) of
             Inl err \<Rightarrow> Inl (handleForbidden err)
           | Inr dims \<Rightarrow> Inr (WithTenant r \<lparr>rt_Dimensions = dims, rt_System = False\<rparr>))"

definition shouldSkipTenant :: "string \<Rightarrow> bool" where
  "shouldSkipTenant = ShouldSkipCallerIdentity"

definition ResolveTenant :: "tenant_config \<Rightarrow> http_request \<Rightarrow> service_error + http_request" where
  "ResolveTenant cfg r =
     (if shouldSkipTenant (rq_Path r) then Inr r
      else if tc_ClaimsEnabled cfg \<and> cx_Token (rq_Context r) \<noteq> None then resolveFromClaims cfg r
      else if EqualFold (TrimSpace (Header_Get r (tc_SystemHeader cfg))) ''true'' then
        Inr (WithTenant r \<lparr>rt_Dimensions = [], rt_System = True\<rparr>)
      else case resolveDimensions cfg r of
             Inl err \<Rightarrow> Inl (handleForbidden err)
           | Inr dims \<Rightarrow> Inr (WithTenant r \<lparr>rt_Dimensions = dims, rt_System = False\<rparr>))"

section \<open>Stored tenancy and the scope clause (\<open>context.go\<close>, \<open>scope.go\<close>)\<close>

definition TenancyJSON :: "req_context \<Rightarrow> jsonb" where
  "TenancyJSON cx =
     (case cx_Tenant cx of
        None \<Rightarrow> JDoc (JObj [])
      | Some t \<Rightarrow> if rt_System t \<or> rt_Dimensions t = [] then JDoc (JObj [])
                  else JDoc (JObj (map (\<lambda>(k, v). (k, JStr v)) (rt_Dimensions t))))"

definition tenancyContainsClause :: string where
  "tenancyContainsClause = ''tenancy @> ?''"

definition ScopeClause :: "req_context \<Rightarrow> string \<times> jsonb list" where
  "ScopeClause cx =
     (case cx_Tenant cx of
        None \<Rightarrow> ([], [])
      | Some t \<Rightarrow>
          if rt_System t then ([], [])
          else if rt_Dimensions t = [] then (''1 = 0'', [])
          else (tenancyContainsClause, [TenancyJSON cx]))"

text \<open>\<open>tenancy @> arg\<close> for an object of strings: every member of the argument is a member of the
  column.\<close>

definition jsonb_contains :: "jsonb \<Rightarrow> jsonb \<Rightarrow> bool" where
  "jsonb_contains column arg =
     (case (column, arg) of
        (JDoc (JObj ms), JDoc (JObj ks)) \<Rightarrow> list_all (\<lambda>(k, v). map_of ms k = Some v) ks
      | _ \<Rightarrow> False)"

text \<open>\<open>ScopeDB\<close>: the rows the clause lets through.\<close>

definition ScopeDB :: "req_context \<Rightarrow> jsonb \<Rightarrow> bool" where
  "ScopeDB cx tenancy =
     (case ScopeClause cx of
        (clause, args) \<Rightarrow>
          if clause = [] then True
          else if clause = tenancyContainsClause then list_all (jsonb_contains tenancy) args
          else False)"

section \<open>What the resolver grants\<close>

text \<open>
  Headers and claims are two sources of the same map.  A source gives a dimension its value or
  none, bounds the length of values, and is collected dimension by dimension; the facts about the
  collected map hold for every source that obeys the two laws.
\<close>

definition dims_safe :: "nat \<Rightarrow> (string \<times> string) list \<Rightarrow> bool" where
  "dims_safe bound dims \<longleftrightarrow> distinct (map fst dims) \<and>
     (\<forall>k v. map_of dims k = Some v \<longrightarrow> dimensionValuePattern v \<and> length v \<le> bound)"

lemma dims_safe_update:
  "dims_safe n dims \<Longrightarrow> dimensionValuePattern v \<Longrightarrow> length v \<le> n \<Longrightarrow> dims_safe n (AList.update k v dims)"
  by (simp add: dims_safe_def distinct_update update_conv')

lemma dims_safe_Nil [simp]: "dims_safe n []"
  by (simp add: dims_safe_def)

locale dimension_source =
  fixes value_of :: "tenant_dimension \<Rightarrow> string option"
    and bound :: nat
    and collect :: "tenant_dimension list \<Rightarrow> (string \<times> string) list \<Rightarrow> string + (string \<times> string) list"
  assumes collect_Nil: "collect [] dims = Inr out \<Longrightarrow> out = dims"
    and collect_absent: "collect (d # ds) dims = Inr out \<Longrightarrow> value_of d = None \<Longrightarrow>
      \<not> td_Required d \<and> collect ds dims = Inr out"
    and collect_present: "collect (d # ds) dims = Inr out \<Longrightarrow> value_of d = Some v \<Longrightarrow>
      dimensionValuePattern v \<and> length v \<le> bound \<and> collect ds (AList.update (td_Key d) v dims) = Inr out"
begin

lemma safe: "dims_safe bound dims \<Longrightarrow> collect ds dims = Inr out \<Longrightarrow> dims_safe bound out"
proof (induction ds arbitrary: dims)
  case (Cons d ds)
  then show ?case
    by (cases "value_of d")
       (auto dest: collect_absent collect_present intro: dims_safe_update)
qed (auto dest: collect_Nil)

lemma keys: "collect ds dims = Inr out \<Longrightarrow>
    fst ` set out = fst ` set dims \<union> td_Key ` {d \<in> set ds. value_of d \<noteq> None}"
proof (induction ds arbitrary: dims)
  case (Cons d ds)
  show ?case
  proof (cases "value_of d")
    case None
    have "{e \<in> set (d # ds). value_of e \<noteq> None} = {e \<in> set ds. value_of e \<noteq> None}" using None by auto
    with Cons.IH collect_absent [OF Cons.prems None] show ?thesis by simp
  next
    case (Some v)
    have "{e \<in> set (d # ds). value_of e \<noteq> None} = insert d {e \<in> set ds. value_of e \<noteq> None}" using Some by auto
    moreover have "fst ` set out = ({td_Key d} \<union> fst ` set dims) \<union> td_Key ` {d \<in> set ds. value_of d \<noteq> None}"
      using Cons.IH [of "AList.update (td_Key d) v dims"] collect_present [OF Cons.prems Some]
      unfolding dom_update by blast
    ultimately show ?thesis by simp
  qed
qed (auto dest: collect_Nil)

lemma required: "collect ds dims = Inr out \<Longrightarrow> d \<in> set ds \<Longrightarrow> td_Required d \<Longrightarrow> value_of d \<noteq> None"
proof (induction ds arbitrary: dims)
  case (Cons e ds)
  then show ?case
    by (cases "value_of e") (auto dest: collect_absent collect_present)
qed simp

lemma untouched: "collect ds dims = Inr out \<Longrightarrow> k \<notin> td_Key ` set ds \<Longrightarrow> map_of out k = map_of dims k"
proof (induction ds arbitrary: dims)
  case (Cons e ds)
  show ?case
  proof (cases "value_of e")
    case None
    with Cons show ?thesis by (auto dest: collect_absent)
  next
    case (Some v)
    from collect_present [OF Cons.prems(1) Some] Cons.IH [of "AList.update (td_Key e) v dims"] Cons.prems(2)
    show ?thesis by (simp add: update_conv')
  qed
qed (auto dest: collect_Nil)

lemma lookup:
  "collect ds dims = Inr out \<Longrightarrow> distinct (map td_Key ds) \<Longrightarrow> d \<in> set ds \<Longrightarrow> td_Key d \<notin> fst ` set dims \<Longrightarrow>
     map_of out (td_Key d) = value_of d"
proof (induction ds arbitrary: dims)
  case (Cons e ds)
  show ?case
  proof (cases "value_of e")
    case None
    then have e: "collect ds dims = Inr out" using Cons.prems by (auto dest: collect_absent)
    show ?thesis
    proof (cases "d \<in> set ds")
      case True
      with Cons e show ?thesis by auto
    next
      case False
      with Cons.prems have "d = e" "td_Key d \<notin> td_Key ` set ds" by auto
      with untouched [OF e] None Cons.prems(4) show ?thesis by (simp add: map_of_eq_None_iff)
    qed
  next
    case (Some v)
    then have e: "collect ds (AList.update (td_Key e) v dims) = Inr out"
      using collect_present [OF Cons.prems(1) Some] by simp
    show ?thesis
    proof (cases "d \<in> set ds")
      case True
      then have "td_Key d \<noteq> td_Key e" using Cons.prems(2) by (auto intro: rev_image_eqI)
      with Cons e True show ?thesis by (simp add: dom_update)
    next
      case False
      with Cons.prems have "d = e" "td_Key d \<notin> td_Key ` set ds" by auto
      with untouched [OF e] Some show ?thesis by (simp add: update_conv')
    qed
  qed
qed simp

end

definition header_value :: "http_request \<Rightarrow> tenant_dimension \<Rightarrow> string option" where
  "header_value r d = (let val = TrimSpace (Header_Get r (td_Header d)) in if val = [] then None else Some val)"

definition claim_value :: "req_context \<Rightarrow> tenant_dimension \<Rightarrow> string option" where
  "claim_value cx d = GetClaimFromContext cx (EffectiveClaim d)"

interpretation headers: dimension_source "header_value r" maxDimensionValueLen "header_dims r" for r
  by unfold_locales (auto simp: header_value_def Let_def split: if_splits)

interpretation claims: dimension_source "claim_value cx" maxClaimValueLen "claim_dims cx" for cx
  by unfold_locales (auto simp: claim_value_def Let_def split: if_splits option.splits)


text \<open>A tenancy map resolved under a configuration: configured keys, each once, all required ones,
  and values that are safe in tenancy JSON.\<close>

definition dims_resolved :: "tenant_config \<Rightarrow> nat \<Rightarrow> (string \<times> string) list \<Rightarrow> bool" where
  "dims_resolved cfg bound dims \<longleftrightarrow>
     dims \<noteq> [] \<and> dims_safe bound dims \<and>
     fst ` set dims \<subseteq> td_Key ` set (tc_Dimensions cfg) \<and>
     (\<forall>d\<in>set (tc_Dimensions cfg). td_Required d \<longrightarrow> td_Key d \<in> fst ` set dims)"

lemma resolveDimensions_resolved:
  "resolveDimensions cfg r = Inr dims \<Longrightarrow> dims_resolved cfg maxDimensionValueLen dims"
  using headers.safe [of "[]" r "tc_Dimensions cfg" dims] headers.keys [of r "tc_Dimensions cfg" "[]" dims]
    headers.required [of r "tc_Dimensions cfg" "[]" dims]
  by (auto simp: resolveDimensions_def dims_resolved_def split: sum.splits if_splits)

lemma resolveClaimDimensions_resolved:
  "resolveClaimDimensions cfg cx = Inr dims \<Longrightarrow> dims_resolved cfg maxClaimValueLen dims"
  using claims.safe [of "[]" cx "tc_Dimensions cfg" dims] claims.keys [of cx "tc_Dimensions cfg" "[]" dims]
    claims.required [of cx "tc_Dimensions cfg" "[]" dims]
  by (auto simp: resolveClaimDimensions_def dims_resolved_def split: sum.splits if_splits)

lemma dims_safe_mono: "dims_safe m dims \<Longrightarrow> m \<le> n \<Longrightarrow> dims_safe n dims"
  by (fastforce simp: dims_safe_def)

text \<open>The identities the resolver attaches.\<close>

definition tenant_granted :: "tenant_config \<Rightarrow> resolved_tenant \<Rightarrow> bool" where
  "tenant_granted cfg t \<longleftrightarrow>
     (if rt_System t then rt_Dimensions t = [] else dims_resolved cfg maxClaimValueLen (rt_Dimensions t))"

lemma dims_resolved_weaken:
  "dims_resolved cfg maxDimensionValueLen dims \<Longrightarrow> dims_resolved cfg maxClaimValueLen dims"
  unfolding dims_resolved_def
  by (auto elim: dims_safe_mono simp: maxDimensionValueLen_def maxClaimValueLen_def)

lemma granted_intros:
  "tenant_granted cfg \<lparr>rt_Dimensions = [], rt_System = True\<rparr>"
  "dims_resolved cfg maxClaimValueLen dims \<Longrightarrow> tenant_granted cfg \<lparr>rt_Dimensions = dims, rt_System = False\<rparr>"
  "dims_resolved cfg maxDimensionValueLen dims \<Longrightarrow> tenant_granted cfg \<lparr>rt_Dimensions = dims, rt_System = False\<rparr>"
  by (auto simp: tenant_granted_def dims_resolved_weaken)

lemma ResolveTenant_grants:
  assumes "ResolveTenant cfg r = Inr r'" "\<not> shouldSkipTenant (rq_Path r)"
  shows "\<exists>t. cx_Tenant (rq_Context r') = Some t \<and> tenant_granted cfg t \<and>
     (\<not> rt_System t \<longrightarrow> ScopeClause (rq_Context r') = (tenancyContainsClause, [TenancyJSON (rq_Context r')]))"
proof -
  have "\<exists>t. r' = WithTenant r t \<and> tenant_granted cfg t"
    using assms
    by (auto simp: ResolveTenant_def resolveFromClaims_def Let_def split: if_splits sum.splits
        dest!: resolveDimensions_resolved resolveClaimDimensions_resolved intro: granted_intros)
  then show ?thesis
    by (auto simp: WithTenant_def ScopeClause_def tenant_granted_def dims_resolved_def split: if_splits)
qed


definition sample_tenant_config :: tenant_config where
  "sample_tenant_config = \<lparr>tc_SystemHeader = ''X-System'',
     tc_Dimensions = [\<lparr>td_Header = ''X-Org'', td_Claim = ''org'', td_Key = ''org'', td_Required = True\<rparr>],
     tc_Enabled = True, tc_ClaimsEnabled = False\<rparr>"

lemma sample_resolve:
  "ResolveTenant sample_tenant_config sample_request =
     Inr (WithTenant sample_request \<lparr>rt_Dimensions = [(''org'', ''acme'')], rt_System = False\<rparr>)"
proof -
  have "Header_Get sample_request ''X-System'' = []" "Header_Get sample_request ''X-Org'' = ''acme''"
    "\<not> EqualFold (TrimSpace []) ''true''" "TrimSpace ''acme'' = ''acme''"
    "dimensionValuePattern ''acme''" by code_simp+
  then show ?thesis
    by (simp add: ResolveTenant_def sample_tenant_config_def shouldSkipTenant_def sample_request_def
        ShouldSkipCallerIdentity_def HasPrefix_def resolveDimensions_def maxDimensionValueLen_def)
qed


text \<open>With claims enabled and a validated token, the headers of the request have no say in its
  tenant: whatever headers are sent, the outcome is that of the claims.\<close>

theorem claims_mode_ignores_headers:
  assumes "tc_ClaimsEnabled cfg" "cx_Token (rq_Context r) \<noteq> None"
  shows "map_sum id (\<lambda>r'. cx_Tenant (rq_Context r')) (ResolveTenant cfg (r\<lparr>rq_Header := h\<rparr>)) =
     map_sum id (\<lambda>r'. cx_Tenant (rq_Context r')) (ResolveTenant cfg r)"
  using assms
  by (auto simp: ResolveTenant_def resolveFromClaims_def WithTenant_def Let_def split: sum.splits)

lemma claims_mode_ignores_headers_witness:
  "map_sum id (\<lambda>r'. cx_Tenant (rq_Context r'))
     (ResolveTenant (sample_tenant_config\<lparr>tc_ClaimsEnabled := True\<rparr>)
        (sample_request\<lparr>rq_Header := [(''X-System'', [''true''])]\<rparr>)) =
   map_sum id (\<lambda>r'. cx_Tenant (rq_Context r'))
     (ResolveTenant (sample_tenant_config\<lparr>tc_ClaimsEnabled := True\<rparr>) sample_request)"
  by (rule claims_mode_ignores_headers) (simp_all add: sample_request_def)

section \<open>Visibility between tenants\<close>

lemma map_of_JStr: "map_of (map (\<lambda>(k, v). (k, JStr v)) xs) k = map_option JStr (map_of xs k)"
  by (induction xs) auto

lemma contains_dims:
  "distinct (map fst ks) \<Longrightarrow>
   jsonb_contains (JDoc (JObj (map (\<lambda>(k, v). (k, JStr v)) xs))) (JDoc (JObj (map (\<lambda>(k, v). (k, JStr v)) ks)))
     \<longleftrightarrow> map_of ks \<subseteq>\<^sub>m map_of xs"
  by (force simp: jsonb_contains_def list_all_iff map_of_JStr map_le_def dom_map_of_conv_image_fst
      split: prod.splits dest: map_of_is_SomeI)

text \<open>C15. Isolation of tenants: what one resolved caller stores is visible to another exactly when
  the reader is a system caller, or the writer is a tenant whose dimensions include all of the
  reader's with the same values.  Two tenants that differ on one dimension of the reader never
  see each other's resources, and nothing stored by a system caller is visible to a tenant.\<close>

theorem visible_iff:
  assumes "cx_Tenant writer = Some w" "tenant_granted cfg w"
    and "cx_Tenant reader = Some t" "tenant_granted cfg t"
  shows "ScopeDB reader (TenancyJSON writer) \<longleftrightarrow>
     rt_System t \<or> (\<not> rt_System w \<and> map_of (rt_Dimensions t) \<subseteq>\<^sub>m map_of (rt_Dimensions w))"
proof (cases "rt_System t")
  case True
  with assms show ?thesis by (simp add: ScopeDB_def ScopeClause_def)
next
  case False
  with assms(4) have t: "rt_Dimensions t \<noteq> []" "distinct (map fst (rt_Dimensions t))"
    by (auto simp: tenant_granted_def dims_resolved_def dims_safe_def)
  have "ScopeDB reader (TenancyJSON writer) = jsonb_contains (TenancyJSON writer) (TenancyJSON reader)"
    using False assms(3) t by (simp add: ScopeDB_def ScopeClause_def tenancyContainsClause_def)
  moreover have "TenancyJSON writer = JDoc (JObj (map (\<lambda>(k, v). (k, JStr v)) (if rt_System w then [] else rt_Dimensions w)))"
    using assms(1) by (auto simp: TenancyJSON_def)
  moreover have "\<not> map_of (rt_Dimensions t) \<subseteq>\<^sub>m Map.empty"
    using t(1) by (cases "rt_Dimensions t") (auto simp: map_le_def)
  ultimately show ?thesis
    using False assms(3) t contains_dims [of "rt_Dimensions t" "if rt_System w then [] else rt_Dimensions w"]
    by (simp add: TenancyJSON_def)
qed

lemma visible_iff_witness:
  "\<not> ScopeDB (Background\<lparr>cx_Tenant := Some \<lparr>rt_Dimensions = [(''org'', ''beta'')], rt_System = False\<rparr>\<rparr>)
       (TenancyJSON (Background\<lparr>cx_Tenant := Some \<lparr>rt_Dimensions = [(''org'', ''acme'')], rt_System = False\<rparr>\<rparr>))"
proof -
  let ?t = "\<lambda>v. \<lparr>rt_Dimensions = [(''org'', v)], rt_System = False\<rparr>"
  have "dimensionValuePattern ''acme''" "dimensionValuePattern ''beta''" by code_simp+
  then have g: "tenant_granted sample_tenant_config (?t ''acme'')" "tenant_granted sample_tenant_config (?t ''beta'')"
    by (auto simp: tenant_granted_def dims_resolved_def sample_tenant_config_def dims_safe_def maxClaimValueLen_def)
  show ?thesis
    using visible_iff [OF _ g(1) _ g(2), of "Background\<lparr>cx_Tenant := Some (?t ''acme'')\<rparr>" "Background\<lparr>cx_Tenant := Some (?t ''beta'')\<rparr>"]
    by (simp add: map_le_def)
qed


section \<open>What the configuration check accepts\<close>

definition header_ok :: "tenant_config \<Rightarrow> tenant_dimension \<Rightarrow> bool" where
  "header_ok c d \<longleftrightarrow> td_Key d \<noteq> [] \<and> IsValidHeaderName (td_Header d) \<and>
     \<not> IsForbiddenIdentityHeaderName (td_Header d) \<and> \<not> EqualFold (td_Header d) (tc_SystemHeader c)"

definition tenant_config_ok :: "tenant_config \<Rightarrow> bool" where
  "tenant_config_ok c \<longleftrightarrow>
     IsValidHeaderName (tc_SystemHeader c) \<and> \<not> IsForbiddenIdentityHeaderName (tc_SystemHeader c) \<and>
     list_all (header_ok c) (tc_Dimensions c) \<and>
     distinct (map (\<lambda>d. ToLower (td_Header d)) (tc_Dimensions c)) \<and>
     distinct (map td_Key (tc_Dimensions c)) \<and> distinct (map EffectiveClaim (tc_Dimensions c)) \<and>
     list_ex td_Required (tc_Dimensions c)"

lemma validateDimension_Inr:
  "validateDimension c i d (hs, ks, cs) = Inr s' \<longleftrightarrow>
     header_ok c d \<and> ToLower (td_Header d) \<notin> set hs \<and> td_Key d \<notin> set ks \<and> EffectiveClaim d \<notin> set cs \<and>
     s' = (ToLower (td_Header d) # hs, td_Key d # ks, EffectiveClaim d # cs)"
  by (auto simp: header_ok_def IsValidHeaderName_def)

lemma validateDimensions_Inr:
  "validateDimensions c i ds (hs, ks, cs) n = Inr m \<longleftrightarrow>
     list_all (header_ok c) ds \<and> m = n + length (filter td_Required ds) \<and>
     distinct (map (\<lambda>d. ToLower (td_Header d)) ds) \<and> (\<lambda>d. ToLower (td_Header d)) ` set ds \<inter> set hs = {} \<and>
     distinct (map td_Key ds) \<and> td_Key ` set ds \<inter> set ks = {} \<and>
     distinct (map EffectiveClaim ds) \<and> EffectiveClaim ` set ds \<inter> set cs = {}"
proof (induction ds arbitrary: i hs ks cs n)
  case (Cons d ds)
  show ?case
  proof (cases "validateDimension c i d (hs, ks, cs)")
    case (Inl e)
    then have "\<not> (header_ok c d \<and> ToLower (td_Header d) \<notin> set hs \<and> td_Key d \<notin> set ks \<and> EffectiveClaim d \<notin> set cs)"
      using validateDimension_Inr [of c i d hs ks cs] by fastforce
    moreover have "validateDimensions c i (d # ds) (hs, ks, cs) n = Inl e"
      using Inl by (simp del: validateDimension.simps)
    ultimately show ?thesis by auto
  next
    case (Inr s')
    then have d: "header_ok c d" "ToLower (td_Header d) \<notin> set hs" "td_Key d \<notin> set ks" "EffectiveClaim d \<notin> set cs"
        "s' = (ToLower (td_Header d) # hs, td_Key d # ks, EffectiveClaim d # cs)"
      unfolding validateDimension_Inr by blast+
    have "validateDimensions c i (d # ds) (hs, ks, cs) n =
        validateDimensions c (i + 1) ds s' (if td_Required d then n + 1 else n)"
      using Inr by (simp del: validateDimension.simps)
    with d Cons.IH show ?thesis by (auto simp del: validateDimension.simps)
  qed
qed auto

text \<open>\<open>TenantConfig.Validate\<close> accepts an enabled configuration exactly when its headers are valid
  names that are neither credential headers nor the system header nor, up to case, repeated, its
  keys and effective claims are distinct, and at least one dimension is required.\<close>

theorem TenantConfig_Validate_exact:
  "TenantConfig_Validate c = None \<longleftrightarrow> (if tc_Enabled c then tenant_config_ok c else True)"
proof -
  have "tenant_config_ok c \<Longrightarrow> tc_Dimensions c \<noteq> []"
    by (auto simp: tenant_config_ok_def)
  moreover have "list_ex td_Required ds \<longleftrightarrow> filter td_Required ds \<noteq> []" for ds
    by (induction ds) auto
  ultimately show ?thesis
    using validateDimensions_Inr [of c 0 "tc_Dimensions c" "[]" "[]" "[]" 0]
    by (auto simp: TenantConfig_Validate_def tenant_config_ok_def IsValidHeaderName_def split: sum.splits) blast
qed

end
