(* ===== verification/Api_Types.thy ===== *)
theory Api_Types
  imports Json Errors
begin

text \<open>
  \<open>pkg/api\<close>: the database models and their JSON forms.  Record fields carry the Go field
  name behind a short prefix (\<open>rc_\<close> ResourceCondition, \<open>ac_\<close> AdapterCondition, \<open>as_\<close>
  AdapterStatus, \<open>res_\<close> Resource, \<open>rl_\<close> ResourceLabel, \<open>rr_\<close> ResourceReference).  A Go
  pointer is an option.
\<close>

section \<open>Condition types and statuses (\<open>status_types.go\<close>)\<close>

definition ConditionTrue :: string where "ConditionTrue = ''True''"
definition ConditionFalse :: string where "ConditionFalse = ''False''"
definition AdapterConditionTrue :: string where "AdapterConditionTrue = ''True''"
definition AdapterConditionFalse :: string where "AdapterConditionFalse = ''False''"
definition AdapterConditionUnknown :: string where "AdapterConditionUnknown = ''Unknown''"

lemmas status_defs = ConditionTrue_def ConditionFalse_def AdapterConditionTrue_def
  AdapterConditionFalse_def AdapterConditionUnknown_def

lemma ConditionTrue_neq_False [simp]:
  "ConditionTrue \<noteq> ConditionFalse" "ConditionFalse \<noteq> ConditionTrue"
  "AdapterConditionTrue \<noteq> AdapterConditionFalse" "AdapterConditionFalse \<noteq> AdapterConditionTrue"
  "AdapterConditionUnknown \<noteq> AdapterConditionTrue" "AdapterConditionUnknown \<noteq> AdapterConditionFalse"
  "AdapterConditionTrue \<noteq> AdapterConditionUnknown" "AdapterConditionFalse \<noteq> AdapterConditionUnknown"
  by (simp_all add: status_defs)

definition AdapterConditionStatus_IsValid :: "string \<Rightarrow> bool" where
  "AdapterConditionStatus_IsValid s \<longleftrightarrow>
     s = AdapterConditionTrue \<or> s = AdapterConditionFalse \<or> s = AdapterConditionUnknown"

definition AdapterConditionTypeAvailable :: string where "AdapterConditionTypeAvailable = ''Available''"
definition AdapterConditionTypeApplied :: string where "AdapterConditionTypeApplied = ''Applied''"
definition AdapterConditionTypeHealth :: string where "AdapterConditionTypeHealth = ''Health''"
definition AdapterConditionTypeFinalized :: string where "AdapterConditionTypeFinalized = ''Finalized''"
definition ResourceConditionTypeReconciled :: string where "ResourceConditionTypeReconciled = ''Reconciled''"
definition ResourceConditionTypeLastKnownReconciled :: string where
  "ResourceConditionTypeLastKnownReconciled = ''LastKnownReconciled''"

lemmas condition_type_defs = AdapterConditionTypeAvailable_def AdapterConditionTypeApplied_def
  AdapterConditionTypeHealth_def AdapterConditionTypeFinalized_def
  ResourceConditionTypeReconciled_def ResourceConditionTypeLastKnownReconciled_def

lemma resource_types_distinct [simp]:
  "ResourceConditionTypeReconciled \<noteq> ResourceConditionTypeLastKnownReconciled"
  "ResourceConditionTypeLastKnownReconciled \<noteq> ResourceConditionTypeReconciled"
  by (simp_all add: condition_type_defs)

record resource_condition =
  rc_CreatedTime :: gotime
  rc_LastUpdatedTime :: gotime
  rc_LastTransitionTime :: gotime
  rc_Reason :: "string option"
  rc_Message :: "string option"
  rc_ResourceID :: string
  rc_Type :: string
  rc_Status :: string
  rc_ObservedGeneration :: int32

record adapter_condition =
  ac_LastTransitionTime :: gotime
  ac_Reason :: "string option"
  ac_Message :: "string option"
  ac_Type :: string
  ac_Status :: string

section \<open>Their JSON forms\<close>

text \<open>\<open>omitempty\<close>: a nil pointer has no member.\<close>

definition opt_member :: "string \<Rightarrow> string option \<Rightarrow> (string \<times> json) list" where
  "opt_member k v = (case v of None \<Rightarrow> [] | Some s \<Rightarrow> [(k, JStr s)])"

definition num_of_int32 :: "int32 \<Rightarrow> json" where
  "num_of_int32 g = JNum (rat_of_int (sint g))"

lemma num_of_int32_inj [simp]: "num_of_int32 g = num_of_int32 h \<longleftrightarrow> g = h"
  by (simp add: num_of_int32_def sint32_eq_iff del: of_int_sint)

lemma DeepEqual_num_of_int32 [simp]: "DeepEqual (num_of_int32 g) b \<longleftrightarrow> b = num_of_int32 g"
  by (simp add: num_of_int32_def)

definition encode_resource_condition :: "resource_condition \<Rightarrow> json" where
  "encode_resource_condition c = JObj (
     [(''created_time'', JTime (rc_CreatedTime c)),
      (''last_updated_time'', JTime (rc_LastUpdatedTime c)),
      (''last_transition_time'', JTime (rc_LastTransitionTime c))]
     @ opt_member ''reason'' (rc_Reason c) @ opt_member ''message'' (rc_Message c)
     @ [(''type'', JStr (rc_Type c)), (''status'', JStr (rc_Status c)),
        (''observed_generation'', num_of_int32 (rc_ObservedGeneration c))])"

definition decode_resource_condition :: "json \<Rightarrow> resource_condition option" where
  "decode_resource_condition j =
     (case j of
        JObj fs \<Rightarrow>
          (case (member_time fs ''created_time'', member_time fs ''last_updated_time'',
                 member_time fs ''last_transition_time'', member_string_ptr fs ''reason'',
                 member_string_ptr fs ''message'', member_string fs ''type'',
                 member_string fs ''status'', member_int32 fs ''observed_generation'') of
             (Some ct, Some lu, Some lt, Some r, Some m, Some ty, Some st, Some g) \<Rightarrow>
               Some \<lparr>rc_CreatedTime = ct, rc_LastUpdatedTime = lu, rc_LastTransitionTime = lt,
                     rc_Reason = r, rc_Message = m, rc_ResourceID = [], rc_Type = ty,
                     rc_Status = st, rc_ObservedGeneration = g\<rparr>
           | _ \<Rightarrow> None)
      | JNull \<Rightarrow> Some \<lparr>rc_CreatedTime = 0, rc_LastUpdatedTime = 0, rc_LastTransitionTime = 0,
                     rc_Reason = None, rc_Message = None, rc_ResourceID = [], rc_Type = [],
                     rc_Status = [], rc_ObservedGeneration = 0\<rparr>
      | _ \<Rightarrow> None)"

definition encode_adapter_condition :: "adapter_condition \<Rightarrow> json" where
  "encode_adapter_condition c = JObj (
     [(''last_transition_time'', JTime (ac_LastTransitionTime c))]
     @ opt_member ''reason'' (ac_Reason c) @ opt_member ''message'' (ac_Message c)
     @ [(''type'', JStr (ac_Type c)), (''status'', JStr (ac_Status c))])"

definition decode_adapter_condition :: "json \<Rightarrow> adapter_condition option" where
  "decode_adapter_condition j =
     (case j of
        JObj fs \<Rightarrow>
          (case (member_time fs ''last_transition_time'', member_string_ptr fs ''reason'',
                 member_string_ptr fs ''message'', member_string fs ''type'',
                 member_string fs ''status'') of
             (Some lt, Some r, Some m, Some ty, Some st) \<Rightarrow>
               Some \<lparr>ac_LastTransitionTime = lt, ac_Reason = r, ac_Message = m, ac_Type = ty,
                     ac_Status = st\<rparr>
           | _ \<Rightarrow> None)
      | JNull \<Rightarrow> Some \<lparr>ac_LastTransitionTime = 0, ac_Reason = None, ac_Message = None,
                     ac_Type = [], ac_Status = []\<rparr>
      | _ \<Rightarrow> None)"

definition encode_resource_conditions :: "resource_condition list \<Rightarrow> jsonb" where
  "encode_resource_conditions cs = JDoc (JArr (map encode_resource_condition cs))"

definition decode_resource_conditions :: "jsonb \<Rightarrow> resource_condition list option" where
  "decode_resource_conditions = decode_slice decode_resource_condition"

definition encode_adapter_conditions :: "adapter_condition list \<Rightarrow> jsonb" where
  "encode_adapter_conditions cs = JDoc (JArr (map encode_adapter_condition cs))"

definition decode_adapter_conditions :: "jsonb \<Rightarrow> adapter_condition list option" where
  "decode_adapter_conditions = decode_slice decode_adapter_condition"

lemma int32_num [simp]: "- (2 ^ 31) \<le> sint (g :: int32) \<and> sint g < 2 ^ 31"
  using sint_greater_eq [of g] sint_less [of g] by simp

lemma member_int32_sint:
  "map_of fs k = Some (num_of_int32 g) \<Longrightarrow> member_int32 fs k = Some g"
  using int32_num [of g] by (simp add: member_int32_def num_of_int32_def word_of_int_sint32 del: of_int_sint)

lemma decode_encode_resource_condition:
  "decode_resource_condition (encode_resource_condition c) = Some (c\<lparr>rc_ResourceID := []\<rparr>)"
  by (cases "rc_Reason c"; cases "rc_Message c")
     (simp_all add: encode_resource_condition_def decode_resource_condition_def opt_member_def
       member_string_def member_string_ptr_def member_time_def member_int32_sint)

lemma decode_encode_adapter_condition:
  "decode_adapter_condition (encode_adapter_condition c) = Some c"
  by (cases "ac_Reason c"; cases "ac_Message c")
     (simp_all add: encode_adapter_condition_def decode_adapter_condition_def opt_member_def member_defs)

lemma decode_encode_resource_conditions [simp]:
  "decode_resource_conditions (encode_resource_conditions cs) = Some (map (\<lambda>c. c\<lparr>rc_ResourceID := []\<rparr>) cs)"
  by (simp add: decode_resource_conditions_def encode_resource_conditions_def decode_slice_def
      decode_all_map [where f = decode_resource_condition and g = encode_resource_condition
        and h = "\<lambda>c. c\<lparr>rc_ResourceID := []\<rparr>", OF decode_encode_resource_condition])

lemma decode_encode_adapter_conditions [simp]:
  "decode_adapter_conditions (encode_adapter_conditions cs) = Some cs"
  by (simp add: decode_adapter_conditions_def encode_adapter_conditions_def decode_slice_def
      decode_all_map [where f = decode_adapter_condition and g = encode_adapter_condition
        and h = "\<lambda>c. c", OF decode_encode_adapter_condition])

lemma decode_empty [simp]:
  "decode_adapter_conditions JEmpty = None" "decode_resource_conditions JEmpty = None"
  by (simp_all add: decode_adapter_conditions_def decode_resource_conditions_def decode_slice_def)

text \<open>Deep equality of encoded conditions is equality of everything but the excluded \<open>ResourceID\<close>.\<close>

lemma DeepEqual_encode_resource_condition:
  "DeepEqual (encode_resource_condition c) (encode_resource_condition d) \<longleftrightarrow>
     c\<lparr>rc_ResourceID := []\<rparr> = d\<lparr>rc_ResourceID := []\<rparr>"
  by (cases "rc_Reason c"; cases "rc_Message c"; cases "rc_Reason d"; cases "rc_Message d"; cases c; cases d)
     (auto simp: encode_resource_condition_def opt_member_def)

lemma DeepEqual_encode_adapter_condition:
  "DeepEqual (encode_adapter_condition c) (encode_adapter_condition d) \<longleftrightarrow> c = d"
  by (cases "ac_Reason c"; cases "ac_Message c"; cases "ac_Reason d"; cases "ac_Message d"; cases c; cases d)
     (auto simp: encode_adapter_condition_def opt_member_def)

lemma jsonEqual_encode_resource_conditions:
  "jsonEqual (encode_resource_conditions cs) (encode_resource_conditions ds) \<longleftrightarrow>
     map (\<lambda>c. c\<lparr>rc_ResourceID := []\<rparr>) cs = map (\<lambda>c. c\<lparr>rc_ResourceID := []\<rparr>) ds"
proof (induction cs arbitrary: ds)
  case Nil
  show ?case by (auto simp: jsonEqual_def encode_resource_conditions_def)
next
  case (Cons c cs)
  then show ?case
    by (cases ds)
       (auto simp: jsonEqual_def encode_resource_conditions_def DeepEqual_encode_resource_condition)
qed

section \<open>Resources, labels and references\<close>

record resource_label =
  rl_ResourceID :: string
  rl_Key :: string
  rl_Value :: string

record resource_reference =
  rr_SourceID :: string
  rr_RefType :: string
  rr_TargetID :: string
  rr_TargetKind :: string

record resource_summary =
  rs_Kind :: string
  rs_Name :: string

record resource =
  res_OwnerID :: "string option"
  res_OwnerHref :: "string option"
  res_OwnerKind :: "string option"
  res_DeletedBy :: "string option"
  res_DeletedTime :: "gotime option"
  res_CreatedTime :: gotime
  res_UpdatedTime :: gotime
  res_ID :: string
  res_Kind :: string
  res_Name :: string
  res_Href :: string
  res_CreatedBy :: string
  res_UpdatedBy :: string
  res_Labels :: "resource_label list"
  res_Spec :: jsonb
  res_Tenancy :: jsonb
  res_Conditions :: "resource_condition list"
  res_References :: "resource_reference list"
  res_Generation :: int32

text \<open>\<open>openapi.ObjectReference\<close>, as far as the services read it.\<close>

record object_reference =
  or_Id :: "string option"
  or_Kind :: string

text \<open>
  A Go map is the list of its entries in the order the runtime ranges over them; \<open>None\<close> is
  the nil map.  \<open>ResourcePatch.Spec\<close> is the decoded JSON object.
\<close>

type_synonym reference_map = "(string \<times> object_reference list) list"

record resource_patch =
  rp_Spec :: "json option"
  rp_Labels :: "(string \<times> string) list option"
  rp_References :: "reference_map option"

definition MarkDeleted :: "string \<Rightarrow> gotime \<Rightarrow> resource \<Rightarrow> resource" where
  "MarkDeleted who t r = r\<lparr>res_DeletedTime := Some t, res_DeletedBy := Some who\<rparr>"

definition SetOwner :: "string \<Rightarrow> string \<Rightarrow> string \<Rightarrow> resource \<Rightarrow> resource" where
  "SetOwner oid kind href r =
     r\<lparr>res_OwnerID := Some oid, res_OwnerKind := Some kind, res_OwnerHref := Some href\<rparr>"

definition IncrementGeneration :: "resource \<Rightarrow> resource" where
  "IncrementGeneration r = r\<lparr>res_Generation := res_Generation r + 1\<rparr>"

definition MaxLabelKeyLen :: nat where "MaxLabelKeyLen = 255"
definition MaxLabelValueLen :: nat where "MaxLabelValueLen = 255"

text \<open>\<open>ValidateLabel\<close>: \<open>Some\<close> is the error text.\<close>

definition ValidateLabel :: "string \<Rightarrow> string \<Rightarrow> string option" where
  "ValidateLabel key value =
     (if key = [] then Some ''label key cannot be empty''
      else if length key > MaxLabelKeyLen then
        Some (Sprintf ''label key %q exceeds maximum length of %d'' [FS key, FD (int MaxLabelKeyLen)])
      else if length value > MaxLabelValueLen then
        Some (Sprintf ''label value for key %q exceeds maximum length of %d'' [FS key, FD (int MaxLabelValueLen)])
      else None)"

section \<open>Adapter statuses (\<open>adapter_status_types.go\<close>)\<close>

record adapter_status =
  as_LastReportTime :: gotime
  as_CreatedTime :: gotime
  as_UpdatedTime :: gotime
  as_ID :: string
  as_ResourceType :: string
  as_ResourceID :: string
  as_Adapter :: string
  as_Conditions :: jsonb
  as_Data :: jsonb
  as_Metadata :: jsonb
  as_ObservedGeneration :: int32

text \<open>\<open>IsFinalized\<close>: undecodable conditions count as not finalized.\<close>

definition IsFinalized :: "adapter_status \<Rightarrow> bool" where
  "IsFinalized s =
     (case decode_adapter_conditions (as_Conditions s) of
        None \<Rightarrow> False
      | Some cs \<Rightarrow> list_ex (\<lambda>c. ac_Type c = AdapterConditionTypeFinalized \<and> ac_Status c = AdapterConditionTrue) cs)"

text \<open>\<open>AdapterStatusList.Index\<close>: later entries win.\<close>

definition Index :: "adapter_status list \<Rightarrow> (string \<rightharpoonup> adapter_status)" where
  "Index l = foldl (\<lambda>m s. m(as_ID s \<mapsto> s)) Map.empty l"

lemma IncrementGeneration_sint:
  "sint (res_Generation r) < 2 ^ 31 - 1 \<Longrightarrow>
     sint (res_Generation (IncrementGeneration r)) = sint (res_Generation r) + 1"
  using int32_num [of "res_Generation r"]
  by (simp add: IncrementGeneration_def sint_word_ariths signed_take_bit_int_eq_self)

lemma IncrementGeneration_wraps:
  "sint (res_Generation r) = 2 ^ 31 - 1 \<Longrightarrow> sint (res_Generation (IncrementGeneration r)) = - (2 ^ 31)"
  by (simp add: IncrementGeneration_def sint_word_ariths)

end
