(* ===== verification/Util.thy ===== *)
theory Util
  imports Json
begin

text \<open>
  \<open>pkg/util\<close>: the condition type an adapter name maps to (\<open>naming.go\<close>), the masking of
  sensitive members before values reach CEL (\<open>mask_sensitive.go\<close>), and the navigation
  behind CEL's \<open>dig\<close> (\<open>cel.go\<close>).
\<close>

section \<open>Adapter names to condition types\<close>

definition adapterConditionSuffix :: string where
  "adapterConditionSuffix = ''Successful''"

fun capitalize :: "string \<Rightarrow> string" where
  "capitalize [] = []"
| "capitalize (c # s) = to_upper c # s"

definition MapAdapterToConditionType :: "string \<Rightarrow> string" where
  "MapAdapterToConditionType adapterName =
     concat (map capitalize (Split (CHR ''-'') adapterName)) @ adapterConditionSuffix"

lemma MapAdapter_reserved_free:
  "MapAdapterToConditionType a \<noteq> ''Reconciled'' \<and> MapAdapterToConditionType a \<noteq> ''LastKnownReconciled''"
proof -
  have *: "s @ adapterConditionSuffix = t \<Longrightarrow> last t = CHR ''l''" for s t :: string
    by (auto simp: adapterConditionSuffix_def)
  show ?thesis
    using * [of "concat (map capitalize (Split (CHR ''-'') a))"]
    by (fastforce simp: MapAdapterToConditionType_def)
qed

text \<open>
  Different adapter names may map to one type (\<open>adapter-1\<close> and \<open>adapter1\<close>).  They do not when
  every dash-separated part starts with a lower-case letter and has no capital.
\<close>

definition plain_part :: "string \<Rightarrow> bool" where
  "plain_part p \<longleftrightarrow> p \<noteq> [] \<and> is_lower (hd p) \<and> list_all (\<lambda>c. \<not> is_upper c) p"

definition plain_adapter_name :: "string \<Rightarrow> bool" where
  "plain_adapter_name a \<longleftrightarrow> list_all plain_part (Split (CHR ''-'') a)"

lemma to_upper_is_upper: "is_lower c \<Longrightarrow> is_upper (to_upper c)"
  by (auto simp: is_lower_def is_upper_def to_upper_def)

lemma of_char_to_upper: "is_lower c \<Longrightarrow> (of_char (to_upper c) :: nat) = of_char c - 32"
proof -
  assume "is_lower c"
  then have "(of_char c :: nat) \<le> 122" by (simp add: is_lower_def)
  then have "(of_char c :: nat) - 32 < 256" by linarith
  with \<open>is_lower c\<close> show ?thesis by (simp add: to_upper_def of_char_of)
qed

lemma to_upper_inj:
  assumes "is_lower c" "is_lower d" "to_upper c = to_upper d"
  shows "c = d"
proof -
  from assms have "(of_char c :: nat) - 32 = of_char d - 32" by (metis of_char_to_upper)
  moreover have "(of_char c :: nat) \<ge> 32" "(of_char d :: nat) \<ge> 32"
    using assms(1,2) by (auto simp: is_lower_def)
  ultimately have "(of_char c :: nat) = of_char d" by arith
  then show ?thesis by simp
qed

text \<open>The parts are read back from the concatenation: each runs up to the next capital.\<close>

lemma capitalized_parts_inj:
  assumes "list_all plain_part ps" "list_all plain_part qs"
    and "concat (map capitalize ps) = concat (map capitalize qs)"
  shows "ps = qs"
  using assms
proof (induction ps arbitrary: qs)
  case Nil
  then show ?case by (cases qs; cases "hd qs") (auto simp: plain_part_def)
next
  case (Cons p ps)
  from Cons.prems(1) obtain c r where p: "p = c # r" "is_lower c" "\<forall>x\<in>set r. \<not> is_upper x"
    by (cases p) (auto simp: plain_part_def list_all_iff)
  with Cons.prems(3) obtain q qs' where qs: "qs = q # qs'" by (cases qs) auto
  with Cons.prems(2) obtain d t where q: "q = d # t" "is_lower d" "\<forall>x\<in>set t. \<not> is_upper x"
    by (cases q) (auto simp: plain_part_def list_all_iff)
  have head: "concat (map capitalize xs) = [] \<or> is_upper (hd (concat (map capitalize xs)))"
    if "list_all plain_part xs" for xs
    using that by (cases xs; cases "hd xs") (auto simp: plain_part_def to_upper_is_upper)
  have take_part: "takeWhile (\<lambda>x. \<not> is_upper x) (u @ concat (map capitalize xs)) = u"
    if "\<forall>x\<in>set u. \<not> is_upper x" "list_all plain_part xs" for u xs
  proof (cases "concat (map capitalize xs)")
    case Nil
    with that(1) show ?thesis by (simp only: append_Nil2) simp
  next
    case (Cons y ys)
    with head [OF that(2)] that(1) show ?thesis
      by (simp only: Cons) (simp add: takeWhile_append)
  qed
  from Cons.prems(3) p q qs
  have eq: "to_upper c = to_upper d" "r @ concat (map capitalize ps) = t @ concat (map capitalize qs')"
    by auto
  have "r = t"
    using take_part [of r ps] take_part [of t qs'] p(3) q(3) Cons.prems(1,2) qs eq(2) by simp
  moreover from eq(1) p(2) q(2) have "c = d" by (simp add: to_upper_inj)
  moreover have "ps = qs'"
    using Cons.IH [of qs'] Cons.prems(1,2) qs eq(2) \<open>r = t\<close> by simp
  ultimately show ?case by (simp add: p q qs)
qed

lemma MapAdapter_inj_on: "inj_on MapAdapterToConditionType {a. plain_adapter_name a}"
proof (rule inj_onI)
  fix a b
  assume a: "a \<in> {a. plain_adapter_name a}" and b: "b \<in> {a. plain_adapter_name a}"
    and eq: "MapAdapterToConditionType a = MapAdapterToConditionType b"
  then have "Split (CHR ''-'') a = Split (CHR ''-'') b"
    by (intro capitalized_parts_inj) (auto simp: plain_adapter_name_def MapAdapterToConditionType_def)
  then show "a = b" by (metis Join_Split)
qed

section \<open>Masking\<close>

definition RedactedPlaceholder :: string where
  "RedactedPlaceholder = ''***REDACTED***''"

definition maxMaskingDepth :: nat where
  "maxMaskingDepth = 20"

definition sensitivePatterns :: "string list" where
  "sensitivePatterns =
     [''password'', ''secret'', ''token'', ''apikey'', ''privatekey'', ''secretkey'', ''accesskey'',
      ''sshkey'', ''encryptionkey'', ''accountkey'', ''servicekey'', ''registrykey'', ''signingkey'',
      ''credential'', ''api_key'', ''passphrase'', ''private'', ''auth'', ''connection'', ''cert'',
      ''kubeconfig'', ''bearer'']"

definition isSensitiveKey :: "string \<Rightarrow> bool" where
  "isSensitiveKey key = list_ex (\<lambda>p. Contains (ToLower key) p) sensitivePatterns"

function maskSensitiveFieldsDepth :: "(string \<times> json) list \<Rightarrow> nat \<Rightarrow> (string \<times> json) list"
  and maskSensitiveSliceDepth :: "json list \<Rightarrow> nat \<Rightarrow> json list" where
  "maskSensitiveFieldsDepth data depth =
     (if depth \<ge> maxMaskingDepth then []
      else map (\<lambda>(k, v).
             (k, if isSensitiveKey k then JStr RedactedPlaceholder
                 else case v of
                        JObj nestedMap \<Rightarrow> JObj (maskSensitiveFieldsDepth nestedMap (depth + 1))
                      | JArr nestedSlice \<Rightarrow> JArr (maskSensitiveSliceDepth nestedSlice (depth + 1))
                      | _ \<Rightarrow> v)) data)"
| "maskSensitiveSliceDepth sl depth =
     (if depth \<ge> maxMaskingDepth then []
      else map (\<lambda>elem. case elem of
             JObj elemMap \<Rightarrow> JObj (maskSensitiveFieldsDepth elemMap (depth + 1))
           | JArr elemSlice \<Rightarrow> JArr (maskSensitiveSliceDepth elemSlice (depth + 1))
           | _ \<Rightarrow> elem) sl)"
  by pat_completeness auto
termination
  by (relation "measure (\<lambda>x. case x of Inl (_, d) \<Rightarrow> maxMaskingDepth - d | Inr (_, d) \<Rightarrow> maxMaskingDepth - d)")
     (auto simp: maxMaskingDepth_def)

declare maskSensitiveFieldsDepth.simps [simp del] maskSensitiveSliceDepth.simps [simp del]
lemmas mask_simps = maskSensitiveFieldsDepth.simps maskSensitiveSliceDepth.simps

definition MaskSensitiveFields :: "(string \<times> json) list \<Rightarrow> (string \<times> json) list" where
  "MaskSensitiveFields data = maskSensitiveFieldsDepth data 0"

text \<open>No member with a sensitive key, at any depth, holds anything but the placeholder.\<close>

fun redacted :: "json \<Rightarrow> bool" where
  "redacted (JObj ms) =
     list_all (\<lambda>m. (if isSensitiveKey (fst m) then snd m = JStr RedactedPlaceholder else redacted (snd m))) ms"
| "redacted (JArr xs) = list_all redacted xs"
| "redacted _ = True"

text \<open>How deep objects and arrays nest.\<close>

fun nesting :: "json \<Rightarrow> nat" where
  "nesting (JObj ms) = Suc (fold max (map (\<lambda>m. nesting (snd m)) ms) 0)"
| "nesting (JArr xs) = Suc (fold max (map nesting xs) 0)"
| "nesting _ = 0"

text \<open>No key of the value is sensitive.\<close>

fun harmless :: "json \<Rightarrow> bool" where
  "harmless (JObj ms) = list_all (\<lambda>m. \<not> isSensitiveKey (fst m) \<and> harmless (snd m)) ms"
| "harmless (JArr xs) = list_all harmless xs"
| "harmless _ = True"

lemma fold_max_le: "fold max xs (a :: nat) \<le> n \<longleftrightarrow> a \<le> n \<and> (\<forall>x\<in>set xs. x \<le> n)"
  by (induction xs arbitrary: a) auto

lemma mask_redacted:
  "redacted (JObj (maskSensitiveFieldsDepth data depth))"
  "redacted (JArr (maskSensitiveSliceDepth sl depth))"
proof (induction data depth and sl depth rule: maskSensitiveFieldsDepth_maskSensitiveSliceDepth.induct)
  case (1 data depth)
  then show ?case
    by (subst maskSensitiveFieldsDepth.simps) (force simp: list_all_iff split: json.splits)
next
  case (2 sl depth)
  then show ?case
    by (subst maskSensitiveSliceDepth.simps) (force simp: list_all_iff split: json.splits)
qed

lemma mask_nesting:
  "depth \<le> maxMaskingDepth \<Longrightarrow> nesting (JObj (maskSensitiveFieldsDepth data depth)) \<le> Suc (maxMaskingDepth - depth)"
  "depth \<le> maxMaskingDepth \<Longrightarrow> nesting (JArr (maskSensitiveSliceDepth sl depth)) \<le> Suc (maxMaskingDepth - depth)"
proof (induction data depth and sl depth rule: maskSensitiveFieldsDepth_maskSensitiveSliceDepth.induct)
  case (1 data depth)
  show ?case
  proof (cases "depth < maxMaskingDepth")
    case True
    then have d: "\<not> depth \<ge> maxMaskingDepth" "depth + 1 \<le> maxMaskingDepth"
      "Suc (maxMaskingDepth - (depth + 1)) = maxMaskingDepth - depth" by simp_all
    have "nesting (if isSensitiveKey k then JStr RedactedPlaceholder
          else case v of JObj nm \<Rightarrow> JObj (maskSensitiveFieldsDepth nm (depth + 1))
               | JArr ns \<Rightarrow> JArr (maskSensitiveSliceDepth ns (depth + 1)) | _ \<Rightarrow> v) \<le> maxMaskingDepth - depth"
      if m: "(k, v) \<in> set data" for k v
    proof (cases "isSensitiveKey k")
      case False
      with 1(1) [OF d(1) m refl False] 1(2) [OF d(1) m refl False] d show ?thesis by (cases v) simp_all
    qed simp
    with d show ?thesis
      by (subst maskSensitiveFieldsDepth.simps) (auto simp: fold_max_le)
  qed (simp add: maskSensitiveFieldsDepth.simps)
next
  case (2 sl depth)
  show ?case
  proof (cases "depth < maxMaskingDepth")
    case True
    then have d: "\<not> depth \<ge> maxMaskingDepth" "depth + 1 \<le> maxMaskingDepth"
      "Suc (maxMaskingDepth - (depth + 1)) = maxMaskingDepth - depth" by simp_all
    have "nesting (case v of JObj nm \<Rightarrow> JObj (maskSensitiveFieldsDepth nm (depth + 1))
               | JArr ns \<Rightarrow> JArr (maskSensitiveSliceDepth ns (depth + 1)) | _ \<Rightarrow> v) \<le> maxMaskingDepth - depth"
      if m: "v \<in> set sl" for v
      using 2(1) [OF d(1) m] 2(2) [OF d(1) m] d by (cases v) simp_all
    with d show ?thesis
      by (subst maskSensitiveSliceDepth.simps) (auto simp: fold_max_le)
  qed (simp add: maskSensitiveSliceDepth.simps)
qed

lemma nesting_member:
  "Suc depth + nesting v \<le> n" if "depth + nesting (JObj ms) \<le> n" "(k, v) \<in> set ms"
proof -
  have "fold max (map (\<lambda>m. nesting (snd m)) ms) 0 \<le> n - Suc depth" using that(1) by simp
  then have "nesting v \<le> n - Suc depth" using that(2) by (force simp: fold_max_le)
  with that(1) show ?thesis by simp
qed

lemma nesting_elem:
  "Suc depth + nesting v \<le> n" if "depth + nesting (JArr xs) \<le> n" "v \<in> set xs"
proof -
  have "fold max (map nesting xs) 0 \<le> n - Suc depth" using that(1) by simp
  then have "nesting v \<le> n - Suc depth" using that(2) by (force simp: fold_max_le)
  with that(1) show ?thesis by simp
qed

lemma mask_harmless:
  "harmless (JObj data) \<Longrightarrow> depth + nesting (JObj data) \<le> maxMaskingDepth \<Longrightarrow> maskSensitiveFieldsDepth data depth = data"
  "harmless (JArr sl) \<Longrightarrow> depth + nesting (JArr sl) \<le> maxMaskingDepth \<Longrightarrow> maskSensitiveSliceDepth sl depth = sl"
proof (induction data depth and sl depth rule: maskSensitiveFieldsDepth_maskSensitiveSliceDepth.induct)
  case (1 data depth)
  have d: "\<not> depth \<ge> maxMaskingDepth" using "1.prems"(2) by simp
  have "(\<lambda>(k, v). (k, if isSensitiveKey k then JStr RedactedPlaceholder
          else case v of JObj nm \<Rightarrow> JObj (maskSensitiveFieldsDepth nm (depth + 1))
               | JArr ns \<Rightarrow> JArr (maskSensitiveSliceDepth ns (depth + 1)) | _ \<Rightarrow> v)) m = m"
    if m: "m \<in> set data" for m
  proof -
    obtain k v where kv: "m = (k, v)" by (cases m)
    have n: "depth + 1 + nesting v \<le> maxMaskingDepth"
      using nesting_member [OF "1.prems"(2) m [unfolded kv]] by simp
    from "1.prems"(1) m kv have h: "\<not> isSensitiveKey k" "harmless v" by (auto simp: list_all_iff)
    show ?thesis
      using 1(1) [OF d m kv [symmetric] h(1)] 1(2) [OF d m kv [symmetric] h(1)] n h
      by (cases v) (simp_all add: kv)
  qed
  then show ?case
    by (subst maskSensitiveFieldsDepth.simps) (simp add: d map_idI)
next
  case (2 sl depth)
  have d: "\<not> depth \<ge> maxMaskingDepth" using "2.prems"(2) by simp
  have "(case m of JObj nm \<Rightarrow> JObj (maskSensitiveFieldsDepth nm (depth + 1))
               | JArr ns \<Rightarrow> JArr (maskSensitiveSliceDepth ns (depth + 1)) | _ \<Rightarrow> m) = m"
    if m: "m \<in> set sl" for m
  proof -
    have n: "depth + 1 + nesting m \<le> maxMaskingDepth"
      using nesting_elem [OF "2.prems"(2) m] by simp
    from "2.prems"(1) m have h: "harmless m" by (auto simp: list_all_iff)
    show ?thesis
      using 2(1) [OF d m] 2(2) [OF d m] n h by (cases m) simp_all
  qed
  then show ?case
    by (subst maskSensitiveSliceDepth.simps) (simp add: d map_idI)
qed

lemma mask_keys: "map fst (MaskSensitiveFields data) = map fst data"
  by (auto simp: MaskSensitiveFields_def maskSensitiveFieldsDepth.simps maxMaskingDepth_def)

section \<open>dig\<close>

text \<open>\<open>strconv.Atoi\<close>: an optional sign and digits; \<open>None\<close> is a syntax error.\<close>

definition digits_value :: "string \<Rightarrow> nat option" where
  "digits_value s = (if s \<noteq> [] \<and> list_all is_digit s
     then Some (foldl (\<lambda>n c. 10 * n + ((of_char c :: nat) - 48)) 0 s) else None)"

fun Atoi :: "string \<Rightarrow> int option" where
  "Atoi [] = None"
| "Atoi (c # s) =
     (if c = CHR ''-'' then map_option (\<lambda>n. - int n) (digits_value s)
      else if c = CHR ''+'' then map_option int (digits_value s)
      else map_option int (digits_value (c # s)))"

text \<open>\<open>strconv.ParseInt(v, 10, 64)\<close>: a syntax error or a value out of range is \<open>None\<close>.\<close>

definition ParseInt :: "string \<Rightarrow> int option" where
  "ParseInt v = (case Atoi v of None \<Rightarrow> None | Some i \<Rightarrow> if - (2 ^ 63) \<le> i \<and> i < 2 ^ 63 then Some i else None)"

text \<open>\<open>digFunc\<close>: \<open>None\<close> is CEL's null.\<close>

fun dig_parts :: "json \<Rightarrow> string list \<Rightarrow> json option" where
  "dig_parts current [] = Some current"
| "dig_parts current (rawPart # rest) =
     (let part = TrimSpace rawPart in
      if part = [] then dig_parts current rest
      else case current of
             JObj ms \<Rightarrow> (case map_of ms part of None \<Rightarrow> None | Some next \<Rightarrow> dig_parts next rest)
           | JArr xs \<Rightarrow>
               (case Atoi part of
                  None \<Rightarrow> None
                | Some idx \<Rightarrow> if idx < 0 \<or> idx \<ge> int (length xs) then None
                              else dig_parts (xs ! nat idx) rest)
           | _ \<Rightarrow> None)"

definition digFunc :: "json \<Rightarrow> string \<Rightarrow> json option" where
  "digFunc target path =
     (let pathStr = TrimSpace path in
      if pathStr = [] then Some target else dig_parts target (Split (CHR ''.'') pathStr))"

lemma redacted_member:
  "redacted (JObj ms) \<Longrightarrow> map_of ms k = Some v \<Longrightarrow>
     v = JStr RedactedPlaceholder \<or> redacted v"
  by (auto simp: list_all_iff dest!: map_of_SomeD split: if_splits)

text \<open>Whatever path is followed through masked data, what is reached is masked.\<close>

lemma dig_parts_redacted:
  "redacted j \<Longrightarrow> dig_parts j ps = Some v \<Longrightarrow> redacted v"
proof (induction j ps rule: dig_parts.induct)
  case (2 current rawPart rest)
  show ?case
  proof (cases "TrimSpace rawPart = []")
    case False
    show ?thesis
    proof (cases current)
      case (JObj ms)
      with 2 False show ?thesis
        using redacted_member [of ms "TrimSpace rawPart"]
        by (auto simp: Let_def split: option.splits)
    next
      case (JArr xs)
      with 2 False show ?thesis
        by (auto simp: Let_def list_all_length split: option.splits if_splits)
    qed (use 2 False in \<open>auto simp: Let_def\<close>)
  qed (use 2 in \<open>auto simp: Let_def\<close>)
qed simp

end
