(* ===== verification/Aggregation.thy ===== *)
theory Aggregation
  imports Api_Types Util
begin

text \<open>
  \<open>pkg/services/aggregation.go\<close>: how the stored reports of the required adapters and the previous
  conditions become the \<open>Reconciled\<close>, \<open>LastKnownReconciled\<close> and per-adapter conditions of a
  resource, and the gate for its hard deletion.  \<open>byAdapter[name]\<close> of an absent adapter is Go's zero
  snapshot.  Log calls are left out.
\<close>

definition reasonReconciledAll :: string where "reasonReconciledAll = ''ReconciledAll''"
definition reasonReconciledMissingAdapters :: string where "reasonReconciledMissingAdapters = ''ReconciledMissingAdapters''"
definition reasonReconciledWaitingForChildren :: string where "reasonReconciledWaitingForChildren = ''ReconciledWaitingForChildren''"
definition reasonLKRAllReconciled :: string where "reasonLKRAllReconciled = ''AllAdaptersReconciled''"
definition reasonLKRMissingReports :: string where "reasonLKRMissingReports = ''AdaptersMissingReports''"
definition reasonLKRNotAvailable :: string where "reasonLKRNotAvailable = ''AdapterReportedNotAvailable''"
definition reasonLKRNotAtSameGeneration :: string where "reasonLKRNotAtSameGeneration = ''AdaptersNotAtSameGeneration''"

record aggregate_input =
  ai_ResourceGeneration :: int32
  ai_RefTime :: gotime
  ai_DeletedTime :: "gotime option"
  ai_PrevConditionsJSON :: jsonb
  ai_RequiredAdapters :: "string list"
  ai_AdapterStatuses :: "adapter_status list"
  ai_HasChildResources :: bool

definition AdapterObservedTime :: "adapter_status \<Rightarrow> gotime" where
  "AdapterObservedTime s = as_LastReportTime s"

section \<open>Previous conditions\<close>

record prev_conditions =
  pc_Reconciled :: "resource_condition option"
  pc_LastKnown :: "resource_condition option"
  pc_Adapters :: "string \<rightharpoonup> resource_condition"

definition no_prev :: prev_conditions where
  "no_prev = \<lparr>pc_Reconciled = None, pc_LastKnown = None, pc_Adapters = Map.empty\<rparr>"

definition add_prev :: "prev_conditions \<Rightarrow> resource_condition \<Rightarrow> prev_conditions" where
  "add_prev p c =
     (if rc_Type c = ResourceConditionTypeReconciled then p\<lparr>pc_Reconciled := Some c\<rparr>
      else if rc_Type c = ResourceConditionTypeLastKnownReconciled then p\<lparr>pc_LastKnown := Some c\<rparr>
      else p\<lparr>pc_Adapters := (pc_Adapters p)(rc_Type c \<mapsto> c)\<rparr>)"

definition parsePrevConditions :: "jsonb \<Rightarrow> prev_conditions" where
  "parsePrevConditions raw =
     (if raw = JEmpty then no_prev
      else case decode_resource_conditions raw of
             None \<Rightarrow> no_prev
           | Some cs \<Rightarrow> foldl add_prev no_prev cs)"

definition extractPrevReconciledStatus :: "jsonb \<Rightarrow> string option" where
  "extractPrevReconciledStatus raw = map_option rc_Status (pc_Reconciled (parsePrevConditions raw))"

section \<open>Normalization\<close>

record snapshot =
  sn_observedTime :: gotime
  sn_reason :: "string option"
  sn_message :: "string option"
  sn_availableTrue :: bool
  sn_finalizedTrue :: bool
  sn_observedGeneration :: int32

type_synonym snapshots = "string \<rightharpoonup> snapshot"

definition zero_snapshot :: snapshot where
  "zero_snapshot = \<lparr>sn_observedTime = 0, sn_reason = None, sn_message = None, sn_availableTrue = False,
     sn_finalizedTrue = False, sn_observedGeneration = 0\<rparr>"

definition snap_at :: "snapshots \<Rightarrow> string \<Rightarrow> snapshot" where
  "snap_at m a = (case m a of None \<Rightarrow> zero_snapshot | Some s \<Rightarrow> s)"

text \<open>The body of the loop: the snapshot of one stored report, or \<open>None\<close> for \<open>continue\<close>.\<close>

definition snapshot_of :: "string list \<Rightarrow> int32 \<Rightarrow> adapter_status \<Rightarrow> snapshot option" where
  "snapshot_of required resourceGen s =
     (if as_Adapter s \<notin> set required then None
      else if i32_less resourceGen (as_ObservedGeneration s) then None
      else case (if as_Conditions s \<noteq> JEmpty then decode_adapter_conditions (as_Conditions s) else Some []) of
        None \<Rightarrow> None
      | Some conditions \<Rightarrow>
          (case find_first (\<lambda>c. ac_Type c = AdapterConditionTypeAvailable) conditions of
             None \<Rightarrow> None
           | Some avail \<Rightarrow>
               if ac_Status avail \<noteq> AdapterConditionTrue \<and> ac_Status avail \<noteq> AdapterConditionFalse then None
               else Some \<lparr>sn_observedTime = AdapterObservedTime s, sn_reason = ac_Reason avail,
                 sn_message = ac_Message avail, sn_availableTrue = (ac_Status avail = AdapterConditionTrue),
                 sn_finalizedTrue =
                   (case find_first (\<lambda>c. ac_Type c = AdapterConditionTypeFinalized) conditions of
                      None \<Rightarrow> False | Some f \<Rightarrow> ac_Status f = AdapterConditionTrue),
                 sn_observedGeneration = as_ObservedGeneration s\<rparr>))"

fun normalize_loop :: "string list \<Rightarrow> int32 \<Rightarrow> adapter_status list \<Rightarrow> snapshots \<Rightarrow> snapshots" where
  "normalize_loop required g [] out = out"
| "normalize_loop required g (s # ss) out =
     normalize_loop required g ss
       (case snapshot_of required g s of None \<Rightarrow> out | Some sn \<Rightarrow> out(as_Adapter s \<mapsto> sn))"

definition normalizeAdapterReportsForAggregation ::
  "adapter_status list \<Rightarrow> string list \<Rightarrow> int32 \<Rightarrow> snapshots" where
  "normalizeAdapterReportsForAggregation l required resourceGen = normalize_loop required resourceGen l Map.empty"

section \<open>Reconciled\<close>

fun minTime :: "gotime list \<Rightarrow> gotime" where
  "minTime [] = 0"
| "minTime (t # ts) = foldl (\<lambda>t0 t. if t < t0 then t else t0) t ts"

definition not_met_at :: "(snapshot \<Rightarrow> bool) \<Rightarrow> snapshots \<Rightarrow> int32 \<Rightarrow> string \<Rightarrow> bool" where
  "not_met_at met m g name =
     (case m name of None \<Rightarrow> True | Some s \<Rightarrow> \<not> met s \<or> sn_observedGeneration s \<noteq> g)"

definition buildReconciledFalseMessage :: "string list \<Rightarrow> snapshots \<Rightarrow> int32 \<Rightarrow> string" where
  "buildReconciledFalseMessage required m g =
     Sprintf ''Required adapters not reporting Available=True: [%s]. Currently reporting: [%s]''
       [FS (Join '', '' (sort (filter (not_met_at sn_availableTrue m g) required))),
        FS (Join '', '' (sort (filter (\<lambda>a. m a \<noteq> None) required)))]"

definition buildFinalizedFalseMessage :: "string list \<Rightarrow> snapshots \<Rightarrow> int32 \<Rightarrow> string" where
  "buildFinalizedFalseMessage required m g =
     Sprintf ''Required adapters not reporting Finalized=True: [%s]. Currently reporting: [%s]''
       [FS (Join '', '' (sort (filter (not_met_at sn_finalizedTrue m g) required))),
        FS (Join '', '' (sort (filter (\<lambda>a. m a \<noteq> None) required)))]"

fun max_generation :: "snapshots \<Rightarrow> string list \<Rightarrow> int32 \<Rightarrow> int32" where
  "max_generation m [] maxG = maxG"
| "max_generation m (a # as) maxG =
     max_generation m as
       (case m a of None \<Rightarrow> maxG
        | Some s \<Rightarrow> if i32_less maxG (sn_observedGeneration s) then sn_observedGeneration s else maxG)"

definition computeReconciledObservedGeneration :: "int32 \<Rightarrow> string \<Rightarrow> string list \<Rightarrow> snapshots \<Rightarrow> int32" where
  "computeReconciledObservedGeneration resourceGen status required m =
     (if status = ConditionTrue then resourceGen else max_generation m required 0)"

definition times_at :: "snapshots \<Rightarrow> int32 \<Rightarrow> string list \<Rightarrow> gotime list" where
  "times_at m g required =
     map (\<lambda>a. sn_observedTime (snap_at m a))
       (filter (\<lambda>a. case m a of None \<Rightarrow> False | Some s \<Rightarrow> sn_observedGeneration s = g) required)"

definition computeReconciledLastUpdatedTime :: "int32 \<Rightarrow> gotime \<Rightarrow> string list \<Rightarrow> snapshots \<Rightarrow> gotime" where
  "computeReconciledLastUpdatedTime resourceGen refTime required m =
     (let atGen = times_at m resourceGen required in if atGen = [] then refTime else minTime atGen)"

definition computeReconciledLastTransitionTime ::
  "int32 \<Rightarrow> gotime \<Rightarrow> resource_condition option \<Rightarrow> string \<Rightarrow> gotime \<Rightarrow> gotime" where
  "computeReconciledLastTransitionTime resourceGen refTime prev newStatus newLastUpdated =
     (case prev of
        None \<Rightarrow> newLastUpdated
      | Some p \<Rightarrow>
          if rc_Status p = newStatus then rc_LastTransitionTime p
          else if rc_Status p = ConditionTrue \<and> newStatus = ConditionFalse
                  \<and> i32_less (rc_ObservedGeneration p) resourceGen then refTime
          else newLastUpdated)"

definition kept_created :: "gotime \<Rightarrow> resource_condition option \<Rightarrow> gotime" where
  "kept_created refTime prev =
     (case prev of Some p \<Rightarrow> if \<not> IsZero (rc_CreatedTime p) then rc_CreatedTime p else refTime | None \<Rightarrow> refTime)"

definition all_adapters_met :: "bool \<Rightarrow> int32 \<Rightarrow> string list \<Rightarrow> snapshots \<Rightarrow> bool" where
  "all_adapters_met isDeleting resourceGen required m \<longleftrightarrow>
     required \<noteq> [] \<and>
     list_all (\<lambda>a. case m a of
        None \<Rightarrow> False
      | Some s \<Rightarrow> sn_observedGeneration s = resourceGen \<and>
                   (if isDeleting then sn_finalizedTrue s else sn_availableTrue s)) required"

definition computeReconciled ::
  "int32 \<Rightarrow> gotime \<Rightarrow> gotime option \<Rightarrow> resource_condition option \<Rightarrow> string list \<Rightarrow> snapshots \<Rightarrow> bool \<Rightarrow>
     resource_condition" where
  "computeReconciled resourceGen refTime deletedTime prev required m hasChildResources =
     (let isDeleting = (deletedTime \<noteq> None);
          met = all_adapters_met isDeleting resourceGen required m;
          status = (if \<not> met \<or> (isDeleting \<and> hasChildResources) then ConditionFalse else ConditionTrue);
          (reason, message) =
            (if status = ConditionTrue then
               (reasonReconciledAll, ''All required adapters reported Available=True or Finalized=True at the current generation'')
             else if isDeleting \<and> met then
               (reasonReconciledWaitingForChildren, ''Deletion in progress. All required adapters reported Finalized=True but child resources still exist'')
             else if isDeleting then
               (reasonReconciledMissingAdapters, buildFinalizedFalseMessage required m resourceGen)
             else (reasonReconciledMissingAdapters, buildReconciledFalseMessage required m resourceGen));
          lastUpdated = computeReconciledLastUpdatedTime resourceGen refTime required m
      in \<lparr>rc_CreatedTime = kept_created refTime prev, rc_LastUpdatedTime = lastUpdated,
          rc_LastTransitionTime =
            computeReconciledLastTransitionTime resourceGen refTime prev status lastUpdated,
          rc_Reason = Some reason, rc_Message = Some message, rc_ResourceID = [],
          rc_Type = ResourceConditionTypeReconciled, rc_Status = status,
          rc_ObservedGeneration = computeReconciledObservedGeneration resourceGen status required m\<rparr>)"

section \<open>LastKnownReconciled\<close>

fun same_gen_loop :: "snapshots \<Rightarrow> string list \<Rightarrow> int32 option \<Rightarrow> bool \<Rightarrow> bool \<times> int32 \<times> bool" where
  "same_gen_loop m [] g mixed = (True, (case g of Some v \<Rightarrow> v | None \<Rightarrow> 0), mixed)"
| "same_gen_loop m (a # as) g mixed =
     (case m a of
        None \<Rightarrow> (False, 0, False)
      | Some s \<Rightarrow>
          if \<not> sn_availableTrue s then (False, 0, False)
          else case g of
                 None \<Rightarrow> same_gen_loop m as (Some (sn_observedGeneration s)) mixed
               | Some v \<Rightarrow> same_gen_loop m as g (if v \<noteq> sn_observedGeneration s then True else mixed))"

definition sameGenerationAllTrue :: "string list \<Rightarrow> snapshots \<Rightarrow> bool \<times> int32 \<times> bool" where
  "sameGenerationAllTrue required m =
     (if required = [] then (True, 1, False) else same_gen_loop m required None False)"

definition hasMissingAdapter :: "string list \<Rightarrow> snapshots \<Rightarrow> bool" where
  "hasMissingAdapter required m = list_ex (\<lambda>a. m a = None) required"

definition hasAdapterNotAvailable :: "string list \<Rightarrow> snapshots \<Rightarrow> bool" where
  "hasAdapterNotAvailable required m =
     list_ex (\<lambda>a. case m a of None \<Rightarrow> False | Some s \<Rightarrow> \<not> sn_availableTrue s) required"

definition prev_true :: "resource_condition option \<Rightarrow> bool" where
  "prev_true prev = (case prev of None \<Rightarrow> False | Some p \<Rightarrow> rc_Status p = ConditionTrue)"

definition prev_generation :: "resource_condition option \<Rightarrow> int32" where
  "prev_generation prev = (case prev of None \<Rightarrow> 0 | Some p \<Rightarrow> rc_ObservedGeneration p)"

definition computeLastKnownReconciledStatus ::
  "resource_condition option \<Rightarrow> string list \<Rightarrow> snapshots \<Rightarrow> bool \<Rightarrow> bool \<Rightarrow> string" where
  "computeLastKnownReconciledStatus prev required m allTrue mixed =
     (if required = [] then ConditionFalse
      else if hasMissingAdapter required m then ConditionFalse
      else if allTrue then
        (if \<not> mixed \<or> prev_true prev then ConditionTrue else ConditionFalse)
      else if \<not> prev_true prev then ConditionFalse
      else if list_ex (\<lambda>a. \<not> sn_availableTrue (snap_at m a) \<and>
                 sn_observedGeneration (snap_at m a) = prev_generation prev) required then ConditionFalse
      else ConditionTrue)"

definition computeLastKnownReconciledObservedGeneration ::
  "string \<Rightarrow> resource_condition option \<Rightarrow> string list \<Rightarrow> snapshots \<Rightarrow> bool \<Rightarrow> int32 \<Rightarrow> bool \<Rightarrow> int32" where
  "computeLastKnownReconciledObservedGeneration status prev required m allTrue commonGen mixed =
     (if required = [] then 0
      else if status = ConditionTrue then
        (if allTrue \<and> \<not> mixed then commonGen else prev_generation prev)
      else let maxG = max_generation m required 0 in
           if maxG = 0 then prev_generation prev else maxG)"

definition computeLastKnownReconciledLastUpdatedTime ::
  "string \<Rightarrow> resource_condition option \<Rightarrow> gotime \<Rightarrow> string list \<Rightarrow> snapshots \<Rightarrow> int32 \<Rightarrow> bool \<Rightarrow> bool \<Rightarrow> gotime" where
  "computeLastKnownReconciledLastUpdatedTime status prev refTime required m observedGen allTrue mixed =
     (let kept = (case prev of None \<Rightarrow> refTime | Some p \<Rightarrow> rc_LastUpdatedTime p);
          hasFalseAtX = list_ex (\<lambda>a. case m a of None \<Rightarrow> False
             | Some s \<Rightarrow> sn_observedGeneration s = observedGen \<and> \<not> sn_availableTrue s) required
      in if required = [] then refTime
         else if allTrue \<and> \<not> mixed then minTime (map (\<lambda>a. sn_observedTime (snap_at m a)) required)
         else if allTrue \<and> mixed \<and> status = ConditionTrue then kept
         else if status = ConditionFalse \<and> hasFalseAtX \<and> times_at m observedGen required \<noteq> []
           then minTime (times_at m observedGen required)
         else kept)"

definition computeGenericLastTransitionTime :: "resource_condition option \<Rightarrow> string \<Rightarrow> gotime \<Rightarrow> gotime" where
  "computeGenericLastTransitionTime prev newStatus newLastUpdated =
     (case prev of
        None \<Rightarrow> newLastUpdated
      | Some p \<Rightarrow> if rc_Status p = newStatus then rc_LastTransitionTime p else newLastUpdated)"

definition computeLastKnownReconciled ::
  "gotime \<Rightarrow> resource_condition option \<Rightarrow> string list \<Rightarrow> snapshots \<Rightarrow> resource_condition" where
  "computeLastKnownReconciled refTime prev required m =
     (case sameGenerationAllTrue required m of
        (allTrue, commonGen, mixed) \<Rightarrow>
          (let status = computeLastKnownReconciledStatus prev required m allTrue mixed;
               obsGen = computeLastKnownReconciledObservedGeneration status prev required m allTrue commonGen mixed;
               lastUpdated = computeLastKnownReconciledLastUpdatedTime status prev refTime required m obsGen allTrue mixed;
               (reason, message) =
                 (if status = ConditionTrue then
                    (reasonLKRAllReconciled, ''All required adapters report Available=True for the tracked generation'')
                  else if required = [] \<or> hasMissingAdapter required m then
                    (reasonLKRMissingReports, ''Required adapters have not yet reported status'')
                  else if hasAdapterNotAvailable required m then
                    (reasonLKRNotAvailable, ''One or more required adapters report Available=False'')
                  else (reasonLKRNotAtSameGeneration, ''Required adapters do not report a consistent Available state''))
           in \<lparr>rc_CreatedTime = kept_created refTime prev, rc_LastUpdatedTime = lastUpdated,
               rc_LastTransitionTime = computeGenericLastTransitionTime prev status lastUpdated,
               rc_Reason = Some reason, rc_Message = Some message, rc_ResourceID = [],
               rc_Type = ResourceConditionTypeLastKnownReconciled, rc_Status = status,
               rc_ObservedGeneration = obsGen\<rparr>))"

section \<open>Per-adapter conditions and the whole aggregation\<close>

definition adapter_condition_of ::
  "(string \<rightharpoonup> resource_condition) \<Rightarrow> gotime \<Rightarrow> string \<Rightarrow> snapshot \<Rightarrow> resource_condition" where
  "adapter_condition_of prevByType refTime adapterName snap =
     (let condType = MapAdapterToConditionType adapterName;
          prev = prevByType condType;
          status = (if sn_availableTrue snap then ConditionTrue else ConditionFalse)
      in \<lparr>rc_CreatedTime = kept_created refTime prev, rc_LastUpdatedTime = sn_observedTime snap,
          rc_LastTransitionTime = computeGenericLastTransitionTime prev status (sn_observedTime snap),
          rc_Reason = sn_reason snap, rc_Message = sn_message snap, rc_ResourceID = [],
          rc_Type = condType, rc_Status = status, rc_ObservedGeneration = sn_observedGeneration snap\<rparr>)"

fun computeAdapterConditions ::
  "string list \<Rightarrow> snapshots \<Rightarrow> (string \<rightharpoonup> resource_condition) \<Rightarrow> gotime \<Rightarrow> resource_condition list" where
  "computeAdapterConditions [] m prevByType refTime = []"
| "computeAdapterConditions (a # as) m prevByType refTime =
     (case m a of None \<Rightarrow> [] | Some snap \<Rightarrow> [adapter_condition_of prevByType refTime a snap])
     @ computeAdapterConditions as m prevByType refTime"

definition AggregateResourceStatus ::
  "aggregate_input \<Rightarrow> resource_condition \<times> resource_condition \<times> resource_condition list" where
  "AggregateResourceStatus i =
     (let prev = parsePrevConditions (ai_PrevConditionsJSON i);
          reports = normalizeAdapterReportsForAggregation (ai_AdapterStatuses i) (ai_RequiredAdapters i)
                      (ai_ResourceGeneration i)
      in (computeReconciled (ai_ResourceGeneration i) (ai_RefTime i) (ai_DeletedTime i) (pc_Reconciled prev)
            (ai_RequiredAdapters i) reports (ai_HasChildResources i),
          computeLastKnownReconciled (ai_RefTime i) (pc_LastKnown prev) (ai_RequiredAdapters i) reports,
          computeAdapterConditions (ai_RequiredAdapters i) reports (pc_Adapters prev) (ai_RefTime i)))"

section \<open>The hard-deletion gate\<close>

definition allAdaptersFinalized :: "string list \<Rightarrow> adapter_status list \<Rightarrow> int32 \<Rightarrow> bool" where
  "allAdaptersFinalized required statuses currentGeneration =
     (let finalizedAdapters =
        map as_Adapter (filter (\<lambda>s. as_ObservedGeneration s = currentGeneration \<and> IsFinalized s) statuses)
      in list_all (\<lambda>a. a \<in> set finalizedAdapters) required)"


section \<open>Facts about the snapshots\<close>

text \<open>The first condition of a type in a stored report; a report is decisive when its \<open>Available\<close>
  condition is \<open>True\<close> or \<open>False\<close>.\<close>

definition first_condition :: "string \<Rightarrow> adapter_status \<Rightarrow> adapter_condition option" where
  "first_condition ty s =
     (case decode_adapter_conditions (as_Conditions s) of
        None \<Rightarrow> None | Some cs \<Rightarrow> find_first (\<lambda>c. ac_Type c = ty) cs)"

definition says :: "string \<Rightarrow> string \<Rightarrow> adapter_status \<Rightarrow> bool" where
  "says ty st s \<longleftrightarrow> (case first_condition ty s of None \<Rightarrow> False | Some c \<Rightarrow> ac_Status c = st)"

definition decisive :: "adapter_status \<Rightarrow> bool" where
  "decisive s \<longleftrightarrow> says AdapterConditionTypeAvailable AdapterConditionTrue s
     \<or> says AdapterConditionTypeAvailable AdapterConditionFalse s"

lemma decode_nonempty:
  "(if as_Conditions s \<noteq> JEmpty then decode_adapter_conditions (as_Conditions s) else Some []) = Some cs \<Longrightarrow>
     first_condition ty s = find_first (\<lambda>c. ac_Type c = ty) cs"
  by (auto simp: first_condition_def split: if_splits)

lemma snapshot_of_Some:
  "snapshot_of required g s = Some sn \<longleftrightarrow>
     as_Adapter s \<in> set required \<and> \<not> i32_less g (as_ObservedGeneration s) \<and> decisive s \<and>
     sn_observedTime sn = as_LastReportTime s \<and> sn_observedGeneration sn = as_ObservedGeneration s \<and>
     (\<exists>c. first_condition AdapterConditionTypeAvailable s = Some c \<and> sn_reason sn = ac_Reason c \<and> sn_message sn = ac_Message c) \<and>
     sn_availableTrue sn = says AdapterConditionTypeAvailable AdapterConditionTrue s \<and>
     sn_finalizedTrue sn = says AdapterConditionTypeFinalized AdapterConditionTrue s"
  (is "?L \<longleftrightarrow> ?R")
proof (cases "if as_Conditions s \<noteq> JEmpty then decode_adapter_conditions (as_Conditions s) else Some []")
  case None
  then have "first_condition ty s = None" for ty by (auto simp: first_condition_def split: if_splits)
  with None show ?thesis by (auto simp: snapshot_of_def)
next
  case (Some cs)
  note fc = decode_nonempty [OF Some]
  show ?thesis
  proof
    assume ?L
    then show ?R
      by (auto simp: snapshot_of_def Some says_def decisive_def fc AdapterObservedTime_def
          split: if_splits option.splits)
  next
    assume ?R
    then show ?L
      by (cases sn) (auto simp: snapshot_of_def Some says_def decisive_def fc AdapterObservedTime_def
          split: if_splits option.splits)
  qed
qed

definition yields :: "string list \<Rightarrow> int32 \<Rightarrow> adapter_status \<Rightarrow> bool" where
  "yields required g s \<longleftrightarrow> as_Adapter s \<in> set required \<and> \<not> i32_less g (as_ObservedGeneration s) \<and> decisive s"

lemma snapshot_of_None: "snapshot_of required g s = None \<longleftrightarrow> \<not> yields required g s"
proof
  assume "snapshot_of required g s = None"
  then show "\<not> yields required g s"
  proof (rule contrapos_pn)
    assume y: "yields required g s"
    then obtain c where c: "first_condition AdapterConditionTypeAvailable s = Some c"
      by (auto simp: yields_def decisive_def says_def split: option.splits)
    let ?sn = "\<lparr>sn_observedTime = as_LastReportTime s, sn_reason = ac_Reason c, sn_message = ac_Message c,
      sn_availableTrue = says AdapterConditionTypeAvailable AdapterConditionTrue s,
      sn_finalizedTrue = says AdapterConditionTypeFinalized AdapterConditionTrue s,
      sn_observedGeneration = as_ObservedGeneration s\<rparr>"
    have "snapshot_of required g s = Some ?sn"
      unfolding snapshot_of_Some using y c by (simp add: yields_def)
    then show "snapshot_of required g s \<noteq> None" by simp
  qed
next
  assume "\<not> yields required g s"
  then show "snapshot_of required g s = None"
    by (cases "snapshot_of required g s") (auto simp: snapshot_of_Some yields_def)
qed

lemma normalize_loop_filter:
  "normalize_loop required g (filter (yields required g) l) out = normalize_loop required g l out"
  by (induction l arbitrary: out) (auto simp: snapshot_of_None [symmetric] split: option.splits)

lemma normalize_loop_cong:
  "(\<And>s. s \<in> set l \<Longrightarrow> snapshot_of required g s = snapshot_of required g' s) \<Longrightarrow>
     normalize_loop required g l out = normalize_loop required g' l out"
  by (induction l arbitrary: out) auto

lemma normalize_loop_unique:
  "distinct (map as_Adapter l) \<Longrightarrow>
     normalize_loop required g l out a =
       (case find_first (\<lambda>s. as_Adapter s = a) l of
          None \<Rightarrow> out a
        | Some s \<Rightarrow> (case snapshot_of required g s of None \<Rightarrow> out a | Some sn \<Rightarrow> Some sn))"
proof (induction l arbitrary: out)
  case (Cons s ss)
  show ?case
  proof (cases "as_Adapter s = a")
    case True
    with Cons.prems have "find_first (\<lambda>s. as_Adapter s = a) ss = None" by (auto intro: find_first_key_None)
    with True Cons show ?thesis by (auto split: option.splits)
  next
    case False
    with Cons show ?thesis by (auto split: option.splits)
  qed
qed simp

lemma normalize_Some:
  assumes "distinct (map as_Adapter l)"
  shows "normalizeAdapterReportsForAggregation l required g a = Some sn \<longleftrightarrow>
     (\<exists>s\<in>set l. as_Adapter s = a \<and> snapshot_of required g s = Some sn)"
proof -
  have "find_first (\<lambda>s. as_Adapter s = a) l = Some s" if "s \<in> set l" "as_Adapter s = a" for s
    using assms that by (rule find_first_key)
  then show ?thesis
    unfolding normalizeAdapterReportsForAggregation_def normalize_loop_unique [OF assms]
    by (cases "find_first (\<lambda>s. as_Adapter s = a) l")
       (force dest: find_first_Some split: option.splits)+
qed

lemma all_adapters_met_iff:
  assumes "distinct (map as_Adapter l)"
  shows "all_adapters_met deleting g required (normalizeAdapterReportsForAggregation l required g) \<longleftrightarrow>
     required \<noteq> [] \<and>
     (\<forall>a\<in>set required. \<exists>s\<in>set l. as_Adapter s = a \<and> as_ObservedGeneration s = g \<and>
        (if deleting then decisive s \<and> says AdapterConditionTypeFinalized AdapterConditionTrue s
         else says AdapterConditionTypeAvailable AdapterConditionTrue s))"
proof -
  have "(case normalizeAdapterReportsForAggregation l required g a of None \<Rightarrow> False
      | Some s \<Rightarrow> sn_observedGeneration s = g \<and> (if deleting then sn_finalizedTrue s else sn_availableTrue s)) \<longleftrightarrow>
      (\<exists>s\<in>set l. as_Adapter s = a \<and> as_ObservedGeneration s = g \<and>
        (if deleting then decisive s \<and> says AdapterConditionTypeFinalized AdapterConditionTrue s
         else says AdapterConditionTypeAvailable AdapterConditionTrue s))" (is "?L \<longleftrightarrow> ?R")
    if a: "a \<in> set required" for a
  proof
    assume ?L
    then obtain sn where "normalizeAdapterReportsForAggregation l required g a = Some sn"
      "sn_observedGeneration sn = g" "if deleting then sn_finalizedTrue sn else sn_availableTrue sn"
      by (auto split: option.splits)
    then show ?R unfolding normalize_Some [OF assms] snapshot_of_Some by fastforce
  next
    assume ?R
    then obtain s where s: "s \<in> set l" "as_Adapter s = a" "as_ObservedGeneration s = g"
      "if deleting then decisive s \<and> says AdapterConditionTypeFinalized AdapterConditionTrue s
         else says AdapterConditionTypeAvailable AdapterConditionTrue s" by blast
    then have "yields required g s" using a by (auto simp: yields_def decisive_def split: if_splits)
    then obtain sn where sn: "snapshot_of required g s = Some sn" by (metis snapshot_of_None not_None_eq)
    with s have "normalizeAdapterReportsForAggregation l required g a = Some sn"
      using normalize_Some [OF assms] by blast
    with s sn show ?L by (auto simp: snapshot_of_Some split: if_splits)
  qed
  then show ?thesis by (auto simp: all_adapters_met_def list_all_iff)
qed

text \<open>C4. \<open>Reconciled\<close> means what it says: the aggregated condition is \<open>True\<close> exactly when the entity has
  required adapters, every one of them has a stored report of the current generation that says
  \<open>Available=True\<close> (while the resource is being deleted: a decisive report that says
  \<open>Finalized=True\<close>), and no child is left of a resource being deleted.\<close>

theorem Reconciled_iff:
  assumes "distinct (map as_Adapter (ai_AdapterStatuses i))"
    and "AggregateResourceStatus i = (reconciled, lastKnown, adapters)"
  shows "rc_Status reconciled = ConditionTrue \<longleftrightarrow>
     ai_RequiredAdapters i \<noteq> [] \<and>
     (\<forall>a\<in>set (ai_RequiredAdapters i). \<exists>s\<in>set (ai_AdapterStatuses i).
        as_Adapter s = a \<and> as_ObservedGeneration s = ai_ResourceGeneration i \<and>
        (if ai_DeletedTime i \<noteq> None then decisive s \<and> says AdapterConditionTypeFinalized AdapterConditionTrue s
         else says AdapterConditionTypeAvailable AdapterConditionTrue s)) \<and>
     (ai_DeletedTime i \<noteq> None \<longrightarrow> \<not> ai_HasChildResources i)"
proof -
  have "rc_Status reconciled = ConditionTrue \<longleftrightarrow>
     all_adapters_met (ai_DeletedTime i \<noteq> None) (ai_ResourceGeneration i) (ai_RequiredAdapters i)
       (normalizeAdapterReportsForAggregation (ai_AdapterStatuses i) (ai_RequiredAdapters i) (ai_ResourceGeneration i)) \<and>
     (ai_DeletedTime i \<noteq> None \<longrightarrow> \<not> ai_HasChildResources i)"
    using assms(2) by (auto simp: AggregateResourceStatus_def computeReconciled_def Let_def split: prod.splits if_splits)
  then show ?thesis unfolding all_adapters_met_iff [OF assms(1)] by blast
qed

definition sample_report :: "string \<Rightarrow> int32 \<Rightarrow> string \<Rightarrow> adapter_status" where
  "sample_report adapter g st = \<lparr>as_LastReportTime = 100, as_CreatedTime = 50, as_UpdatedTime = 60, as_ID = ''s-'' @ adapter,
     as_ResourceType = ''Cluster'', as_ResourceID = ''c1'', as_Adapter = adapter,
     as_Conditions = encode_adapter_conditions
       [\<lparr>ac_LastTransitionTime = 90, ac_Reason = None, ac_Message = None, ac_Type = ''Available'', ac_Status = st\<rparr>],
     as_Data = JEmpty, as_Metadata = JEmpty, as_ObservedGeneration = g\<rparr>"

definition sample_input :: aggregate_input where
  "sample_input = \<lparr>ai_ResourceGeneration = 2, ai_RefTime = 40, ai_DeletedTime = None, ai_PrevConditionsJSON = JEmpty,
     ai_RequiredAdapters = [''dns'', ''validation''],
     ai_AdapterStatuses = [sample_report ''dns'' 2 ''True'', sample_report ''validation'' 2 ''True'', sample_report ''extra'' 1 ''False''],
     ai_HasChildResources = False\<rparr>"

lemma sample_report_says:
  "says AdapterConditionTypeAvailable AdapterConditionTrue (sample_report a g ''True'')"
  by (simp add: says_def first_condition_def sample_report_def status_defs condition_type_defs)

lemma sample_report_fields:
  "as_Adapter (sample_report a g st) = a" "as_ObservedGeneration (sample_report a g st) = g"
  by (simp_all add: sample_report_def)

lemma Reconciled_iff_witness:
  "rc_Status (fst (AggregateResourceStatus sample_input)) = ConditionTrue"
proof -
  obtain r l as where a: "AggregateResourceStatus sample_input = (r, l, as)" by (metis prod_cases3)
  have "distinct (map as_Adapter (ai_AdapterStatuses sample_input))"
    by (simp add: sample_input_def sample_report_def)
  from Reconciled_iff [OF this a] a show ?thesis
    by (simp add: sample_input_def sample_report_fields sample_report_says)
qed


section \<open>Observed generations\<close>

lemma max_generation_bounds:
  "sint b \<le> sint (max_generation m as b) \<and>
   (max_generation m as b = b \<or> (\<exists>a\<in>set as. \<exists>s. m a = Some s \<and> max_generation m as b = sn_observedGeneration s)) \<and>
   (\<forall>a\<in>set as. \<forall>s. m a = Some s \<longrightarrow> sint (sn_observedGeneration s) \<le> sint (max_generation m as b))"
proof (induction as arbitrary: b)
  case (Cons a as)
  show ?case
  proof (cases "m a")
    case None
    with Cons.IH [of b] show ?thesis by auto
  next
    case (Some s)
    let ?b = "if i32_less b (sn_observedGeneration s) then sn_observedGeneration s else b"
    have "sint b \<le> sint ?b" "sint (sn_observedGeneration s) \<le> sint ?b" by (auto simp: i32_less_def)
    moreover from Some have "max_generation m (a # as) b = max_generation m as ?b" by simp
    ultimately show ?thesis using Cons.IH [of ?b] Some by (auto split: if_splits)
  qed
qed simp

lemma normalize_generation:
  "normalize_loop required g l out a = Some sn \<Longrightarrow> out a = Some sn \<or> \<not> i32_less g (sn_observedGeneration sn)"
proof (induction l arbitrary: out)
  case (Cons s ss)
  show ?case
  proof (cases "snapshot_of required g s")
    case None
    with Cons show ?thesis by simp
  next
    case (Some x)
    then have "\<not> i32_less g (sn_observedGeneration x)" by (simp add: snapshot_of_Some)
    moreover have "normalize_loop required g ss (out(as_Adapter s \<mapsto> x)) a = Some sn"
      using Cons.prems Some by simp
    from Cons.IH [OF this] have "(out(as_Adapter s \<mapsto> x)) a = Some sn \<or> \<not> i32_less g (sn_observedGeneration sn)" .
    ultimately show ?thesis by (auto split: if_splits)
  qed
qed simp

lemma reports_not_future:
  "normalizeAdapterReportsForAggregation l required g a = Some sn \<Longrightarrow> sint (sn_observedGeneration sn) \<le> sint g"
  using normalize_generation [of required g l Map.empty a sn]
  by (auto simp: normalizeAdapterReportsForAggregation_def i32_less_def)

text \<open>The generation a \<open>Reconciled\<close> condition claims to have observed is honest: it is the
  resource's generation when the condition is \<open>True\<close>, it never exceeds it (a negative generation
  aside) nor falls below zero, and when it is \<open>False\<close> it is the greatest generation a counted
  report of a required adapter carries, or 0.\<close>

theorem Reconciled_observed_generation:
  fixes i
  defines "reports \<equiv> normalizeAdapterReportsForAggregation (ai_AdapterStatuses i) (ai_RequiredAdapters i) (ai_ResourceGeneration i)"
  assumes "AggregateResourceStatus i = (reconciled, lastKnown, adapters)"
  shows "(rc_Status reconciled = ConditionTrue \<longrightarrow> rc_ObservedGeneration reconciled = ai_ResourceGeneration i) \<and>
     (rc_Status reconciled \<noteq> ConditionTrue \<longrightarrow>
        0 \<le> sint (rc_ObservedGeneration reconciled) \<and>
        sint (rc_ObservedGeneration reconciled) \<le> max 0 (sint (ai_ResourceGeneration i)) \<and>
        (\<forall>a\<in>set (ai_RequiredAdapters i). \<forall>s. reports a = Some s \<longrightarrow>
           sint (sn_observedGeneration s) \<le> sint (rc_ObservedGeneration reconciled)))"
proof -
  have "rc_ObservedGeneration reconciled =
      (if rc_Status reconciled = ConditionTrue then ai_ResourceGeneration i
       else max_generation reports (ai_RequiredAdapters i) 0)"
    using assms(2) unfolding reports_def
    by (auto simp: AggregateResourceStatus_def computeReconciled_def computeReconciledObservedGeneration_def Let_def
        split: prod.splits)
  moreover have "sint (sn_observedGeneration s) \<le> sint (ai_ResourceGeneration i)" if "reports a = Some s" for a s
    using that unfolding reports_def by (rule reports_not_future)
  ultimately show ?thesis
    using max_generation_bounds [of 0 reports "ai_RequiredAdapters i"] by fastforce
qed

lemma Reconciled_observed_generation_witness:
  "sint (rc_ObservedGeneration (fst (AggregateResourceStatus (sample_input\<lparr>ai_RequiredAdapters := [''extra'']\<rparr>)))) \<le> 2"
proof -
  obtain r l as where a: "AggregateResourceStatus (sample_input\<lparr>ai_RequiredAdapters := [''extra'']\<rparr>) = (r, l, as)"
    by (metis prod_cases3)
  from Reconciled_observed_generation [OF a] a show ?thesis
    by (cases "rc_Status r = ConditionTrue") (auto simp: sample_input_def)
qed

section \<open>LastKnownReconciled\<close>

lemma same_gen_loop_Some:
  "same_gen_loop m as (Some v) mx =
     (if \<forall>a\<in>set as. \<exists>s. m a = Some s \<and> sn_availableTrue s
      then (True, v, mx \<or> (\<exists>a\<in>set as. sn_observedGeneration (snap_at m a) \<noteq> v))
      else (False, 0, False))"
  by (induction as arbitrary: mx) (auto simp: snap_at_def split: option.splits)

definition all_available :: "string list \<Rightarrow> snapshots \<Rightarrow> bool" where
  "all_available required m \<longleftrightarrow> (\<forall>a\<in>set required. \<exists>s. m a = Some s \<and> sn_availableTrue s)"

definition uniform_generation :: "string list \<Rightarrow> snapshots \<Rightarrow> bool" where
  "uniform_generation required m \<longleftrightarrow>
     (\<forall>a\<in>set required. \<forall>b\<in>set required. sn_observedGeneration (snap_at m a) = sn_observedGeneration (snap_at m b))"

lemma sameGenerationAllTrue_spec:
  "required \<noteq> [] \<Longrightarrow> sameGenerationAllTrue required m =
     (if all_available required m
      then (True, sn_observedGeneration (snap_at m (hd required)), \<not> uniform_generation required m)
      else (False, 0, False))"
proof (cases required)
  case (Cons a as)
  show ?thesis
  proof (cases "\<exists>s. m a = Some s \<and> sn_availableTrue s")
    case True
    then obtain s where s: "m a = Some s" "sn_availableTrue s" by blast
    have "(\<exists>b\<in>set as. sn_observedGeneration (snap_at m b) \<noteq> sn_observedGeneration s) \<longleftrightarrow>
        \<not> uniform_generation (a # as) m"
      using s(1) by (auto simp: uniform_generation_def snap_at_def [of m a]) metis+
    with s show ?thesis
      by (simp add: sameGenerationAllTrue_def Cons same_gen_loop_Some all_available_def snap_at_def [of m a])
  next
    case False
    then show ?thesis
      by (auto simp: sameGenerationAllTrue_def Cons all_available_def split: option.splits)
  qed
qed simp

lemma lkr_status_spec:
  "rc_Status (computeLastKnownReconciled refTime prev required m) = ConditionTrue \<longleftrightarrow>
     required \<noteq> [] \<and> (\<forall>a\<in>set required. m a \<noteq> None) \<and>
     (if all_available required m then uniform_generation required m \<or> prev_true prev
      else prev_true prev \<and> (\<forall>a\<in>set required. sn_availableTrue (snap_at m a)
             \<or> sn_observedGeneration (snap_at m a) \<noteq> prev_generation prev))"
proof (cases "required = []")
  case True
  then show ?thesis
    by (auto simp: computeLastKnownReconciled_def computeLastKnownReconciledStatus_def Let_def split: prod.splits)
next
  case False
  then show ?thesis
    by (auto simp: computeLastKnownReconciled_def computeLastKnownReconciledStatus_def Let_def
        sameGenerationAllTrue_spec hasMissingAdapter_def list_ex_iff split: prod.splits)
qed

text \<open>C5. \<open>LastKnownReconciled\<close> is exactly the sticky summary the design asks for: it is \<open>True\<close> when
  every required adapter has a counted report and either all of them are available at one common
  generation, or it was \<open>True\<close> before and no adapter reports a failure for the generation it
  tracks (with all adapters available, having been \<open>True\<close> is enough).\<close>

theorem LastKnownReconciled_iff:
  fixes i
  defines "m \<equiv> normalizeAdapterReportsForAggregation (ai_AdapterStatuses i) (ai_RequiredAdapters i) (ai_ResourceGeneration i)"
    and "prev \<equiv> pc_LastKnown (parsePrevConditions (ai_PrevConditionsJSON i))"
  assumes "AggregateResourceStatus i = (reconciled, lastKnown, adapters)"
  shows "rc_Status lastKnown = ConditionTrue \<longleftrightarrow>
     ai_RequiredAdapters i \<noteq> [] \<and> (\<forall>a\<in>set (ai_RequiredAdapters i). m a \<noteq> None) \<and>
     (if all_available (ai_RequiredAdapters i) m
      then uniform_generation (ai_RequiredAdapters i) m \<or> prev_true prev
      else prev_true prev \<and>
        (\<forall>a\<in>set (ai_RequiredAdapters i). sn_availableTrue (snap_at m a)
           \<or> sn_observedGeneration (snap_at m a) \<noteq> prev_generation prev))"
  using assms(3) lkr_status_spec [of "ai_RefTime i" prev "ai_RequiredAdapters i" m]
  by (auto simp: AggregateResourceStatus_def Let_def m_def prev_def)

lemma LastKnownReconciled_iff_witness:
  "rc_Status (fst (snd (AggregateResourceStatus sample_input))) = ConditionTrue"
proof -
  obtain r l as where a: "AggregateResourceStatus sample_input = (r, l, as)" by (metis prod_cases3)
  let ?m = "normalizeAdapterReportsForAggregation (ai_AdapterStatuses sample_input)
    (ai_RequiredAdapters sample_input) (ai_ResourceGeneration sample_input)"
  have d: "distinct (map as_Adapter (ai_AdapterStatuses sample_input))"
    by (simp add: sample_input_def sample_report_fields)
  have "\<exists>s. ?m a = Some s \<and> sn_availableTrue s \<and> sn_observedGeneration s = 2" if "a \<in> {''dns'', ''validation''}" for a
  proof -
    have "yields (ai_RequiredAdapters sample_input) 2 (sample_report a 2 ''True'')"
      using that by (auto simp: yields_def sample_report_fields decisive_def sample_report_says sample_input_def)
    then obtain sn where sn: "snapshot_of (ai_RequiredAdapters sample_input) 2 (sample_report a 2 ''True'') = Some sn"
      by (metis snapshot_of_None not_None_eq)
    then have "?m a = Some sn"
      using that unfolding normalize_Some [OF d] by (auto simp: sample_input_def sample_report_fields)
    with sn show ?thesis by (auto simp: snapshot_of_Some sample_report_fields sample_report_says)
  qed
  note m = this
  from m [of "''dns''"] m [of "''validation''"] LastKnownReconciled_iff [OF a] a show ?thesis
    by (auto simp: sample_input_def all_available_def uniform_generation_def snap_at_def)
qed

text \<open>\<open>LastKnownReconciled\<close> survives a new generation: as long as no required adapter has
  reported beyond the old generation, the condition computed for a resource whose generation grew,
  or that was marked deleted, or that has got children, is the one computed before.\<close>

theorem LastKnownReconciled_survives_bump:
  assumes "\<forall>s\<in>set (ai_AdapterStatuses i). sint (as_ObservedGeneration s) \<le> sint (ai_ResourceGeneration i)"
    and "sint (ai_ResourceGeneration i) \<le> sint g"
  shows "fst (snd (AggregateResourceStatus
       (i\<lparr>ai_ResourceGeneration := g, ai_DeletedTime := d, ai_HasChildResources := c\<rparr>))) =
     fst (snd (AggregateResourceStatus i))"
proof -
  have "normalizeAdapterReportsForAggregation (ai_AdapterStatuses i) (ai_RequiredAdapters i) g =
      normalizeAdapterReportsForAggregation (ai_AdapterStatuses i) (ai_RequiredAdapters i) (ai_ResourceGeneration i)"
    unfolding normalizeAdapterReportsForAggregation_def
  proof (rule normalize_loop_cong)
    fix s assume "s \<in> set (ai_AdapterStatuses i)"
    with assms have "\<not> i32_less g (as_ObservedGeneration s)" "\<not> i32_less (ai_ResourceGeneration i) (as_ObservedGeneration s)"
      by (fastforce simp: i32_less_def)+
    then show "snapshot_of (ai_RequiredAdapters i) g s = snapshot_of (ai_RequiredAdapters i) (ai_ResourceGeneration i) s"
      by (simp add: snapshot_of_def)
  qed
  then show ?thesis by (simp add: AggregateResourceStatus_def Let_def)
qed

lemma LastKnownReconciled_survives_bump_witness:
  "fst (snd (AggregateResourceStatus (sample_input\<lparr>ai_ResourceGeneration := 3, ai_DeletedTime := Some 200, ai_HasChildResources := True\<rparr>))) =
   fst (snd (AggregateResourceStatus sample_input))"
  by (rule LastKnownReconciled_survives_bump) (auto simp: sample_input_def sample_report_fields)


section \<open>Continuity with the previous conditions\<close>

definition prev_of :: "prev_conditions \<Rightarrow> string \<Rightarrow> resource_condition option" where
  "prev_of p ty =
     (if ty = ResourceConditionTypeReconciled then pc_Reconciled p
      else if ty = ResourceConditionTypeLastKnownReconciled then pc_LastKnown p
      else pc_Adapters p ty)"

lemma prev_of_add: "prev_of (add_prev p c) ty = (if rc_Type c = ty then Some c else prev_of p ty)"
  by (auto simp: prev_of_def add_prev_def)

lemma prev_of_no_prev [simp]: "prev_of no_prev ty = None"
  by (simp add: prev_of_def no_prev_def)

lemma prev_of_foldl:
  "distinct (map rc_Type cs) \<Longrightarrow>
     prev_of (foldl add_prev p cs) ty =
       (case find_first (\<lambda>c. rc_Type c = ty) cs of None \<Rightarrow> prev_of p ty | Some c \<Rightarrow> Some c)"
proof (induction cs arbitrary: p)
  case (Cons c cs)
  show ?case
  proof (cases "rc_Type c = ty")
    case True
    with Cons.prems have "find_first (\<lambda>c. rc_Type c = ty) cs = None"
      by (auto intro: find_first_key_None)
    with True Cons show ?thesis by (simp add: prev_of_add)
  next
    case False
    with Cons show ?thesis by (auto simp: prev_of_add split: option.splits)
  qed
qed simp

lemma parsePrev_encode:
  assumes "distinct (map rc_Type cs)"
  shows "prev_of (parsePrevConditions (encode_resource_conditions cs)) ty =
     map_option (\<lambda>c. c\<lparr>rc_ResourceID := []\<rparr>) (find_first (\<lambda>c. rc_Type c = ty) cs)"
proof -
  have "encode_resource_conditions cs \<noteq> JEmpty" by (simp add: encode_resource_conditions_def)
  moreover have "distinct (map rc_Type (map (\<lambda>c. c\<lparr>rc_ResourceID := []\<rparr>) cs))"
    using assms by (simp add: comp_def)
  moreover have "find_first (\<lambda>c. rc_Type c = ty) (map (\<lambda>c. c\<lparr>rc_ResourceID := []\<rparr>) cs) =
      map_option (\<lambda>c. c\<lparr>rc_ResourceID := []\<rparr>) (find_first (\<lambda>c. rc_Type c = ty) cs)"
    by (rule find_first_map) simp
  ultimately show ?thesis
    using prev_of_foldl [of "map (\<lambda>c. c\<lparr>rc_ResourceID := []\<rparr>) cs" no_prev ty]
    by (simp add: parsePrevConditions_def split: option.splits)
qed

lemma computeAdapterConditions_in:
  "c \<in> set (computeAdapterConditions required m prevByType refTime) \<longleftrightarrow>
     (\<exists>a\<in>set required. \<exists>s. m a = Some s \<and> c = adapter_condition_of prevByType refTime a s)"
proof (induction required)
  case (Cons a as)
  then show ?case by (cases "m a") auto
qed simp

lemma adapter_type_not_reserved [simp]:
  "MapAdapterToConditionType a \<noteq> ResourceConditionTypeReconciled"
  "MapAdapterToConditionType a \<noteq> ResourceConditionTypeLastKnownReconciled"
  "ResourceConditionTypeReconciled \<noteq> MapAdapterToConditionType a"
  "ResourceConditionTypeLastKnownReconciled \<noteq> MapAdapterToConditionType a"
  using MapAdapter_reserved_free [of a] by (simp_all add: condition_type_defs eq_commute)

lemma prev_of_adapter: "pc_Adapters p (MapAdapterToConditionType a) = prev_of p (MapAdapterToConditionType a)"
  by (simp add: prev_of_def)

text \<open>What every aggregated condition does with the previous condition of its type.\<close>

definition continues :: "gotime \<Rightarrow> resource_condition option \<Rightarrow> resource_condition \<Rightarrow> bool" where
  "continues refTime prev c \<longleftrightarrow>
     rc_CreatedTime c = kept_created refTime prev \<and>
     (case prev of
        None \<Rightarrow> rc_LastTransitionTime c = rc_LastUpdatedTime c
      | Some p \<Rightarrow> (if rc_Status p = rc_Status c then rc_LastTransitionTime c = rc_LastTransitionTime p
                   else rc_LastTransitionTime c = rc_LastUpdatedTime c \<or> rc_LastTransitionTime c = refTime))"

lemma continues_reconciled:
  "continues refTime prev (computeReconciled g refTime d prev required m ch)"
  by (auto simp: computeReconciled_def continues_def computeReconciledLastTransitionTime_def Let_def
      split: prod.splits option.splits)

lemma continues_lkr: "continues refTime prev (computeLastKnownReconciled refTime prev required m)"
  by (auto simp: computeLastKnownReconciled_def continues_def computeGenericLastTransitionTime_def Let_def
      split: prod.splits option.splits)

lemma continues_adapter:
  "continues refTime (prevByType (MapAdapterToConditionType a)) (adapter_condition_of prevByType refTime a s)"
  by (auto simp: adapter_condition_of_def continues_def computeGenericLastTransitionTime_def Let_def
      split: option.splits)

lemma aggregate_types:
  "rc_Type (computeReconciled g refTime d prev required m ch) = ResourceConditionTypeReconciled"
  "rc_Type (computeLastKnownReconciled refTime prev required m) = ResourceConditionTypeLastKnownReconciled"
  "rc_Type (adapter_condition_of prevByType refTime a s) = MapAdapterToConditionType a"
  by (auto simp: computeReconciled_def computeLastKnownReconciled_def adapter_condition_of_def Let_def split: prod.splits)

lemma aggregate_parts:
  fixes i
  defines "p \<equiv> parsePrevConditions (ai_PrevConditionsJSON i)"
    and "m \<equiv> normalizeAdapterReportsForAggregation (ai_AdapterStatuses i) (ai_RequiredAdapters i) (ai_ResourceGeneration i)"
  assumes "AggregateResourceStatus i = (reconciled, lastKnown, adapters)"
  shows "reconciled = computeReconciled (ai_ResourceGeneration i) (ai_RefTime i) (ai_DeletedTime i)
      (pc_Reconciled p) (ai_RequiredAdapters i) m (ai_HasChildResources i)"
    and "lastKnown = computeLastKnownReconciled (ai_RefTime i) (pc_LastKnown p) (ai_RequiredAdapters i) m"
    and "adapters = computeAdapterConditions (ai_RequiredAdapters i) m (pc_Adapters p) (ai_RefTime i)"
  using assms(3) by (simp_all add: AggregateResourceStatus_def Let_def p_def m_def)

lemma aggregate_continues:
  assumes "AggregateResourceStatus i = (reconciled, lastKnown, adapters)"
    and "c \<in> set (reconciled # lastKnown # adapters)"
  shows "continues (ai_RefTime i) (prev_of (parsePrevConditions (ai_PrevConditionsJSON i)) (rc_Type c)) c"
proof -
  let ?p = "parsePrevConditions (ai_PrevConditionsJSON i)"
  note parts = aggregate_parts [OF assms(1)]
  consider "c = reconciled" | "c = lastKnown" | "c \<in> set adapters" using assms(2) by auto
  then show ?thesis
  proof cases
    case 1
    then have "prev_of ?p (rc_Type c) = pc_Reconciled ?p" by (simp add: parts(1) aggregate_types prev_of_def)
    with 1 show ?thesis by (simp add: parts(1) continues_reconciled)
  next
    case 2
    then have "prev_of ?p (rc_Type c) = pc_LastKnown ?p" by (simp add: parts(2) aggregate_types prev_of_def)
    with 2 show ?thesis by (simp add: parts(2) continues_lkr)
  next
    case 3
    then obtain a s where "c = adapter_condition_of (pc_Adapters ?p) (ai_RefTime i) a s"
      by (auto simp: parts(3) computeAdapterConditions_in)
    then show ?thesis
      using continues_adapter [of "ai_RefTime i" "pc_Adapters ?p" a s]
      by (simp add: aggregate_types prev_of_adapter)
  qed
qed

text \<open>C6. Transition times record transitions: for each aggregated condition whose type the stored
  conditions have, the transition time is the stored one when the status did not change and
  otherwise the update or reference time; the creation time is the stored one (unless that is
  zero); and a condition of a new type transitions at its own update time.\<close>

theorem aggregation_continuity:
  assumes "AggregateResourceStatus i = (reconciled, lastKnown, adapters)"
    and "ai_PrevConditionsJSON i = encode_resource_conditions prev" "distinct (map rc_Type prev)"
    and "c \<in> set (reconciled # lastKnown # adapters)"
  shows "(\<forall>p\<in>set prev. rc_Type p = rc_Type c \<longrightarrow>
       (rc_Status p = rc_Status c \<longrightarrow> rc_LastTransitionTime c = rc_LastTransitionTime p) \<and>
       (rc_Status p \<noteq> rc_Status c \<longrightarrow> rc_LastTransitionTime c \<in> {rc_LastUpdatedTime c, ai_RefTime i}) \<and>
       (rc_CreatedTime p \<noteq> 0 \<longrightarrow> rc_CreatedTime c = rc_CreatedTime p)) \<and>
     (rc_Type c \<notin> rc_Type ` set prev \<longrightarrow>
       rc_LastTransitionTime c = rc_LastUpdatedTime c \<and> rc_CreatedTime c = ai_RefTime i)"
proof -
  note cont = aggregate_continues [OF assms(1,4), unfolded assms(2) parsePrev_encode [OF assms(3)]]
  have "find_first (\<lambda>c'. rc_Type c' = rc_Type c) prev = Some p" if "p \<in> set prev" "rc_Type p = rc_Type c" for p
    using assms(3) that by (rule find_first_key)
  moreover have "find_first (\<lambda>c'. rc_Type c' = rc_Type c) prev = None" if "rc_Type c \<notin> rc_Type ` set prev"
    using that by (rule find_first_key_None)
  ultimately show ?thesis
    using cont by (auto simp: continues_def kept_created_def IsZero_def split: if_splits)
qed

lemma aggregation_continuity_witness:
  "rc_CreatedTime (fst (AggregateResourceStatus (sample_input\<lparr>ai_PrevConditionsJSON :=
     encode_resource_conditions [\<lparr>rc_CreatedTime = 5, rc_LastUpdatedTime = 6, rc_LastTransitionTime = 7,
       rc_Reason = None, rc_Message = None, rc_ResourceID = [], rc_Type = ''Reconciled'', rc_Status = ''True'',
       rc_ObservedGeneration = 1\<rparr>]\<rparr>))) = 5"
proof -
  let ?p = "\<lparr>rc_CreatedTime = 5, rc_LastUpdatedTime = 6, rc_LastTransitionTime = 7,
       rc_Reason = None, rc_Message = None, rc_ResourceID = [], rc_Type = ''Reconciled'', rc_Status = ''True'',
       rc_ObservedGeneration = 1\<rparr>"
  let ?i = "sample_input\<lparr>ai_PrevConditionsJSON := encode_resource_conditions [?p]\<rparr>"
  obtain r l as where a: "AggregateResourceStatus ?i = (r, l, as)" by (metis prod_cases3)
  have t: "rc_Type r = ''Reconciled''"
    using a aggregate_types(1) by (auto simp: AggregateResourceStatus_def Let_def condition_type_defs)
  from aggregation_continuity [OF a, of "[?p]" r] t a show ?thesis by (simp add: status_defs)
qed


section \<open>The aggregation is a fixed point of itself\<close>

definition stripped :: "resource_condition \<Rightarrow> bool" where
  "stripped c \<longleftrightarrow> rc_ResourceID c = []"

lemma computeReconciled_again:
  "computeReconciled g t d (Some (computeReconciled g t d prev required m ch)) required m ch =
     computeReconciled g t d prev required m ch"
proof -
  let ?r = "computeReconciled g t d prev required m ch"
  have "rc_CreatedTime ?r = kept_created t prev"
    by (simp add: computeReconciled_def Let_def split: prod.splits)
  then have "kept_created t (Some ?r) = kept_created t prev"
    by (auto simp: kept_created_def IsZero_def split: option.splits)
  then show ?thesis
    by (auto simp: computeReconciled_def computeReconciledLastTransitionTime_def Let_def split: prod.splits)
qed

lemma lkr_fields:
  fixes prev t
  assumes "sameGenerationAllTrue required m = (allTrue, commonGen, mixed)"
  defines "status \<equiv> computeLastKnownReconciledStatus prev required m allTrue mixed"
  defines "obs \<equiv> computeLastKnownReconciledObservedGeneration status prev required m allTrue commonGen mixed"
  defines "lu \<equiv> computeLastKnownReconciledLastUpdatedTime status prev t required m obs allTrue mixed"
  shows "rc_Status (computeLastKnownReconciled t prev required m) = status"
    and "rc_ObservedGeneration (computeLastKnownReconciled t prev required m) = obs"
    and "rc_LastUpdatedTime (computeLastKnownReconciled t prev required m) = lu"
    and "rc_CreatedTime (computeLastKnownReconciled t prev required m) = kept_created t prev"
    and "rc_LastTransitionTime (computeLastKnownReconciled t prev required m) = computeGenericLastTransitionTime prev status lu"
  using assms(1) unfolding status_def obs_def lu_def
  by (simp_all add: computeLastKnownReconciled_def Let_def split: prod.splits)

lemma lkr_status_cases:
  "computeLastKnownReconciledStatus prev required m allTrue mixed = ConditionTrue \<or>
   computeLastKnownReconciledStatus prev required m allTrue mixed = ConditionFalse"
  by (auto simp: computeLastKnownReconciledStatus_def)

lemma lu_shape:
  "\<exists>b x. \<forall>p. computeLastKnownReconciledLastUpdatedTime status p t required m og allTrue mixed
     = (if b then x else (case p of None \<Rightarrow> t | Some q \<Rightarrow> rc_LastUpdatedTime q))"
proof (cases "required = [] \<or> allTrue \<and> \<not> mixed \<or> \<not> (allTrue \<and> mixed \<and> status = ConditionTrue) \<and>
     status = ConditionFalse \<and> list_ex (\<lambda>a. case m a of None \<Rightarrow> False
       | Some s \<Rightarrow> sn_observedGeneration s = og \<and> \<not> sn_availableTrue s) required \<and> times_at m og required \<noteq> []")
  case True
  have "\<forall>p. computeLastKnownReconciledLastUpdatedTime status p t required m og allTrue mixed
     = computeLastKnownReconciledLastUpdatedTime status None t required m og allTrue mixed"
    using True unfolding computeLastKnownReconciledLastUpdatedTime_def Let_def by auto
  then show ?thesis by (intro exI [of _ True]) auto
next
  case False
  then show ?thesis
    unfolding computeLastKnownReconciledLastUpdatedTime_def Let_def
    by (intro exI [of _ False]) auto
qed

lemma computeLastKnownReconciled_again:
  "computeLastKnownReconciled t (Some (computeLastKnownReconciled t prev required m)) required m =
     computeLastKnownReconciled t prev required m"
proof -
  let ?l = "computeLastKnownReconciled t prev required m"
  obtain allTrue commonGen mixed where g: "sameGenerationAllTrue required m = (allTrue, commonGen, mixed)"
    by (metis prod_cases3)
  note f = lkr_fields [OF g, where prev = prev and t = t]
  let ?st = "\<lambda>p. computeLastKnownReconciledStatus p required m allTrue mixed"
  let ?og = "\<lambda>p. computeLastKnownReconciledObservedGeneration (?st p) p required m allTrue commonGen mixed"
  let ?lu = "\<lambda>p. computeLastKnownReconciledLastUpdatedTime (?st p) p t required m (?og p) allTrue mixed"
  have pt: "prev_true (Some ?l) \<longleftrightarrow> ?st prev = ConditionTrue"
    by (simp add: prev_true_def f(1))
  have pg: "prev_generation (Some ?l) = ?og prev" by (simp add: prev_generation_def f(2))
  have tracked: "?st prev = ConditionTrue \<Longrightarrow> \<not> allTrue \<Longrightarrow> ?og prev = prev_generation prev"
    by (auto simp: computeLastKnownReconciledObservedGeneration_def computeLastKnownReconciledStatus_def)
  have st: "?st (Some ?l) = ?st prev"
  proof (cases "required = [] \<or> hasMissingAdapter required m \<or> allTrue")
    case True
    then show ?thesis by (auto simp: computeLastKnownReconciledStatus_def pt)
  next
    case False
    show ?thesis
    proof (cases "?st prev = ConditionTrue")
      case st: True
      with False tracked have "?og prev = prev_generation prev" by blast
      with False st show ?thesis
        unfolding computeLastKnownReconciledStatus_def [of "Some ?l"] pt pg
        by (simp add: computeLastKnownReconciledStatus_def split: if_splits)
    next
      case st: False
      with False lkr_status_cases [of prev required m allTrue mixed] show ?thesis
        unfolding computeLastKnownReconciledStatus_def [of "Some ?l"] pt by auto
    qed
  qed
  have og: "computeLastKnownReconciledObservedGeneration (?st prev) (Some ?l) required m allTrue commonGen mixed = ?og prev"
    unfolding computeLastKnownReconciledObservedGeneration_def pg
    by (auto simp: computeLastKnownReconciledObservedGeneration_def Let_def)
  have lu: "computeLastKnownReconciledLastUpdatedTime (?st prev) (Some ?l) t required m (?og prev) allTrue mixed = ?lu prev"
  proof -
    obtain b x where bx: "\<And>p. computeLastKnownReconciledLastUpdatedTime (?st prev) p t required m (?og prev) allTrue mixed
        = (if b then x else (case p of None \<Rightarrow> t | Some q \<Rightarrow> rc_LastUpdatedTime q))"
      using lu_shape [of "?st prev" t required m "?og prev" allTrue mixed] by blast
    show ?thesis unfolding bx option.case f(3) by simp
  qed
  have kc: "kept_created t (Some ?l) = kept_created t prev"
    using f(4) by (auto simp: kept_created_def IsZero_def split: option.splits)
  have lt: "computeGenericLastTransitionTime (Some ?l) (?st prev) (?lu prev) =
      computeGenericLastTransitionTime prev (?st prev) (?lu prev)"
    by (simp add: computeGenericLastTransitionTime_def f(1,5) split: option.splits)
  show ?thesis
    unfolding computeLastKnownReconciled_def [of t "Some ?l"] g split Let_def st og lu kc lt
    unfolding computeLastKnownReconciled_def [of t prev] g split Let_def ..
qed

lemma adapter_condition_again:
  assumes "prevByType' (MapAdapterToConditionType a) = Some (adapter_condition_of prevByType t a s)"
  shows "adapter_condition_of prevByType' t a s = adapter_condition_of prevByType t a s"
proof -
  let ?c = "adapter_condition_of prevByType t a s"
  have "kept_created t (Some ?c) = kept_created t (prevByType (MapAdapterToConditionType a))"
    by (auto simp: adapter_condition_of_def kept_created_def IsZero_def Let_def split: option.splits)
  then show ?thesis
    unfolding adapter_condition_of_def [of prevByType'] Let_def assms
    by (simp add: adapter_condition_of_def Let_def computeGenericLastTransitionTime_def split: option.splits)
qed

lemma computeAdapterConditions_types:
  "map rc_Type (computeAdapterConditions required m prevByType t) =
     map MapAdapterToConditionType (filter (\<lambda>a. m a \<noteq> None) required)"
  by (induction required) (auto simp: aggregate_types split: option.splits)

lemma computeAdapterConditions_again:
  assumes "\<And>a s. a \<in> set required \<Longrightarrow> m a = Some s \<Longrightarrow>
      prevByType' (MapAdapterToConditionType a) = Some (adapter_condition_of prevByType t a s)"
  shows "computeAdapterConditions required m prevByType' t = computeAdapterConditions required m prevByType t"
  using assms
  by (induction required) (auto simp: adapter_condition_again split: option.splits)

lemma aggregate_stripped:
  assumes "AggregateResourceStatus i = (reconciled, lastKnown, adapters)"
  shows "map (\<lambda>c. c\<lparr>rc_ResourceID := []\<rparr>) (reconciled # lastKnown # adapters) = reconciled # lastKnown # adapters"
proof -
  have "rc_ResourceID c = []" if "c \<in> set (reconciled # lastKnown # adapters)" for c
    using that assms
    by (auto simp: AggregateResourceStatus_def Let_def computeReconciled_def computeLastKnownReconciled_def
        adapter_condition_of_def computeAdapterConditions_in split: prod.splits)
  then show ?thesis by (intro map_idI) auto
qed

lemma aggregate_types_distinct:
  assumes "AggregateResourceStatus i = (reconciled, lastKnown, adapters)"
    and "distinct (ai_RequiredAdapters i)" "inj_on MapAdapterToConditionType (set (ai_RequiredAdapters i))"
  shows "distinct (map rc_Type (reconciled # lastKnown # adapters))"
proof -
  let ?m = "normalizeAdapterReportsForAggregation (ai_AdapterStatuses i) (ai_RequiredAdapters i) (ai_ResourceGeneration i)"
  have types: "rc_Type reconciled = ResourceConditionTypeReconciled"
    "rc_Type lastKnown = ResourceConditionTypeLastKnownReconciled"
    "map rc_Type adapters = map MapAdapterToConditionType (filter (\<lambda>a. ?m a \<noteq> None) (ai_RequiredAdapters i))"
    using assms(1) by (auto simp: AggregateResourceStatus_def Let_def aggregate_types computeAdapterConditions_types)
  moreover have "distinct (map MapAdapterToConditionType (filter (\<lambda>a. ?m a \<noteq> None) (ai_RequiredAdapters i)))"
    using assms(2,3) by (auto simp: distinct_map intro: inj_on_subset)
  moreover have "rc_Type ` set adapters \<subseteq> range MapAdapterToConditionType"
    using types(3) by (metis image_mono set_map subset_UNIV)
  then have "ResourceConditionTypeReconciled \<notin> rc_Type ` set adapters"
    "ResourceConditionTypeLastKnownReconciled \<notin> rc_Type ` set adapters" by auto
  moreover have "distinct (map rc_Type adapters)" using calculation types(3) by simp
  ultimately show ?thesis using types(1,2) by auto
qed

text \<open>C7. Aggregation is idempotent: when the required adapters are distinct and map to distinct
  condition types, aggregating the same reports again with the conditions just computed as the
  previous ones gives exactly those conditions again, times included.  So a second pass over an
  unchanged resource writes nothing.\<close>

theorem aggregation_idempotent:
  assumes "AggregateResourceStatus i = (reconciled, lastKnown, adapters)"
    and "distinct (ai_RequiredAdapters i)" "inj_on MapAdapterToConditionType (set (ai_RequiredAdapters i))"
  shows "AggregateResourceStatus (i\<lparr>ai_PrevConditionsJSON :=
      encode_resource_conditions (reconciled # lastKnown # adapters)\<rparr>) = (reconciled, lastKnown, adapters)"
proof -
  let ?out = "reconciled # lastKnown # adapters"
  let ?p = "parsePrevConditions (ai_PrevConditionsJSON i)"
  let ?q = "parsePrevConditions (encode_resource_conditions ?out)"
  let ?m = "normalizeAdapterReportsForAggregation (ai_AdapterStatuses i) (ai_RequiredAdapters i) (ai_ResourceGeneration i)"
  note parts = aggregate_parts [OF assms(1)]
  have d: "distinct (map rc_Type ?out)" using assms by (rule aggregate_types_distinct)
  have q: "prev_of ?q (rc_Type c) = Some c" if "c \<in> set ?out" for c
    unfolding parsePrev_encode [OF d] find_first_key [OF d that refl]
    using aggregate_stripped [OF assms(1)] that by (auto dest: map_eq_conv [THEN iffD1, of _ _ id, simplified])
  have "pc_Reconciled ?q = Some reconciled" "pc_LastKnown ?q = Some lastKnown"
    using q [of reconciled] q [of lastKnown] parts by (simp_all add: prev_of_def aggregate_types)
  moreover have "pc_Adapters ?q (MapAdapterToConditionType a) = Some (adapter_condition_of (pc_Adapters ?p) (ai_RefTime i) a s)"
    if "a \<in> set (ai_RequiredAdapters i)" "?m a = Some s" for a s
  proof -
    let ?c = "adapter_condition_of (pc_Adapters ?p) (ai_RefTime i) a s"
    have "?c \<in> set ?out" using that parts by (auto simp: computeAdapterConditions_in)
    from q [OF this] show ?thesis by (simp add: aggregate_types prev_of_adapter)
  qed
  ultimately show ?thesis
    using parts computeAdapterConditions_again [of "ai_RequiredAdapters i" ?m "pc_Adapters ?q" "pc_Adapters ?p" "ai_RefTime i"]
    by (simp add: AggregateResourceStatus_def Let_def computeReconciled_again computeLastKnownReconciled_again)
qed

lemma aggregation_idempotent_witness:
  "case AggregateResourceStatus sample_input of (r, l, as) \<Rightarrow>
     AggregateResourceStatus (sample_input\<lparr>ai_PrevConditionsJSON := encode_resource_conditions (r # l # as)\<rparr>) = (r, l, as)"
proof -
  obtain r l as where a: "AggregateResourceStatus sample_input = (r, l, as)" by (metis prod_cases3)
  have "MapAdapterToConditionType ''dns'' \<noteq> MapAdapterToConditionType ''validation''" by code_simp
  then have "inj_on MapAdapterToConditionType (set (ai_RequiredAdapters sample_input))"
    by (auto simp: sample_input_def)
  from aggregation_idempotent [OF a _ this] a show ?thesis by (simp add: sample_input_def)
qed

end
