(* ===== verification/Status_Report.thy ===== *)
theory Status_Report
  imports Aggregation Errors
begin

text \<open>
  What happens to one incoming adapter report before it is stored:
  \<open>services/adapter_status_validation.go\<close> (validation and the discard rules),
  \<open>setConditionTransitionTimes\<close> of \<open>services/adapter_status.go\<close>, and the list helpers of
  \<open>services/util.go\<close>.
\<close>

section \<open>Mandatory conditions (\<open>aggregation.go\<close>)\<close>

definition mandatoryConditions :: "string list" where
  "mandatoryConditions =
     [AdapterConditionTypeAvailable, AdapterConditionTypeApplied, AdapterConditionTypeHealth]"

definition ConditionValidationErrorMissing :: string where
  "ConditionValidationErrorMissing = ''missing''"

definition ValidateMandatoryConditions :: "adapter_condition list \<Rightarrow> string \<times> string" where
  "ValidateMandatoryConditions conditions =
     (case find_first (\<lambda>ty. ty \<notin> set (map ac_Type conditions)) mandatoryConditions of
        Some ty \<Rightarrow> (ConditionValidationErrorMissing, ty)
      | None \<Rightarrow> ([], []))"

section \<open>Validation and discard rules\<close>

text \<open>The loop over the conditions: the first \<open>Available\<close> one decides.  \<open>Inr None\<close> discards.\<close>

fun classify_available ::
  "adapter_status option \<Rightarrow> adapter_condition list \<Rightarrow> service_error + bool option" where
  "classify_available existing [] = Inr (Some False)"
| "classify_available existing (c # cs) =
     (if ac_Type c \<noteq> AdapterConditionTypeAvailable then classify_available existing cs
      else if \<not> (ac_Status c = AdapterConditionTrue \<or> ac_Status c = AdapterConditionFalse
                 \<or> ac_Status c = AdapterConditionUnknown) then
        Inl (Validation ''condition '%s' has invalid status '%s': must be True, False, or Unknown''
               [FS (ac_Type c), FS (ac_Status c)])
      else if ac_Status c \<noteq> AdapterConditionTrue \<and> ac_Status c \<noteq> AdapterConditionFalse then
        (if existing \<noteq> None then Inr None else Inr (Some False))
      else Inr (Some True))"

text \<open>\<open>Inr None\<close> is the silent discard \<open>(nil, false, nil)\<close>.  The text of a decoding error is the
  library's.\<close>

definition validateAndClassifyAdapterStatus ::
  "int32 \<Rightarrow> adapter_status \<Rightarrow> adapter_status option \<Rightarrow>
     service_error + (adapter_condition list \<times> bool) option" where
  "validateAndClassifyAdapterStatus resourceGeneration incoming existing =
     (let incomingObs = AdapterObservedTime incoming in
      if i32_less resourceGeneration (as_ObservedGeneration incoming) then Inr None
      else if (case existing of Some e \<Rightarrow> i32_less (as_ObservedGeneration incoming) (as_ObservedGeneration e) | None \<Rightarrow> False)
        then Inr None
      else if IsZero incomingObs then Inr None
      else if (case existing of
                 Some e \<Rightarrow> as_ObservedGeneration incoming = as_ObservedGeneration e \<and>
                   \<not> IsZero (AdapterObservedTime e) \<and> incomingObs < AdapterObservedTime e
               | None \<Rightarrow> False) then Inr None
      else case (if as_Conditions incoming \<noteq> JEmpty then decode_adapter_conditions (as_Conditions incoming) else Some []) of
        None \<Rightarrow> Inl (GeneralError ''Failed to unmarshal adapter status conditions: %s'' [FS ''invalid JSON''])
      | Some conditions \<Rightarrow>
          (case ValidateMandatoryConditions conditions of
             (errorType, conditionName) \<Rightarrow>
               if errorType \<noteq> [] then
                 Inl (Validation ''missing mandatory condition '%s': all adapters must report Available, Applied, and Health''
                        [FS conditionName])
               else case classify_available existing conditions of
                      Inl e \<Rightarrow> Inl e
                    | Inr None \<Rightarrow> Inr None
                    | Inr (Some triggerAggregation) \<Rightarrow> Inr (Some (conditions, triggerAggregation))))"

section \<open>Transition times (\<open>adapter_status.go\<close>)\<close>

definition conditions_by_type :: "adapter_condition list \<Rightarrow> (string \<rightharpoonup> adapter_condition)" where
  "conditions_by_type cs = foldl (\<lambda>m c. m(ac_Type c \<mapsto> c)) Map.empty cs"

definition keep_transition :: "(string \<rightharpoonup> adapter_condition) \<Rightarrow> adapter_condition \<Rightarrow> adapter_condition" where
  "keep_transition oldByType c =
     (case oldByType (ac_Type c) of
        Some old \<Rightarrow> if ac_Status old = ac_Status c
                    then c\<lparr>ac_LastTransitionTime := ac_LastTransitionTime old\<rparr> else c
      | None \<Rightarrow> c)"

text \<open>\<open>now\<close> is the value of \<open>time.Now()\<close>; every marshalling of conditions succeeds.\<close>

definition setConditionTransitionTimes ::
  "gotime \<Rightarrow> adapter_status \<Rightarrow> adapter_status option \<Rightarrow> adapter_status" where
  "setConditionTransitionTimes now incoming existing =
     (let incoming = (if IsZero (as_LastReportTime incoming) then incoming\<lparr>as_LastReportTime := now\<rparr> else incoming) in
      case existing of
        None \<Rightarrow> incoming
      | Some e \<Rightarrow>
          if as_Conditions e = JEmpty then incoming
          else case decode_adapter_conditions (as_Conditions e) of
                 None \<Rightarrow> incoming
               | Some oldConds \<Rightarrow>
                   if as_Conditions incoming = JEmpty then incoming
                   else case decode_adapter_conditions (as_Conditions incoming) of
                          None \<Rightarrow> incoming
                        | Some newConds \<Rightarrow>
                            incoming\<lparr>as_Conditions := encode_adapter_conditions
                              (map (keep_transition (conditions_by_type oldConds)) newConds)\<rparr>)"

section \<open>List helpers (\<open>util.go\<close>)\<close>

definition findAdapterStatusInList :: "adapter_status list \<Rightarrow> string \<Rightarrow> adapter_status option" where
  "findAdapterStatusInList statuses adapter = find_first (\<lambda>s. as_Adapter s = adapter) statuses"

definition same_slot :: "adapter_status \<Rightarrow> adapter_status \<Rightarrow> bool" where
  "same_slot s u \<longleftrightarrow> as_Adapter s = as_Adapter u \<and> as_ResourceType s = as_ResourceType u
     \<and> as_ResourceID s = as_ResourceID u"

definition replaceAdapterStatusInList :: "adapter_status list \<Rightarrow> adapter_status \<Rightarrow> adapter_status list" where
  "replaceAdapterStatusInList statuses updated =
     map (\<lambda>s. if same_slot s updated then updated else s) statuses
     @ (if list_ex (\<lambda>s. same_slot s updated) statuses then [] else [updated])"

definition incomingReportedFinalized :: "adapter_condition list \<Rightarrow> bool" where
  "incomingReportedFinalized conditions =
     list_ex (\<lambda>c. ac_Type c = AdapterConditionTypeFinalized \<and> ac_Status c = AdapterConditionTrue) conditions"

section \<open>Facts\<close>

lemma ValidateMandatory_ok:
  "ValidateMandatoryConditions cs = (e, n) \<Longrightarrow> e = [] \<longleftrightarrow> set mandatoryConditions \<subseteq> ac_Type ` set cs"
  by (auto simp: ValidateMandatoryConditions_def ConditionValidationErrorMissing_def find_first_None
      split: option.splits dest!: find_first_Some)

lemma classify_available_spec:
  "classify_available existing cs = Inr (Some True) \<longleftrightarrow>
     (\<exists>c. find_first (\<lambda>c. ac_Type c = AdapterConditionTypeAvailable) cs = Some c \<and>
        ac_Status c \<in> {AdapterConditionTrue, AdapterConditionFalse})"
  "classify_available existing cs = Inr (Some False) \<longleftrightarrow>
     (case find_first (\<lambda>c. ac_Type c = AdapterConditionTypeAvailable) cs of
        None \<Rightarrow> True
      | Some c \<Rightarrow> ac_Status c = AdapterConditionUnknown \<and> existing = None)"
  by (induction cs) auto

text \<open>The report does not come from the future and is not older than the stored one.\<close>

definition report_fresh :: "int32 \<Rightarrow> adapter_status \<Rightarrow> adapter_status option \<Rightarrow> bool" where
  "report_fresh g s existing \<longleftrightarrow>
     sint (as_ObservedGeneration s) \<le> sint g \<and> as_LastReportTime s \<noteq> 0 \<and>
     (\<forall>e. existing = Some e \<longrightarrow>
        sint (as_ObservedGeneration e) \<le> sint (as_ObservedGeneration s) \<and>
        (as_ObservedGeneration e = as_ObservedGeneration s \<longrightarrow> as_LastReportTime e \<noteq> 0 \<longrightarrow>
           as_LastReportTime e \<le> as_LastReportTime s))"



definition sample_full_report :: "string \<Rightarrow> int32 \<Rightarrow> gotime \<Rightarrow> string \<Rightarrow> string \<Rightarrow> adapter_status" where
  "sample_full_report adapter g t avail fin = (sample_report adapter g avail)\<lparr>as_LastReportTime := t,
     as_Conditions := encode_adapter_conditions (map (\<lambda>(ty, st).
       \<lparr>ac_LastTransitionTime = t, ac_Reason = None, ac_Message = None, ac_Type = ty, ac_Status = st\<rparr>)
       [(''Available'', avail), (''Applied'', ''True''), (''Health'', ''True''), (''Finalized'', fin)])\<rparr>"


section \<open>Transition times are kept while the status stays\<close>

lemma conditions_by_type_unique:
  "distinct (map ac_Type cs) \<Longrightarrow> c \<in> set cs \<Longrightarrow> conditions_by_type cs (ac_Type c) = Some c"
  unfolding conditions_by_type_def
  using foldl_upd_in [of ac_Type cs c "\<lambda>x. x" Map.empty] by simp

lemma conditions_by_type_none:
  "ty \<notin> ac_Type ` set cs \<Longrightarrow> conditions_by_type cs ty = None"
  unfolding conditions_by_type_def
  using foldl_upd_notin [of ty ac_Type cs "\<lambda>x. x" Map.empty] by simp

lemma keep_transition_same:
  "ac_Type (keep_transition m c) = ac_Type c" "ac_Status (keep_transition m c) = ac_Status c"
  "ac_Reason (keep_transition m c) = ac_Reason c" "ac_Message (keep_transition m c) = ac_Message c"
  by (auto simp: keep_transition_def split: option.splits)

text \<open>Storing a report keeps the Kubernetes meaning of transition times: the stored conditions are
  the reported ones, in order, with type, status, reason and message unchanged; a condition whose
  status the previous report already had keeps the previous transition time, and every other
  condition keeps the one it was reported with.\<close>

theorem transition_times_kept:
  assumes "decode_adapter_conditions (as_Conditions old) = Some oldConds" "distinct (map ac_Type oldConds)"
    and "decode_adapter_conditions (as_Conditions incoming) = Some newConds"
  shows "\<exists>cs. decode_adapter_conditions (as_Conditions (setConditionTransitionTimes now incoming (Some old))) = Some cs \<and>
     length cs = length newConds \<and>
     (\<forall>i<length newConds. let c = cs ! i; n = newConds ! i in
        ac_Type c = ac_Type n \<and> ac_Status c = ac_Status n \<and> ac_Reason c = ac_Reason n \<and> ac_Message c = ac_Message n \<and>
        (\<forall>p\<in>set oldConds. ac_Type p = ac_Type n \<longrightarrow>
           ac_LastTransitionTime c = (if ac_Status p = ac_Status n then ac_LastTransitionTime p else ac_LastTransitionTime n)) \<and>
        (ac_Type n \<notin> ac_Type ` set oldConds \<longrightarrow> ac_LastTransitionTime c = ac_LastTransitionTime n))"
proof -
  have ne: "as_Conditions old \<noteq> JEmpty" "as_Conditions incoming \<noteq> JEmpty" using assms(1,3) by auto
  let ?cs = "map (keep_transition (conditions_by_type oldConds)) newConds"
  have "decode_adapter_conditions (as_Conditions (setConditionTransitionTimes now incoming (Some old))) = Some ?cs"
    using assms ne by (simp add: setConditionTransitionTimes_def Let_def)
  moreover have "ac_LastTransitionTime (keep_transition (conditions_by_type oldConds) n) =
      (if ac_Status p = ac_Status n then ac_LastTransitionTime p else ac_LastTransitionTime n)"
    if "p \<in> set oldConds" "ac_Type p = ac_Type n" for p n
    using conditions_by_type_unique [OF assms(2) that(1)] that(2) by (simp add: keep_transition_def)
  moreover have "keep_transition (conditions_by_type oldConds) n = n" if "ac_Type n \<notin> ac_Type ` set oldConds" for n
    using conditions_by_type_none [OF that] by (simp add: keep_transition_def)
  ultimately show ?thesis
    by (intro exI [of _ ?cs]) (simp add: Let_def keep_transition_same)
qed

lemma transition_times_kept_witness:
  "\<exists>cs. decode_adapter_conditions (as_Conditions (setConditionTransitionTimes 500
       (sample_full_report ''dns'' 2 300 ''True'' ''True'') (Some (sample_full_report ''dns'' 2 100 ''True'' ''False'')))) = Some cs
     \<and> length cs = 4"
proof -
  have d: "decode_adapter_conditions (as_Conditions (sample_full_report ''dns'' 2 t a f)) =
      Some (map (\<lambda>(ty, st). \<lparr>ac_LastTransitionTime = t, ac_Reason = None, ac_Message = None, ac_Type = ty, ac_Status = st\<rparr>)
       [(''Available'', a), (''Applied'', ''True''), (''Health'', ''True''), (''Finalized'', f)])" for t a f
    by (simp add: sample_full_report_def)
  from transition_times_kept [OF d _ d] show ?thesis by fastforce
qed

lemma replaceAdapterStatusInList_mem:
  "u \<in> set (replaceAdapterStatusInList l u)"
  by (auto simp: replaceAdapterStatusInList_def list_ex_iff)

lemma replaceAdapterStatusInList_set:
  "set (replaceAdapterStatusInList l u) = insert u {s \<in> set l. \<not> same_slot s u}"
  by (auto simp: replaceAdapterStatusInList_def list_ex_iff)

end
