(* ===== verification/Registry.thy ===== *)
theory Registry
  imports Util Errors
begin

text \<open>
  \<open>pkg/registry\<close>: the entity descriptors loaded at startup and the checks \<open>Validate\<close> makes of
  them.  The global map \<open>descriptors\<close> is the list of its values in the order the runtime ranges
  over it; \<open>Register\<close> keys a descriptor by its own \<open>Kind\<close>, so a lookup finds the descriptor of
  that kind.  A panic is the left value \<open>RPanic\<close> with its message.  The CEL compiler that checks
  mapping expressions is a parameter.
\<close>

section \<open>Descriptors (\<open>descriptor.go\<close>, \<open>conditions.go\<close>)\<close>

datatype on_parent_delete = OnParentDeleteRestrict | OnParentDeleteCascade | OnParentDeleteOther string

record reference_descriptor =
  rd_RefType :: string
  rd_TargetKind :: string
  rd_Min :: int
  rd_Max :: int

record mapping_output =
  mo_Status :: string
  mo_Reason :: string
  mo_Message :: string

record condition_mapping_rule =
  cmr_Type :: string
  cmr_When :: string
  cmr_Output :: mapping_output

record entity_descriptor =
  desc_Kind :: string
  desc_Plural :: string
  desc_ParentKind :: string
  desc_SpecSchemaName :: string
  desc_OnParentDelete :: on_parent_delete
  desc_RequiredAdapters :: "string list"
  desc_References :: "reference_descriptor list"
  desc_Conditions :: "condition_mapping_rule list"
  desc_NameMinLen :: int
  desc_NameMaxLen :: int
  desc_RequireSpecSchema :: bool

type_synonym registry = "entity_descriptor list"

datatype registry_fault = RPanic string | ROutOfFuel

section \<open>Registration and lookup\<close>

definition Get :: "registry \<Rightarrow> string \<Rightarrow> entity_descriptor option" where
  "Get ds k = find_first (\<lambda>d. desc_Kind d = k) ds"

definition Register :: "entity_descriptor \<Rightarrow> registry \<Rightarrow> registry_fault + registry" where
  "Register d ds =
     (if desc_Kind d = [] then Inl (RPanic ''entity kind cannot be empty'')
      else if desc_Plural d = [] then
        Inl (RPanic (Sprintf ''entity kind %q has empty plural'' [FS (desc_Kind d)]))
      else if Get ds (desc_Kind d) \<noteq> None then
        Inl (RPanic (Sprintf ''entity kind %q already registered'' [FS (desc_Kind d)]))
      else Inr (ds @ [d]))"

fun LoadDescriptors :: "entity_descriptor list \<Rightarrow> registry \<Rightarrow> registry_fault + registry" where
  "LoadDescriptors [] ds = Inr ds"
| "LoadDescriptors (d # rest) ds =
     (case Register d ds of Inl e \<Rightarrow> Inl e | Inr ds' \<Rightarrow> LoadDescriptors rest ds')"

definition MustGet :: "registry \<Rightarrow> string \<Rightarrow> registry_fault + entity_descriptor" where
  "MustGet ds k = (case Get ds k of
     None \<Rightarrow> Inl (RPanic (Sprintf ''entity kind %q not registered'' [FS k])) | Some d \<Rightarrow> Inr d)"

definition Validated :: "registry \<Rightarrow> string \<Rightarrow> service_error + entity_descriptor" where
  "Validated ds k = (case Get ds k of
     None \<Rightarrow> Inl (Validation ''Unknown entity kind: %s'' [FS k]) | Some d \<Rightarrow> Inr d)"

definition WithSpecSchema :: "registry \<Rightarrow> entity_descriptor list" where
  "WithSpecSchema ds = filter (\<lambda>d. desc_SpecSchemaName d \<noteq> []) ds"

definition ChildrenOf :: "registry \<Rightarrow> string \<Rightarrow> entity_descriptor list" where
  "ChildrenOf ds parentKind = filter (\<lambda>d. desc_ParentKind d = parentKind) ds"

fun ValidateSpecSchemas :: "(string \<Rightarrow> bool) \<Rightarrow> registry \<Rightarrow> registry_fault option" where
  "ValidateSpecSchemas schemaExists [] = None"
| "ValidateSpecSchemas schemaExists (d # ds) =
     (if desc_SpecSchemaName d \<noteq> [] \<and> desc_RequireSpecSchema d \<and> \<not> schemaExists (desc_SpecSchemaName d)
      then Some (RPanic (Sprintf ''entity kind %q declares SpecSchemaName %q but it does not resolve to an existing component in the OpenAPI spec''
             [FS (desc_Kind d), FS (desc_SpecSchemaName d)]))
      else ValidateSpecSchemas schemaExists ds)"

text \<open>What registration keeps: kinds are distinct and neither kind nor plural is empty.\<close>

definition registry_ok :: "registry \<Rightarrow> bool" where
  "registry_ok ds \<longleftrightarrow> distinct (map desc_Kind ds) \<and> list_all (\<lambda>d. desc_Kind d \<noteq> [] \<and> desc_Plural d \<noteq> []) ds"

lemma Get_Some: "Get ds k = Some d \<Longrightarrow> d \<in> set ds \<and> desc_Kind d = k"
  by (auto simp: Get_def dest: find_first_Some)

lemma Get_None: "Get ds k = None \<longleftrightarrow> k \<notin> desc_Kind ` set ds"
  by (auto simp: Get_def find_first_None)

lemma Get_mem: "registry_ok ds \<Longrightarrow> d \<in> set ds \<Longrightarrow> Get ds (desc_Kind d) = Some d"
  unfolding Get_def registry_ok_def
  by (rule find_first_unique) (auto simp: distinct_map dest: inj_onD)

lemma Get_append: "Get (ds @ es) k = (case Get ds k of None \<Rightarrow> Get es k | Some d \<Rightarrow> Some d)"
  unfolding Get_def by (induction ds) auto

lemma registry_ok_Nil [simp]: "registry_ok []"
  by (simp add: registry_ok_def)

lemma Register_ok: "registry_ok ds \<Longrightarrow> Register d ds = Inr ds' \<Longrightarrow> registry_ok ds'"
  by (auto simp: Register_def registry_ok_def Get_None split: if_splits)

lemma Register_Get:
  "Register d ds = Inr ds' \<Longrightarrow> Get ds' k = (if k = desc_Kind d then Some d else Get ds k)"
  by (auto simp: Register_def Get_append split: if_splits option.splits) (auto simp: Get_def)

lemma LoadDescriptors_ok: "registry_ok ds \<Longrightarrow> LoadDescriptors xs ds = Inr ds' \<Longrightarrow> registry_ok ds'"
  by (induction xs ds rule: LoadDescriptors.induct) (auto split: sum.splits dest: Register_ok)

section \<open>Condition mapping rules (\<open>conditions.go\<close>)\<close>

definition reservedConditionTypes :: "string list" where
  "reservedConditionTypes = [''Reconciled'', ''LastKnownReconciled'']"

definition MaxConditionTypeLength :: nat where "MaxConditionTypeLength = 100"
definition MaxConditionReasonLength :: nat where "MaxConditionReasonLength = 256"
definition MaxConditionMessageLength :: nat where "MaxConditionMessageLength = 2048"

text \<open>The CEL library: creating the environment, and its three stages for an expression.\<close>

record cel_compiler =
  cc_NewEnv :: "string option"
  cc_Parse :: "string \<Rightarrow> string option"
  cc_Check :: "string \<Rightarrow> string option"
  cc_Program :: "string \<Rightarrow> string option"

fun add_unseen :: "string list \<Rightarrow> string list \<Rightarrow> string list" where
  "add_unseen seen [] = seen"
| "add_unseen seen (a # as) = (if List.member seen a then add_unseen seen as else add_unseen (seen @ [a]) as)"

definition buildReservedConditionTypes :: "registry \<Rightarrow> string list" where
  "buildReservedConditionTypes entities =
     reservedConditionTypes
     @ map MapAdapterToConditionType (add_unseen [] (concat (map desc_RequiredAdapters entities)))"

definition newline :: string where "newline = [char_of (10::nat)]"

definition validateCELExpression ::
  "cel_compiler \<Rightarrow> string \<Rightarrow> string \<Rightarrow> string \<Rightarrow> string \<Rightarrow> string option" where
  "validateCELExpression cc resourceType condType field expression =
     (case cc_Parse cc expression of
        Some err \<Rightarrow> Some (Sprintf (''%s.%s.%s: invalid CEL expression: %w'' @ newline @ ''Expression: %s'')
                        [FS resourceType, FS condType, FS field, FS err, FS expression])
      | None \<Rightarrow>
     (case cc_Check cc expression of
        Some err \<Rightarrow> Some (Sprintf (''%s.%s.%s: CEL check failed: %w'' @ newline @ ''Expression: %s'')
                        [FS resourceType, FS condType, FS field, FS err, FS expression])
      | None \<Rightarrow>
     (case cc_Program cc expression of
        Some err \<Rightarrow> Some (Sprintf (''%s.%s.%s: failed to compile CEL expression: %w'' @ newline @ ''Expression: %s'')
                        [FS resourceType, FS condType, FS field, FS err, FS expression])
      | None \<Rightarrow> None)))"

definition validateConditionMapping ::
  "cel_compiler \<Rightarrow> string \<Rightarrow> string \<Rightarrow> condition_mapping_rule \<Rightarrow> string list \<Rightarrow> string option" where
  "validateConditionMapping cc resourceType condType rule reserved =
     (if condType = [] then Some (Sprintf ''%s condition type cannot be empty'' [FS resourceType])
      else if List.member reserved condType then
        Some (Sprintf ''%s condition type '%s' is reserved and cannot be overridden by mapping rules''
                [FS resourceType, FS condType])
      else if length condType > MaxConditionTypeLength then
        Some (Sprintf ''%s condition type '%s' exceeds max length %d (got %d)''
                [FS resourceType, FS condType, FD (int MaxConditionTypeLength), FD (int (length condType))])
      else case validateCELExpression cc resourceType condType ''when'' (cmr_When rule) of Some e \<Rightarrow> Some e
      | None \<Rightarrow>
     (case validateCELExpression cc resourceType condType ''output.status'' (mo_Status (cmr_Output rule)) of Some e \<Rightarrow> Some e
      | None \<Rightarrow>
     (case validateCELExpression cc resourceType condType ''output.reason'' (mo_Reason (cmr_Output rule)) of Some e \<Rightarrow> Some e
      | None \<Rightarrow>
      validateCELExpression cc resourceType condType ''output.message'' (mo_Message (cmr_Output rule)))))"

fun validateRules ::
  "cel_compiler \<Rightarrow> string \<Rightarrow> string list \<Rightarrow> string list \<Rightarrow> condition_mapping_rule list \<Rightarrow> string option" where
  "validateRules cc kind reserved seen [] = None"
| "validateRules cc kind reserved seen (rule # rules) =
     (if List.member seen (cmr_Type rule) then
        Some (Sprintf ''%s condition type '%s' is defined multiple times (each type must be unique)''
                [FS kind, FS (cmr_Type rule)])
      else case validateConditionMapping cc kind (cmr_Type rule) rule reserved of
             Some e \<Rightarrow> Some e
           | None \<Rightarrow> validateRules cc kind reserved (cmr_Type rule # seen) rules)"

definition ValidateEntityConditions :: "cel_compiler \<Rightarrow> registry \<Rightarrow> entity_descriptor \<Rightarrow> string option" where
  "ValidateEntityConditions cc entities d =
     (if desc_Conditions d = [] then None
      else case cc_NewEnv cc of
             Some err \<Rightarrow> Some (Sprintf ''failed to create CEL environment for validation: %w'' [FS err])
           | None \<Rightarrow> validateRules cc (desc_Kind d) (buildReservedConditionTypes entities) [] (desc_Conditions d))"

lemma member_set: "List.member xs x \<longleftrightarrow> x \<in> set xs"
  by simp

lemma set_add_unseen [simp]: "set (add_unseen seen as) = set seen \<union> set as"
  by (induction seen as rule: add_unseen.induct) (auto simp: member_set)

lemma set_buildReserved:
  "set (buildReservedConditionTypes entities) =
     {''Reconciled'', ''LastKnownReconciled''}
     \<union> MapAdapterToConditionType ` (\<Union>d\<in>set entities. set (desc_RequiredAdapters d))"
  by (simp add: buildReservedConditionTypes_def reservedConditionTypes_def)

lemma validateConditionMapping_None:
  "validateConditionMapping cc kind ty rule reserved = None \<Longrightarrow>
     ty \<noteq> [] \<and> ty \<notin> set reserved \<and> length ty \<le> MaxConditionTypeLength"
  by (auto simp: validateConditionMapping_def member_set split: if_splits)

lemma validateRules_None:
  "validateRules cc kind reserved seen rules = None \<Longrightarrow>
     distinct (map cmr_Type rules) \<and> set (map cmr_Type rules) \<inter> set seen = {} \<and>
     (\<forall>r\<in>set rules. cmr_Type r \<noteq> [] \<and> cmr_Type r \<notin> set reserved \<and> length (cmr_Type r) \<le> MaxConditionTypeLength)"
proof (induction rules arbitrary: seen)
  case (Cons r rules)
  from Cons.prems have r: "cmr_Type r \<notin> set seen"
      "validateConditionMapping cc kind (cmr_Type r) r reserved = None"
      "validateRules cc kind reserved (cmr_Type r # seen) rules = None"
    by (auto simp: member_set split: if_splits option.splits)
  from Cons.IH [OF r(3)] validateConditionMapping_None [OF r(2)] r(1) show ?case by auto
qed simp

section \<open>Validate: the per-descriptor checks\<close>

definition parent_of :: "registry \<Rightarrow> string \<Rightarrow> string" where
  "parent_of ds k = (case Get ds k of None \<Rightarrow> [] | Some d \<Rightarrow> desc_ParentKind d)"

text \<open>The inner loop over \<open>ParentKind\<close>: \<open>False\<close> when a kind is met twice.\<close>

function ownership_chain_ok :: "registry \<Rightarrow> string list \<Rightarrow> string \<Rightarrow> bool" where
  "ownership_chain_ok ds visited cur =
     (if cur = [] then True
      else if List.member visited cur then False
      else ownership_chain_ok ds (cur # visited) (parent_of ds cur))"
  by pat_completeness auto
termination
proof (relation "measure (\<lambda>(ds, visited, cur). 2 * card (desc_Kind ` set ds - set visited) + (if cur = [] then 0 else 1))", goal_cases)
  case (2 ds visited cur)
  show ?case
  proof (cases "cur \<in> desc_Kind ` set ds")
    case True
    with 2 have "card (desc_Kind ` set ds - set (cur # visited)) < card (desc_Kind ` set ds - set visited)"
      by (intro psubset_card_mono) (auto simp: member_set)
    with 2 show ?thesis by auto
  next
    case False
    with 2 show ?thesis by (simp add: parent_of_def Get_None [symmetric])
  qed
qed simp

declare ownership_chain_ok.simps [simp del]

fun check_references ::
  "registry \<Rightarrow> string \<Rightarrow> string list \<Rightarrow> reference_descriptor list \<Rightarrow> registry_fault option" where
  "check_references ds kind refTypes [] = None"
| "check_references ds kind refTypes (ref # refs) =
     (if Get ds (rd_TargetKind ref) = None then
        Some (RPanic (Sprintf ''entity %q: reference %q targets unregistered kind %q''
                [FS kind, FS (rd_RefType ref), FS (rd_TargetKind ref)]))
      else if List.member refTypes (rd_RefType ref) then
        Some (RPanic (Sprintf ''entity %q: duplicate ref_type %q in references'' [FS kind, FS (rd_RefType ref)]))
      else if rd_Max ref > 0 \<and> rd_Max ref < rd_Min ref then
        Some (RPanic (Sprintf ''entity %q: reference %q has max (%d) < min (%d)''
                [FS kind, FS (rd_RefType ref), FD (rd_Max ref), FD (rd_Min ref)]))
      else check_references ds kind (rd_RefType ref # refTypes) refs)"

definition check_parent :: "registry \<Rightarrow> entity_descriptor \<Rightarrow> registry_fault option" where
  "check_parent ds d =
     (if desc_ParentKind d = [] then None
      else if Get ds (desc_ParentKind d) = None then
        Some (RPanic (Sprintf ''entity kind %q references unregistered parent kind %q''
                [FS (desc_Kind d), FS (desc_ParentKind d)]))
      else if \<not> ownership_chain_ok ds [desc_Kind d] (desc_ParentKind d) then
        Some (RPanic (Sprintf ''ownership cycle detected: kind %q participates in a ParentKind cycle''
                [FS (desc_Kind d)]))
      else None)"

text \<open>\<open>plurals\<close> maps a plural to the kind seen with it.\<close>

definition check_plural_dup :: "(string \<times> string) list \<Rightarrow> entity_descriptor \<Rightarrow> registry_fault option" where
  "check_plural_dup plurals d =
     (case map_of plurals (desc_Plural d) of
        Some existing \<Rightarrow> Some (RPanic (Sprintf ''duplicate plural %q: registered by both %q and %q''
                           [FS (desc_Plural d), FS existing, FS (desc_Kind d)]))
      | None \<Rightarrow> None)"

definition check_name_bounds :: "entity_descriptor \<Rightarrow> registry_fault option" where
  "check_name_bounds d =
     (if desc_NameMaxLen d > 0 \<and> desc_NameMinLen d > desc_NameMaxLen d then
        Some (RPanic (Sprintf ''entity %q: NameMaxLen (%d) must be >= NameMinLen (%d)''
                [FS (desc_Kind d), FD (desc_NameMaxLen d), FD (desc_NameMinLen d)]))
      else None)"

fun check_descriptors :: "registry \<Rightarrow> (string \<times> string) list \<Rightarrow> entity_descriptor list \<Rightarrow> registry_fault option" where
  "check_descriptors ds plurals [] = None"
| "check_descriptors ds plurals (d # rest) =
     (if desc_Kind d = [] then Some (RPanic ''entity kind cannot be empty'')
      else if desc_Plural d = [] then
        Some (RPanic (Sprintf ''entity kind %q has empty plural'' [FS (desc_Kind d)]))
      else case check_parent ds d of Some e \<Rightarrow> Some e
      | None \<Rightarrow> (case check_plural_dup plurals d of Some e \<Rightarrow> Some e
      | None \<Rightarrow> (case check_references ds (desc_Kind d) [] (desc_References d) of Some e \<Rightarrow> Some e
      | None \<Rightarrow> (case check_name_bounds d of Some e \<Rightarrow> Some e
      | None \<Rightarrow> check_descriptors ds ((desc_Plural d, desc_Kind d) # plurals) rest))))"

fun check_conditions :: "cel_compiler \<Rightarrow> registry \<Rightarrow> entity_descriptor list \<Rightarrow> registry_fault option" where
  "check_conditions cc entities [] = None"
| "check_conditions cc entities (d # rest) =
     (case ValidateEntityConditions cc entities d of
        Some err \<Rightarrow> Some (RPanic (Sprintf ''entity %q: invalid conditions: %v'' [FS (desc_Kind d), FS err]))
      | None \<Rightarrow> check_conditions cc entities rest)"


section \<open>Validate: cycles among required references\<close>

text \<open>
  The depth-first search: \<open>color\<close> is 0 for unvisited kinds, 1 for kinds on the stack and 2 for
  finished ones; \<open>path\<close> is the stack.  The fuel bounds the depth of the recursion.
\<close>

type_synonym dfs_state = "(string \<Rightarrow> nat) \<times> string list"

definition references_of :: "registry \<Rightarrow> string \<Rightarrow> reference_descriptor list" where
  "references_of ds k = (case Get ds k of None \<Rightarrow> [] | Some d \<Rightarrow> desc_References d)"

fun position_of :: "string \<Rightarrow> string list \<Rightarrow> nat option" where
  "position_of k [] = None"
| "position_of k (x # xs) = (if x = k then Some 0 else map_option Suc (position_of k xs))"

definition cycle_message :: "string list \<Rightarrow> string \<Rightarrow> string" where
  "cycle_message path target =
     (let start = (case position_of target path of None \<Rightarrow> 0 | Some i \<Rightarrow> i) in
      Sprintf ''circular required references (Min > 0): %v''
        [FS (''['' @ Join '' '' (drop start path @ [target]) @ '']'')])"

function (sequential) dfs :: "nat \<Rightarrow> registry \<Rightarrow> string \<Rightarrow> dfs_state \<Rightarrow> registry_fault + dfs_state"
  and dfs_refs :: "nat \<Rightarrow> registry \<Rightarrow> reference_descriptor list \<Rightarrow> dfs_state \<Rightarrow> registry_fault + dfs_state" where
  "dfs 0 ds kind st = Inl ROutOfFuel"
| "dfs (Suc n) ds kind (color, path) =
     (case dfs_refs n ds (references_of ds kind) (color(kind := 1), path @ [kind]) of
        Inl e \<Rightarrow> Inl e
      | Inr (color', path') \<Rightarrow> Inr (color'(kind := 2), butlast path'))"
| "dfs_refs n ds [] st = Inr st"
| "dfs_refs n ds (ref # refs) (color, path) =
     (if rd_Min ref \<le> 0 then dfs_refs n ds refs (color, path)
      else if color (rd_TargetKind ref) = 1 then Inl (RPanic (cycle_message path (rd_TargetKind ref)))
      else if color (rd_TargetKind ref) = 0 then
        (case dfs n ds (rd_TargetKind ref) (color, path) of
           Inl e \<Rightarrow> Inl e | Inr st \<Rightarrow> dfs_refs n ds refs st)
      else dfs_refs n ds refs (color, path))"
  by pat_completeness auto
termination
  by (relation "inv_image (less_than <*lex*> less_than)
        (\<lambda>x. case x of Inl (n, _, _, _) \<Rightarrow> (n, 0) | Inr (n, _, refs, _) \<Rightarrow> (n, Suc (length refs)))") auto

fun dfs_all :: "nat \<Rightarrow> registry \<Rightarrow> string list \<Rightarrow> dfs_state \<Rightarrow> registry_fault + dfs_state" where
  "dfs_all n ds [] st = Inr st"
| "dfs_all n ds (kind # kinds) (color, path) =
     (if color kind = 0 then
        (case dfs n ds kind (color, path) of Inl e \<Rightarrow> Inl e | Inr st \<Rightarrow> dfs_all n ds kinds st)
      else dfs_all n ds kinds (color, path))"

definition check_required_cycles :: "registry \<Rightarrow> registry_fault option" where
  "check_required_cycles ds =
     (case dfs_all (length ds) ds (map desc_Kind ds) (\<lambda>_. 0, []) of Inl e \<Rightarrow> Some e | Inr _ \<Rightarrow> None)"

text \<open>\<open>Validate\<close>: \<open>None\<close> when it returns, otherwise the panic.\<close>

definition Validate :: "cel_compiler \<Rightarrow> registry \<Rightarrow> registry_fault option" where
  "Validate cc ds =
     (case check_descriptors ds [] ds of Some e \<Rightarrow> Some e
      | None \<Rightarrow> (case check_conditions cc ds ds of Some e \<Rightarrow> Some e
      | None \<Rightarrow> check_required_cycles ds))"

subsection \<open>The relation the search explores\<close>

definition requires :: "registry \<Rightarrow> (string \<times> string) set" where
  "requires ds = {(k, rd_TargetKind r) | k r. r \<in> set (references_of ds k) \<and> rd_Min r > 0}"

text \<open>The stack is a chain of required references.\<close>

fun chain :: "('a \<times> 'a) set \<Rightarrow> 'a list \<Rightarrow> bool" where
  "chain R (x # y # zs) = ((x, y) \<in> R \<and> chain R (y # zs))"
| "chain R _ = True"

lemma chain_snoc: "chain R (xs @ [y]) \<longleftrightarrow> chain R xs \<and> (xs = [] \<or> (last xs, y) \<in> R)"
  by (induction R xs rule: chain.induct) auto

lemma chain_reaches_last: "chain R xs \<Longrightarrow> x \<in> set xs \<Longrightarrow> (x, last xs) \<in> R\<^sup>*"
proof (induction xs rule: rev_induct)
  case (snoc y xs)
  show ?case
  proof (cases "x = y")
    case False
    with snoc.prems have x: "x \<in> set xs" "chain R xs" "(last xs, y) \<in> R"
      by (auto simp: chain_snoc)
    with snoc.IH show ?thesis by (auto intro: rtrancl_into_rtrancl)
  qed simp
qed simp

text \<open>
  The search state: the stack holds exactly the grey kinds, finished kinds only require finished
  ones, and none of them lies on a cycle.
\<close>

definition dfs_inv :: "registry \<Rightarrow> dfs_state \<Rightarrow> bool" where
  "dfs_inv ds st \<longleftrightarrow>
     (case st of (color, path) \<Rightarrow>
        set path = {k. color k = 1} \<and> chain (requires ds) path \<and> distinct path \<and>
        (\<forall>k. color k \<le> 2) \<and>
        (\<forall>k t. color k = 2 \<longrightarrow> (k, t) \<in> requires ds \<longrightarrow> color t = 2) \<and>
        (\<forall>k. color k = 2 \<longrightarrow> (k, k) \<notin> (requires ds)\<^sup>+))"

text \<open>What a finished call leaves: the same stack, and visited kinds stay visited.\<close>

definition dfs_grows :: "dfs_state \<Rightarrow> dfs_state \<Rightarrow> bool" where
  "dfs_grows st st' \<longleftrightarrow>
     snd st' = snd st \<and> (\<forall>k. fst st k = 1 \<longleftrightarrow> fst st' k = 1) \<and> (\<forall>k. fst st k = 2 \<longrightarrow> fst st' k = 2)"

lemma dfs_grows_refl: "dfs_grows st st" by (simp add: dfs_grows_def)
lemma dfs_grows_trans: "dfs_grows a b \<Longrightarrow> dfs_grows b c \<Longrightarrow> dfs_grows a c"
  by (auto simp: dfs_grows_def)

lemma dfs_inv_push:
  assumes "dfs_inv ds (color, path)" "color kind = 0" "path = [] \<or> (last path, kind) \<in> requires ds"
  shows "dfs_inv ds (color(kind := 1), path @ [kind])"
  using assms by (auto simp: dfs_inv_def chain_snoc)

lemma closed_trancl:
  assumes "(k, t) \<in> R\<^sup>+" "P k" "\<And>x y. P x \<Longrightarrow> (x, y) \<in> R \<Longrightarrow> P y"
  shows "P t"
  using assms(1,2) by (induction rule: trancl_induct) (auto intro: assms(3))

lemma dfs_inv_pop:
  assumes inv: "dfs_inv ds (color, path @ [kind])"
    and tgt: "\<And>t. (kind, t) \<in> requires ds \<Longrightarrow> color t = 2"
  shows "dfs_inv ds (color(kind := 2), path)"
proof -
  let ?R = "requires ds"
  have grey: "color kind = 1" using inv by (auto simp: dfs_inv_def)
  have closed: "color y = 2" if "color x = 2" "(x, y) \<in> ?R" for x y
    using inv that by (auto simp: dfs_inv_def)
  have "(kind, kind) \<notin> ?R\<^sup>+"
  proof
    assume "(kind, kind) \<in> ?R\<^sup>+"
    then obtain t where t: "(kind, t) \<in> ?R" "(t, kind) \<in> ?R\<^sup>*" by (meson tranclD)
    from t(2) tgt [OF t(1)] have "color kind = 2"
      by (induction rule: rtrancl_induct) (auto intro: closed)
    with grey show False by simp
  qed
  with inv tgt closed show ?thesis
    by (auto simp: dfs_inv_def chain_snoc)
qed


lemma dfs_sound:
  "\<lbrakk>dfs_inv ds st; fst st kind = 0; snd st = [] \<or> (last (snd st), kind) \<in> requires ds\<rbrakk> \<Longrightarrow>
     (\<forall>st'. dfs n ds kind st = Inr st' \<longrightarrow> dfs_inv ds st' \<and> dfs_grows st st' \<and> fst st' kind = 2) \<and>
     (\<forall>m. dfs n ds kind st = Inl (RPanic m) \<longrightarrow> (\<exists>k. (k, k) \<in> (requires ds)\<^sup>+))"
  "\<lbrakk>dfs_inv ds st; snd st \<noteq> []; set refs \<subseteq> set (references_of ds (last (snd st)))\<rbrakk> \<Longrightarrow>
     (\<forall>st'. dfs_refs n ds refs st = Inr st' \<longrightarrow> dfs_inv ds st' \<and> dfs_grows st st' \<and>
        (\<forall>r\<in>set refs. rd_Min r > 0 \<longrightarrow> fst st' (rd_TargetKind r) = 2)) \<and>
     (\<forall>m. dfs_refs n ds refs st = Inl (RPanic m) \<longrightarrow> (\<exists>k. (k, k) \<in> (requires ds)\<^sup>+))"
proof (induction n ds kind st and n ds refs st rule: dfs_dfs_refs.induct)
  case (2 n ds kind color path)
  let ?st = "(color(kind := 1), path @ [kind])"
  have pushed: "dfs_inv ds ?st"
    using "2.prems" by (intro dfs_inv_push) auto
  note IH = "2.IH" [OF pushed, simplified]
  have "dfs_inv ds (color'(kind := 2), butlast path') \<and> dfs_grows (color, path) (color'(kind := 2), butlast path')"
    if run: "dfs_refs n ds (references_of ds kind) ?st = Inr (color', path')" for color' path'
  proof -
    from IH run have r: "dfs_inv ds (color', path')" "dfs_grows ?st (color', path')"
      "\<forall>r\<in>set (references_of ds kind). rd_Min r > 0 \<longrightarrow> color' (rd_TargetKind r) = 2" by auto
    then have p: "path' = path @ [kind]" by (simp add: dfs_grows_def)
    have "dfs_inv ds (color'(kind := 2), path)"
      using r(1,3) p by (intro dfs_inv_pop) (auto simp: requires_def)
    moreover have "dfs_grows (color, path) (color'(kind := 2), path)"
      using r(2) "2.prems" by (auto simp: dfs_grows_def split: if_splits)
    ultimately show ?thesis by (simp add: p)
  qed
  then show ?case using IH by (auto split: sum.splits prod.splits)
next
  case (4 n ds ref refs color path)
  let ?t = "rd_TargetKind ref"
  from "4.prems" have rest: "set refs \<subseteq> set (references_of ds (last path))" "path \<noteq> []"
    "dfs_inv ds (color, path)" by auto
  show ?case
  proof (cases "rd_Min ref \<le> 0")
    case True
    then show ?thesis using 4(1) [OF True] rest by auto
  next
    case False
    with "4.prems" have edge: "(last path, ?t) \<in> requires ds" by (force simp: requires_def)
    consider "color ?t = 1" | "color ?t = 0" | "color ?t \<noteq> 1" "color ?t \<noteq> 0" by blast
    then show ?thesis
    proof cases
      case 1
      with rest(3) have "?t \<in> set path" "chain (requires ds) path" by (auto simp: dfs_inv_def)
      then have "(?t, last path) \<in> (requires ds)\<^sup>*" by (rule chain_reaches_last [rotated])
      from this edge have "(?t, ?t) \<in> (requires ds)\<^sup>+" by (rule rtrancl_into_trancl1)
      with False 1 show ?thesis by auto
    next
      case 2
      have sub: "(\<forall>st'. dfs n ds ?t (color, path) = Inr st' \<longrightarrow> dfs_inv ds st' \<and> dfs_grows (color, path) st' \<and> fst st' ?t = 2) \<and>
          (\<forall>m. dfs n ds ?t (color, path) = Inl (RPanic m) \<longrightarrow> (\<exists>k. (k, k) \<in> (requires ds)\<^sup>+))"
        using 4(2) [OF False _ 2] 2 rest edge by auto
      show ?thesis
      proof (cases "dfs n ds ?t (color, path)")
        case (Inl e)
        with sub 2 False show ?thesis by auto
      next
        case (Inr st)
        with sub have st: "dfs_inv ds st" "dfs_grows (color, path) st" "fst st ?t = 2" by auto
        then have "snd st = path" by (simp add: dfs_grows_def)
        with 4(3) [OF False _ 2 Inr] 2 st rest
        have rec: "(\<forall>st'. dfs_refs n ds refs st = Inr st' \<longrightarrow> dfs_inv ds st' \<and> dfs_grows st st' \<and>
          (\<forall>r\<in>set refs. rd_Min r > 0 \<longrightarrow> fst st' (rd_TargetKind r) = 2)) \<and>
          (\<forall>m. dfs_refs n ds refs st = Inl (RPanic m) \<longrightarrow> (\<exists>k. (k, k) \<in> (requires ds)\<^sup>+))" by simp
        have step: "dfs_refs n ds (ref # refs) (color, path) = dfs_refs n ds refs st"
          using Inr 2 False by simp
        have "dfs_grows (color, path) st' \<and> fst st' ?t = 2" if "dfs_grows st st'" for st'
          using that st(2,3) by (meson dfs_grows_def dfs_grows_trans)
        note more = this
        show ?thesis unfolding step
        proof (intro conjI allI impI ballI)
          fix st' r assume run: "dfs_refs n ds refs st = Inr st'"
          from rec run have r: "dfs_inv ds st'" "dfs_grows st st'"
            "\<forall>r\<in>set refs. rd_Min r > 0 \<longrightarrow> fst st' (rd_TargetKind r) = 2" by blast+
          show "dfs_inv ds st'" by (rule r(1))
          show "dfs_grows (color, path) st'" using more [OF r(2)] by simp
          assume "r \<in> set (ref # refs)" "rd_Min r > 0"
          then show "fst st' (rd_TargetKind r) = 2" using r(3) more [OF r(2)] by auto
        next
          fix m assume "dfs_refs n ds refs st = Inl (RPanic m)"
          with conjunct2 [OF rec] show "\<exists>k. (k, k) \<in> (requires ds)\<^sup>+" by blast
        qed
      qed
    next
      case 3
      from rest(3) have "color ?t \<le> 2" by (simp add: dfs_inv_def)
      with 3 have black: "color ?t = 2" by linarith
      have "(\<forall>st'. dfs_refs n ds refs (color, path) = Inr st' \<longrightarrow> dfs_inv ds st' \<and> dfs_grows (color, path) st' \<and>
          (\<forall>r\<in>set refs. rd_Min r > 0 \<longrightarrow> fst st' (rd_TargetKind r) = 2)) \<and>
          (\<forall>m. dfs_refs n ds refs (color, path) = Inl (RPanic m) \<longrightarrow> (\<exists>k. (k, k) \<in> (requires ds)\<^sup>+))"
        using 4(4) [OF False 3] rest by simp
      with False 3 black show ?thesis by (auto simp: dfs_grows_def)
    qed
  qed
qed (auto simp: dfs_grows_refl)


text \<open>Each nested call paints one more registered kind grey, so the recursion is never deeper than their number.\<close>

definition white :: "registry \<Rightarrow> dfs_state \<Rightarrow> string set" where
  "white ds st = {k \<in> desc_Kind ` set ds. fst st k = 0}"

lemma finite_white [simp]: "finite (white ds st)"
  by (simp add: white_def)

lemma check_references_registered:
  "check_references ds kind seen refs = None \<Longrightarrow> \<forall>r\<in>set refs. rd_TargetKind r \<in> desc_Kind ` set ds"
  by (induction ds kind seen refs rule: check_references.induct)
     (auto simp: Get_None split: if_splits)

definition targets_registered :: "registry \<Rightarrow> bool" where
  "targets_registered ds \<longleftrightarrow> (\<forall>k. \<forall>r\<in>set (references_of ds k). rd_TargetKind r \<in> desc_Kind ` set ds)"

lemma dfs_fuel:
  assumes reg: "targets_registered ds"
  shows
  "\<lbrakk>kind \<in> desc_Kind ` set ds; fst st kind = 0; card (white ds st) \<le> n\<rbrakk> \<Longrightarrow>
     dfs n ds kind st \<noteq> Inl ROutOfFuel \<and>
     (\<forall>st'. dfs n ds kind st = Inr st' \<longrightarrow> white ds st' \<subseteq> white ds st)"
  "\<lbrakk>\<forall>r\<in>set refs. rd_TargetKind r \<in> desc_Kind ` set ds; card (white ds st) \<le> n\<rbrakk> \<Longrightarrow>
     dfs_refs n ds refs st \<noteq> Inl ROutOfFuel \<and>
     (\<forall>st'. dfs_refs n ds refs st = Inr st' \<longrightarrow> white ds st' \<subseteq> white ds st)"
  using reg
proof (induction n ds kind st and n ds refs st rule: dfs_dfs_refs.induct)
  case (1 ds kind st)
  then have "kind \<in> white ds st" by (simp add: white_def)
  with 1 show ?case by (metis card_0_eq emptyE finite_white le_zero_eq)
next
  case (2 n ds kind color path)
  let ?st = "(color(kind := 1), path @ [kind])"
  have w: "white ds ?st = white ds (color, path) - {kind}" by (auto simp: white_def)
  have "kind \<in> white ds (color, path)" using "2.prems" by (simp add: white_def)
  then have c: "card (white ds ?st) \<le> n" using "2.prems" w by simp
  have "dfs_refs n ds (references_of ds kind) ?st \<noteq> Inl ROutOfFuel \<and>
     (\<forall>st'. dfs_refs n ds (references_of ds kind) ?st = Inr st' \<longrightarrow> white ds st' \<subseteq> white ds ?st)"
    using "2.IH" [OF _ c] "2.prems"(4) by (simp add: targets_registered_def)
  then show ?case using w
    by (auto simp: white_def split: sum.splits prod.splits)
next
  case (4 n ds ref refs color path)
  show ?case
  proof (cases "rd_Min ref > 0 \<and> color (rd_TargetKind ref) = 0")
    case True
    then have t: "\<not> rd_Min ref \<le> 0" "color (rd_TargetKind ref) \<noteq> 1" "color (rd_TargetKind ref) = 0" by auto
    have sub: "dfs n ds (rd_TargetKind ref) (color, path) \<noteq> Inl ROutOfFuel \<and>
      (\<forall>st'. dfs n ds (rd_TargetKind ref) (color, path) = Inr st' \<longrightarrow> white ds st' \<subseteq> white ds (color, path))"
      using 4(2) [OF t] "4.prems" t by auto
    show ?thesis
    proof (cases "dfs n ds (rd_TargetKind ref) (color, path)")
      case (Inl e)
      with sub t show ?thesis by auto
    next
      case (Inr st)
      with sub have w: "white ds st \<subseteq> white ds (color, path)" by blast
      then have "card (white ds st) \<le> n" using "4.prems"(2) card_mono [OF finite_white w] by simp
      with 4(3) [OF t Inr] "4.prems"
      have "dfs_refs n ds refs st \<noteq> Inl ROutOfFuel \<and>
        (\<forall>st'. dfs_refs n ds refs st = Inr st' \<longrightarrow> white ds st' \<subseteq> white ds st)" by simp
      with Inr t w show ?thesis by auto
    qed
  next
    case False
    with 4(1,4) "4.prems" show ?thesis by auto
  qed
qed auto


lemma dfs_all_sound:
  "\<lbrakk>dfs_inv ds st; snd st = []\<rbrakk> \<Longrightarrow>
     (\<forall>st'. dfs_all n ds kinds st = Inr st' \<longrightarrow> dfs_inv ds st' \<and> dfs_grows st st' \<and> (\<forall>k\<in>set kinds. fst st' k = 2)) \<and>
     (\<forall>m. dfs_all n ds kinds st = Inl (RPanic m) \<longrightarrow> (\<exists>k. (k, k) \<in> (requires ds)\<^sup>+))"
proof (induction n ds kinds st rule: dfs_all.induct)
  case (2 n ds kind kinds color path)
  show ?case
  proof (cases "color kind = 0")
    case True
    from dfs_sound(1) [of ds "(color, path)" kind n] 2(3,4) True
    have sub: "(\<forall>st'. dfs n ds kind (color, path) = Inr st' \<longrightarrow> dfs_inv ds st' \<and> dfs_grows (color, path) st' \<and> fst st' kind = 2)"
      "(\<forall>m. dfs n ds kind (color, path) = Inl (RPanic m) \<longrightarrow> (\<exists>k. (k, k) \<in> (requires ds)\<^sup>+))" by auto
    show ?thesis
    proof (cases "dfs n ds kind (color, path)")
      case (Inl e)
      with True sub(2) show ?thesis by simp
    next
      case (Inr st)
      with sub(1) have st: "dfs_inv ds st" "dfs_grows (color, path) st" "fst st kind = 2" by blast+
      with 2(4) have "snd st = []" by (simp add: dfs_grows_def)
      note IH = 2(1) [OF True Inr st(1) this]
      have step: "dfs_all n ds (kind # kinds) (color, path) = dfs_all n ds kinds st"
        using True Inr by simp
      show ?thesis unfolding step using IH st
        by (auto intro: dfs_grows_trans) (auto simp: dfs_grows_def)
    qed
  next
    case False
    from 2(3,4) have "color kind \<noteq> 1" "color kind \<le> 2" by (auto simp: dfs_inv_def)
    with False have black: "color kind = 2" by linarith
    have step: "dfs_all n ds (kind # kinds) (color, path) = dfs_all n ds kinds (color, path)"
      using False by simp
    show ?thesis unfolding step using 2(2) [OF False 2(3,4)] black
      by (auto simp: dfs_grows_def)
  qed
qed (auto simp: dfs_grows_refl)

lemma dfs_all_fuel:
  "\<lbrakk>targets_registered ds; set kinds \<subseteq> desc_Kind ` set ds; card (white ds st) \<le> n\<rbrakk> \<Longrightarrow>
     dfs_all n ds kinds st \<noteq> Inl ROutOfFuel"
proof (induction n ds kinds st rule: dfs_all.induct)
  case (2 n ds kind kinds color path)
  show ?case
  proof (cases "color kind = 0")
    case True
    with dfs_fuel(1) [of ds kind "(color, path)" n] 2(3,4,5)
    have sub: "dfs n ds kind (color, path) \<noteq> Inl ROutOfFuel"
      "\<forall>st'. dfs n ds kind (color, path) = Inr st' \<longrightarrow> white ds st' \<subseteq> white ds (color, path)" by auto
    show ?thesis
    proof (cases "dfs n ds kind (color, path)")
      case (Inl e)
      with True sub show ?thesis by auto
    next
      case (Inr st)
      with sub have "card (white ds st) \<le> card (white ds (color, path))" by (intro card_mono) auto
      with 2(1) [OF True Inr] 2(3,4,5) Inr True show ?thesis by auto
    qed
  next
    case False
    with 2 show ?thesis by simp
  qed
qed simp

lemma check_required_cycles_iff:
  assumes "targets_registered ds"
  shows "check_required_cycles ds = None \<longleftrightarrow> acyclic (requires ds)"
proof -
  let ?st = "(\<lambda>_. 0, []) :: dfs_state"
  let ?r = "dfs_all (length ds) ds (map desc_Kind ds) ?st"
  have inv: "dfs_inv ds ?st" by (simp add: dfs_inv_def)
  note snd = dfs_all_sound [OF inv, of "length ds" "map desc_Kind ds", simplified]
  have "white ds ?st = desc_Kind ` set ds" by (auto simp: white_def)
  then have fuel: "?r \<noteq> Inl ROutOfFuel"
    using dfs_all_fuel [OF assms, of "map desc_Kind ds" ?st "length ds"]
    by (simp add: card_image_le card_length le_trans [OF card_image_le card_length])
  have acy: "acyclic (requires ds)" if "?r = Inr st'" for st'
  proof (rule acyclicI, rule allI)
    fix k show "(k, k) \<notin> (requires ds)\<^sup>+"
    proof
      assume cyc: "(k, k) \<in> (requires ds)\<^sup>+"
      then obtain t where "(k, t) \<in> requires ds" by (meson tranclD)
      then have "Get ds k \<noteq> None" by (cases "Get ds k") (auto simp: requires_def references_of_def)
      then have "k \<in> desc_Kind ` set ds" by (metis Get_None)
      moreover obtain c p where "st' = (c, p)" by (cases st')
      ultimately have "fst st' k = 2" "dfs_inv ds st'" using snd that by auto
      with cyc show False by (auto simp: dfs_inv_def)
    qed
  qed
  show ?thesis
  proof (cases ?r)
    case (Inr st')
    with acy show ?thesis by (simp add: check_required_cycles_def)
  next
    case (Inl e)
    with fuel obtain m where "e = RPanic m" by (cases e) auto
    with Inl snd obtain k where "(k, k) \<in> (requires ds)\<^sup>+" by auto
    with Inl show ?thesis by (auto simp: check_required_cycles_def acyclic_def)
  qed
qed

subsection \<open>Ownership\<close>

definition owner_rel :: "registry \<Rightarrow> (string \<times> string) set" where
  "owner_rel ds = {(k, parent_of ds k) | k. parent_of ds k \<noteq> []}"

lemma chain_ok_avoids:
  "ownership_chain_ok ds visited cur \<Longrightarrow> (cur, t) \<in> (owner_rel ds)\<^sup>* \<Longrightarrow> cur \<noteq> [] \<Longrightarrow> t \<notin> set visited"
proof (induction ds visited cur rule: ownership_chain_ok.induct)
  case (1 ds visited cur)
  from 1(2,4) have c: "cur \<notin> set visited" "ownership_chain_ok ds (cur # visited) (parent_of ds cur)"
    by (auto simp: ownership_chain_ok.simps [of ds visited cur] split: if_splits)
  from 1(3) show ?case
  proof (cases rule: converse_rtranclE)
    case (step y)
    then have "y = parent_of ds cur" "parent_of ds cur \<noteq> []" by (auto simp: owner_rel_def)
    with 1(1) [OF 1(4) _ c(2)] c step show ?thesis by auto
  qed (use c in simp)
qed

lemma chain_ok_complete:
  "acyclic (owner_rel ds) \<Longrightarrow> (cur \<noteq> [] \<Longrightarrow> \<forall>v\<in>set visited. (v, cur) \<in> (owner_rel ds)\<^sup>+) \<Longrightarrow>
     ownership_chain_ok ds visited cur"
proof (induction ds visited cur rule: ownership_chain_ok.induct)
  case (1 ds visited cur)
  show ?case
  proof (cases "cur = []")
    case True
    then show ?thesis by (simp add: ownership_chain_ok.simps)
  next
    case False
    with 1 have c: "cur \<notin> set visited" by (auto simp: acyclic_def)
    have "(v, parent_of ds cur) \<in> (owner_rel ds)\<^sup>+" if "parent_of ds cur \<noteq> []" "v \<in> set (cur # visited)" for v
    proof -
      have "(cur, parent_of ds cur) \<in> owner_rel ds" using that by (auto simp: owner_rel_def)
      with that 1(3) [OF False] show ?thesis by (auto intro: trancl_into_trancl)
    qed
    with 1(1) [OF False _ 1(2)] c False show ?thesis
      by (subst ownership_chain_ok.simps) auto
  qed
qed

lemma ownership_exact:
  assumes "registry_ok ds"
  shows "(\<forall>d\<in>set ds. desc_ParentKind d \<noteq> [] \<longrightarrow> ownership_chain_ok ds [desc_Kind d] (desc_ParentKind d))
     \<longleftrightarrow> acyclic (owner_rel ds)"
proof
  assume L: "\<forall>d\<in>set ds. desc_ParentKind d \<noteq> [] \<longrightarrow> ownership_chain_ok ds [desc_Kind d] (desc_ParentKind d)"
  show "acyclic (owner_rel ds)"
  proof (rule acyclicI, rule allI)
    fix k show "(k, k) \<notin> (owner_rel ds)\<^sup>+"
    proof
      assume "(k, k) \<in> (owner_rel ds)\<^sup>+"
      then obtain p where p: "(k, p) \<in> owner_rel ds" "(p, k) \<in> (owner_rel ds)\<^sup>*" by (meson tranclD)
      from p(1) obtain d where d: "Get ds k = Some d" "p = desc_ParentKind d" "p \<noteq> []"
        by (auto simp: owner_rel_def parent_of_def split: option.splits)
      with Get_Some [OF d(1)] L have "ownership_chain_ok ds [k] p" by auto
      from chain_ok_avoids [OF this p(2) d(3)] show False by simp
    qed
  qed
next
  assume A: "acyclic (owner_rel ds)"
  show "\<forall>d\<in>set ds. desc_ParentKind d \<noteq> [] \<longrightarrow> ownership_chain_ok ds [desc_Kind d] (desc_ParentKind d)"
  proof (intro ballI impI chain_ok_complete [OF A])
    fix d v assume d: "d \<in> set ds" "desc_ParentKind d \<noteq> []" and v: "v \<in> set [desc_Kind d]"
    have "Get ds (desc_Kind d) = Some d" using assms d(1) by (rule Get_mem)
    with d v have "(v, desc_ParentKind d) \<in> owner_rel ds" by (auto simp: owner_rel_def parent_of_def)
    then show "(v, desc_ParentKind d) \<in> (owner_rel ds)\<^sup>+" by (rule r_into_trancl)
  qed
qed


text \<open>The kinds owned, directly or not, by a kind: fewer at every level of the ownership tree.\<close>

definition owned_below :: "registry \<Rightarrow> string \<Rightarrow> string set" where
  "owned_below ds k = {j. (j, k) \<in> (owner_rel ds)\<^sup>+}"

lemma owner_rel_source: "(j, k) \<in> owner_rel ds \<Longrightarrow> j \<in> desc_Kind ` set ds"
  by (cases "Get ds j") (auto simp: owner_rel_def parent_of_def dest: Get_Some)

lemma owned_below_subset: "owned_below ds k \<subseteq> desc_Kind ` set ds"
  by (auto simp: owned_below_def dest!: tranclD owner_rel_source)

lemma owned_below_child:
  assumes "registry_ok ds" "acyclic (owner_rel ds)" "c \<in> set (ChildrenOf ds k)" "k \<noteq> []"
  shows "card (owned_below ds (desc_Kind c)) < card (owned_below ds k)"
proof (rule psubset_card_mono)
  show "finite (owned_below ds k)" by (rule finite_subset [OF owned_below_subset]) simp
  from assms have edge: "(desc_Kind c, k) \<in> owner_rel ds"
    using Get_mem [of ds c] by (auto simp: ChildrenOf_def owner_rel_def parent_of_def)
  then have "owned_below ds (desc_Kind c) \<subseteq> owned_below ds k"
    by (auto simp: owned_below_def intro: trancl_into_trancl)
  moreover have "desc_Kind c \<in> owned_below ds k" using edge by (auto simp: owned_below_def)
  moreover have "desc_Kind c \<notin> owned_below ds (desc_Kind c)"
    using assms(2) by (auto simp: owned_below_def acyclic_def)
  ultimately show "owned_below ds (desc_Kind c) \<subset> owned_below ds k" by blast
qed

lemma owned_below_bound: "card (owned_below ds k) \<le> length ds"
  using card_mono [OF _ owned_below_subset] card_image_le [of "set ds" desc_Kind] card_length [of ds]
  by (meson List.finite_set finite_imageI le_trans)

section \<open>What Validate accepts\<close>

definition reference_ok :: "registry \<Rightarrow> reference_descriptor \<Rightarrow> bool" where
  "reference_ok ds r \<longleftrightarrow> rd_TargetKind r \<in> desc_Kind ` set ds \<and> (rd_Max r > 0 \<longrightarrow> rd_Min r \<le> rd_Max r)"

definition descriptor_ok :: "registry \<Rightarrow> entity_descriptor \<Rightarrow> bool" where
  "descriptor_ok ds d \<longleftrightarrow>
     (desc_ParentKind d \<noteq> [] \<longrightarrow> desc_ParentKind d \<in> desc_Kind ` set ds) \<and>
     list_all (reference_ok ds) (desc_References d) \<and>
     distinct (map rd_RefType (desc_References d)) \<and>
     (desc_NameMaxLen d > 0 \<longrightarrow> desc_NameMinLen d \<le> desc_NameMaxLen d)"

text \<open>
  A sound registry: parents and reference targets exist, plurals are unambiguous, bounds are
  consistent, and neither ownership nor required references are circular.
\<close>

definition registry_sound :: "registry \<Rightarrow> bool" where
  "registry_sound ds \<longleftrightarrow>
     list_all (descriptor_ok ds) ds \<and> distinct (map desc_Plural ds) \<and>
     acyclic (owner_rel ds) \<and> acyclic (requires ds)"

definition compiles :: "cel_compiler \<Rightarrow> string \<Rightarrow> bool" where
  "compiles cc e \<longleftrightarrow> cc_Parse cc e = None \<and> cc_Check cc e = None \<and> cc_Program cc e = None"

definition rule_ok :: "cel_compiler \<Rightarrow> registry \<Rightarrow> condition_mapping_rule \<Rightarrow> bool" where
  "rule_ok cc ds r \<longleftrightarrow>
     cmr_Type r \<noteq> [] \<and> length (cmr_Type r) \<le> MaxConditionTypeLength \<and>
     cmr_Type r \<notin> {''Reconciled'', ''LastKnownReconciled''} \<and>
     (\<forall>d\<in>set ds. \<forall>a\<in>set (desc_RequiredAdapters d). cmr_Type r \<noteq> MapAdapterToConditionType a) \<and>
     compiles cc (cmr_When r) \<and> compiles cc (mo_Status (cmr_Output r)) \<and>
     compiles cc (mo_Reason (cmr_Output r)) \<and> compiles cc (mo_Message (cmr_Output r))"

definition conditions_ok :: "cel_compiler \<Rightarrow> registry \<Rightarrow> entity_descriptor \<Rightarrow> bool" where
  "conditions_ok cc ds d \<longleftrightarrow> desc_Conditions d = [] \<or>
     (cc_NewEnv cc = None \<and> distinct (map cmr_Type (desc_Conditions d)) \<and>
      list_all (rule_ok cc ds) (desc_Conditions d))"

lemma validateCELExpression_None: "validateCELExpression cc k t f e = None \<longleftrightarrow> compiles cc e"
  by (simp add: validateCELExpression_def compiles_def)

lemma validateConditionMapping_iff:
  "validateConditionMapping cc kind (cmr_Type r) r (buildReservedConditionTypes ds) = None \<longleftrightarrow> rule_ok cc ds r"
proof -
  have "cmr_Type r \<notin> set (buildReservedConditionTypes ds) \<longleftrightarrow>
    cmr_Type r \<notin> {''Reconciled'', ''LastKnownReconciled''} \<and>
     (\<forall>d\<in>set ds. \<forall>a\<in>set (desc_RequiredAdapters d). cmr_Type r \<noteq> MapAdapterToConditionType a)"
    unfolding set_buildReserved by blast
  then show ?thesis
    by (auto simp: validateConditionMapping_def rule_ok_def member_set validateCELExpression_None)
qed

lemma validateRules_iff:
  "validateRules cc kind (buildReservedConditionTypes ds) seen rules = None \<longleftrightarrow>
     distinct (map cmr_Type rules) \<and> set (map cmr_Type rules) \<inter> set seen = {} \<and> list_all (rule_ok cc ds) rules"
  by (induction rules arbitrary: seen) (auto simp: member_set validateConditionMapping_iff)

lemma ValidateEntityConditions_iff: "ValidateEntityConditions cc ds d = None \<longleftrightarrow> conditions_ok cc ds d"
  by (auto simp: ValidateEntityConditions_def conditions_ok_def validateRules_iff)

lemma check_conditions_iff: "check_conditions cc es ds = None \<longleftrightarrow> list_all (conditions_ok cc es) ds"
  by (induction ds) (auto simp: ValidateEntityConditions_iff)

lemma check_references_iff:
  "check_references ds kind seen refs = None \<longleftrightarrow>
     list_all (reference_ok ds) refs \<and> distinct (map rd_RefType refs) \<and> set (map rd_RefType refs) \<inter> set seen = {}"
  by (induction refs arbitrary: seen) (auto simp: Get_None reference_ok_def member_set)

lemma check_descriptors_iff:
  "check_descriptors ds plurals rest = None \<longleftrightarrow>
     list_all (\<lambda>d. desc_Kind d \<noteq> [] \<and> desc_Plural d \<noteq> [] \<and> descriptor_ok ds d \<and>
       (desc_ParentKind d \<noteq> [] \<longrightarrow> ownership_chain_ok ds [desc_Kind d] (desc_ParentKind d))) rest \<and>
     distinct (map desc_Plural rest) \<and> set (map desc_Plural rest) \<inter> fst ` set plurals = {}"
proof (induction rest arbitrary: plurals)
  case (Cons d rest)
  have p: "check_plural_dup plurals d = None \<longleftrightarrow> desc_Plural d \<notin> fst ` set plurals"
    by (cases "map_of plurals (desc_Plural d)")
       (auto simp: check_plural_dup_def map_of_eq_None_iff dest!: map_of_SomeD intro: rev_image_eqI)
  have "check_parent ds d = None \<longleftrightarrow> (desc_ParentKind d \<noteq> [] \<longrightarrow>
     desc_ParentKind d \<in> desc_Kind ` set ds \<and> ownership_chain_ok ds [desc_Kind d] (desc_ParentKind d))"
    by (auto simp: check_parent_def Get_None)
  moreover have "check_name_bounds d = None \<longleftrightarrow> (desc_NameMaxLen d > 0 \<longrightarrow> desc_NameMinLen d \<le> desc_NameMaxLen d)"
    by (auto simp: check_name_bounds_def)
  ultimately show ?case
    using Cons.IH p by (auto simp: check_references_iff descriptor_ok_def)
qed simp

lemma targets_registeredI: "list_all (descriptor_ok ds) ds \<Longrightarrow> targets_registered ds"
  unfolding targets_registered_def
proof (intro allI ballI)
  fix k r assume ok: "list_all (descriptor_ok ds) ds" and r: "r \<in> set (references_of ds k)"
  then obtain d where "Get ds k = Some d" "r \<in> set (desc_References d)"
    by (cases "Get ds k") (auto simp: references_of_def)
  with ok show "rd_TargetKind r \<in> desc_Kind ` set ds"
    by (auto simp: descriptor_ok_def reference_ok_def list_all_iff dest!: Get_Some)
qed

lemma Validate_iff:
  assumes "registry_ok ds"
  shows "Validate cc ds = None \<longleftrightarrow> registry_sound ds \<and> list_all (conditions_ok cc ds) ds"
proof -
  have "check_descriptors ds [] ds = None \<longleftrightarrow>
      list_all (descriptor_ok ds) ds \<and> distinct (map desc_Plural ds) \<and> acyclic (owner_rel ds)"
    using assms ownership_exact [OF assms]
    by (auto simp: check_descriptors_iff registry_ok_def list_all_iff)
  then show ?thesis
    using check_required_cycles_iff [OF targets_registeredI, of ds]
    by (auto simp: Validate_def check_conditions_iff registry_sound_def)
qed

text \<open>C11. \<open>registry.Validate\<close> is exact: over registered descriptors it returns (no panic) precisely
  when every parent and reference target is registered, reference types, plurals and condition
  types are unambiguous, no mapped condition type is reserved (for any adapter of any entity),
  every expression compiles, bounds are consistent, and neither the ownership chain nor the
  required references are circular.\<close>

theorem Validate_exact:
  assumes "registry_ok ds"
  shows "Validate cc ds = None \<longleftrightarrow> registry_sound ds \<and> list_all (conditions_ok cc ds) ds"
  using assms by (rule Validate_iff)

text \<open>Two entity types for concrete instances: clusters, and node pools owned by them.\<close>

definition sample_descriptor :: "string \<Rightarrow> string \<Rightarrow> string \<Rightarrow> string list \<Rightarrow> entity_descriptor" where
  "sample_descriptor kind plural parent adapters =
     \<lparr>desc_Kind = kind, desc_Plural = plural, desc_ParentKind = parent, desc_SpecSchemaName = [],
      desc_OnParentDelete = OnParentDeleteCascade, desc_RequiredAdapters = adapters,
      desc_References = [], desc_Conditions = [], desc_NameMinLen = 0, desc_NameMaxLen = 0,
      desc_RequireSpecSchema = False\<rparr>"

definition sample_registry :: registry where
  "sample_registry =
     [sample_descriptor ''Cluster'' ''clusters'' [] [''dns'', ''validation''],
      sample_descriptor ''NodePool'' ''nodepools'' ''Cluster'' [''validation'']]"

definition sample_compiler :: cel_compiler where
  "sample_compiler = \<lparr>cc_NewEnv = None, cc_Parse = (\<lambda>_. None), cc_Check = (\<lambda>_. None), cc_Program = (\<lambda>_. None)\<rparr>"

lemma sample_registry_ok: "registry_ok sample_registry"
  by (simp add: registry_ok_def sample_registry_def sample_descriptor_def)

lemma sample_registry_sound: "registry_sound sample_registry"
proof -
  have "Validate sample_compiler sample_registry = None" by code_simp
  then show ?thesis using Validate_iff [OF sample_registry_ok] by blast
qed

lemma Validate_exact_witness:
  "registry_ok sample_registry \<and> registry_sound sample_registry \<and> Validate sample_compiler sample_registry = None"
proof -
  have "Validate sample_compiler sample_registry = None" by code_simp
  with sample_registry_ok show ?thesis
    using Validate_exact [of sample_registry sample_compiler] by simp
qed

lemma LoadDescriptors_append:
  "LoadDescriptors xs ds = Inr ds' \<longleftrightarrow>
     ds' = ds @ xs \<and> list_all (\<lambda>d. desc_Kind d \<noteq> [] \<and> desc_Plural d \<noteq> []) xs \<and>
     distinct (map desc_Kind xs) \<and> desc_Kind ` set xs \<inter> desc_Kind ` set ds = {}"
proof (induction xs arbitrary: ds)
  case (Cons d xs)
  show ?case
  proof (cases "Register d ds")
    case (Inl e)
    then show ?thesis by (auto simp: Register_def Get_None split: if_splits)
  next
    case (Inr es)
    then have "es = ds @ [d]" "desc_Kind d \<noteq> []" "desc_Plural d \<noteq> []" "desc_Kind d \<notin> desc_Kind ` set ds"
      by (auto simp: Register_def Get_None split: if_splits)
    with Inr Cons.IH [of es] show ?thesis by auto
  qed
qed auto

text \<open>Loading descriptors at startup succeeds exactly when every kind and plural is non-empty
  and the kinds are distinct; the registry then holds the descriptors as given, so each kind is
  looked up as its own descriptor.\<close>

theorem LoadDescriptors_exact:
  "LoadDescriptors xs [] = Inr ds \<longleftrightarrow> ds = xs \<and> registry_ok xs"
  by (auto simp: LoadDescriptors_append registry_ok_def)

end
