(* ===== verification/Condition_Mapper.thy ===== *)
theory Condition_Mapper
  imports Status_Report Registry "HOL-Library.Sublist"
begin

text \<open>
  \<open>pkg/services/condition_mapper.go\<close>: the CEL rules of an entity evaluated over its adapter
  reports and the masked resource, with the one-entry cache of the masked resource.  The CEL
  library is a parameter: its compiler (\<open>cel_compiler\<close>) and, for a compiled expression, the value
  or error of evaluating it over an activation.  Maps of the activation are JSON objects.
\<close>

section \<open>The CEL library\<close>

text \<open>What an evaluation returns, as \<open>extractString\<close> and the boolean test look at it; \<open>COther\<close> has the
  value's \<open>%T\<close> and \<open>%v\<close> texts.\<close>

datatype cel_value = CUnknownOrError | CNull | CString string | CBool bool | COther string string

type_synonym cel_program = "json \<Rightarrow> string + cel_value"

record cel_library = cel_compiler +
  cl_Eval :: "string \<Rightarrow> cel_program"

record compiled_rule =
  cr_whenProgram :: cel_program
  cr_statusProgram :: cel_program
  cr_reasonProgram :: cel_program
  cr_messageProgram :: cel_program
  cr_conditionType :: string

record cached_resource =
  ca_maskedMap :: "(string \<times> json) list"
  ca_resourceID :: string
  ca_generation :: int32

text \<open>The mapper; its cache is kept apart, with the process memory of the services.\<close>

record condition_mapper =
  cm_rules :: "string \<rightharpoonup> compiled_rule"
  cm_resourceKind :: string
  cm_sortedNames :: "string list"

section \<open>Compilation\<close>

definition compileExpression :: "cel_library \<Rightarrow> string \<Rightarrow> string + cel_program" where
  "compileExpression cl e =
     (case cc_Parse (cel_compiler.truncate cl) e of
        Some err \<Rightarrow> Inl (Sprintf ''parse error: %w'' [FS err])
      | None \<Rightarrow>
     (case cc_Check (cel_compiler.truncate cl) e of
        Some err \<Rightarrow> Inl (Sprintf ''check error: %w'' [FS err])
      | None \<Rightarrow>
     (case cc_Program (cel_compiler.truncate cl) e of
        Some err \<Rightarrow> Inl (Sprintf ''program error: %w'' [FS err])
      | None \<Rightarrow> Inr (cl_Eval cl e))))"

definition compileRule :: "cel_library \<Rightarrow> string \<Rightarrow> condition_mapping_rule \<Rightarrow> string + compiled_rule" where
  "compileRule cl condType rule =
     (if length condType > MaxConditionTypeLength then
        Inl (Sprintf ''condition type exceeds max length %d (got %d)''
               [FD (int MaxConditionTypeLength), FD (int (length condType))])
      else case compileExpression cl (cmr_When rule) of
        Inl err \<Rightarrow> Inl (Sprintf ''when: %w'' [FS err])
      | Inr whenPrg \<Rightarrow>
     (case compileExpression cl (mo_Status (cmr_Output rule)) of
        Inl err \<Rightarrow> Inl (Sprintf ''output.status: %w'' [FS err])
      | Inr statusPrg \<Rightarrow>
     (case compileExpression cl (mo_Reason (cmr_Output rule)) of
        Inl err \<Rightarrow> Inl (Sprintf ''output.reason: %w'' [FS err])
      | Inr reasonPrg \<Rightarrow>
     (case compileExpression cl (mo_Message (cmr_Output rule)) of
        Inl err \<Rightarrow> Inl (Sprintf ''output.message: %w'' [FS err])
      | Inr messagePrg \<Rightarrow>
          Inr \<lparr>cr_whenProgram = whenPrg, cr_statusProgram = statusPrg, cr_reasonProgram = reasonPrg,
               cr_messageProgram = messagePrg, cr_conditionType = condType\<rparr>))))"

fun compile_rules ::
  "cel_library \<Rightarrow> condition_mapping_rule list \<Rightarrow> (string \<rightharpoonup> compiled_rule) \<Rightarrow> string + (string \<rightharpoonup> compiled_rule)" where
  "compile_rules cl [] m = Inr m"
| "compile_rules cl (r # rs) m =
     (case compileRule cl (cmr_Type r) r of
        Inl err \<Rightarrow> Inl (Sprintf ''failed to compile rule for condition %s: %w'' [FS (cmr_Type r), FS err])
      | Inr c \<Rightarrow> compile_rules cl rs (m(cmr_Type r \<mapsto> c)))"

definition NewConditionMapper :: "cel_library \<Rightarrow> string \<Rightarrow> condition_mapping_rule list \<Rightarrow> string + condition_mapper" where
  "NewConditionMapper cl kind rules =
     (case cc_NewEnv (cel_compiler.truncate cl) of
        Some err \<Rightarrow> Inl (Sprintf ''failed to create CEL environment: %w'' [FS err])
      | None \<Rightarrow>
     (case compile_rules cl rules Map.empty of
        Inl err \<Rightarrow> Inl err
      | Inr compiled \<Rightarrow>
          Inr \<lparr>cm_rules = compiled, cm_resourceKind = kind,
               cm_sortedNames = sort (remdups (map cmr_Type rules))\<rparr>))"

section \<open>The activation\<close>

text \<open>\<open>json.Marshal(resource)\<close> followed by decoding into a map: \<open>None\<close> when a raw column is not JSON.\<close>

definition raw_member :: "string \<Rightarrow> jsonb \<Rightarrow> (string \<times> json) option" where
  "raw_member k b = (case b of JEmpty \<Rightarrow> Some (k, JNull) | JDoc j \<Rightarrow> Some (k, j) | JMalformed _ \<Rightarrow> None)"

definition text_member :: "string \<Rightarrow> string \<Rightarrow> (string \<times> json) list" where
  "text_member k v = (if v = [] then [] else [(k, JStr v)])"

definition encode_resource :: "resource \<Rightarrow> (string \<times> json) list option" where
  "encode_resource r =
     (case (raw_member ''spec'' (res_Spec r), raw_member ''tenancy'' (res_Tenancy r)) of
        (Some spec, Some tenancy) \<Rightarrow> Some (
          opt_member ''owner_id'' (res_OwnerID r) @ opt_member ''owner_href'' (res_OwnerHref r)
          @ opt_member ''owner_kind'' (res_OwnerKind r) @ opt_member ''deleted_by'' (res_DeletedBy r)
          @ (case res_DeletedTime r of None \<Rightarrow> [] | Some t \<Rightarrow> [(''deleted_time'', JTime t)])
          @ [(''CreatedTime'', JTime (res_CreatedTime r)), (''UpdatedTime'', JTime (res_UpdatedTime r)),
             (''ID'', JStr (res_ID r)), (''kind'', JStr (res_Kind r)), (''name'', JStr (res_Name r))]
          @ text_member ''href'' (res_Href r)
          @ [(''created_by'', JStr (res_CreatedBy r)), (''updated_by'', JStr (res_UpdatedBy r)),
             spec, tenancy, (''generation'', num_of_int32 (res_Generation r))])
      | _ \<Rightarrow> None)"

definition resourceToMap :: "resource \<Rightarrow> (string \<times> json) list" where
  "resourceToMap r = (case encode_resource r of None \<Rightarrow> [] | Some ms \<Rightarrow> ms)"

text \<open>\<open>getCachedOrBuildResource\<close>, with the cache before and after.\<close>

definition getCachedOrBuildResource ::
  "cached_resource option \<Rightarrow> resource \<Rightarrow> (string \<times> json) list \<times> cached_resource option" where
  "getCachedOrBuildResource cache r =
     (let build = (let m = MaskSensitiveFields (resourceToMap r) in
            (m, Some \<lparr>ca_maskedMap = m, ca_resourceID = res_ID r, ca_generation = res_Generation r\<rparr>))
      in case cache of
           Some c \<Rightarrow> if ca_resourceID c = res_ID r \<and> ca_generation c = res_Generation r
                     then (ca_maskedMap c, cache) else build
         | None \<Rightarrow> build)"

definition condition_map :: "adapter_condition \<Rightarrow> json" where
  "condition_map c = JObj
     [(''type'', JStr (ac_Type c)), (''status'', JStr (ac_Status c)),
      (''reason'', JStr (case ac_Reason c of Some s \<Rightarrow> s | None \<Rightarrow> [])),
      (''message'', JStr (case ac_Message c of Some s \<Rightarrow> s | None \<Rightarrow> []))]"

text \<open>The loop stops at the first \<open>Unknown\<close> status.\<close>

fun condition_maps :: "adapter_condition list \<Rightarrow> json list \<times> bool" where
  "condition_maps [] = ([], False)"
| "condition_maps (c # cs) =
     (if ac_Status c = AdapterConditionUnknown then ([], True)
      else (case condition_maps cs of (ms, u) \<Rightarrow> (condition_map c # ms, u)))"

definition parseConditionsWithUnknownCheck :: "jsonb \<Rightarrow> json list \<times> bool" where
  "parseConditionsWithUnknownCheck b =
     (if b = JEmpty then ([], False)
      else case decode_adapter_conditions b of None \<Rightarrow> ([], False) | Some cs \<Rightarrow> condition_maps cs)"

definition parseAdapterData :: "jsonb \<Rightarrow> (string \<times> json) list" where
  "parseAdapterData b = (case Unmarshal b of Some (JObj ms) \<Rightarrow> ms | _ \<Rightarrow> [])"

text \<open>\<open>None\<close> when a condition is \<open>Unknown\<close>.\<close>

definition adapterStatusToMapWithUnknownCheck :: "adapter_status \<Rightarrow> json option" where
  "adapterStatusToMapWithUnknownCheck s =
     (case parseConditionsWithUnknownCheck (as_Conditions s) of
        (conditions, hasUnknown) \<Rightarrow>
          if hasUnknown then None
          else Some (JObj
            [(''adapter'', JStr (as_Adapter s)), (''observed_generation'', num_of_int32 (as_ObservedGeneration s)),
             (''conditions'', JArr conditions),
             (''data'', JObj (MaskSensitiveFields (parseAdapterData (as_Data s))))]))"

fun buildStatusesList :: "adapter_status list \<Rightarrow> json list" where
  "buildStatusesList [] = []"
| "buildStatusesList (s # ss) =
     (case adapterStatusToMapWithUnknownCheck s of None \<Rightarrow> [] | Some m \<Rightarrow> [m]) @ buildStatusesList ss"

definition buildActivationWithCache ::
  "cached_resource option \<Rightarrow> adapter_status list \<Rightarrow> resource \<Rightarrow> json \<times> cached_resource option" where
  "buildActivationWithCache cache statuses r =
     (case getCachedOrBuildResource cache r of
        (resourceMap, cache') \<Rightarrow>
          (JObj [(''statuses'', JArr (buildStatusesList statuses)), (''resource'', JObj resourceMap)], cache'))"

section \<open>Evaluating a rule\<close>

definition extractString :: "cel_value \<Rightarrow> string" where
  "extractString v =
     (case v of CUnknownOrError \<Rightarrow> [] | CNull \<Rightarrow> [] | CString s \<Rightarrow> s
      | CBool b \<Rightarrow> if b then ''True'' else ''False'' | COther ty text \<Rightarrow> text)"

definition value_type_name :: "cel_value \<Rightarrow> string" where
  "value_type_name v =
     (case v of CString _ \<Rightarrow> ''string'' | CBool _ \<Rightarrow> ''bool'' | COther ty _ \<Rightarrow> ty | _ \<Rightarrow> ''<nil>'')"

text \<open>UTF-8: the length of the rune the bytes start with, \<open>None\<close> when they start with no valid
  encoding (\<open>utf8.DecodeRuneInString\<close> gives \<open>RuneError\<close>).\<close>

definition continuation :: "char \<Rightarrow> bool" where
  "continuation c \<longleftrightarrow> 128 \<le> (of_char c :: nat) \<and> (of_char c :: nat) < 192"

definition between :: "char \<Rightarrow> nat \<Rightarrow> nat \<Rightarrow> bool" where
  "between c lo hi \<longleftrightarrow> lo \<le> of_char c \<and> of_char c \<le> hi"

fun rune_size :: "string \<Rightarrow> nat option" where
  "rune_size [] = None"
| "rune_size (a # s) =
     (if between a 0 127 then Some 1
      else case s of
        [] \<Rightarrow> None
      | b # s2 \<Rightarrow>
          if between a 194 223 then (if continuation b then Some 2 else None)
          else (case s2 of
            [] \<Rightarrow> None
          | c # s3 \<Rightarrow>
              if between a 224 239 then
                (if continuation b \<and> continuation c \<and> (of_char a = (224::nat) \<longrightarrow> between b 160 191)
                    \<and> (of_char a = (237::nat) \<longrightarrow> between b 128 159) then Some 3 else None)
              else (case s3 of
                [] \<Rightarrow> None
              | d # s4 \<Rightarrow>
                  if between a 240 244 \<and> continuation b \<and> continuation c \<and> continuation d
                    \<and> (of_char a = (240::nat) \<longrightarrow> between b 144 191)
                    \<and> (of_char a = (244::nat) \<longrightarrow> between b 128 143) then Some 4 else None)))"

text \<open>The replacement character decodes to \<open>RuneError\<close> too.\<close>

definition replacement_char :: string where
  "replacement_char = map char_of [239::nat, 191, 189]"

definition rune_ok :: "string \<Rightarrow> bool" where
  "rune_ok s \<longleftrightarrow> rune_size s \<noteq> None \<and> \<not> HasPrefix s replacement_char"

fun truncate_from :: "string \<Rightarrow> nat \<Rightarrow> string" where
  "truncate_from s 0 = []"
| "truncate_from s (Suc i) =
     (if \<not> continuation (s ! Suc i) \<and> rune_ok (drop (Suc i) s) then take (Suc i) s else truncate_from s i)"

definition truncateUTF8 :: "string \<Rightarrow> nat \<Rightarrow> string" where
  "truncateUTF8 s maxBytes = (if length s \<le> maxBytes then s else truncate_from s maxBytes)"

definition truncateMessage :: "string \<Rightarrow> string" where
  "truncateMessage s =
     (if length s > MaxConditionMessageLength then truncateUTF8 s MaxConditionMessageLength else s)"

text \<open>Go converts a \<open>float64\<close> in range to \<open>int32\<close> by truncation.\<close>

definition extractResourceGeneration :: "json \<Rightarrow> int32" where
  "extractResourceGeneration activation =
     (case activation of
        JObj vars \<Rightarrow>
          (case map_of vars ''resource'' of
             Some (JObj ms) \<Rightarrow>
               (case map_of ms ''generation'' of
                  Some (JNum gen) \<Rightarrow>
                    if gen < - (2 ^ 31) \<or> gen > 2 ^ 31 - 1 then 0
                    else word_of_int (if gen \<ge> 0 then \<lfloor>gen\<rfloor> else \<lceil>gen\<rceil>)
                | _ \<Rightarrow> 0)
           | _ \<Rightarrow> 0)
      | _ \<Rightarrow> 0)"

definition buildMappedCondition ::
  "compiled_rule \<Rightarrow> string \<Rightarrow> string \<Rightarrow> string \<Rightarrow> json \<Rightarrow> gotime \<Rightarrow> resource_condition option \<Rightarrow>
     string + resource_condition" where
  "buildMappedCondition rule statusStr reasonStr messageStr activation refTime prev =
     (let mk = (\<lambda>status.
        \<lparr>rc_CreatedTime = (case prev of
             Some p \<Rightarrow> if \<not> IsZero (rc_CreatedTime p) then rc_CreatedTime p else truncate_us refTime
           | None \<Rightarrow> truncate_us refTime),
         rc_LastUpdatedTime = truncate_us refTime,
         rc_LastTransitionTime = (case prev of
             Some p \<Rightarrow> if rc_Status p = status \<and> \<not> IsZero (rc_LastTransitionTime p)
                       then rc_LastTransitionTime p else truncate_us refTime
           | None \<Rightarrow> truncate_us refTime),
         rc_Reason = Some reasonStr, rc_Message = Some messageStr, rc_ResourceID = [],
         rc_Type = cr_conditionType rule, rc_Status = status,
         rc_ObservedGeneration = extractResourceGeneration activation\<rparr>)
      in if EqualFold statusStr ''True'' then Inr (mk ConditionTrue)
         else if EqualFold statusStr ''False'' then Inr (mk ConditionFalse)
         else Inl (Sprintf ''invalid status value: %s (must be %s or %s)'' [FS statusStr, FS ''True'', FS ''False'']))"

text \<open>\<open>Inr None\<close> skips the condition.\<close>

definition evaluateRule ::
  "compiled_rule \<Rightarrow> json \<Rightarrow> gotime \<Rightarrow> resource_condition option \<Rightarrow> string + resource_condition option" where
  "evaluateRule rule activation refTime prev =
     (case cr_whenProgram rule activation of
        Inl err \<Rightarrow> Inl (Sprintf ''when expression evaluation failed: %w'' [FS err])
      | Inr whenResult \<Rightarrow>
     (case whenResult of
        CBool False \<Rightarrow> Inr None
      | CBool True \<Rightarrow>
     (case cr_statusProgram rule activation of
        Inl err \<Rightarrow> Inl (Sprintf ''status expression evaluation failed: %w'' [FS err])
      | Inr statusResult \<Rightarrow>
     (case cr_reasonProgram rule activation of
        Inl err \<Rightarrow> Inl (Sprintf ''reason expression evaluation failed: %w'' [FS err])
      | Inr reasonResult \<Rightarrow>
     (case cr_messageProgram rule activation of
        Inl err \<Rightarrow> Inl (Sprintf ''message expression evaluation failed: %w'' [FS err])
      | Inr messageResult \<Rightarrow>
          if length (extractString reasonResult) > MaxConditionReasonLength then Inr None
          else (case buildMappedCondition rule (extractString statusResult) (extractString reasonResult)
                       (truncateMessage (extractString messageResult)) activation refTime prev of
                  Inl err \<Rightarrow> Inl err | Inr c \<Rightarrow> Inr (Some c)))))
      | _ \<Rightarrow> Inl (Sprintf ''when expression did not return boolean (got %T)'' [FS (value_type_name whenResult)])))"

text \<open>Previous conditions by type: later entries win.\<close>

definition conditions_index :: "resource_condition list \<Rightarrow> (string \<rightharpoonup> resource_condition)" where
  "conditions_index cs = foldl (\<lambda>m c. m(rc_Type c \<mapsto> c)) Map.empty cs"

fun apply_rules ::
  "condition_mapper \<Rightarrow> json \<Rightarrow> gotime \<Rightarrow> (string \<rightharpoonup> resource_condition) \<Rightarrow> string list \<Rightarrow>
     string + resource_condition list" where
  "apply_rules m activation refTime prevs [] = Inr []"
| "apply_rules m activation refTime prevs (name # names) =
     (case cm_rules m name of
        None \<Rightarrow> apply_rules m activation refTime prevs names
      | Some rule \<Rightarrow>
          (case evaluateRule rule activation refTime (prevs (cr_conditionType rule)) of
             Inl err \<Rightarrow> Inl (Sprintf ''condition mapping failed for %s.%s: %w''
                         [FS (cm_resourceKind m), FS (cr_conditionType rule), FS err])
           | Inr c \<Rightarrow>
               (case apply_rules m activation refTime prevs names of
                  Inl err \<Rightarrow> Inl err
                | Inr cs \<Rightarrow> Inr (case c of None \<Rightarrow> cs | Some c \<Rightarrow> c # cs))))"

definition Apply ::
  "condition_mapper \<Rightarrow> cached_resource option \<Rightarrow> adapter_status list \<Rightarrow> resource \<Rightarrow> gotime \<Rightarrow>
     resource_condition list \<Rightarrow> (string + resource_condition list) \<times> cached_resource option" where
  "Apply m cache statuses r refTime prevConditions =
     (if cm_sortedNames m = [] then (Inr [], cache)
      else case buildActivationWithCache cache statuses r of
             (activation, cache') \<Rightarrow>
               (apply_rules m activation refTime (conditions_index prevConditions) (cm_sortedNames m), cache'))"


section \<open>Truncation\<close>

lemma truncate_from_bound: "length (truncate_from s i) \<le> i"
  by (induction i) auto

lemma truncate_from_prefix: "\<exists>r. s = truncate_from s i @ r"
proof (induction i)
  case (Suc i)
  show ?case
  proof (cases "\<not> continuation (s ! Suc i) \<and> rune_ok (drop (Suc i) s)")
    case True
    then have "truncate_from s (Suc i) = take (Suc i) s" by simp
    then show ?thesis by (metis append_take_drop_id)
  next
    case False
    with Suc show ?thesis by auto
  qed
qed simp

text \<open>Valid UTF-8: a sequence of runes.\<close>

function valid_utf8 :: "string \<Rightarrow> bool" where
  "valid_utf8 s \<longleftrightarrow> s = [] \<or> (case rune_size s of None \<Rightarrow> False | Some n \<Rightarrow> valid_utf8 (drop n s))"
  by pat_completeness auto

lemma rune_size_bounds: "rune_size s = Some n \<Longrightarrow> 0 < n \<and> n \<le> length s"
  by (cases s rule: rune_size.cases) (auto split: if_splits list.splits)

termination valid_utf8
  by (relation "measure length") (auto dest: rune_size_bounds)

declare valid_utf8.simps [simp del]

lemma rune_rest_continuation:
  "rune_size s = Some n \<Longrightarrow> 0 < i \<Longrightarrow> i < n \<Longrightarrow> continuation (s ! i)"
  by (cases s rule: rune_size.cases)
     (auto simp: less_Suc_eq numeral_eq_Suc split: if_splits list.splits)

lemma rune_size_take:
  "rune_size s = Some n \<Longrightarrow> n \<le> i \<Longrightarrow> rune_size (take i s) = Some n"
proof -
  assume n: "rune_size s = Some n" "n \<le> i"
  obtain k where k: "i = n + k" using n(2) le_Suc_ex by blast
  show ?thesis
    using n(1) unfolding k
    by (cases s rule: rune_size.cases)
       (auto simp: numeral_eq_Suc split: if_splits list.splits)
qed

lemma valid_take:
  "valid_utf8 s \<Longrightarrow> i < length s \<Longrightarrow> \<not> continuation (s ! i) \<Longrightarrow> valid_utf8 (take i s)"
proof (induction s arbitrary: i rule: valid_utf8.induct)
  case (1 s)
  from 1(2,3) obtain n where n: "rune_size s = Some n" "valid_utf8 (drop n s)"
    by (subst (asm) valid_utf8.simps) (auto split: option.splits)
  show ?case
  proof (cases "i = 0")
    case True
    then show ?thesis by (simp add: valid_utf8.simps)
  next
    case False
    have "n \<le> i" using rune_rest_continuation [OF n(1), of i] False 1(4) by (meson gr0I not_le)
    moreover have "valid_utf8 (take (i - n) (drop n s))"
      using 1(1) [OF n(1), of "i - n"] n \<open>n \<le> i\<close> 1(3,4) rune_size_bounds [OF n(1)] by auto
    ultimately have "valid_utf8 (drop n (take i s))" by (simp add: drop_take)
    with rune_size_take [OF n(1) \<open>n \<le> i\<close>] show ?thesis by (subst valid_utf8.simps) simp
  qed
qed

lemma truncate_from_valid:
  "valid_utf8 s \<Longrightarrow> i < length s \<Longrightarrow> valid_utf8 (truncate_from s i)"
  by (induction i) (auto simp: valid_take valid_utf8.simps [of "[]"])

text \<open>Truncating a message never lengthens it beyond the limit, gives a prefix of it, leaves a
  message within the limit alone, and never cuts a character: the prefix of a valid UTF-8 message
  is valid UTF-8.\<close>

theorem truncateUTF8_sound:
  "length (truncateUTF8 s n) \<le> n \<and> (\<exists>r. s = truncateUTF8 s n @ r) \<and>
   (length s > n \<or> truncateUTF8 s n = s) \<and>
   (valid_utf8 s \<longrightarrow> valid_utf8 (truncateUTF8 s n))"
  using truncate_from_bound [of s n] truncate_from_prefix [of s n] truncate_from_valid [of s n]
  by (auto simp: truncateUTF8_def)

lemma truncateUTF8_sound_witness:
  "length (truncateUTF8 (replicate 3 (CHR ''a'') @ map char_of [195::nat, 169]) 4) \<le> 4
   \<and> valid_utf8 (truncateUTF8 (replicate 3 (CHR ''a'') @ map char_of [195::nat, 169]) 4)"
proof -
  let ?s = "replicate 3 (CHR ''a'') @ map char_of [195::nat, 169]"
  have "valid_utf8 ?s" by code_simp
  with truncateUTF8_sound [of ?s 4] show ?thesis by blast
qed

section \<open>What the rules see\<close>

lemma activation_keys_harmless:
  "\<not> isSensitiveKey ''statuses''" "\<not> isSensitiveKey ''resource''" "\<not> isSensitiveKey ''adapter''"
  "\<not> isSensitiveKey ''observed_generation''" "\<not> isSensitiveKey ''conditions''" "\<not> isSensitiveKey ''data''"
  "\<not> isSensitiveKey ''type''" "\<not> isSensitiveKey ''status''" "\<not> isSensitiveKey ''reason''" "\<not> isSensitiveKey ''message''"
  by code_simp+

lemma MaskSensitiveFields_redacted [simp]: "redacted (JObj (MaskSensitiveFields data))"
  unfolding MaskSensitiveFields_def by (rule mask_redacted)

lemma condition_maps_redacted: "condition_maps cs = (ms, u) \<Longrightarrow> list_all redacted ms"
  by (induction cs arbitrary: ms u)
     (auto simp: condition_map_def activation_keys_harmless split: if_splits prod.splits)

lemma status_map_redacted: "adapterStatusToMapWithUnknownCheck s = Some j \<Longrightarrow> redacted j"
  using MaskSensitiveFields_redacted [of "parseAdapterData (as_Data s)"]
  by (auto simp: adapterStatusToMapWithUnknownCheck_def parseConditionsWithUnknownCheck_def
      activation_keys_harmless num_of_int32_def simp del: redacted.simps(1) MaskSensitiveFields_redacted
      split: prod.splits if_splits option.splits dest: condition_maps_redacted)
     (auto simp: activation_keys_harmless num_of_int32_def dest: condition_maps_redacted)

lemma buildStatusesList_redacted: "list_all redacted (buildStatusesList ss)"
  by (induction ss) (auto split: option.splits dest: status_map_redacted)

text \<open>The cache holds masked data only.\<close>

definition cache_redacted :: "cached_resource option \<Rightarrow> bool" where
  "cache_redacted cache \<longleftrightarrow> (case cache of None \<Rightarrow> True | Some c \<Rightarrow> redacted (JObj (ca_maskedMap c)))"

text \<open>C10. Credentials do not reach CEL: in the activation the rules are evaluated over, no member with a
  sensitive name, in the resource or in any adapter's data and at any depth, holds anything but the
  redaction placeholder, and the cache keeps it so for the next evaluation.\<close>

theorem activation_redacted:
  assumes "cache_redacted cache" "buildActivationWithCache cache statuses r = (activation, cache')"
  shows "redacted activation \<and> cache_redacted cache'"
proof -
  obtain rm where rm: "getCachedOrBuildResource cache r = (rm, cache')"
      "activation = JObj [(''statuses'', JArr (buildStatusesList statuses)), (''resource'', JObj rm)]"
    using assms(2) by (auto simp: buildActivationWithCache_def split: prod.splits)
  have r: "redacted (JObj rm)" "cache_redacted cache'"
    using assms(1) rm(1) MaskSensitiveFields_redacted [of "resourceToMap r"]
    unfolding getCachedOrBuildResource_def Let_def cache_redacted_def
    by (cases cache; simp del: redacted.simps(1) split: if_splits;
        auto simp del: redacted.simps(1))+
  have "redacted (JArr (buildStatusesList statuses))" using buildStatusesList_redacted by simp
  with r rm(2) show ?thesis by (simp add: activation_keys_harmless)
qed

definition sample_resource :: resource where
  "sample_resource = \<lparr>res_OwnerID = None, res_OwnerHref = None, res_OwnerKind = None, res_DeletedBy = None,
     res_DeletedTime = None, res_CreatedTime = 10000, res_UpdatedTime = 10000, res_ID = ''c1'', res_Kind = ''Cluster'',
     res_Name = ''prod'', res_Href = ''/api/hyperfleet/v1/clusters/c1'', res_CreatedBy = ''ann'', res_UpdatedBy = ''ann'',
     res_Labels = [], res_Spec = JDoc (JObj [(''pullSecret'', JStr ''s3cr3t''), (''region'', JStr ''eu'')]),
     res_Tenancy = JDoc (JObj [(''org'', JStr ''acme'')]), res_Conditions = [], res_References = [], res_Generation = 1\<rparr>"

lemma activation_redacted_witness:
  "redacted (fst (buildActivationWithCache None [sample_full_report ''dns'' 1 100 ''True'' ''False''] sample_resource))"
proof -
  obtain a c where ac: "buildActivationWithCache None [sample_full_report ''dns'' 1 100 ''True'' ''False''] sample_resource = (a, c)"
    by (meson surj_pair)
  from activation_redacted [OF _ ac] ac show ?thesis by (simp add: cache_redacted_def)
qed

section \<open>What the mapper returns\<close>

lemma compileRule_type: "compileRule cl ty r = Inr c \<Longrightarrow> cr_conditionType c = ty \<and> length ty \<le> MaxConditionTypeLength"
  by (auto simp: compileRule_def split: if_splits sum.splits)

lemma compile_rules_types:
  "compile_rules cl rules m = Inr m' \<Longrightarrow> (\<forall>k c. m k = Some c \<longrightarrow> cr_conditionType c = k) \<Longrightarrow>
     (\<forall>k c. m' k = Some c \<longrightarrow> cr_conditionType c = k) \<and> dom m' = dom m \<union> set (map cmr_Type rules)"
proof (induction rules arbitrary: m)
  case (Cons r rs)
  from Cons.prems(1) obtain c where c: "compileRule cl (cmr_Type r) r = Inr c"
      "compile_rules cl rs (m(cmr_Type r \<mapsto> c)) = Inr m'"
    by (auto split: sum.splits)
  have "\<forall>k x. (m(cmr_Type r \<mapsto> c)) k = Some x \<longrightarrow> cr_conditionType x = k"
    using Cons.prems(2) compileRule_type [OF c(1)] by simp
  from Cons.IH [OF c(2) this] show ?case by (auto simp: dom_def)
qed simp

definition mapper_wf :: "condition_mapper \<Rightarrow> bool" where
  "mapper_wf m \<longleftrightarrow> sorted (cm_sortedNames m) \<and> distinct (cm_sortedNames m) \<and>
     (\<forall>k c. cm_rules m k = Some c \<longrightarrow> cr_conditionType c = k)"

lemma NewConditionMapper_wf:
  "NewConditionMapper cl kind rules = Inr m \<Longrightarrow> mapper_wf m \<and> set (cm_sortedNames m) = cmr_Type ` set rules"
  by (auto simp: NewConditionMapper_def mapper_wf_def split: option.splits sum.splits dest!: compile_rules_types)

definition mapped_ok :: "gotime \<Rightarrow> resource_condition \<Rightarrow> bool" where
  "mapped_ok t c \<longleftrightarrow> rc_Status c \<in> {ConditionTrue, ConditionFalse} \<and>
     (\<exists>r. rc_Reason c = Some r \<and> length r \<le> MaxConditionReasonLength) \<and>
     (\<exists>m. rc_Message c = Some m \<and> length m \<le> MaxConditionMessageLength) \<and>
     rc_LastUpdatedTime c = truncate_us t \<and> rc_ResourceID c = []"

lemma truncateMessage_bound: "length (truncateMessage s) \<le> MaxConditionMessageLength"
  using truncate_from_bound [of s MaxConditionMessageLength] by (auto simp: truncateMessage_def truncateUTF8_def)

lemma evaluateRule_ok:
  "evaluateRule rule act t prev = Inr (Some c) \<Longrightarrow> rc_Type c = cr_conditionType rule \<and> mapped_ok t c"
  by (auto simp: evaluateRule_def buildMappedCondition_def Let_def mapped_ok_def truncateMessage_bound
      split: sum.splits cel_value.splits bool.splits if_splits)

lemma apply_rules_ok:
  "apply_rules m act t prevs names = Inr cs \<Longrightarrow> mapper_wf m \<Longrightarrow>
     subseq (map rc_Type cs) names \<and> list_all (mapped_ok t) cs"
proof (induction names arbitrary: cs)
  case (Cons name names)
  show ?case
  proof (cases "cm_rules m name")
    case None
    with Cons show ?thesis by auto
  next
    case (Some rule)
    with Cons.prems obtain c cs' where c: "evaluateRule rule act t (prevs (cr_conditionType rule)) = Inr c"
        "apply_rules m act t prevs names = Inr cs'" "cs = (case c of None \<Rightarrow> cs' | Some c \<Rightarrow> c # cs')"
      by (auto split: sum.splits)
    have "cr_conditionType rule = name" using Some Cons.prems(2) by (auto simp: mapper_wf_def)
    with Cons.IH [OF c(2) Cons.prems(2)] c evaluateRule_ok show ?thesis
      by (cases c) auto
  qed
qed simp


lemma NewConditionMapper_lengths:
  "compile_rules cl rules m = Inr m' \<Longrightarrow> \<forall>r\<in>set rules. length (cmr_Type r) \<le> MaxConditionTypeLength"
  by (induction rules arbitrary: m) (auto split: sum.splits dest: compileRule_type)

lemma subseq_facts:
  "subseq xs ys \<Longrightarrow> set xs \<subseteq> set ys" "subseq xs ys \<Longrightarrow> distinct ys \<Longrightarrow> distinct xs"
  "subseq xs ys \<Longrightarrow> sorted ys \<Longrightarrow> sorted xs"
proof -
  show s: "subseq xs ys \<Longrightarrow> set xs \<subseteq> set ys" for xs ys :: "'a list"
    by (induction xs ys rule: list_emb.induct) auto
  show "subseq xs ys \<Longrightarrow> distinct ys \<Longrightarrow> distinct xs"
    by (induction xs ys rule: list_emb.induct) (auto dest: s)
  show "subseq xs ys \<Longrightarrow> sorted ys \<Longrightarrow> sorted xs"
    by (induction xs ys rule: list_emb.induct) (auto dest: s)
qed

text \<open>C9. Mapped conditions are well formed: whatever the expressions evaluate to, a mapper built from an
  entity's rules returns conditions of distinct types, in the sorted order of the types, each the
  type of one of the rules and at most 100 bytes, with status \<open>True\<close> or \<open>False\<close>, a reason of at most
  256 and a message of at most 2048 bytes, and the reference time, cut to microseconds, as update
  time.\<close>

theorem Apply_well_formed:
  assumes "NewConditionMapper cl kind rules = Inr m"
    and "Apply m cache statuses r t prev = (Inr cs, cache')"
  shows "distinct (map rc_Type cs) \<and> sorted (map rc_Type cs) \<and>
     (\<forall>c\<in>set cs. rc_Type c \<in> cmr_Type ` set rules \<and> length (rc_Type c) \<le> MaxConditionTypeLength \<and> mapped_ok t c)"
proof -
  have wf: "mapper_wf m" "set (cm_sortedNames m) = cmr_Type ` set rules"
    using NewConditionMapper_wf [OF assms(1)] by auto
  have lens: "\<forall>r\<in>set rules. length (cmr_Type r) \<le> MaxConditionTypeLength"
    using assms(1) by (auto simp: NewConditionMapper_def split: option.splits sum.splits dest: NewConditionMapper_lengths)
  have run: "subseq (map rc_Type cs) (cm_sortedNames m) \<and> list_all (mapped_ok t) cs"
  proof (cases "cm_sortedNames m = []")
    case True
    with assms(2) show ?thesis by (simp add: Apply_def)
  next
    case False
    with assms(2) obtain act where "apply_rules m act t (conditions_index prev) (cm_sortedNames m) = Inr cs"
      by (auto simp: Apply_def split: prod.splits)
    from apply_rules_ok [OF this wf(1)] show ?thesis .
  qed
  then have "distinct (map rc_Type cs)" "sorted (map rc_Type cs)"
    using wf(1) subseq_facts by (auto simp: mapper_wf_def)
  moreover have "rc_Type c \<in> cmr_Type ` set rules" if "c \<in> set cs" for c
    using run that wf(2) subseq_facts(1) [of "map rc_Type cs" "cm_sortedNames m"] by auto
  moreover from this lens have "length (rc_Type c) \<le> MaxConditionTypeLength" if "c \<in> set cs" for c
    using that by force
  ultimately show ?thesis using run by (auto simp: list_all_iff)
qed

definition sample_library :: cel_library where
  "sample_library = \<lparr>cc_NewEnv = None, cc_Parse = (\<lambda>_. None), cc_Check = (\<lambda>_. None), cc_Program = (\<lambda>_. None),
     cl_Eval = (\<lambda>e act. if e = ''true'' then Inr (CBool True)
       else if e = ''spec.region'' then
         Inr (case dig_parts act [''resource'', ''spec'', ''region''] of Some (JStr s) \<Rightarrow> CString s | _ \<Rightarrow> CNull)
       else Inr (CString e))\<rparr>"

definition sample_rule :: condition_mapping_rule where
  "sample_rule = \<lparr>cmr_Type = ''RegionReady'', cmr_When = ''true'',
     cmr_Output = \<lparr>mo_Status = ''true'', mo_Reason = ''spec.region'', mo_Message = ''placed''\<rparr>\<rparr>"

definition sample_mapper :: condition_mapper where
  "sample_mapper = (case NewConditionMapper sample_library ''Cluster'' [sample_rule] of
     Inr m \<Rightarrow> m | Inl _ \<Rightarrow> \<lparr>cm_rules = Map.empty, cm_resourceKind = [], cm_sortedNames = []\<rparr>)"

lemma sample_truncate: "cel_compiler.truncate sample_library = sample_compiler"
  by (simp add: sample_library_def sample_compiler_def cel_compiler.defs)

lemma sample_compile_expression: "compileExpression sample_library e = Inr (cl_Eval sample_library e)"
  by (simp add: compileExpression_def sample_truncate sample_compiler_def)

lemma sample_mapper_eq:
  "NewConditionMapper sample_library ''Cluster'' [sample_rule] = Inr sample_mapper"
  "cm_sortedNames sample_mapper = [''RegionReady'']"
  "cm_rules sample_mapper = [''RegionReady'' \<mapsto>
     \<lparr>cr_whenProgram = cl_Eval sample_library ''true'', cr_statusProgram = cl_Eval sample_library ''true'',
      cr_reasonProgram = cl_Eval sample_library ''spec.region'', cr_messageProgram = cl_Eval sample_library ''placed'',
      cr_conditionType = ''RegionReady''\<rparr>]"
proof -
  have "NewConditionMapper sample_library ''Cluster'' [sample_rule] = Inr
    \<lparr>cm_rules = [''RegionReady'' \<mapsto>
     \<lparr>cr_whenProgram = cl_Eval sample_library ''true'', cr_statusProgram = cl_Eval sample_library ''true'',
      cr_reasonProgram = cl_Eval sample_library ''spec.region'', cr_messageProgram = cl_Eval sample_library ''placed'',
      cr_conditionType = ''RegionReady''\<rparr>], cm_resourceKind = ''Cluster'', cm_sortedNames = [''RegionReady'']\<rparr>"
    by (simp add: NewConditionMapper_def compileRule_def sample_compile_expression sample_rule_def
        MaxConditionTypeLength_def sample_truncate sample_compiler_def)
  then show "NewConditionMapper sample_library ''Cluster'' [sample_rule] = Inr sample_mapper"
    "cm_sortedNames sample_mapper = [''RegionReady'']"
    "cm_rules sample_mapper = [''RegionReady'' \<mapsto>
     \<lparr>cr_whenProgram = cl_Eval sample_library ''true'', cr_statusProgram = cl_Eval sample_library ''true'',
      cr_reasonProgram = cl_Eval sample_library ''spec.region'', cr_messageProgram = cl_Eval sample_library ''placed'',
      cr_conditionType = ''RegionReady''\<rparr>]"
    by (simp_all add: sample_mapper_def)
qed

lemma sample_eval:
  "cl_Eval sample_library ''true'' act = Inr (CBool True)"
  "cl_Eval sample_library ''placed'' act = Inr (CString ''placed'')"
  "cl_Eval sample_library ''spec.region'' act =
     Inr (case dig_parts act [''resource'', ''spec'', ''region''] of Some (JStr s) \<Rightarrow> CString s | _ \<Rightarrow> CNull)"
  by (simp_all add: sample_library_def)

lemma Apply_well_formed_witness:
  "\<exists>cs. fst (Apply sample_mapper None [] (sample_resource\<lparr>res_Spec := JEmpty\<rparr>) 5000 []) = Inr cs \<and> distinct (map rc_Type cs) \<and> length cs = 1"
proof -
  let ?r = "sample_resource\<lparr>res_Spec := JEmpty\<rparr>"
  obtain act c where ac: "buildActivationWithCache None [] ?r = (act, c)" by (meson surj_pair)
  have dig: "dig_parts act [''resource'', ''spec'', ''region''] = None"
  proof -
    have "fst (buildActivationWithCache None [] ?r) = JObj [(''statuses'', JArr []), (''resource'', JObj (MaskSensitiveFields (resourceToMap ?r)))]"
      by (simp add: buildActivationWithCache_def getCachedOrBuildResource_def Let_def)
    moreover have "dig_parts (JObj [(''statuses'', JArr []), (''resource'', JObj (MaskSensitiveFields (resourceToMap ?r)))])
        [''resource'', ''spec'', ''region''] = None" by code_simp
    ultimately show ?thesis using ac by simp
  qed
  have "\<exists>x. apply_rules sample_mapper act 5000 (conditions_index []) [''RegionReady''] = Inr [x]"
  proof -
    have "EqualFold ''True'' ''True''" by (simp add: EqualFold_def)
    then show ?thesis
      by (simp add: sample_mapper_eq evaluateRule_def sample_eval dig extractString_def buildMappedCondition_def Let_def
        truncateMessage_def MaxConditionMessageLength_def MaxConditionReasonLength_def del: dig_parts.simps)
  qed
  then obtain x where "Apply sample_mapper None [] ?r 5000 [] = (Inr [x], c)"
    by (auto simp: Apply_def sample_mapper_eq ac)
  with Apply_well_formed [OF sample_mapper_eq(1) this] show ?thesis by auto
qed

end
