(* ===== verification/Database.thy ===== *)
theory Database
  imports Api_Types Tenant Condition_Mapper
begin

text \<open>
  The database as the DAOs see it: the tables and constraints of \<open>pkg/db/migrations\<close>, one SQL
  statement at a time, its errors (\<open>pkg/db/errors.go\<close>) and transactions (\<open>pkg/db/transactions.go\<close>);
  and the rest of the state an operation touches: clock, identifiers, the in-process caches of the
  condition mappers and the metrics.

  A statement may fail for reasons of its own (constraints) or of the infrastructure: \<open>w_faults\<close> says
  for each statement to come whether it fails, and how, so a fact that holds for every world holds
  for every pattern of failures.  \<open>time.Now()\<close> and the identifier generator read their n-th value from
  the environment.  Columns hold a time with the precision it is written with, the length limits of
  the columns are not checked (a violation is one of the possible faults), and a statement of a
  transaction sees no effect of another transaction (the code locks the rows it writes).
\<close>

section \<open>Tables\<close>

text \<open>Rows of \<open>resources\<close> carry no associations; those are loaded from the other tables.\<close>

record tables =
  t_resources :: "resource list"
  t_conditions :: "resource_condition list"
  t_labels :: "resource_label list"
  t_references :: "resource_reference list"
  t_statuses :: "adapter_status list"

datatype db_error =
    RecordNotFound
  | NetOpError string
  | IoEOF
  | IoUnexpectedEOF
  | SqlError string string
  | OtherDbError string
  | WrappedDb string db_error

fun db_text :: "db_error \<Rightarrow> string" where
  "db_text RecordNotFound = ''record not found''"
| "db_text (NetOpError s) = s"
| "db_text IoEOF = ''EOF''"
| "db_text IoUnexpectedEOF = ''unexpected EOF''"
| "db_text (SqlError code msg) = msg"
| "db_text (OtherDbError s) = s"
| "db_text (WrappedDb pre e) = pre @ db_text e"

text \<open>\<open>errors.Is\<close> and \<open>errors.AsType\<close> look through wrapping.\<close>

fun IsRecordNotFound :: "db_error \<Rightarrow> bool" where
  "IsRecordNotFound (WrappedDb _ e) = IsRecordNotFound e"
| "IsRecordNotFound e = (e = RecordNotFound)"

fun IsDBConnectionError :: "db_error \<Rightarrow> bool" where
  "IsDBConnectionError (WrappedDb _ e) = IsDBConnectionError e"
| "IsDBConnectionError (NetOpError _) = True"
| "IsDBConnectionError IoEOF = True"
| "IsDBConnectionError IoUnexpectedEOF = True"
| "IsDBConnectionError _ = False"

fun SQLState :: "db_error \<Rightarrow> string option" where
  "SQLState (WrappedDb _ e) = SQLState e"
| "SQLState (SqlError code _) = Some code"
| "SQLState _ = None"

definition IsInvalidColumnError :: "db_error \<Rightarrow> bool" where
  "IsInvalidColumnError e \<longleftrightarrow> SQLState e = Some ''42703'' \<or> SQLState e = Some ''42702''"

definition unique_violation :: "string \<Rightarrow> db_error" where
  "unique_violation constraint =
     SqlError ''23505'' (Sprintf ''pq: duplicate key value violates unique constraint %q'' [FS constraint])"

definition fk_violation :: "string \<Rightarrow> db_error" where
  "fk_violation constraint =
     SqlError ''23503'' (Sprintf ''pq: violates foreign key constraint %q'' [FS constraint])"

section \<open>The world of an operation\<close>

text \<open>How an operation fails: a service error, a database error on its way up, a Go panic.\<close>

datatype failure = Svc service_error | Db db_error | Panic string | OutOfFuel

record world =
  w_tables :: tables
  w_faults :: "db_error option list"
  w_clock :: nat
  w_ids :: nat
  w_caches :: "string \<Rightarrow> cached_resource option"
  w_metrics :: "(string \<times> bool) list"

type_synonym 'a op = "(failure, world, 'a) effect"

text \<open>What stays fixed while the server runs.\<close>

record environment =
  env_now :: "nat \<Rightarrow> gotime"
  env_newid :: "nat \<Rightarrow> string + string"
  env_registry :: registry
  env_mappers :: "string \<Rightarrow> condition_mapper option"

definition statement :: "(tables \<Rightarrow> (db_error + 'a) \<times> tables) \<Rightarrow> 'a op" where
  "statement f = (\<lambda>w.
     case w_faults w of
       Some e # fs \<Rightarrow> (Inl (Db e), w\<lparr>w_faults := fs\<rparr>)
     | fs \<Rightarrow> (case f (w_tables w) of
                (Inl e, t) \<Rightarrow> (Inl (Db e), w\<lparr>w_faults := tl fs\<rparr>)
              | (Inr x, t) \<Rightarrow> (Inr x, w\<lparr>w_tables := t, w_faults := tl fs\<rparr>)))"

definition query :: "(tables \<Rightarrow> db_error + 'a) \<Rightarrow> 'a op" where
  "query f = statement (\<lambda>t. (f t, t))"

definition execute :: "(tables \<Rightarrow> db_error + tables) \<Rightarrow> unit op" where
  "execute f = statement (\<lambda>t. case f t of Inl e \<Rightarrow> (Inl e, t) | Inr t' \<Rightarrow> (Inr (), t'))"

definition time_Now :: "environment \<Rightarrow> gotime op" where
  "time_Now env = (\<lambda>w. (Inr (env_now env (w_clock w)), w\<lparr>w_clock := w_clock w + 1\<rparr>))"

definition NewID :: "environment \<Rightarrow> string op" where
  "NewID env = (\<lambda>w. (case env_newid env (w_ids w) of
      Inl msg \<Rightarrow> Inl (Db (OtherDbError msg)) | Inr i \<Rightarrow> Inr i, w\<lparr>w_ids := w_ids w + 1\<rparr>))"

text \<open>\<open>if err != nil { return h(err) }\<close> for a database error; a panic goes on up.\<close>

fun svc_err :: "(db_error \<Rightarrow> service_error) \<Rightarrow> failure \<Rightarrow> failure" where
  "svc_err h (Db e) = Svc (h e)"
| "svc_err h f = f"

fun wrap_err :: "string \<Rightarrow> failure \<Rightarrow> failure" where
  "wrap_err pre (Db e) = Db (WrappedDb pre e)"
| "wrap_err pre f = f"

section \<open>Transactions (\<open>transactions.go\<close>)\<close>

definition Do :: "'a op \<Rightarrow> 'a op" where
  "Do callback = (\<lambda>w.
     case query (\<lambda>_. Inr ()) w of
       (Inl f, w1) \<Rightarrow> (Inl (wrap_err ''db: begin transaction: '' f), w1)
     | (Inr _, w1) \<Rightarrow>
         (case callback w1 of
            (Inl f, w2) \<Rightarrow> (Inl (wrap_err ''db: transaction callback: '' f), w2\<lparr>w_tables := w_tables w1\<rparr>)
          | (Inr x, w2) \<Rightarrow>
              (case query (\<lambda>_. Inr ()) w2 of
                 (Inl f, w3) \<Rightarrow> (Inl (wrap_err ''db: commit transaction: '' f), w3\<lparr>w_tables := w_tables w1\<rparr>)
               | (Inr _, w3) \<Rightarrow> (Inr x, w3))))"

section \<open>SQL statements\<close>

definition strip :: "resource \<Rightarrow> resource" where
  "strip r = r\<lparr>res_Labels := [], res_Conditions := [], res_References := []\<rparr>"

definition resource_ids :: "tables \<Rightarrow> string set" where
  "resource_ids t = res_ID ` set (t_resources t)"

text \<open>The partial unique indexes on names of live resources.\<close>

definition same_name_slot :: "resource \<Rightarrow> resource \<Rightarrow> bool" where
  "same_name_slot r x \<longleftrightarrow>
     res_DeletedTime r = None \<and> res_DeletedTime x = None \<and> res_Kind r = res_Kind x \<and> res_Name r = res_Name x \<and>
     (case (res_OwnerID r, res_OwnerID x) of
        (None, None) \<Rightarrow> jsonEqual (res_Tenancy r) (res_Tenancy x) \<and> jsonEqual (res_Tenancy x) (res_Tenancy r)
      | (Some o1, Some o2) \<Rightarrow> o1 = o2
      | _ \<Rightarrow> False)"

definition name_clash :: "resource \<Rightarrow> tables \<Rightarrow> bool" where
  "name_clash r t = list_ex (\<lambda>x. res_ID x \<noteq> res_ID r \<and> same_name_slot r x) (t_resources t)"

definition name_index :: "resource \<Rightarrow> string" where
  "name_index r = (if res_OwnerID r = None then ''idx_resources_kind_name'' else ''idx_resources_kind_owner_name'')"

definition insert_resource :: "resource \<Rightarrow> tables \<Rightarrow> db_error + tables" where
  "insert_resource r t =
     (if res_ID r \<in> resource_ids t then Inl (unique_violation ''resources_pkey'')
      else if name_clash r t then Inl (unique_violation (name_index r))
      else Inr (t\<lparr>t_resources := t_resources t @ [strip r]\<rparr>))"

text \<open>\<open>UPDATE ... WHERE id\<close>; GORM's \<open>Save\<close> inserts when no row was updated.\<close>

definition save_resource :: "resource \<Rightarrow> tables \<Rightarrow> db_error + tables" where
  "save_resource r t =
     (if res_ID r \<in> resource_ids t then
        (if name_clash r t then Inl (unique_violation (name_index r))
         else Inr (t\<lparr>t_resources := map (\<lambda>x. if res_ID x = res_ID r then strip r else x) (t_resources t)\<rparr>))
      else insert_resource r t)"

text \<open>Conditions, labels and outbound references cascade; a row that is still the target of a
  reference may not be deleted.\<close>

definition delete_resources :: "(resource \<Rightarrow> bool) \<Rightarrow> tables \<Rightarrow> db_error + tables" where
  "delete_resources P t =
     (let ids = map res_ID (filter P (t_resources t)) in
      if list_ex (\<lambda>f. rr_TargetID f \<in> set ids) (t_references t)
      then Inl (fk_violation ''resource_references_target_id_fkey'')
      else Inr (t\<lparr>t_resources := filter (\<lambda>r. \<not> P r) (t_resources t),
                  t_conditions := filter (\<lambda>c. rc_ResourceID c \<notin> set ids) (t_conditions t),
                  t_labels := filter (\<lambda>l. rl_ResourceID l \<notin> set ids) (t_labels t),
                  t_references := filter (\<lambda>f. rr_SourceID f \<notin> set ids) (t_references t)\<rparr>))"

definition condition_key :: "resource_condition \<Rightarrow> string \<times> string" where
  "condition_key c = (rc_ResourceID c, rc_Type c)"

definition label_key :: "resource_label \<Rightarrow> string \<times> string" where
  "label_key l = (rl_ResourceID l, rl_Key l)"

definition reference_key :: "resource_reference \<Rightarrow> string \<times> string \<times> string" where
  "reference_key f = (rr_SourceID f, rr_RefType f, rr_TargetID f)"

definition status_key :: "adapter_status \<Rightarrow> string \<times> string \<times> string" where
  "status_key s = (as_ResourceType s, as_ResourceID s, as_Adapter s)"

definition insert_conditions :: "resource_condition list \<Rightarrow> tables \<Rightarrow> db_error + tables" where
  "insert_conditions cs t =
     (if \<not> rc_ResourceID ` set cs \<subseteq> resource_ids t then Inl (fk_violation ''resource_conditions_resource_id_fkey'')
      else if \<not> distinct (map condition_key (t_conditions t @ cs)) then Inl (unique_violation ''resource_conditions_pkey'')
      else Inr (t\<lparr>t_conditions := t_conditions t @ cs\<rparr>))"

definition insert_labels :: "resource_label list \<Rightarrow> tables \<Rightarrow> db_error + tables" where
  "insert_labels ls t =
     (if \<not> rl_ResourceID ` set ls \<subseteq> resource_ids t then Inl (fk_violation ''resource_labels_resource_id_fkey'')
      else if \<not> distinct (map label_key (t_labels t @ ls)) then Inl (unique_violation ''resource_labels_pkey'')
      else Inr (t\<lparr>t_labels := t_labels t @ ls\<rparr>))"

definition insert_references :: "resource_reference list \<Rightarrow> tables \<Rightarrow> db_error + tables" where
  "insert_references fs t =
     (if \<not> (rr_SourceID ` set fs \<subseteq> resource_ids t \<and> rr_TargetID ` set fs \<subseteq> resource_ids t)
      then Inl (fk_violation ''resource_references_fkey'')
      else if \<not> distinct (map reference_key (t_references t @ fs)) then Inl (unique_violation ''resource_references_pkey'')
      else Inr (t\<lparr>t_references := t_references t @ fs\<rparr>))"

definition insert_status :: "adapter_status \<Rightarrow> tables \<Rightarrow> db_error + tables" where
  "insert_status s t =
     (if as_ID s \<in> as_ID ` set (t_statuses t) then Inl (unique_violation ''adapter_statuses_pkey'')
      else if status_key s \<in> status_key ` set (t_statuses t) then Inl (unique_violation ''idx_adapter_statuses_unique'')
      else Inr (t\<lparr>t_statuses := t_statuses t @ [s]\<rparr>))"

section \<open>The schema\<close>

lemma same_name_slot_sym: "same_name_slot r x \<longleftrightarrow> same_name_slot x r"
  by (auto simp: same_name_slot_def split: option.splits)

lemma strip_fields [simp]:
  "res_ID (strip r) = res_ID r" "res_Kind (strip r) = res_Kind r" "res_Name (strip r) = res_Name r"
  "res_OwnerID (strip r) = res_OwnerID r" "res_Tenancy (strip r) = res_Tenancy r"
  "res_DeletedTime (strip r) = res_DeletedTime r" "res_Generation (strip r) = res_Generation r"
  "strip (strip r) = strip r"
  by (simp_all add: strip_def)

lemma strip_slot [simp]:
  "same_name_slot (strip r) x = same_name_slot r x" "same_name_slot x (strip r) = same_name_slot x r"
  by (simp_all only: same_name_slot_def strip_fields)

definition names_ok :: "resource list \<Rightarrow> bool" where
  "names_ok rs \<longleftrightarrow>
     (\<forall>r\<in>set rs. \<forall>x\<in>set rs. res_ID x \<noteq> res_ID r \<longrightarrow> \<not> same_name_slot r x)"

definition rows_ok :: "tables \<Rightarrow> bool" where
  "rows_ok t \<longleftrightarrow>
     distinct (map condition_key (t_conditions t)) \<and> distinct (map label_key (t_labels t)) \<and>
     distinct (map reference_key (t_references t)) \<and>
     distinct (map as_ID (t_statuses t)) \<and> distinct (map status_key (t_statuses t))"

definition links_ok :: "tables \<Rightarrow> bool" where
  "links_ok t \<longleftrightarrow>
     rc_ResourceID ` set (t_conditions t) \<subseteq> resource_ids t \<and> rl_ResourceID ` set (t_labels t) \<subseteq> resource_ids t \<and>
     rr_SourceID ` set (t_references t) \<subseteq> resource_ids t \<and> rr_TargetID ` set (t_references t) \<subseteq> resource_ids t"

definition schema_ok :: "tables \<Rightarrow> bool" where
  "schema_ok t \<longleftrightarrow>
     distinct (map res_ID (t_resources t)) \<and> (\<forall>r\<in>set (t_resources t). strip r = r) \<and>
     names_ok (t_resources t) \<and> rows_ok t \<and> links_ok t"

lemma names_ok_clash:
  assumes ok: "names_ok rs" and n: "\<forall>x\<in>set rs. res_ID x \<noteq> res_ID r \<longrightarrow> \<not> same_name_slot r x"
    and s: "\<forall>a\<in>set rs'. a \<in> set rs \<or> a = strip r"
  shows "names_ok rs'"
  unfolding names_ok_def
proof (intro ballI impI)
  fix a x assume a: "a \<in> set rs'" and x: "x \<in> set rs'" and ne: "res_ID x \<noteq> res_ID a"
  from s a x have "a \<in> set rs \<or> a = strip r" "x \<in> set rs \<or> x = strip r" by auto
  then show "\<not> same_name_slot a x"
  proof (elim disjE)
    assume "a \<in> set rs" "x \<in> set rs" with ok ne show ?thesis by (auto simp: names_ok_def)
  next
    assume "a \<in> set rs" "x = strip r"
    with n ne show ?thesis using same_name_slot_sym [of a r] by auto
  next
    assume "a = strip r" "x \<in> set rs" with n ne show ?thesis by auto
  next
    assume "a = strip r" "x = strip r" with ne show ?thesis by auto
  qed
qed

lemma insert_resource_schema:
  assumes ok: "schema_ok t" and ins: "insert_resource r t = Inr t'"
  shows "schema_ok t'"
proof -
  from ins have t': "t' = t\<lparr>t_resources := t_resources t @ [strip r]\<rparr>" and new: "res_ID r \<notin> resource_ids t"
      and n: "\<not> name_clash r t"
    by (auto simp: insert_resource_def split: if_splits)
  have names: "names_ok (t_resources t)" using ok by (simp add: schema_ok_def)
  have free: "\<forall>x\<in>set (t_resources t). res_ID x \<noteq> res_ID r \<longrightarrow> \<not> same_name_slot r x"
    using n unfolding name_clash_def list_ex_iff by blast
  have "names_ok (t_resources t')"
    by (rule names_ok_clash [OF names free]) (auto simp: t')
  moreover have "rows_ok t'" using ok by (simp add: schema_ok_def rows_ok_def t')
  moreover have "resource_ids t \<subseteq> resource_ids t'" by (auto simp: resource_ids_def t')
  then have "links_ok t'" using ok by (auto simp: schema_ok_def links_ok_def t')
  ultimately show ?thesis using ok new by (auto simp: schema_ok_def t' resource_ids_def)
qed

lemma save_resource_schema:
  assumes ok: "schema_ok t" and save: "save_resource r t = Inr t'"
  shows "schema_ok t'"
proof (cases "res_ID r \<in> resource_ids t")
  case True
  let ?rs = "map (\<lambda>x. if res_ID x = res_ID r then strip r else x) (t_resources t)"
  from save True have n: "\<not> name_clash r t" and t': "t' = t\<lparr>t_resources := ?rs\<rparr>"
    by (simp_all only: save_resource_def split: if_splits) simp_all
  have ids: "map res_ID ?rs = map res_ID (t_resources t)" by simp
  have rs: "t_resources t' = ?rs" by (simp add: t')
  have same: "resource_ids t' = resource_ids t"
    unfolding resource_ids_def rs using arg_cong [OF ids, of set] by (simp only: set_map)
  have names: "names_ok (t_resources t)" using ok by (simp add: schema_ok_def)
  have free: "\<forall>x\<in>set (t_resources t). res_ID x \<noteq> res_ID r \<longrightarrow> \<not> same_name_slot r x"
    using n unfolding name_clash_def list_ex_iff by blast
  have "names_ok (t_resources t')"
    by (rule names_ok_clash [OF names free]) (auto simp: t')
  moreover have "rows_ok t'" using ok by (simp add: schema_ok_def rows_ok_def t')
  moreover have "links_ok t'" using ok by (simp add: schema_ok_def links_ok_def t' same [unfolded t'])
  moreover have "distinct (map res_ID (t_resources t'))" using ok unfolding rs ids by (simp add: schema_ok_def)
  ultimately show ?thesis using ok by (auto simp: schema_ok_def t')
next
  case False
  with ok save insert_resource_schema show ?thesis by (simp add: save_resource_def)
qed

lemma names_ok_subset: "names_ok rs \<Longrightarrow> set rs' \<subseteq> set rs \<Longrightarrow> names_ok rs'"
  by (auto simp: names_ok_def)

lemma delete_resources_schema:
  assumes ok: "schema_ok t" and del: "delete_resources P t = Inr t'"
  shows "schema_ok t'"
proof -
  let ?ids = "map res_ID (filter P (t_resources t))"
  from del have t': "t' = t\<lparr>t_resources := filter (\<lambda>r. \<not> P r) (t_resources t),
        t_conditions := filter (\<lambda>c. rc_ResourceID c \<notin> set ?ids) (t_conditions t),
        t_labels := filter (\<lambda>l. rl_ResourceID l \<notin> set ?ids) (t_labels t),
        t_references := filter (\<lambda>f. rr_SourceID f \<notin> set ?ids) (t_references t)\<rparr>"
      and no: "\<forall>f\<in>set (t_references t). rr_TargetID f \<notin> set ?ids"
    by (simp_all only: delete_resources_def Let_def list_ex_iff split: if_splits) auto
  have left: "i \<in> resource_ids t \<Longrightarrow> i \<notin> set ?ids \<Longrightarrow> i \<in> resource_ids t'" for i
    unfolding t' by (auto simp: resource_ids_def)
  from ok have links: "links_ok t" by (simp add: schema_ok_def)
  have "links_ok t'"
    unfolding links_ok_def
  proof (intro conjI subsetI)
    fix i assume "i \<in> rc_ResourceID ` set (t_conditions t')"
    with links left show "i \<in> resource_ids t'" unfolding t' links_ok_def by auto
  next
    fix i assume "i \<in> rl_ResourceID ` set (t_labels t')"
    with links left show "i \<in> resource_ids t'" unfolding t' links_ok_def by auto
  next
    fix i assume "i \<in> rr_SourceID ` set (t_references t')"
    with links left show "i \<in> resource_ids t'" unfolding t' links_ok_def by auto
  next
    fix i assume "i \<in> rr_TargetID ` set (t_references t')"
    with links no left show "i \<in> resource_ids t'" unfolding t' links_ok_def by auto
  qed
  moreover have "rows_ok t'" using ok by (simp add: schema_ok_def rows_ok_def t' distinct_map_filter)
  moreover have "names_ok (t_resources t')"
    by (rule names_ok_subset [of "t_resources t"]) (use ok in \<open>auto simp: schema_ok_def t'\<close>)
  ultimately show ?thesis using ok by (auto simp: schema_ok_def t' distinct_map_filter)
qed

lemma resource_ids_upd [simp]:
  "resource_ids (t_conditions_update f t) = resource_ids t" "resource_ids (t_labels_update g t) = resource_ids t"
  "resource_ids (t_references_update h t) = resource_ids t" "resource_ids (t_statuses_update k t) = resource_ids t"
  by (simp_all add: resource_ids_def)

lemma links_def2: "links_ok t \<longleftrightarrow>
    (\<forall>c\<in>set (t_conditions t). rc_ResourceID c \<in> resource_ids t) \<and> (\<forall>l\<in>set (t_labels t). rl_ResourceID l \<in> resource_ids t) \<and>
    (\<forall>f\<in>set (t_references t). rr_SourceID f \<in> resource_ids t \<and> rr_TargetID f \<in> resource_ids t)"
  by (auto simp: links_ok_def image_subset_iff)

lemma insert_conditions_schema:
  "schema_ok t \<Longrightarrow> insert_conditions cs t = Inr t' \<Longrightarrow> schema_ok t'"
  by (simp only: insert_conditions_def split: if_splits) (auto simp: schema_ok_def rows_ok_def links_def2 image_subset_iff)

lemma insert_labels_schema:
  "schema_ok t \<Longrightarrow> insert_labels ls t = Inr t' \<Longrightarrow> schema_ok t'"
  by (simp only: insert_labels_def split: if_splits) (auto simp: schema_ok_def rows_ok_def links_def2 image_subset_iff)

lemma insert_references_schema:
  "schema_ok t \<Longrightarrow> insert_references fs t = Inr t' \<Longrightarrow> schema_ok t'"
  by (simp only: insert_references_def split: if_splits) (auto simp: schema_ok_def rows_ok_def links_def2 image_subset_iff)

lemma insert_status_schema:
  "schema_ok t \<Longrightarrow> insert_status s t = Inr t' \<Longrightarrow> schema_ok t'"
  by (simp only: insert_status_def split: if_splits) (auto simp: schema_ok_def rows_ok_def links_def2 image_subset_iff)

lemma delete_rows_schema:
  "schema_ok t \<Longrightarrow> schema_ok (t_conditions_update (filter P) t)"
  "schema_ok t \<Longrightarrow> schema_ok (t_labels_update (filter Q) t)"
  "schema_ok t \<Longrightarrow> schema_ok (t_references_update (filter R) t)"
  "schema_ok t \<Longrightarrow> schema_ok (t_statuses_update (filter S) t)"
  by (auto simp: schema_ok_def rows_ok_def links_def2 distinct_map_filter)

text \<open>A statement that writes, and what it does to the tables.\<close>

definition older_row :: "adapter_status \<Rightarrow> adapter_status \<Rightarrow> bool" where
  "older_row s x \<longleftrightarrow> status_key x = status_key s \<and>
     (i32_less (as_ObservedGeneration x) (as_ObservedGeneration s) \<or>
      as_ObservedGeneration x = as_ObservedGeneration s \<and> as_LastReportTime x < as_LastReportTime s)"

definition overwrite_row :: "adapter_status \<Rightarrow> adapter_status \<Rightarrow> adapter_status" where
  "overwrite_row s x = x\<lparr>as_Conditions := as_Conditions s, as_Data := as_Data s, as_Metadata := as_Metadata s,
     as_ObservedGeneration := as_ObservedGeneration s, as_LastReportTime := as_LastReportTime s\<rparr>"

definition overwrite_older :: "adapter_status \<Rightarrow> adapter_status list \<Rightarrow> adapter_status list" where
  "overwrite_older s = map (\<lambda>x. if older_row s x then overwrite_row s x else x)"

text \<open>\<open>row_write\<close>: on the tables of rows that belong to resources; \<open>resource_write\<close>: on resources, whose
  deletion cascades.\<close>

inductive row_write :: "tables \<Rightarrow> tables \<Rightarrow> bool" where
  rw_conditions: "insert_conditions cs t = Inr t' \<Longrightarrow> row_write t t'"
| rw_labels: "insert_labels ls t = Inr t' \<Longrightarrow> row_write t t'"
| rw_references: "insert_references fs t = Inr t' \<Longrightarrow> row_write t t'"
| rw_status: "insert_status s t = Inr t' \<Longrightarrow> row_write t t'"
| rw_update_status: "row_write t (t_statuses_update (overwrite_older s) t)"
| rw_delete_conditions: "row_write t (t_conditions_update (filter Pc) t)"
| rw_delete_labels: "row_write t (t_labels_update (filter Pl) t)"
| rw_delete_references: "row_write t (t_references_update (filter Pr) t)"
| rw_delete_statuses: "row_write t (t_statuses_update (filter Ps) t)"

inductive resource_write :: "tables \<Rightarrow> tables \<Rightarrow> bool" where
  sw_insert: "insert_resource r t = Inr t' \<Longrightarrow> resource_write t t'"
| sw_save: "save_resource r t = Inr t' \<Longrightarrow> resource_write t t'"
| sw_delete: "delete_resources P t = Inr t' \<Longrightarrow> resource_write t t'"

inductive_cases resource_writeE: "resource_write t t'"

lemma overwrite_row_keys [simp]: "as_ID (overwrite_row s x) = as_ID x" "status_key (overwrite_row s x) = status_key x"
  "as_ObservedGeneration (overwrite_row s x) = as_ObservedGeneration s"
  "as_LastReportTime (overwrite_row s x) = as_LastReportTime s"
  by (simp_all add: overwrite_row_def status_key_def)

lemma overwrite_older_keys [simp]:
  "map as_ID (overwrite_older s xs) = map as_ID xs" "map status_key (overwrite_older s xs) = map status_key xs"
  by (simp_all add: overwrite_older_def)

lemma update_status_schema: "schema_ok t \<Longrightarrow> schema_ok (t_statuses_update (overwrite_older s) t)"
  unfolding schema_ok_def rows_ok_def links_def2 by simp

lemma row_write_schema: "row_write t t' \<Longrightarrow> schema_ok t \<Longrightarrow> schema_ok t'"
  by (induction rule: row_write.induct)
     (auto intro: insert_conditions_schema insert_labels_schema insert_references_schema insert_status_schema
        update_status_schema delete_rows_schema)

lemma resource_write_schema: "resource_write t t' \<Longrightarrow> schema_ok t \<Longrightarrow> schema_ok t'"
  by (auto elim!: resource_writeE intro: insert_resource_schema save_resource_schema delete_resources_schema)

lemma row_write_resources: "row_write t t' \<Longrightarrow> t_resources t' = t_resources t"
  by (induction rule: row_write.induct)
     (auto simp: insert_conditions_def insert_labels_def insert_references_def insert_status_def split: if_splits)

section \<open>Relations the operations keep\<close>

text \<open>\<open>same_tables\<close>: a step that reads only; clock, identifiers and faults may move on.\<close>

definition same_tables :: "world \<Rightarrow> world \<Rightarrow> bool" where
  "same_tables w w' \<longleftrightarrow> w_tables w' = w_tables w \<and> w_caches w' = w_caches w \<and> w_metrics w' = w_metrics w"

interpretation reading: world_relation same_tables
  by unfold_locales (auto simp: same_tables_def)

lemma query_same [keeps_intros]: "keeps same_tables (query f)"
  by (auto simp: keeps_def query_def statement_def same_tables_def
      split: list.splits option.splits prod.splits sum.splits)

lemma time_Now_same [keeps_intros]: "keeps same_tables (time_Now env)"
  by (auto simp: keeps_def time_Now_def same_tables_def)

lemma NewID_same [keeps_intros]: "keeps same_tables (NewID env)"
  by (auto simp: keeps_def NewID_def same_tables_def)

text \<open>
  What a relation between worlds must promise so that the operations keep it, whatever fails on the
  way.  \<open>row_relation\<close> is enough for operations that write no resource row: the relation holds across
  reads, writes to a cache and row writes.  \<open>op_relation\<close> is for all: it also holds across writes of
  resources and survives a rollback.
\<close>

locale row_relation = world_relation R for R :: "world \<Rightarrow> world \<Rightarrow> bool" +
  assumes R_quiet: "same_tables w w' \<Longrightarrow> R w w'"
    and R_cache: "R w (w\<lparr>w_caches := c\<rparr>)"
    and R_row: "row_write (w_tables w) t \<Longrightarrow> R w (w\<lparr>w_tables := t\<rparr>)"
begin

lemma keeps_quiet: "keeps same_tables m \<Longrightarrow> keeps R m"
  by (auto simp: keeps_def intro: R_quiet)

lemma statement_step:
  assumes step: "\<And>x t'. f (w_tables w) = (Inr x, t') \<Longrightarrow> R w (w\<lparr>w_tables := t'\<rparr>)"
    and run: "statement f w = (r, w')"
  shows "R w w'"
proof (cases r)
  case (Inl e)
  with run have "same_tables w w'"
    by (auto simp: statement_def same_tables_def split: list.splits option.splits prod.splits sum.splits)
  then show ?thesis by (rule R_quiet)
next
  case (Inr x)
  with run obtain t' fs where f: "f (w_tables w) = (Inr x, t')" and w': "w' = w\<lparr>w_tables := t', w_faults := fs\<rparr>"
    by (auto simp: statement_def split: list.splits option.splits prod.splits sum.splits)
  have "same_tables (w\<lparr>w_tables := t'\<rparr>) w'" by (simp add: same_tables_def w')
  then show ?thesis using step [OF f] R_trans R_quiet by blast
qed

lemma execute_step:
  assumes "\<And>t'. f (w_tables w) = Inr t' \<Longrightarrow> R w (w\<lparr>w_tables := t'\<rparr>)" and "execute f w = (r, w')"
  shows "R w w'"
  using assms(2) unfolding execute_def by (rule statement_step [rotated]) (auto split: sum.splits intro: assms(1))

lemma keeps_row_statement:
  assumes "\<And>t x t'. f t = (Inr x, t') \<Longrightarrow> t' = t \<or> row_write t t'"
  shows "keeps R (statement f)"
  by (rule keepsI, erule statement_step [rotated]) (auto dest!: assms intro: R_row R_refl)

lemma keeps_row_execute: "(\<And>t t'. f t = Inr t' \<Longrightarrow> row_write t t') \<Longrightarrow> keeps R (execute f)"
  unfolding execute_def by (rule keeps_row_statement) (auto split: sum.splits)

end

locale op_relation = row_relation R for R :: "world \<Rightarrow> world \<Rightarrow> bool" +
  assumes R_resource: "resource_write (w_tables w) t \<Longrightarrow> R w (w\<lparr>w_tables := t\<rparr>)"
    and R_rollback: "R w w' \<Longrightarrow> R w (w'\<lparr>w_tables := w_tables w\<rparr>)"
begin

lemma keeps_resource_execute: "(\<And>t t'. f t = Inr t' \<Longrightarrow> resource_write t t') \<Longrightarrow> keeps R (execute f)"
  by (rule keepsI, erule execute_step [rotated]) (auto intro: R_resource)

lemma keeps_Do:
  assumes "keeps R callback"
  shows "keeps R (Do callback)"
proof (rule keepsI)
  fix w r w' assume run: "Do callback w = (r, w')"
  obtain r1 w1 where q1: "query (\<lambda>_. Inr ()) w = (r1, w1)" by (cases "query (\<lambda>_. Inr () :: db_error + unit) w")
  obtain r2 w2 where cb: "callback w1 = (r2, w2)" by (cases "callback w1")
  obtain r3 w3 where q3: "query (\<lambda>_. Inr ()) w2 = (r3, w3)" by (cases "query (\<lambda>_. Inr () :: db_error + unit) w2")
  have R1: "R w w1" and same: "w_tables w1 = w_tables w"
    using keepsD [OF query_same q1] by (auto intro: R_quiet simp: same_tables_def)
  have R2: "R w w2" using R1 keepsD [OF assms cb] by (rule R_trans)
  have R3: "R w w3" using R2 keepsD [OF query_same q3] by (meson R_quiet R_trans)
  from run q1 cb q3 have "w' \<in> {w1, w2\<lparr>w_tables := w_tables w\<rparr>, w3\<lparr>w_tables := w_tables w\<rparr>, w3}"
    by (auto simp: Do_def same split: sum.splits)
  with R1 R2 R3 R_rollback show "R w w'" by blast
qed

end

definition keeps_schema :: "world \<Rightarrow> world \<Rightarrow> bool" where
  "keeps_schema w w' \<longleftrightarrow> (schema_ok (w_tables w) \<longrightarrow> schema_ok (w_tables w'))"

interpretation schema: op_relation keeps_schema
  by unfold_locales
     (auto simp: keeps_schema_def same_tables_def intro: row_write_schema resource_write_schema)

definition same_metrics :: "world \<Rightarrow> world \<Rightarrow> bool" where
  "same_metrics w w' \<longleftrightarrow> w_metrics w' = w_metrics w"

interpretation unmetered: op_relation same_metrics
  by unfold_locales (auto simp: same_metrics_def same_tables_def)

definition same_resources :: "world \<Rightarrow> world \<Rightarrow> bool" where
  "same_resources w w' \<longleftrightarrow> t_resources (w_tables w') = t_resources (w_tables w)"

interpretation fixed: row_relation same_resources
  by unfold_locales (auto simp: same_resources_def same_tables_def row_write_resources)

text \<open>A transaction that returns an error has changed no table, whatever failed in it.\<close>

lemma Do_atomic: "Do callback w = (Inl f, w') \<Longrightarrow> w_tables w' = w_tables w"
proof -
  assume run: "Do callback w = (Inl f, w')"
  obtain r1 w1 where q1: "query (\<lambda>_. Inr ()) w = (r1, w1)" by (cases "query (\<lambda>_. Inr () :: db_error + unit) w")
  have "w_tables w1 = w_tables w" using keepsD [OF query_same q1] by (simp add: same_tables_def)
  with run q1 show ?thesis by (auto simp: Do_def split: sum.splits prod.splits)
qed

lemma Do_Inr:
  assumes "Do callback w = (Inr x, w')"
  obtains w1 w2 where "w_tables w1 = w_tables w" "callback w1 = (Inr x, w2)" "w_tables w' = w_tables w2"
    "w_caches w1 = w_caches w" "w_metrics w1 = w_metrics w" "w_metrics w' = w_metrics w2"
proof -
  obtain r1 w1 where q1: "query (\<lambda>_. Inr ()) w = (r1, w1)" by (cases "query (\<lambda>_. Inr () :: db_error + unit) w")
  obtain r2 w2 where cb: "callback w1 = (r2, w2)" by (cases "callback w1")
  obtain r3 w3 where q3: "query (\<lambda>_. Inr ()) w2 = (r3, w3)" by (cases "query (\<lambda>_. Inr () :: db_error + unit) w2")
  have q: "w_tables v' = w_tables v \<and> w_caches v' = w_caches v \<and> w_metrics v' = w_metrics v"
    if "query (\<lambda>_. Inr ()) v = (r, v')" for v v' and r :: "failure + unit"
    using that by (auto simp: query_def statement_def split: list.splits option.splits)
  from assms q1 cb q3 have "r2 = Inr x" "w' = w3"
    by (auto simp: Do_def split: sum.splits)
  with that [of w1 w2] cb q [OF q1] q [OF q3] show thesis by simp
qed

end
