(* ===== verification/Dao.thy ===== *)
theory Dao
  imports Database
begin

text \<open>
  The data access objects: \<open>pkg/dao/resource.go\<close>, \<open>resource_condition.go\<close>, \<open>resource_label.go\<close> and
  \<open>adapter_status.go\<close>, with the GORM hooks of \<open>pkg/api/resource.go\<close> and \<open>adapter_status_types.go\<close>.

  A DAO method is a computation over the world.  A GORM query with preloaded associations counts as
  one statement: if one of its SELECTs fails, so does the query.  A query without an order returns
  the rows in the order of the table.  Row locks have no effect on a single transaction.

  Conditions, labels and references are rows owned by a resource, and three DAOs replace the rows of
  one owner by a delete and an insert; \<open>owned_rows\<close> states what such a table promises and derives
  what replacing does once for the three.
\<close>

section \<open>Hooks\<close>

definition must :: "environment \<Rightarrow> string \<Rightarrow> entity_descriptor op" where
  "must env kind =
     (case MustGet (env_registry env) kind of
        Inl (RPanic m) \<Rightarrow> raiseE (Panic m)
      | Inl ROutOfFuel \<Rightarrow> raiseE OutOfFuel
      | Inr d \<Rightarrow> returnE d)"

definition owner_set :: "resource \<Rightarrow> bool" where
  "owner_set r \<longleftrightarrow> res_OwnerID r \<noteq> None \<and> res_OwnerID r \<noteq> Some []"

definition owner_kind_missing :: "resource \<Rightarrow> bool" where
  "owner_kind_missing r \<longleftrightarrow> res_OwnerKind r = None \<or> res_OwnerKind r = Some []"

definition owner_kind_required :: db_error where
  "owner_kind_required = OtherDbError ''owner_kind is required when owner_id is set''"

definition api_prefix :: string where "api_prefix = ''/api/hyperfleet/v1/''"

text \<open>\<open>if r.Href == ""\<close>: the href of a root resource, or below the href of the owner.\<close>

definition set_href :: "environment \<Rightarrow> resource \<Rightarrow> resource op" where
  "set_href env r =
     bindE (must env (res_Kind r)) (\<lambda>desc.
     if owner_set r then
       if owner_kind_missing r then raiseE (Db owner_kind_required)
       else bindE (case res_OwnerHref r of
                     Some h \<Rightarrow> returnE h
                   | None \<Rightarrow> bindE (must env (the (res_OwnerKind r))) (\<lambda>parentDesc.
                       returnE (api_prefix @ desc_Plural parentDesc @ ''/'' @ the (res_OwnerID r))))
              (\<lambda>h. returnE (r\<lparr>res_OwnerHref := Some h, res_Href := h @ ''/'' @ desc_Plural desc @ ''/'' @ res_ID r\<rparr>))
     else returnE (r\<lparr>res_Href := api_prefix @ desc_Plural desc @ ''/'' @ res_ID r\<rparr>))"

definition Resource_BeforeCreate :: "environment \<Rightarrow> resource \<Rightarrow> resource op" where
  "Resource_BeforeCreate env r =
     bindE (if res_ID r = [] then call (NewID env) (wrap_err ''failed to generate resource ID: '') returnE
            else returnE (res_ID r)) (\<lambda>i.
     bindE (time_Now env) (\<lambda>now.
     let r1 = r\<lparr>res_ID := i,
                res_CreatedTime := (if IsZero (res_CreatedTime r) then now else res_CreatedTime r),
                res_UpdatedTime := now,
                res_Generation := (if res_Generation r = 0 then 1 else res_Generation r)\<rparr>
     in if res_Href r1 = [] then set_href env r1 else returnE r1))"

definition Resource_BeforeUpdate :: "environment \<Rightarrow> resource \<Rightarrow> resource op" where
  "Resource_BeforeUpdate env r = bindE (time_Now env) (\<lambda>now. returnE (r\<lparr>res_UpdatedTime := now\<rparr>))"

definition AdapterStatus_BeforeCreate :: "environment \<Rightarrow> adapter_status \<Rightarrow> adapter_status op" where
  "AdapterStatus_BeforeCreate env s =
     bindE (if as_ID s = [] then call (NewID env) (wrap_err ''failed to generate adapter status ID: '') returnE
            else returnE (as_ID s)) (\<lambda>i. returnE (s\<lparr>as_ID := i\<rparr>))"

section \<open>Reading resources\<close>

definition in_scope :: "req_context \<Rightarrow> resource \<Rightarrow> bool" where
  "in_scope cx r \<longleftrightarrow> ScopeDB cx (res_Tenancy r)"

definition withAssociations :: "tables \<Rightarrow> resource \<Rightarrow> resource" where
  "withAssociations t r =
     r\<lparr>res_Conditions := filter (\<lambda>c. rc_ResourceID c = res_ID r) (t_conditions t),
       res_Labels := filter (\<lambda>l. rl_ResourceID l = res_ID r) (t_labels t),
       res_References := filter (\<lambda>f. rr_SourceID f = res_ID r) (t_references t)\<rparr>"

definition take_row :: "(tables \<Rightarrow> resource \<Rightarrow> bool) \<Rightarrow> resource op" where
  "take_row P = query (\<lambda>t.
     case find_first (P t) (t_resources t) of None \<Rightarrow> Inl RecordNotFound | Some r \<Rightarrow> Inr r)"

definition take_resource :: "(tables \<Rightarrow> resource \<Rightarrow> bool) \<Rightarrow> resource op" where
  "take_resource P = query (\<lambda>t.
     case find_first (P t) (t_resources t) of
       None \<Rightarrow> Inl RecordNotFound | Some r \<Rightarrow> Inr (withAssociations t r))"

definition ResourceDao_Get :: "req_context \<Rightarrow> string \<Rightarrow> string \<Rightarrow> resource op" where
  "ResourceDao_Get cx kind i = take_resource (\<lambda>t r. in_scope cx r \<and> res_Kind r = kind \<and> res_ID r = i)"

definition GetForUpdate :: "req_context \<Rightarrow> string \<Rightarrow> string \<Rightarrow> resource op" where
  "GetForUpdate cx kind i = take_resource (\<lambda>t r. in_scope cx r \<and> res_Kind r = kind \<and> res_ID r = i)"

definition GetRowForUpdate :: "req_context \<Rightarrow> string \<Rightarrow> string \<Rightarrow> resource op" where
  "GetRowForUpdate cx kind i = take_row (\<lambda>t r. in_scope cx r \<and> res_Kind r = kind \<and> res_ID r = i)"

text \<open>The rows \<open>ownedForUpdate\<close> selects: the child belongs to the owner, and the owner is a visible
  resource of the kind \<open>ownerKind\<close>.\<close>

definition ownedForUpdate :: "req_context \<Rightarrow> string \<Rightarrow> string \<Rightarrow> string \<Rightarrow> string \<Rightarrow> tables \<Rightarrow> resource \<Rightarrow> bool" where
  "ownedForUpdate cx kind i ownerKind ownerID t r \<longleftrightarrow>
     in_scope cx r \<and> res_Kind r = kind \<and> res_ID r = i \<and> res_OwnerID r = Some ownerID \<and>
     list_ex (\<lambda>parent. res_ID parent = ownerID \<and> res_Kind parent = ownerKind \<and> in_scope cx parent) (t_resources t)"

definition GetForUpdateByOwner :: "req_context \<Rightarrow> string \<Rightarrow> string \<Rightarrow> string \<Rightarrow> string \<Rightarrow> resource op" where
  "GetForUpdateByOwner cx kind i ownerKind ownerID = take_resource (ownedForUpdate cx kind i ownerKind ownerID)"

definition GetRowForUpdateByOwner :: "req_context \<Rightarrow> string \<Rightarrow> string \<Rightarrow> string \<Rightarrow> string \<Rightarrow> resource op" where
  "GetRowForUpdateByOwner cx kind i ownerKind ownerID = take_row (ownedForUpdate cx kind i ownerKind ownerID)"

definition GetByOwner :: "req_context \<Rightarrow> string \<Rightarrow> string \<Rightarrow> string \<Rightarrow> resource op" where
  "GetByOwner cx kind i ownerID =
     take_resource (\<lambda>t r. in_scope cx r \<and> res_Kind r = kind \<and> res_ID r = i \<and> res_OwnerID r = Some ownerID)"

definition GetByID :: "req_context \<Rightarrow> string \<Rightarrow> resource op" where
  "GetByID cx i = take_resource (\<lambda>t r. in_scope cx r \<and> res_ID r = i)"

definition scopedExists :: "req_context \<Rightarrow> (resource \<Rightarrow> bool) \<Rightarrow> bool op" where
  "scopedExists cx P = query (\<lambda>t. Inr (list_ex (\<lambda>r. P r \<and> in_scope cx r) (t_resources t)))"

definition Exists :: "req_context \<Rightarrow> string \<Rightarrow> string \<Rightarrow> bool op" where
  "Exists cx kind i =
     call (scopedExists cx (\<lambda>r. res_Kind r = kind \<and> res_ID r = i))
       (wrap_err ''failed to check resource existence: '') returnE"

definition ExistsByOwner :: "req_context \<Rightarrow> string \<Rightarrow> string \<Rightarrow> bool op" where
  "ExistsByOwner cx kind ownerID =
     call (scopedExists cx (\<lambda>r. res_Kind r = kind \<and> res_OwnerID r = Some ownerID \<and> res_DeletedTime r = None))
       (wrap_err ''failed to check owner existence: '') returnE"

definition ExistsSoftDeletedByOwner :: "req_context \<Rightarrow> string list \<Rightarrow> string \<Rightarrow> bool op" where
  "ExistsSoftDeletedByOwner cx kinds ownerID =
     (if kinds = [] then returnE False
      else call (scopedExists cx (\<lambda>r. res_Kind r \<in> set kinds \<and> res_OwnerID r = Some ownerID \<and> res_DeletedTime r \<noteq> None))
             (wrap_err ''failed to check soft-deleted children: '') returnE)"

text \<open>\<open>ORDER BY id\<close>, in the order of the bytes of the identifiers.\<close>

definition FindByKindAndOwnerForUpdate :: "req_context \<Rightarrow> string \<Rightarrow> string \<Rightarrow> resource list op" where
  "FindByKindAndOwnerForUpdate cx kind ownerID = query (\<lambda>t. Inr (map (withAssociations t)
     (sort_key res_ID
       (filter (\<lambda>r. in_scope cx r \<and> res_Kind r = kind \<and> res_OwnerID r = Some ownerID) (t_resources t)))))"

definition FindChildrenForUpdate :: "req_context \<Rightarrow> string \<Rightarrow> resource list op" where
  "FindChildrenForUpdate cx ownerID = query (\<lambda>t. Inr
     (sort_key res_ID (filter (\<lambda>r. in_scope cx r \<and> res_OwnerID r = Some ownerID) (t_resources t))))"

section \<open>Writing resources\<close>

definition ResourceDao_Create :: "environment \<Rightarrow> resource \<Rightarrow> resource op" where
  "ResourceDao_Create env r =
     (let r1 = (if res_OwnerID r = Some [] then r\<lparr>res_OwnerID := None, res_OwnerKind := None, res_OwnerHref := None\<rparr>
                else r)
      in if res_OwnerID r1 \<noteq> None \<and> owner_kind_missing r1 then raiseE (Db owner_kind_required)
         else bindE (Resource_BeforeCreate env r1) (\<lambda>r2.
              bindE (execute (insert_resource r2)) (\<lambda>_. returnE r2)))"

definition Save :: "environment \<Rightarrow> resource \<Rightarrow> resource op" where
  "Save env r =
     bindE (Resource_BeforeUpdate env r) (\<lambda>r1. bindE (execute (save_resource r1)) (\<lambda>_. returnE r1))"

definition ResourceDao_Delete :: "req_context \<Rightarrow> string \<Rightarrow> string \<Rightarrow> unit op" where
  "ResourceDao_Delete cx kind i =
     execute (delete_resources (\<lambda>r. in_scope cx r \<and> res_Kind r = kind \<and> res_ID r = i))"

definition DeleteIDs :: "req_context \<Rightarrow> string list \<Rightarrow> unit op" where
  "DeleteIDs cx ids =
     (if ids = [] then returnE ()
      else execute (delete_resources (\<lambda>r. in_scope cx r \<and> res_ID r \<in> set ids)))"

section \<open>Rows owned by a resource\<close>

text \<open>The idiom of the three DAOs: delete the rows of the owner, then insert the new ones, if any.\<close>

definition replace_rows ::
  "(('r list \<Rightarrow> 'r list) \<Rightarrow> tables \<Rightarrow> tables) \<Rightarrow> ('r \<Rightarrow> string) \<Rightarrow> ('r list \<Rightarrow> tables \<Rightarrow> db_error + tables) \<Rightarrow>
     string \<Rightarrow> 'r list \<Rightarrow> unit op" where
  "replace_rows upd owner ins i xs =
     bindE (execute (\<lambda>t. Inr (upd (filter (\<lambda>x. owner x \<noteq> i)) t))) (\<lambda>_.
     if xs = [] then returnE () else execute (ins xs))"

definition delete_rows ::
  "(('r list \<Rightarrow> 'r list) \<Rightarrow> tables \<Rightarrow> tables) \<Rightarrow> ('r \<Rightarrow> string) \<Rightarrow> string \<Rightarrow> unit op" where
  "delete_rows upd owner i = execute (\<lambda>t. Inr (upd (filter (\<lambda>x. owner x \<noteq> i)) t))"

definition ReplaceReferences :: "string \<Rightarrow> resource_reference list \<Rightarrow> resource_reference list op" where
  "ReplaceReferences sourceID refs =
     (let rows = map (\<lambda>f. f\<lparr>rr_SourceID := sourceID\<rparr>) refs in
      bindE (replace_rows t_references_update rr_SourceID insert_references sourceID rows) (\<lambda>_. returnE rows))"

definition ReplaceLabels :: "string \<Rightarrow> resource_label list \<Rightarrow> unit op" where
  "ReplaceLabels resourceID labels =
     replace_rows t_labels_update rl_ResourceID insert_labels resourceID
       (map (\<lambda>l. l\<lparr>rl_ResourceID := resourceID\<rparr>) labels)"

text \<open>The loop of \<open>UpdateConditions\<close>: the row that takes the place of a condition.\<close>

definition or_now :: "gotime \<Rightarrow> gotime \<Rightarrow> gotime" where
  "or_now now t = (if IsZero t then now else t)"

definition timestamped :: "string \<Rightarrow> gotime \<Rightarrow> (string \<rightharpoonup> resource_condition) \<Rightarrow> resource_condition \<Rightarrow> resource_condition" where
  "timestamped resourceID now prevByType c =
     (let c1 = c\<lparr>rc_ResourceID := resourceID\<rparr>;
          c2 = (case prevByType (rc_Type c) of
                  None \<Rightarrow> c1
                | Some prev \<Rightarrow>
                    c1\<lparr>rc_LastTransitionTime := (if rc_Status prev = rc_Status c then rc_LastTransitionTime prev
                                                else rc_LastTransitionTime c),
                       rc_CreatedTime := rc_CreatedTime prev\<rparr>)
      in c2\<lparr>rc_CreatedTime := or_now now (rc_CreatedTime c2),
            rc_LastTransitionTime := or_now now (rc_LastTransitionTime c2),
            rc_LastUpdatedTime := or_now now (rc_LastUpdatedTime c2)\<rparr>)"

definition UpdateConditions :: "environment \<Rightarrow> string \<Rightarrow> resource_condition list \<Rightarrow> resource_condition list op" where
  "UpdateConditions env resourceID conditions =
     bindE (query (\<lambda>t. Inr (filter (\<lambda>c. rc_ResourceID c = resourceID) (t_conditions t)))) (\<lambda>existing.
     bindE (time_Now env) (\<lambda>t.
     let rows = map (timestamped resourceID (truncate_us t) (foldl (\<lambda>m c. m(rc_Type c \<mapsto> c)) Map.empty existing)) conditions
     in bindE (replace_rows t_conditions_update rc_ResourceID insert_conditions resourceID rows) (\<lambda>_. returnE rows)))"

definition Conditions_DeleteByResource :: "string \<Rightarrow> unit op" where
  "Conditions_DeleteByResource resourceID = delete_rows t_conditions_update rc_ResourceID resourceID"

section \<open>References to a resource\<close>

definition FindReferencers :: "req_context \<Rightarrow> string \<Rightarrow> resource_summary list op" where
  "FindReferencers cx targetID = query (\<lambda>t. Inr (concat (map (\<lambda>f.
     map (\<lambda>r. \<lparr>rs_Kind = res_Kind r, rs_Name = res_Name r\<rparr>)
       (filter (\<lambda>r. res_ID r = rr_SourceID f \<and> res_DeletedTime r = None \<and> in_scope cx r) (t_resources t)))
     (filter (\<lambda>f. rr_TargetID f = targetID) (t_references t)))))"

record ExternalReferenceCount =
  erc_SourceKind :: string
  erc_RefType :: string
  erc_Remaining :: int

text \<open>\<open>NOT IN\<close> is only part of a query when the list is not empty, which comes to the same.\<close>

definition affected_groups :: "string list \<Rightarrow> string list \<Rightarrow> tables \<Rightarrow> (string \<times> string \<times> string) list" where
  "affected_groups targetIDs sourceIDs t =
     remdups (concat (map (\<lambda>f.
       map (\<lambda>r. (rr_SourceID f, res_Kind r, rr_RefType f)) (filter (\<lambda>r. res_ID r = rr_SourceID f) (t_resources t)))
       (filter (\<lambda>f. rr_SourceID f \<notin> set sourceIDs \<and>
          list_ex (\<lambda>a. rr_SourceID a = rr_SourceID f \<and> rr_RefType a = rr_RefType f \<and> rr_TargetID a \<in> set targetIDs)
            (t_references t)) (t_references t))))"

definition FindExternalReferenceCounts :: "string list \<Rightarrow> string list \<Rightarrow> ExternalReferenceCount list op" where
  "FindExternalReferenceCounts targetIDs sourceIDs =
     (if targetIDs = [] then returnE []
      else bindE (query (\<lambda>t. Inr (filter (\<lambda>r. res_ID r \<notin> set sourceIDs \<and>
                   list_ex (\<lambda>f. rr_SourceID f = res_ID r \<and> rr_TargetID f \<in> set targetIDs) (t_references t))
                   (t_resources t)))) (\<lambda>lockedSources.
           if lockedSources = [] then returnE []
           else query (\<lambda>t. Inr (map (\<lambda>(source, kind, refType).
                  \<lparr>erc_SourceKind = kind, erc_RefType = refType,
                   erc_Remaining = int (length (filter (\<lambda>f. rr_SourceID f = source \<and> rr_RefType f = refType \<and>
                      rr_TargetID f \<notin> set targetIDs) (t_references t)))\<rparr>)
                  (affected_groups targetIDs sourceIDs t)))))"

definition DeleteReferencesByTargets :: "string list \<Rightarrow> unit op" where
  "DeleteReferencesByTargets targetIDs =
     (if targetIDs = [] then returnE ()
      else execute (\<lambda>t. Inr (t_references_update (filter (\<lambda>f. rr_TargetID f \<notin> set targetIDs)) t)))"

definition FindSourceIDsByRef :: "string \<Rightarrow> string \<Rightarrow> string list op" where
  "FindSourceIDsByRef refType targetID = query (\<lambda>t. Inr
     (map rr_SourceID (filter (\<lambda>f. rr_RefType f = refType \<and> rr_TargetID f = targetID) (t_references t))))"

section \<open>Adapter statuses\<close>

definition take_status :: "(adapter_status \<Rightarrow> bool) \<Rightarrow> adapter_status op" where
  "take_status P = query (\<lambda>t.
     case find_first P (t_statuses t) of None \<Rightarrow> Inl RecordNotFound | Some s \<Rightarrow> Inr s)"

definition AdapterStatusDao_Get :: "string \<Rightarrow> adapter_status op" where
  "AdapterStatusDao_Get i = take_status (\<lambda>s. as_ID s = i)"

definition AdapterStatusDao_Create :: "environment \<Rightarrow> adapter_status \<Rightarrow> adapter_status op" where
  "AdapterStatusDao_Create env s =
     bindE (AdapterStatus_BeforeCreate env s) (\<lambda>s1. bindE (execute (insert_status s1)) (\<lambda>_. returnE s1))"

definition AdapterStatusDao_Delete :: "string \<Rightarrow> unit op" where
  "AdapterStatusDao_Delete i = execute (\<lambda>t. Inr (t_statuses_update (filter (\<lambda>s. as_ID s \<noteq> i)) t))"

definition of_resource :: "string \<Rightarrow> string \<Rightarrow> adapter_status \<Rightarrow> bool" where
  "of_resource kind i s \<longleftrightarrow> as_ResourceType s = kind \<and> as_ResourceID s = i"

definition FindByResource :: "string \<Rightarrow> string \<Rightarrow> adapter_status list op" where
  "FindByResource kind i = query (\<lambda>t. Inr (filter (of_resource kind i) (t_statuses t)))"

definition FindByResourceIDs :: "string \<Rightarrow> string list \<Rightarrow> adapter_status list op" where
  "FindByResourceIDs kind ids =
     (if ids = [] then returnE []
      else query (\<lambda>t. Inr (filter (\<lambda>s. as_ResourceType s = kind \<and> as_ResourceID s \<in> set ids) (t_statuses t))))"

definition FindByResourcePaginated :: "string \<Rightarrow> string \<Rightarrow> nat \<Rightarrow> nat \<Rightarrow> (adapter_status list \<times> int) op" where
  "FindByResourcePaginated kind i off n =
     bindE (query (\<lambda>t. Inr (length (filter (of_resource kind i) (t_statuses t))))) (\<lambda>total.
     bindE (query (\<lambda>t. Inr (take n (drop off (filter (of_resource kind i) (t_statuses t)))))) (\<lambda>statuses.
     returnE (statuses, int total)))"

definition FindByResourceAndAdapter :: "string \<Rightarrow> string \<Rightarrow> string \<Rightarrow> adapter_status op" where
  "FindByResourceAndAdapter kind i adapter = take_status (\<lambda>s. of_resource kind i s \<and> as_Adapter s = adapter)"

definition AdapterStatus_DeleteByResource :: "string \<Rightarrow> string \<Rightarrow> unit op" where
  "AdapterStatus_DeleteByResource kind i =
     execute (\<lambda>t. Inr (t_statuses_update (filter (\<lambda>s. \<not> of_resource kind i s)) t))"

definition DeleteByResourceIDs :: "string list \<Rightarrow> unit op" where
  "DeleteByResourceIDs ids =
     (if ids = [] then returnE ()
      else execute (\<lambda>t. Inr (t_statuses_update (filter (\<lambda>s. as_ResourceID s \<notin> set ids)) t)))"

text \<open>\<open>Upsert\<close>: the update applies to an older row only, and the insert does nothing on a conflict.
  Both statements return the number of affected rows.\<close>

definition update_status :: "adapter_status \<Rightarrow> nat op" where
  "update_status s = statement (\<lambda>t.
     (Inr (length (filter (older_row s) (t_statuses t))),
      t_statuses_update (overwrite_older s) t))"

definition insert_status_or_nothing :: "adapter_status \<Rightarrow> nat op" where
  "insert_status_or_nothing s = statement (\<lambda>t.
     case insert_status s t of Inl _ \<Rightarrow> (Inr 0, t) | Inr t' \<Rightarrow> (Inr 1, t'))"

definition Upsert :: "environment \<Rightarrow> adapter_status \<Rightarrow> adapter_status option \<Rightarrow> adapter_status op" where
  "Upsert env s existing =
     (case existing of
        Some x \<Rightarrow>
          bindE (update_status s) (\<lambda>n.
          if n = 0 then returnE x
          else FindByResourceAndAdapter (as_ResourceType s) (as_ResourceID s) (as_Adapter s))
      | None \<Rightarrow>
          bindE (AdapterStatus_BeforeCreate env s) (\<lambda>s1.
          bindE (insert_status_or_nothing s1) (\<lambda>n.
          if n > 0 then returnE s1
          else FindByResourceAndAdapter (as_ResourceType s) (as_ResourceID s) (as_Adapter s))))"

section \<open>Reads change no table\<close>

lemma must_same [keeps_intros]: "keeps same_tables (must env kind)"
  by (auto simp: must_def reading.keeps_rules split: sum.splits registry_fault.splits)

lemma hooks_same [keeps_intros]:
  "keeps same_tables (set_href env r)" "keeps same_tables (Resource_BeforeCreate env r)"
  "keeps same_tables (Resource_BeforeUpdate env r)" "keeps same_tables (AdapterStatus_BeforeCreate env s)"
proof -
  show h: "keeps same_tables (set_href env r)" for r
    unfolding set_href_def
    by (intro reading.keeps_rules keeps_intros) (auto intro!: reading.keeps_rules keeps_intros split: option.splits)
  show "keeps same_tables (Resource_BeforeCreate env r)"
    unfolding Resource_BeforeCreate_def Let_def by (intro reading.keeps_rules keeps_intros h)
  show "keeps same_tables (Resource_BeforeUpdate env r)"
    unfolding Resource_BeforeUpdate_def by (intro reading.keeps_rules keeps_intros)
  show "keeps same_tables (AdapterStatus_BeforeCreate env s)"
    unfolding AdapterStatus_BeforeCreate_def by (intro reading.keeps_rules keeps_intros)
qed

lemma reads_same [keeps_intros]:
  "keeps same_tables (take_row P)" "keeps same_tables (take_resource P)" "keeps same_tables (take_status Q)"
  "keeps same_tables (scopedExists cx S)"
  by (simp_all add: take_row_def take_resource_def take_status_def scopedExists_def query_same)

lemma dao_reads_same [keeps_intros]:
  "keeps same_tables (ResourceDao_Get cx kind i)" "keeps same_tables (GetForUpdate cx kind i)"
  "keeps same_tables (GetRowForUpdate cx kind i)" "keeps same_tables (GetForUpdateByOwner cx kind i ok oi)"
  "keeps same_tables (GetRowForUpdateByOwner cx kind i ok oi)" "keeps same_tables (GetByOwner cx kind i oi)"
  "keeps same_tables (GetByID cx i)" "keeps same_tables (Exists cx kind i)"
  "keeps same_tables (ExistsByOwner cx kind oi)" "keeps same_tables (ExistsSoftDeletedByOwner cx kinds oi)"
  "keeps same_tables (FindByKindAndOwnerForUpdate cx kind oi)" "keeps same_tables (FindChildrenForUpdate cx oi)"
  "keeps same_tables (FindReferencers cx ti)" "keeps same_tables (FindExternalReferenceCounts ts ss)"
  "keeps same_tables (FindSourceIDsByRef rt ti)" "keeps same_tables (FindByResource kind i)"
  "keeps same_tables (FindByResourceIDs kind ids)" "keeps same_tables (FindByResourceAndAdapter kind i a)"
  "keeps same_tables (FindByResourcePaginated kind i off n)"
  unfolding ResourceDao_Get_def GetForUpdate_def GetRowForUpdate_def GetForUpdateByOwner_def
    GetRowForUpdateByOwner_def GetByOwner_def GetByID_def Exists_def ExistsByOwner_def
    ExistsSoftDeletedByOwner_def FindByKindAndOwnerForUpdate_def FindChildrenForUpdate_def FindReferencers_def
    FindExternalReferenceCounts_def FindSourceIDsByRef_def FindByResource_def FindByResourceIDs_def
    FindByResourceAndAdapter_def FindByResourcePaginated_def
  by (intro reading.keeps_rules query_same reads_same)+

text \<open>
  What a table of owned rows promises: it can be updated apart from the rest, inserting appends the
  rows, and both are single statements.
\<close>

locale owned_rows =
  fixes rows :: "tables \<Rightarrow> 'r list"
    and upd :: "('r list \<Rightarrow> 'r list) \<Rightarrow> tables \<Rightarrow> tables"
    and owner :: "'r \<Rightarrow> string"
    and ins :: "'r list \<Rightarrow> tables \<Rightarrow> db_error + tables"
  assumes rows_upd: "rows (upd f t) = f (rows t)"
    and upd_upd: "upd f (upd g t) = upd (\<lambda>xs. f (g xs)) t"
    and ins_Inr: "ins xs t = Inr t' \<Longrightarrow> t' = upd (\<lambda>ys. ys @ xs) t"
    and ins_write: "ins xs t = Inr t' \<Longrightarrow> row_write t t'"
    and del_write: "row_write t (upd (filter P) t)"
begin

lemma replace_keeps:
  assumes "row_relation R"
  shows "keeps R (replace_rows upd owner ins i xs)"
proof -
  have "keeps R (execute (ins xs))" "keeps R (execute (\<lambda>t. Inr (upd (filter P) t)))" for P
    using row_relation.keeps_row_execute [OF assms, of "ins xs"] ins_write del_write
      row_relation.keeps_row_execute [OF assms, of "\<lambda>t. Inr (upd (filter P) t)"] by auto
  moreover have "world_relation R" using assms by (rule row_relation.axioms)
  ultimately show ?thesis
    unfolding replace_rows_def by (intro world_relation.keeps_rules)
qed

lemma delete_keeps: "row_relation R \<Longrightarrow> keeps R (delete_rows upd owner i)"
  unfolding delete_rows_def by (rule row_relation.keeps_row_execute) (auto intro: del_write)

lemma replace_run:
  assumes "replace_rows upd owner ins i xs w = (Inr u, w')"
  shows "w_tables w' = upd (\<lambda>ys. filter (\<lambda>y. owner y \<noteq> i) ys @ xs) (w_tables w)"
  using assms
  by (auto simp: replace_rows_def execute_def statement_def bindE_run returnE_run upd_upd dest!: ins_Inr
      split: list.splits option.splits sum.splits prod.splits if_splits)

lemma replace_rows_exact:
  assumes "replace_rows upd owner ins i xs w = (Inr u, w')" "\<forall>x\<in>set xs. owner x = i"
  shows "filter (\<lambda>y. owner y = i) (rows (w_tables w')) = xs"
    and "filter (\<lambda>y. owner y \<noteq> i) (rows (w_tables w')) = filter (\<lambda>y. owner y \<noteq> i) (rows (w_tables w))"
  using replace_run [OF assms(1)] assms(2) by (auto simp: rows_upd filter_empty_conv)

end

interpretation label_rows: owned_rows t_labels t_labels_update rl_ResourceID insert_labels
  by unfold_locales
     (auto simp: insert_labels_def intro: rw_labels rw_delete_labels split: if_splits)

interpretation reference_rows: owned_rows t_references t_references_update rr_SourceID insert_references
  by unfold_locales
     (auto simp: insert_references_def intro: rw_references rw_delete_references split: if_splits)

interpretation condition_rows: owned_rows t_conditions t_conditions_update rc_ResourceID insert_conditions
  by unfold_locales
     (auto simp: insert_conditions_def intro: rw_conditions rw_delete_conditions split: if_splits)

section \<open>Runs of the statements, and what writes keep\<close>

lemma statement_InrE:
  assumes "statement f w = (Inr x, w')"
  obtains t' where "f (w_tables w) = (Inr x, t')" "w_tables w' = t'" "w_caches w' = w_caches w"
    "w_metrics w' = w_metrics w" "w_clock w' = w_clock w" "w_ids w' = w_ids w"
  using assms by (auto simp: statement_def split: list.splits option.splits prod.splits sum.splits)

lemma query_InrE:
  assumes "query f w = (Inr x, w')"
  obtains "f (w_tables w) = Inr x" "w_tables w' = w_tables w" "w_caches w' = w_caches w"
    "w_metrics w' = w_metrics w" "w_clock w' = w_clock w"
  using assms unfolding query_def by (rule statement_InrE) (use that in simp)

lemma execute_InrE:
  assumes "execute f w = (Inr x, w')"
  obtains "f (w_tables w) = Inr (w_tables w')" "w_caches w' = w_caches w" "w_metrics w' = w_metrics w"
    "w_clock w' = w_clock w"
  using assms unfolding execute_def by (rule statement_InrE) (use that in \<open>simp split: sum.splits\<close>)

lemma take_resource_InrE:
  assumes "take_resource P w = (Inr r, w')"
  obtains x where "x \<in> set (t_resources (w_tables w))" "P (w_tables w) x" "r = withAssociations (w_tables w) x"
    "w_tables w' = w_tables w" "w_caches w' = w_caches w" "w_metrics w' = w_metrics w"
  using assms unfolding take_resource_def
  by (rule query_InrE) (use that in \<open>auto split: option.splits dest!: find_first_Some\<close>)

lemma take_row_InrE:
  assumes "take_row P w = (Inr r, w')"
  obtains "r \<in> set (t_resources (w_tables w))" "P (w_tables w) r"
    "w_tables w' = w_tables w" "w_caches w' = w_caches w" "w_metrics w' = w_metrics w"
  using assms unfolding take_row_def
  by (rule query_InrE) (use that in \<open>auto split: option.splits dest!: find_first_Some\<close>)

lemma take_status_InrE:
  assumes "take_status P w = (Inr s, w')"
  obtains "s \<in> set (t_statuses (w_tables w))" "P s" "w_tables w' = w_tables w"
  using assms unfolding take_status_def
  by (rule query_InrE) (use that in \<open>auto split: option.splits dest!: find_first_Some\<close>)

context row_relation
begin

lemmas dao_reads_keep = dao_reads_same [THEN keeps_quiet] must_same [THEN keeps_quiet]
  hooks_same [THEN keeps_quiet] query_same [THEN keeps_quiet] time_Now_same [THEN keeps_quiet]

lemma self: "row_relation R"
  by unfold_locales

lemmas rows_keep = label_rows.replace_keeps [OF self] reference_rows.replace_keeps [OF self]
  condition_rows.replace_keeps [OF self] condition_rows.delete_keeps [OF self]

lemma row_execute_keeps:
  "keeps R (execute (insert_status s))"
  "keeps R (execute (\<lambda>t. Inr (t_references_update (filter Pr) t)))"
  "keeps R (execute (\<lambda>t. Inr (t_statuses_update (filter Ps) t)))"
  by (rule keeps_row_execute; auto intro: row_write.intros)+

lemma row_writes_keep:
  "keeps R (ReplaceReferences i refs)" "keeps R (ReplaceLabels i labels)"
  "keeps R (UpdateConditions env i cs)" "keeps R (Conditions_DeleteByResource i)"
  "keeps R (DeleteReferencesByTargets ids)"
  unfolding ReplaceReferences_def ReplaceLabels_def UpdateConditions_def Conditions_DeleteByResource_def
    DeleteReferencesByTargets_def Let_def
  by (intro keeps_rules dao_reads_keep rows_keep row_execute_keeps)+

lemma status_writes_keep:
  "keeps R (AdapterStatusDao_Create env s)" "keeps R (AdapterStatusDao_Delete i)"
  "keeps R (AdapterStatus_DeleteByResource kind i)" "keeps R (DeleteByResourceIDs ids)"
  unfolding AdapterStatusDao_Create_def AdapterStatusDao_Delete_def AdapterStatus_DeleteByResource_def
    DeleteByResourceIDs_def
  by (intro keeps_rules dao_reads_keep row_execute_keeps)+

lemma Upsert_keeps: "keeps R (Upsert env s existing)"
proof -
  have "keeps R (update_status s)"
    unfolding update_status_def by (rule keeps_row_statement) (auto intro: row_write.intros)
  moreover have "keeps R (insert_status_or_nothing x)" for x
    unfolding insert_status_or_nothing_def
    by (rule keeps_row_statement) (auto split: sum.splits intro: row_write.intros)
  ultimately show ?thesis
    unfolding Upsert_def
    by (cases existing) (auto intro!: keeps_rules dao_reads_keep)
qed

lemmas dao_rows_keep = dao_reads_keep row_writes_keep status_writes_keep Upsert_keeps

end

context op_relation
begin

lemma resource_execute_keeps:
  "keeps R (execute (insert_resource r))" "keeps R (execute (save_resource r))"
  "keeps R (execute (delete_resources P))"
  by (rule keeps_resource_execute; auto intro: resource_write.intros)+

lemma resource_writes_keep:
  "keeps R (ResourceDao_Create env r)" "keeps R (Save env r)"
  "keeps R (ResourceDao_Delete cx kind i)" "keeps R (DeleteIDs cx ids)"
  unfolding ResourceDao_Create_def Save_def ResourceDao_Delete_def DeleteIDs_def Let_def
  by (intro keeps_rules dao_reads_keep resource_execute_keeps)+

end

section \<open>Properties\<close>

definition timestamps_kept :: "gotime \<Rightarrow> tables \<Rightarrow> resource_condition \<Rightarrow> resource_condition \<Rightarrow> bool" where
  "timestamps_kept now t given stored \<longleftrightarrow>
     (case find_first (\<lambda>p. condition_key p = condition_key stored) (t_conditions t) of
        Some p \<Rightarrow>
          (rc_CreatedTime p \<noteq> 0 \<longrightarrow> rc_CreatedTime stored = rc_CreatedTime p) \<and>
          (rc_Status p = rc_Status given \<and> rc_LastTransitionTime p \<noteq> 0 \<longrightarrow>
             rc_LastTransitionTime stored = rc_LastTransitionTime p) \<and>
          (rc_Status p \<noteq> rc_Status given \<longrightarrow>
             rc_LastTransitionTime stored = or_now now (rc_LastTransitionTime given))
      | None \<Rightarrow> rc_CreatedTime stored = or_now now (rc_CreatedTime given) \<and>
                rc_LastTransitionTime stored = or_now now (rc_LastTransitionTime given))"

lemma timestamped_fields [simp]:
  "rc_ResourceID (timestamped i now m c) = i" "rc_Type (timestamped i now m c) = rc_Type c"
  "rc_Status (timestamped i now m c) = rc_Status c" "rc_Reason (timestamped i now m c) = rc_Reason c"
  "rc_Message (timestamped i now m c) = rc_Message c"
  "rc_ObservedGeneration (timestamped i now m c) = rc_ObservedGeneration c"
  "rc_LastUpdatedTime (timestamped i now m c) = or_now now (rc_LastUpdatedTime c)"
  by (auto simp: timestamped_def Let_def split: option.splits)

lemma table_upd:
  "t_conditions_update f t = t\<lparr>t_conditions := f (t_conditions t)\<rparr>"
  "t_labels_update g t = t\<lparr>t_labels := g (t_labels t)\<rparr>"
  "t_references_update h t = t\<lparr>t_references := h (t_references t)\<rparr>"
  "t_statuses_update k t = t\<lparr>t_statuses := k (t_statuses t)\<rparr>"
  by (cases t; simp)+

lemma UpdateConditions_InrE:
  assumes "UpdateConditions env i cs w = (Inr rows, w')"
  obtains now where
    "rows = map (timestamped i (truncate_us now) (foldl (\<lambda>m c. m(rc_Type c \<mapsto> c)) Map.empty
       (filter (\<lambda>c. rc_ResourceID c = i) (t_conditions (w_tables w))))) cs" "now = env_now env (w_clock w)"
    "w_tables w' = (w_tables w)\<lparr>t_conditions := filter (\<lambda>y. rc_ResourceID y \<noteq> i) (t_conditions (w_tables w)) @ rows\<rparr>"
  using assms unfolding table_upd(1) [of "\<lambda>ys. filter P ys @ zs" for P zs, symmetric]
  by (auto simp: UpdateConditions_def Let_def time_Now_def returnE_run
      elim!: bindE_InrE query_InrE dest!: condition_rows.replace_run)

lemma prevByType_find:
  assumes "distinct (map condition_key cs)"
  shows "foldl (\<lambda>m c. m(rc_Type c \<mapsto> c)) Map.empty (filter (\<lambda>c. rc_ResourceID c = i) cs) ty =
     find_first (\<lambda>p. condition_key p = (i, ty)) cs"
proof (cases "\<exists>p\<in>set cs. condition_key p = (i, ty)")
  case True
  then obtain p where p: "p \<in> set cs" "rc_ResourceID p = i" "rc_Type p = ty" by (auto simp: condition_key_def)
  have "inj_on condition_key (set (filter (\<lambda>c. rc_ResourceID c = i) cs))"
    using assms by (auto simp: distinct_map inj_on_def)
  then have "inj_on rc_Type (set (filter (\<lambda>c. rc_ResourceID c = i) cs))"
    by (auto simp: inj_on_def condition_key_def)
  then have "distinct (map rc_Type (filter (\<lambda>c. rc_ResourceID c = i) cs))"
    using assms by (simp add: distinct_map)
  then have "foldl (\<lambda>m c. m(rc_Type c \<mapsto> c)) Map.empty (filter (\<lambda>c. rc_ResourceID c = i) cs) (rc_Type p) = Some p"
    by (rule foldl_upd_in) (use p in simp)
  moreover have "find_first (\<lambda>p. condition_key p = (i, ty)) cs = Some p"
    by (rule find_first_key [OF assms p(1)]) (use p in \<open>simp add: condition_key_def\<close>)
  ultimately show ?thesis using p by simp
next
  case False
  then have "find_first (\<lambda>p. condition_key p = (i, ty)) cs = None" by (auto simp: find_first_None)
  moreover have "ty \<notin> rc_Type ` set (filter (\<lambda>c. rc_ResourceID c = i) cs)"
    using False by (auto simp: condition_key_def)
  ultimately show ?thesis by (simp add: foldl_upd_notin)
qed

lemma distinct_types_of_keys:
  assumes "distinct (map condition_key cs)"
  shows "distinct (map rc_Type (filter (\<lambda>c. rc_ResourceID c = i) cs))"
proof -
  have "distinct cs" "inj_on condition_key (set cs)" using assms by (simp_all add: distinct_map)
  then show ?thesis by (auto simp: distinct_map inj_on_def condition_key_def)
qed


definition empty_tables :: tables where
  "empty_tables = \<lparr>t_resources = [], t_conditions = [], t_labels = [], t_references = [], t_statuses = []\<rparr>"

definition calm :: "tables \<Rightarrow> world" where
  "calm t = \<lparr>w_tables = t, w_faults = [], w_clock = 0, w_ids = 0, w_caches = Map.empty, w_metrics = []\<rparr>"

lemma schema_ok_empty [simp]: "schema_ok empty_tables"
  by (simp add: empty_tables_def schema_ok_def names_ok_def rows_ok_def links_ok_def)

section \<open>Reports never go back\<close>

lemma older_row_irrefl [simp]: "\<not> older_row x x"
  by (simp add: older_row_def)

lemma older_row_asym: "older_row s z \<Longrightarrow> \<not> older_row z s"
  unfolding older_row_def by (metis i32_less_asym i32_less_irrefl order.asym)

lemma overwrite_not_older:
  assumes "older_row s z"
  shows "\<not> older_row z (overwrite_row s z)" "\<not> older_row s (overwrite_row s z)"
proof -
  have "older_row x (overwrite_row s z) = older_row x s" for x
    using assms unfolding older_row_def by (simp only: overwrite_row_keys)
  then show "\<not> older_row z (overwrite_row s z)" "\<not> older_row s (overwrite_row s z)"
    using older_row_asym [OF assms] by simp_all
qed

lemma status_unique:
  "schema_ok t \<Longrightarrow> x \<in> set (t_statuses t) \<Longrightarrow> z \<in> set (t_statuses t) \<Longrightarrow> status_key x = status_key z \<Longrightarrow> x = z"
  by (auto simp: schema_ok_def rows_ok_def distinct_map inj_on_def)

lemma FindByResourceAndAdapter_InrE:
  assumes "FindByResourceAndAdapter kind i a w = (Inr s, w')"
  obtains "s \<in> set (t_statuses (w_tables w))" "status_key s = (kind, i, a)" "w_tables w' = w_tables w"
  using assms unfolding FindByResourceAndAdapter_def
  by (rule take_status_InrE) (use that in \<open>auto simp: of_resource_def status_key_def\<close>)

lemma Upsert_update:
  assumes ok: "schema_ok (w_tables w)" and run: "Upsert env s (Some x) w = (Inr y, w')"
    and x: "x \<in> set (t_statuses (w_tables w))" "status_key x = status_key s"
  shows "w_tables w' = (w_tables w)\<lparr>t_statuses :=
      map (\<lambda>z. if older_row s z then overwrite_row s z else z) (t_statuses (w_tables w))\<rparr>"
    and "y = (if older_row s x then overwrite_row s x else x)"
proof -
  let ?f = "\<lambda>z. if older_row s z then overwrite_row s z else z"
  from run obtain w1 n where u: "update_status s w = (Inr n, w1)"
      and k: "(if n = 0 then returnE x
          else FindByResourceAndAdapter (as_ResourceType s) (as_ResourceID s) (as_Adapter s)) w1 = (Inr y, w')"
    by (auto simp: Upsert_def elim: bindE_InrE)
  from u have n: "n = length (filter (older_row s) (t_statuses (w_tables w)))"
      and t1: "w_tables w1 = (w_tables w)\<lparr>t_statuses := map ?f (t_statuses (w_tables w))\<rparr>"
    unfolding update_status_def table_upd(4) [of "overwrite_older z" for z]
    by (auto simp: overwrite_older_def elim: statement_InrE)
  show w': "w_tables w' = (w_tables w)\<lparr>t_statuses := map ?f (t_statuses (w_tables w))\<rparr>"
    using k t1 by (auto simp: returnE_run elim: FindByResourceAndAdapter_InrE split: if_splits)
  show "y = ?f x"
  proof (cases "n = 0")
    case True
    with n x have "\<not> older_row s x" by (simp add: filter_empty_conv)
    with k True show ?thesis by (simp add: returnE_run)
  next
    case False
    with k have "y \<in> set (t_statuses (w_tables w1))" "status_key y = status_key s"
      by (auto simp: status_key_def elim!: FindByResourceAndAdapter_InrE)
    then obtain z where z: "z \<in> set (t_statuses (w_tables w))" "y = ?f z" "status_key z = status_key s"
      by (auto simp: t1 split: if_splits)
    with status_unique [OF ok z(1) x(1)] x show ?thesis by simp
  qed
qed

lemma Upsert_insert:
  assumes run: "Upsert env s None w = (Inr y, w')"
  shows "(w_tables w' = (w_tables w)\<lparr>t_statuses := t_statuses (w_tables w) @ [y]\<rparr> \<and> status_key y = status_key s \<and>
      status_key s \<notin> status_key ` set (t_statuses (w_tables w))) \<or>
    (w_tables w' = w_tables w \<and> y \<in> set (t_statuses (w_tables w)) \<and> status_key y = status_key s)"
proof -
  from run obtain w1 s1 w2 n where h: "AdapterStatus_BeforeCreate env s w = (Inr s1, w1)"
      and u: "insert_status_or_nothing s1 w1 = (Inr n, w2)"
      and k: "(if n > 0 then returnE s1
          else FindByResourceAndAdapter (as_ResourceType s) (as_ResourceID s) (as_Adapter s)) w2 = (Inr y, w')"
    by (auto simp: Upsert_def elim!: bindE_InrE)
  have t1: "w_tables w1 = w_tables w" using keepsD [OF hooks_same(4) h] by (simp add: same_tables_def)
  have key: "status_key s1 = status_key s"
    using h by (auto simp: AdapterStatus_BeforeCreate_def returnE_run status_key_def elim!: bindE_InrE)
  from u have "n = 0 \<and> w_tables w2 = w_tables w \<or>
      n = 1 \<and> insert_status s1 (w_tables w) = Inr (w_tables w2)"
    unfolding insert_status_or_nothing_def by (rule statement_InrE) (use t1 in \<open>auto split: sum.splits\<close>)
  then show ?thesis
  proof
    assume n: "n = 0 \<and> w_tables w2 = w_tables w"
    with k have "FindByResourceAndAdapter (as_ResourceType s) (as_ResourceID s) (as_Adapter s) w2 = (Inr y, w')" by simp
    then show ?thesis by (rule FindByResourceAndAdapter_InrE) (use n in \<open>simp add: status_key_def\<close>)
  next
    assume "n = 1 \<and> insert_status s1 (w_tables w) = Inr (w_tables w2)"
    then have "insert_status s1 (w_tables w) = Inr (w_tables w')" "s1 = y" using k by (simp_all add: returnE_run)
    with key have "w_tables w' = (w_tables w)\<lparr>t_statuses := t_statuses (w_tables w) @ [y]\<rparr>"
      "status_key y = status_key s" "status_key s \<notin> status_key ` set (t_statuses (w_tables w))"
      by (auto simp: insert_status_def split: if_splits)
    then show ?thesis by blast
  qed
qed

text \<open>C17. \<open>Upsert\<close> never replaces a report by an older one: the report it returns is the stored one, is
  not older than any report stored before under the same key nor, when a stored one was known, than
  the incoming one; reports under other keys and all other tables are untouched.\<close>

theorem Upsert_monotone:
  assumes "schema_ok (w_tables w)" and "Upsert env s existing w = (Inr y, w')"
    and "\<And>x. existing = Some x \<Longrightarrow> x \<in> set (t_statuses (w_tables w)) \<and> status_key x = status_key s"
  shows "y \<in> set (t_statuses (w_tables w')) \<and> status_key y = status_key s \<and>
     (\<forall>x\<in>set (t_statuses (w_tables w)). \<not> older_row x y) \<and> (existing = None \<or> \<not> older_row s y) \<and>
     filter (\<lambda>x. status_key x \<noteq> status_key s) (t_statuses (w_tables w')) =
       filter (\<lambda>x. status_key x \<noteq> status_key s) (t_statuses (w_tables w)) \<and>
     w_tables w' = (w_tables w)\<lparr>t_statuses := t_statuses (w_tables w')\<rparr>"
proof (cases existing)
  case None
  from Upsert_insert [OF assms(2) [unfolded None]] show ?thesis
  proof
    assume a: "w_tables w' = (w_tables w)\<lparr>t_statuses := t_statuses (w_tables w) @ [y]\<rparr> \<and> status_key y = status_key s \<and>
      status_key s \<notin> status_key ` set (t_statuses (w_tables w))"
    then have "\<not> older_row x y" if "x \<in> set (t_statuses (w_tables w))" for x
      using that by (force simp: older_row_def)
    with a None show ?thesis by auto
  next
    assume a: "w_tables w' = w_tables w \<and> y \<in> set (t_statuses (w_tables w)) \<and> status_key y = status_key s"
    then have "\<not> older_row x y" if "x \<in> set (t_statuses (w_tables w))" for x
      using status_unique [OF assms(1) that, of y] by (auto simp: older_row_def)
    with a None show ?thesis by auto
  qed
next
  case (Some x)
  with assms(3) have x: "x \<in> set (t_statuses (w_tables w))" "status_key x = status_key s" by auto
  note u = Upsert_update [OF assms(1) assms(2) [unfolded Some] x]
  have y: "y \<in> set (t_statuses (w_tables w'))" "status_key y = status_key s" using x by (auto simp: u)
  have newer: "\<forall>z\<in>set (t_statuses (w_tables w)). \<not> older_row z y"
  proof (intro ballI notI)
    fix z assume z: "z \<in> set (t_statuses (w_tables w))" and "older_row z y"
    then have "status_key z = status_key x" using y(2) x(2) by (simp add: older_row_def)
    then have "z = x" by (rule status_unique [OF assms(1) z x(1)])
    with \<open>older_row z y\<close> have "older_row x y" by simp
    then show False unfolding u(2) using overwrite_not_older(1) [of s x] by (simp split: if_splits)
  qed
  have incoming: "existing = None \<or> \<not> older_row s y" unfolding u(2) by (simp add: overwrite_not_older(2))
  have "filter (\<lambda>x. status_key x \<noteq> status_key s) (map (\<lambda>z. if older_row s z then overwrite_row s z else z) xs) =
       filter (\<lambda>x. status_key x \<noteq> status_key s) xs" for xs
    by (induction xs) (auto simp: older_row_def)
  then have others: "filter (\<lambda>x. status_key x \<noteq> status_key s) (t_statuses (w_tables w')) =
       filter (\<lambda>x. status_key x \<noteq> status_key s) (t_statuses (w_tables w))" by (simp add: u(1))
  have "w_tables w' = (w_tables w)\<lparr>t_statuses := t_statuses (w_tables w')\<rparr>" by (simp add: u(1))
  with y newer incoming others show ?thesis by (intro conjI)
qed

section \<open>A small database\<close>

definition sample_env :: environment where
  "sample_env = \<lparr>env_now = (\<lambda>n. 1000 * (int n + 7)), env_newid = (\<lambda>n. Inr (''id-'' @ nat_text n)),
     env_registry = sample_registry, env_mappers = Map.empty\<rparr>"

definition sample_condition :: "string \<Rightarrow> string \<Rightarrow> gotime \<Rightarrow> resource_condition" where
  "sample_condition ty st t = \<lparr>rc_CreatedTime = t, rc_LastUpdatedTime = t, rc_LastTransitionTime = t,
     rc_Reason = None, rc_Message = None, rc_ResourceID = res_ID sample_resource, rc_Type = ty, rc_Status = st,
     rc_ObservedGeneration = 1\<rparr>"

definition sample_tables :: tables where
  "sample_tables = empty_tables\<lparr>t_resources := [strip sample_resource],
     t_conditions := [sample_condition ''Reconciled'' ''True'' 5]\<rparr>"

lemma sample_schema_ok: "schema_ok sample_tables"
  by (simp add: sample_tables_def empty_tables_def schema_ok_def names_ok_def rows_ok_def links_ok_def
      resource_ids_def sample_condition_def condition_key_def)


lemma Upsert_monotone_witness:
  "\<exists>y w'. Upsert sample_env (sample_report ''dns'' 2 ''True'') (Some (sample_report ''dns'' 1 ''False''))
      (calm (sample_tables\<lparr>t_statuses := [sample_report ''dns'' 1 ''False'']\<rparr>)) = (Inr y, w') \<and>
     y \<in> set (t_statuses (w_tables w')) \<and> as_ObservedGeneration y = 2"
proof -
  let ?t = "sample_tables\<lparr>t_statuses := [sample_report ''dns'' 1 ''False'']\<rparr>"
  let ?run = "Upsert sample_env (sample_report ''dns'' 2 ''True'') (Some (sample_report ''dns'' 1 ''False'')) (calm ?t)"
  have "fst ?run = Inr (sample_report ''dns'' 2 ''True'')" by code_simp
  then obtain w' where run: "?run = (Inr (sample_report ''dns'' 2 ''True''), w')" by (cases ?run) auto
  have "schema_ok (w_tables (calm ?t))"
    using sample_schema_ok by (simp add: calm_def schema_ok_def rows_ok_def links_ok_def)
  from Upsert_monotone [OF this run]
  have "sample_report ''dns'' 2 ''True'' \<in> set (t_statuses (w_tables w'))"
    by (auto simp: calm_def sample_report_def status_key_def)
  moreover have "as_ObservedGeneration (sample_report ''dns'' 2 ''True'') = 2" by (simp only: sample_report_fields)
  ultimately show ?thesis using run by (intro exI conjI)
qed

end
