(* ===== verification/Service_Support.thy ===== *)
theory Service_Support
  imports Dao Aggregation Status_Report Condition_Mapper
begin

text \<open>
  What the methods of the resource service share: the error handlers of \<open>pkg/services/util.go\<close> and
  \<open>transaction.go\<close>, and the validation and comparison functions of \<open>pkg/services/resource.go\<close>.  A check
  that returns a service error or nil is an option; one that reads the database is a computation.
\<close>

section \<open>Errors\<close>

definition handleGetError :: "string \<Rightarrow> string \<Rightarrow> db_error \<Rightarrow> service_error" where
  "handleGetError resourceType i e =
     (if IsRecordNotFound e then NotFound ''%s with id='%s' not found'' [FS resourceType, FS i]
      else if IsDBConnectionError e then ServiceUnavailable ''Database connection unavailable'' []
      else GeneralError ''Unable to find %s with id='%s': %s'' [FS resourceType, FS i, FS (db_text e)])"

definition handleCreateError :: "string \<Rightarrow> db_error \<Rightarrow> service_error" where
  "handleCreateError resourceType e =
     (if IsDBConnectionError e then ServiceUnavailable ''Database connection unavailable'' []
      else if Contains (db_text e) ''violates unique constraint''
        then Conflict ''This %s already exists'' [FS resourceType]
      else GeneralError ''Unable to create %s: %s'' [FS resourceType, FS (db_text e)])"

definition handleUpdateError :: "string \<Rightarrow> db_error \<Rightarrow> service_error" where
  "handleUpdateError resourceType e =
     (if IsDBConnectionError e then ServiceUnavailable ''Database connection unavailable'' []
      else if Contains (db_text e) ''violates unique constraint''
        then Conflict ''Changes to %s conflict with existing records'' [FS resourceType]
      else GeneralError ''Unable to update %s: %s'' [FS resourceType, FS (db_text e)])"

definition handleSoftDeleteError :: "string \<Rightarrow> db_error \<Rightarrow> service_error" where
  "handleSoftDeleteError resourceType e =
     (if IsRecordNotFound e then NotFound ''%s not found'' [FS resourceType]
      else if IsDBConnectionError e then ServiceUnavailable ''Database connection unavailable'' []
      else GeneralError ''Unable to soft-delete %s: %s'' [FS resourceType, FS (db_text e)])"

definition handleDeleteError :: "string \<Rightarrow> db_error \<Rightarrow> service_error" where
  "handleDeleteError resourceType e =
     (if IsDBConnectionError e then ServiceUnavailable ''Database connection unavailable'' []
      else GeneralError ''Unable to delete %s: %s'' [FS resourceType, FS (db_text e)])"

text \<open>\<open>errors.GeneralError("...: %s", err)\<close>\<close>

definition general_err :: "string \<Rightarrow> db_error \<Rightarrow> service_error" where
  "general_err what e = GeneralError (what @ '': %s'') [FS (db_text e)]"

fun serviceErrorFromTransaction :: "failure \<Rightarrow> failure" where
  "serviceErrorFromTransaction (Db e) =
     Svc (if IsDBConnectionError e then ServiceUnavailable ''Database connection unavailable'' []
          else GeneralError [] [])"
| "serviceErrorFromTransaction f = f"

definition defaultSystemUser :: string where "defaultSystemUser = ''system@hyperfleet.local''"

definition actorFromContext :: "req_context \<Rightarrow> string" where
  "actorFromContext cx = (if GetUsernameFromContext cx \<noteq> [] then GetUsernameFromContext cx else defaultSystemUser)"

text \<open>\<open>if err != nil { return h(err) }\<close> where the handler itself talks to the database.\<close>

definition call_else ::
  "('e, 's, 'a) effect \<Rightarrow> ('e \<Rightarrow> ('e, 's, 'b) effect) \<Rightarrow> ('a \<Rightarrow> ('e, 's, 'b) effect) \<Rightarrow> ('e, 's, 'b) effect" where
  "call_else m h k = (\<lambda>s. case m s of (Inl e, s') \<Rightarrow> h e s' | (Inr x, s') \<Rightarrow> k x s')"

text \<open>A check that returns a service error or nil.\<close>

definition check :: "service_error option \<Rightarrow> 'a op \<Rightarrow> 'a op" where
  "check c k = guardE (map_option Svc c) k"

lemma check_InrE:
  assumes "check c k w = (Inr x, w')"
  obtains "c = None" "k w = (Inr x, w')"
  using assms by (auto simp: check_def elim: guardE_InrE)

section \<open>Validation of a request\<close>

definition validateKind :: "environment \<Rightarrow> string \<Rightarrow> service_error option" where
  "validateKind env kind =
     (if Get (env_registry env) kind = None then Some (Validation ''Unknown entity kind: %s'' [FS kind]) else None)"

definition parent_kind :: "environment \<Rightarrow> string \<Rightarrow> string" where
  "parent_kind env kind = (case Get (env_registry env) kind of None \<Rightarrow> [] | Some d \<Rightarrow> desc_ParentKind d)"

definition validateWriteKind :: "environment \<Rightarrow> string \<Rightarrow> string \<Rightarrow> service_error option" where
  "validateWriteKind env kind ownerID =
     (case validateKind env kind of
        Some e \<Rightarrow> Some e
      | None \<Rightarrow> if ownerID \<noteq> [] \<and> parent_kind env kind = []
                then Some (Validation ''kind %q has no parent kind'' [FS kind]) else None)"

definition validateOwnerID :: "string \<Rightarrow> service_error option" where
  "validateOwnerID ownerID = (if ownerID = [] then Some (Validation ''owner_id is required'' []) else None)"

definition validateName :: "string \<Rightarrow> string \<Rightarrow> service_error option" where
  "validateName kind name = (if name = [] then Some (Validation ''%s name cannot be empty'' [FS kind]) else None)"

definition rejectSystemIdentityWrite :: "req_context \<Rightarrow> service_error option" where
  "rejectSystemIdentityWrite cx =
     (case cx_Tenant cx of
        Some t \<Rightarrow> if rt_System t then Some (Forbidden ''system identities may only write status and conditions'' [])
                  else None
      | None \<Rightarrow> None)"

definition jsonBytesEqual :: "jsonb \<Rightarrow> jsonb \<Rightarrow> bool" where
  "jsonBytesEqual a b =
     (if a = JEmpty \<and> b = JEmpty then True else if a = JEmpty \<or> b = JEmpty then False else jsonEqual a b)"

definition labels_map :: "resource_label list \<Rightarrow> (string \<rightharpoonup> string)" where
  "labels_map ls = foldl (\<lambda>m l. m(rl_Key l \<mapsto> rl_Value l)) Map.empty ls"

definition labelsEqual :: "resource_label list \<Rightarrow> resource_label list \<Rightarrow> bool" where
  "labelsEqual a b =
     (if a = [] \<and> b = [] then True
      else if length a \<noteq> length b then False
      else list_all (\<lambda>l. labels_map a (rl_Key l) = Some (rl_Value l)) b)"

text \<open>Encoding the decoded spec and the labels cannot fail; \<open>Inl\<close> is the text of the label error.\<close>

fun patch_labels :: "(string \<times> string) list \<Rightarrow> string + resource_label list" where
  "patch_labels [] = Inr []"
| "patch_labels ((k, v) # kvs) =
     (case ValidateLabel k v of
        Some err \<Rightarrow> Inl err
      | None \<Rightarrow> (case patch_labels kvs of
          Inl err \<Rightarrow> Inl err
        | Inr ls \<Rightarrow> Inr (\<lparr>rl_ResourceID = [], rl_Key = k, rl_Value = v\<rparr> # ls)))"

definition applyResourcePatch :: "resource_patch \<Rightarrow> resource \<Rightarrow> string + resource" where
  "applyResourcePatch p r =
     (let r1 = (case rp_Spec p of None \<Rightarrow> r | Some j \<Rightarrow> r\<lparr>res_Spec := JDoc j\<rparr>)
      in case rp_Labels p of
           None \<Rightarrow> Inr r1
         | Some kvs \<Rightarrow> (case patch_labels kvs of Inl err \<Rightarrow> Inl err | Inr ls \<Rightarrow> Inr (r1\<lparr>res_Labels := ls\<rparr>)))"

section \<open>References\<close>

definition refs_of :: "reference_map \<Rightarrow> string \<Rightarrow> object_reference list" where
  "refs_of refs refType = (case map_of refs refType of None \<Rightarrow> [] | Some rs \<Rightarrow> rs)"

definition desc_by_type :: "reference_descriptor list \<Rightarrow> (string \<rightharpoonup> reference_descriptor)" where
  "desc_by_type rds = foldl (\<lambda>m rd. m(rd_RefType rd \<mapsto> rd)) Map.empty rds"

definition check_required_refs :: "string \<Rightarrow> reference_descriptor list \<Rightarrow> reference_map \<Rightarrow> service_error option" where
  "check_required_refs kind rds refs =
     (case find_first (\<lambda>rd. rd_Min rd > 0 \<and> int (length (refs_of refs (rd_RefType rd))) < rd_Min rd) rds of
        None \<Rightarrow> None
      | Some rd \<Rightarrow> Some (Validation ''required reference type %q missing for %s (min %d)''
                     [FS (rd_RefType rd), FS kind, FD (rd_Min rd)]))"

fun check_targets ::
  "req_context \<Rightarrow> string \<Rightarrow> reference_descriptor \<Rightarrow> string list \<Rightarrow> object_reference list \<Rightarrow> unit op" where
  "check_targets cx refType rd seen [] = returnE ()"
| "check_targets cx refType rd seen (ref # rs) =
     (case or_Id ref of
        None \<Rightarrow> raiseE (Svc (Validation ''reference type %q: id is required'' [FS refType]))
      | Some i \<Rightarrow>
          if i = [] then raiseE (Svc (Validation ''reference type %q: id is required'' [FS refType]))
          else if i \<in> set seen then
            raiseE (Svc (Validation ''reference type %q: duplicate target id %q'' [FS refType, FS i]))
          else if or_Kind ref \<noteq> rd_TargetKind rd then
            raiseE (Svc (Validation ''reference type %q: kind %q does not match expected target kind %q''
              [FS refType, FS (or_Kind ref), FS (rd_TargetKind rd)]))
          else call (ResourceDao_Get cx (rd_TargetKind rd) i)
                 (svc_err (\<lambda>_. Validation ''reference type %q: target %s %q not found''
                    [FS refType, FS (rd_TargetKind rd), FS i]))
                 (\<lambda>target.
                  if res_DeletedTime target \<noteq> None then
                    raiseE (Svc (Validation ''reference type %q: target %s %q is marked for deletion''
                      [FS refType, FS (rd_TargetKind rd), FS i]))
                  else check_targets cx refType rd (i # seen) rs))"

fun check_ref_types ::
  "req_context \<Rightarrow> string \<Rightarrow> (string \<rightharpoonup> reference_descriptor) \<Rightarrow> reference_map \<Rightarrow> unit op" where
  "check_ref_types cx kind descByType [] = returnE ()"
| "check_ref_types cx kind descByType ((refType, objRefs) # refs) =
     (case descByType refType of
        None \<Rightarrow> raiseE (Svc (Validation ''unknown reference type %q for %s'' [FS refType, FS kind]))
      | Some rd \<Rightarrow>
          if rd_Max rd > 0 \<and> int (length objRefs) > rd_Max rd then
            raiseE (Svc (Validation ''reference type %q for %s exceeds max count %d (got %d)''
              [FS refType, FS kind, FD (rd_Max rd), FD (int (length objRefs))]))
          else bindE (check_targets cx refType rd [] objRefs) (\<lambda>_. check_ref_types cx kind descByType refs))"

definition validateReferences :: "environment \<Rightarrow> req_context \<Rightarrow> string \<Rightarrow> reference_map \<Rightarrow> unit op" where
  "validateReferences env cx kind refs =
     bindE (must env kind) (\<lambda>desc.
     check (check_required_refs kind (desc_References desc) refs)
       (check_ref_types cx kind (desc_by_type (desc_References desc)) refs))"

text \<open>The identifiers are present: the references have been validated.\<close>

definition convertRefs :: "entity_descriptor \<Rightarrow> string \<Rightarrow> reference_map \<Rightarrow> resource_reference list" where
  "convertRefs desc sourceID refs = concat (map (\<lambda>(refType, objRefs). map (\<lambda>ref.
     \<lparr>rr_SourceID = sourceID, rr_RefType = refType,
      rr_TargetID = (case or_Id ref of Some i \<Rightarrow> i | None \<Rightarrow> []),
      rr_TargetKind = (case desc_by_type (desc_References desc) refType of Some rd \<Rightarrow> rd_TargetKind rd | None \<Rightarrow> [])\<rparr>)
     objRefs) refs)"

end
