(* ===== verification/Resource_Service.thy ===== *)
theory Resource_Service
  imports Service_Support
begin

text \<open>
  The resource service (\<open>pkg/services/resource.go\<close>).  A method takes the request context and the
  world and returns a service error or its result.  A method that mutates a resource it was given
  returns the mutated resource too.

  Reads of the request context and log lines have no counterpart; \<open>metrics.RecordReconciliationStarted\<close>
  appends to \<open>w_metrics\<close>.  A Go map is ranged over in the order of its list.  The two recursions over
  the ownership tree carry fuel: \<open>deleteResourceTree\<close> descends along the registered kinds, so the
  number of descriptors is enough, and the force-delete walk descends along the rows, so their number
  is.
\<close>

section \<open>Recomputing the conditions\<close>

record reconciliation_outcome =
  ro_kind :: string
  ro_isDelete :: bool

definition RecordReconciliationStarted :: "reconciliation_outcome \<Rightarrow> unit op" where
  "RecordReconciliationStarted o1 = (\<lambda>w. (Inr (), w\<lparr>w_metrics := w_metrics w @ [(ro_kind o1, ro_isDelete o1)]\<rparr>))"

text \<open>The mapper of a kind reads and fills its cache, which is no part of the transaction.\<close>

definition apply_mapper :: "environment \<Rightarrow> resource \<Rightarrow> adapter_status list \<Rightarrow> gotime \<Rightarrow> resource_condition list op" where
  "apply_mapper env r statuses refTime = (\<lambda>w.
     case env_mappers env (res_Kind r) of
       None \<Rightarrow> (Inr [], w)
     | Some m \<Rightarrow>
         (case Apply m (w_caches w (res_Kind r)) statuses r refTime (res_Conditions r) of
            (res, cache) \<Rightarrow>
              (case res of Inl msg \<Rightarrow> Inl (Svc (GeneralError ''Condition mapping failed: %s'' [FS msg])) | Inr cs \<Rightarrow> Inr cs,
               w\<lparr>w_caches := (w_caches w)(res_Kind r := cache)\<rparr>)))"

definition prev_json :: "resource \<Rightarrow> jsonb" where
  "prev_json r = (if res_Conditions r \<noteq> [] then encode_resource_conditions (res_Conditions r) else JEmpty)"

definition ref_time :: "resource \<Rightarrow> gotime" where
  "ref_time r = (if IsZero (res_UpdatedTime r) then res_CreatedTime r else res_UpdatedTime r)"

definition aggregate_of :: "entity_descriptor \<Rightarrow> resource \<Rightarrow> adapter_status list \<Rightarrow> bool \<Rightarrow> aggregate_input" where
  "aggregate_of desc r statuses hasChildResources =
     \<lparr>ai_ResourceGeneration = res_Generation r, ai_RefTime = ref_time r, ai_DeletedTime = res_DeletedTime r,
      ai_PrevConditionsJSON = prev_json r, ai_RequiredAdapters = desc_RequiredAdapters desc,
      ai_AdapterStatuses = statuses, ai_HasChildResources = hasChildResources\<rparr>"

definition outcome_of :: "resource \<Rightarrow> resource_condition \<Rightarrow> reconciliation_outcome option" where
  "outcome_of r reconciled =
     (if rc_Status reconciled = ConditionFalse \<and> extractPrevReconciledStatus (prev_json r) \<noteq> Some ConditionFalse
      then Some \<lparr>ro_kind = res_Kind r, ro_isDelete = (res_DeletedTime r \<noteq> None)\<rparr> else None)"

definition saveAggregatedResourceConditions ::
  "environment \<Rightarrow> resource \<Rightarrow> adapter_status list \<Rightarrow> bool \<Rightarrow> (reconciliation_outcome option \<times> resource) op" where
  "saveAggregatedResourceConditions env r statuses hasChildResources =
     bindE (must env (res_Kind r)) (\<lambda>desc.
     case AggregateResourceStatus (aggregate_of desc r statuses hasChildResources) of
       (reconciled, lastKnownReconciled, adapterConditions) \<Rightarrow>
         bindE (apply_mapper env r statuses (ref_time r)) (\<lambda>mapped.
         let newConditions = reconciled # lastKnownReconciled # adapterConditions @ mapped in
         if jsonEqual (prev_json r) (encode_resource_conditions newConditions) then returnE (None, r)
         else call (UpdateConditions env (res_ID r) newConditions)
                (svc_err (general_err ''Failed to update resource conditions''))
                (\<lambda>rows. returnE (outcome_of r reconciled, r\<lparr>res_Conditions := rows\<rparr>))))"

fun any_active_child :: "req_context \<Rightarrow> string \<Rightarrow> entity_descriptor list \<Rightarrow> bool op" where
  "any_active_child cx i [] = returnE False"
| "any_active_child cx i (child # cs) =
     bindE (ExistsByOwner cx (desc_Kind child) i) (\<lambda>e. if e then returnE True else any_active_child cx i cs)"

definition hasChildren :: "environment \<Rightarrow> req_context \<Rightarrow> resource \<Rightarrow> bool op" where
  "hasChildren env cx r =
     (let children = ChildrenOf (env_registry env) (res_Kind r) in
      bindE (any_active_child cx (res_ID r) children) (\<lambda>e.
      if e then returnE True else ExistsSoftDeletedByOwner cx (map desc_Kind children) (res_ID r)))"

definition childrenRemainDuringDelete :: "environment \<Rightarrow> req_context \<Rightarrow> resource \<Rightarrow> bool op" where
  "childrenRemainDuringDelete env cx r =
     (if res_DeletedTime r = None then returnE False
      else call (hasChildren env cx r) (svc_err (general_err ''Failed to check children for status aggregation''))
             returnE)"

definition recomputeAndSaveResourceConditions ::
  "environment \<Rightarrow> req_context \<Rightarrow> resource \<Rightarrow> adapter_status list \<Rightarrow> (reconciliation_outcome option \<times> resource) op" where
  "recomputeAndSaveResourceConditions env cx r statuses =
     bindE (childrenRemainDuringDelete env cx r) (\<lambda>hasChildResources.
     saveAggregatedResourceConditions env r statuses hasChildResources)"

definition needs_conditions :: "environment \<Rightarrow> entity_descriptor \<Rightarrow> string \<Rightarrow> bool" where
  "needs_conditions env desc kind \<longleftrightarrow> desc_RequiredAdapters desc \<noteq> [] \<or> env_mappers env kind \<noteq> None"

section \<open>Lookups\<close>

definition Service_Get :: "environment \<Rightarrow> req_context \<Rightarrow> string \<Rightarrow> string \<Rightarrow> resource op" where
  "Service_Get env cx kind i =
     check (validateKind env kind) (call (ResourceDao_Get cx kind i) (svc_err (handleGetError kind i)) returnE)"

definition Service_GetByOwner :: "environment \<Rightarrow> req_context \<Rightarrow> string \<Rightarrow> string \<Rightarrow> string \<Rightarrow> resource op" where
  "Service_GetByOwner env cx kind i ownerID =
     check (validateKind env kind) (call (GetByOwner cx kind i ownerID) (svc_err (handleGetError kind i)) returnE)"

definition Service_GetByID :: "req_context \<Rightarrow> string \<Rightarrow> resource op" where
  "Service_GetByID cx i = call (GetByID cx i) (svc_err (handleGetError ''Resource'' i)) returnE"

definition getForUpdate :: "environment \<Rightarrow> req_context \<Rightarrow> string \<Rightarrow> string \<Rightarrow> string \<Rightarrow> resource op" where
  "getForUpdate env cx kind i ownerID =
     (if ownerID = [] then GetForUpdate cx kind i
      else bindE (must env kind) (\<lambda>desc. GetForUpdateByOwner cx kind i (desc_ParentKind desc) ownerID))"

definition getRowForUpdate :: "environment \<Rightarrow> req_context \<Rightarrow> string \<Rightarrow> string \<Rightarrow> string \<Rightarrow> resource op" where
  "getRowForUpdate env cx kind i ownerID =
     (if ownerID = [] then GetRowForUpdate cx kind i
      else bindE (must env kind) (\<lambda>desc. GetRowForUpdateByOwner cx kind i (desc_ParentKind desc) ownerID))"

definition handleOwnedGetError :: "environment \<Rightarrow> req_context \<Rightarrow> string \<Rightarrow> string \<Rightarrow> string \<Rightarrow> db_error \<Rightarrow> 'a op" where
  "handleOwnedGetError env cx kind i ownerID e =
     (if IsRecordNotFound e then
        bindE (must env kind) (\<lambda>desc.
        call (Exists cx (desc_ParentKind desc) ownerID) (svc_err (handleGetError (desc_ParentKind desc) ownerID))
          (\<lambda>found. if \<not> found then raiseE (Svc (handleGetError (desc_ParentKind desc) ownerID RecordNotFound))
                   else raiseE (Svc (handleGetError kind i e))))
      else raiseE (Svc (handleGetError kind i e)))"

fun on_db_error :: "(db_error \<Rightarrow> 'a op) \<Rightarrow> failure \<Rightarrow> 'a op" where
  "on_db_error h (Db e) = h e"
| "on_db_error h f = raiseE f"

section \<open>Create\<close>

definition lock_parent :: "environment \<Rightarrow> req_context \<Rightarrow> string \<Rightarrow> resource \<Rightarrow> unit op" where
  "lock_parent env cx kind r =
     (case res_OwnerID r of
        None \<Rightarrow> returnE ()
      | Some ownerID \<Rightarrow>
          if ownerID = [] then returnE ()
          else bindE (must env kind) (\<lambda>desc.
               call (GetForUpdate cx (desc_ParentKind desc) ownerID)
                 (svc_err (handleGetError (desc_ParentKind desc) ownerID)) (\<lambda>parent.
               if res_DeletedTime parent \<noteq> None then
                 raiseE (Svc (ConflictState ''%s '%s' is marked for deletion'' [FS (desc_ParentKind desc), FS ownerID]))
               else returnE ())))"

definition stamp_new :: "req_context \<Rightarrow> resource \<Rightarrow> resource" where
  "stamp_new cx r = r\<lparr>res_CreatedBy := (if res_CreatedBy r = [] then actorFromContext cx else res_CreatedBy r),
     res_UpdatedBy := (if res_UpdatedBy r = [] then actorFromContext cx else res_UpdatedBy r),
     res_Tenancy := TenancyJSON cx\<rparr>"

definition save_new_labels :: "string \<Rightarrow> resource \<Rightarrow> unit op" where
  "save_new_labels kind created =
     (if res_Labels created = [] then returnE ()
      else call (ReplaceLabels (res_ID created) (res_Labels created)) (svc_err (handleCreateError kind)) returnE)"

definition save_refs :: "environment \<Rightarrow> string \<Rightarrow> reference_map \<Rightarrow> resource \<Rightarrow> resource op" where
  "save_refs env kind refs r =
     bindE (must env kind) (\<lambda>desc.
     call (ReplaceReferences (res_ID r) (convertRefs desc (res_ID r) refs))
       (svc_err (general_err ''failed to save references'')) (\<lambda>rows. returnE (r\<lparr>res_References := rows\<rparr>)))"

definition create_tx ::
  "environment \<Rightarrow> req_context \<Rightarrow> string \<Rightarrow> resource \<Rightarrow> reference_map \<Rightarrow>
     (reconciliation_outcome option \<times> resource) op" where
  "create_tx env cx kind r refs =
     bindE (lock_parent env cx kind r) (\<lambda>_.
     bindE (validateReferences env cx kind refs) (\<lambda>_.
     call (ResourceDao_Create env (stamp_new cx r)) (svc_err (handleCreateError kind)) (\<lambda>created.
     bindE (save_new_labels kind created) (\<lambda>_.
     bindE (if refs = [] then returnE created else save_refs env kind refs created) (\<lambda>created.
     bindE (must env kind) (\<lambda>desc.
     if needs_conditions env desc kind then recomputeAndSaveResourceConditions env cx created []
     else returnE (None, created)))))))"

text \<open>After the transaction: the error is mapped, and the reconciliation work is recorded.\<close>

definition record_started :: "reconciliation_outcome list \<Rightarrow> unit op" where
  "record_started outcomes = bindE (forE outcomes RecordReconciliationStarted) (\<lambda>_. returnE ())"

definition commit_one :: "(reconciliation_outcome option \<times> 'a) op \<Rightarrow> 'a op" where
  "commit_one body =
     call (Do body) serviceErrorFromTransaction (\<lambda>(outcome, x).
     bindE (record_started (case outcome of None \<Rightarrow> [] | Some o1 \<Rightarrow> [o1])) (\<lambda>_. returnE x))"

definition Service_Create :: "environment \<Rightarrow> req_context \<Rightarrow> string \<Rightarrow> resource \<Rightarrow> reference_map \<Rightarrow> resource op" where
  "Service_Create env cx kind r refs =
     check (rejectSystemIdentityWrite cx) (
     check (validateKind env kind) (
     check (validateName kind (res_Name r)) (
     commit_one (create_tx env cx kind (r\<lparr>res_Kind := kind\<rparr>) refs))))"

section \<open>Patch\<close>

definition load_for_write :: "environment \<Rightarrow> req_context \<Rightarrow> string \<Rightarrow> string \<Rightarrow> string \<Rightarrow>
    (db_error \<Rightarrow> service_error) \<Rightarrow> (resource \<Rightarrow> 'a op) \<Rightarrow> 'a op" where
  "load_for_write env cx kind i ownerID h k =
     call_else (getForUpdate env cx kind i ownerID)
       (on_db_error (\<lambda>e. if ownerID \<noteq> [] then handleOwnedGetError env cx kind i ownerID e else raiseE (Svc (h e)))) k"

definition save_patched ::
  "environment \<Rightarrow> req_context \<Rightarrow> string \<Rightarrow> bool \<Rightarrow> resource \<Rightarrow> (reconciliation_outcome option \<times> resource) op" where
  "save_patched env cx kind labelsChanged r =
     call (Save env ((IncrementGeneration r)\<lparr>res_UpdatedBy := actorFromContext cx\<rparr>)) (svc_err (handleUpdateError kind)) (\<lambda>r1.
     bindE (if labelsChanged
            then call (ReplaceLabels (res_ID r1) (res_Labels r1)) (svc_err (handleUpdateError kind)) returnE
            else returnE ()) (\<lambda>_.
     bindE (must env kind) (\<lambda>desc.
     if needs_conditions env desc kind then
       call (FindByResource kind (res_ID r1))
         (svc_err (general_err ''failed to get adapter statuses for condition recompute''))
         (\<lambda>statuses. recomputeAndSaveResourceConditions env cx r1 statuses)
     else returnE (None, r1))))"

text \<open>References are validated and persisted when the patch has them: nil skips, an empty map clears.\<close>

definition save_patch_refs :: "environment \<Rightarrow> req_context \<Rightarrow> string \<Rightarrow> resource_patch \<Rightarrow> resource \<Rightarrow> resource op" where
  "save_patch_refs env cx kind p r =
     (case rp_References p of
        None \<Rightarrow> returnE r
      | Some refs \<Rightarrow> bindE (validateReferences env cx kind refs) (\<lambda>_. save_refs env kind refs r))"

definition patch_loaded ::
  "environment \<Rightarrow> req_context \<Rightarrow> string \<Rightarrow> string \<Rightarrow> resource_patch \<Rightarrow> resource \<Rightarrow>
     (reconciliation_outcome option \<times> resource) op" where
  "patch_loaded env cx kind i p old =
     (if res_DeletedTime old \<noteq> None then
        raiseE (Svc (ConflictState ''%s '%s' is marked for deletion'' [FS kind, FS i]))
      else case applyResourcePatch p old of
             Inl err \<Rightarrow> raiseE (Svc (Validation ''Invalid patch data: %v'' [FS err]))
           | Inr new \<Rightarrow>
               let specChanged = (\<not> jsonBytesEqual (res_Spec old) (res_Spec new));
                   labelsChanged = (\<not> labelsEqual (res_Labels old) (res_Labels new));
                   refsChanged = (rp_References p \<noteq> None)
               in bindE (save_patch_refs env cx kind p new) (\<lambda>r.
                  if \<not> specChanged \<and> \<not> labelsChanged \<and> \<not> refsChanged then returnE (None, r)
                  else save_patched env cx kind labelsChanged r))"

definition patch_tx ::
  "environment \<Rightarrow> req_context \<Rightarrow> string \<Rightarrow> string \<Rightarrow> string \<Rightarrow> resource_patch \<Rightarrow>
     (reconciliation_outcome option \<times> resource) op" where
  "patch_tx env cx kind i ownerID p =
     load_for_write env cx kind i ownerID (handleGetError kind i) (patch_loaded env cx kind i p)"

definition patch ::
  "environment \<Rightarrow> req_context \<Rightarrow> string \<Rightarrow> string \<Rightarrow> string \<Rightarrow> resource_patch \<Rightarrow> resource op" where
  "patch env cx kind i ownerID p =
     check (rejectSystemIdentityWrite cx) (
     check (validateWriteKind env kind ownerID) (
     commit_one (patch_tx env cx kind i ownerID p)))"

definition Patch :: "environment \<Rightarrow> req_context \<Rightarrow> string \<Rightarrow> string \<Rightarrow> resource_patch \<Rightarrow> resource op" where
  "Patch env cx kind i p = patch env cx kind i [] p"

definition PatchByOwner ::
  "environment \<Rightarrow> req_context \<Rightarrow> string \<Rightarrow> string \<Rightarrow> string \<Rightarrow> resource_patch \<Rightarrow> resource op" where
  "PatchByOwner env cx kind i ownerID p = check (validateOwnerID ownerID) (patch env cx kind i ownerID p)"

section \<open>Delete\<close>

definition checkCanDelete :: "req_context \<Rightarrow> resource \<Rightarrow> entity_descriptor \<Rightarrow> unit op" where
  "checkCanDelete cx r child =
     call (ExistsByOwner cx (desc_Kind child) (res_ID r))
       (svc_err (\<lambda>e. GeneralError ''Unable to check %s children: %s'' [FS (desc_Kind child), FS (db_text e)]))
       (\<lambda>found. if found then raiseE (Svc (ConflictState ''Cannot delete %s '%s': active %s(s) exist''
                  [FS (res_Kind r), FS (res_ID r), FS (desc_Kind child)]))
                else returnE ())"

text \<open>The bytes of U+2014.\<close>

definition em_dash :: string where "em_dash = map char_of [226, 128, 148 :: nat]"

definition checkReferencers :: "req_context \<Rightarrow> resource \<Rightarrow> unit op" where
  "checkReferencers cx r =
     call (FindReferencers cx (res_ID r)) (svc_err (general_err ''failed to check references'')) (\<lambda>referencers.
     if referencers \<noteq> [] then
       raiseE (Svc (ConflictState
         (''cannot delete %s %q: referenced by %s '' @ em_dash @ '' remove the reference(s) before deleting'')
         [FS (res_Kind r), FS (res_Name r),
          FS (Join '', '' (map (\<lambda>s. Sprintf ''%s %q'' [FS (rs_Kind s), FS (rs_Name s)]) referencers))]))
     else returnE ())"

definition shouldSoftDelete :: "environment \<Rightarrow> req_context \<Rightarrow> resource \<Rightarrow> entity_descriptor list \<Rightarrow> bool op" where
  "shouldSoftDelete env cx r children =
     bindE (must env (res_Kind r)) (\<lambda>desc.
     if desc_RequiredAdapters desc \<noteq> [] then returnE True
     else if children \<noteq> [] then
       call (ExistsSoftDeletedByOwner cx (map desc_Kind children) (res_ID r))
         (svc_err (general_err ''Unable to check soft-deleted children'')) returnE
     else returnE False)"

definition mark_for_deletion :: "string \<Rightarrow> gotime \<Rightarrow> resource \<Rightarrow> resource" where
  "mark_for_deletion deletedBy deletedAt r =
     (if res_DeletedTime r = None then IncrementGeneration (MarkDeleted deletedBy deletedAt r) else r)"

definition soft_delete ::
  "environment \<Rightarrow> req_context \<Rightarrow> resource \<Rightarrow> (reconciliation_outcome option \<times> resource) op" where
  "soft_delete env cx r =
     call (Save env r) (svc_err (handleSoftDeleteError (res_Kind r))) (\<lambda>r1.
     call (ReplaceReferences (res_ID r1) [])
       (svc_err (general_err ''failed to clear outbound references on soft-delete'')) (\<lambda>_.
     call (FindByResource (res_Kind r1) (res_ID r1))
       (svc_err (general_err ''failed to get adapter statuses for condition recompute'')) (\<lambda>statuses.
     recomputeAndSaveResourceConditions env cx r1 statuses)))"

primrec deleteResourceTree ::
  "nat \<Rightarrow> environment \<Rightarrow> req_context \<Rightarrow> string \<Rightarrow> gotime \<Rightarrow> resource \<Rightarrow> (reconciliation_outcome list \<times> resource) op"
where
  "deleteResourceTree 0 env cx deletedBy deletedAt r = raiseE OutOfFuel"
| "deleteResourceTree (Suc fuel) env cx deletedBy deletedAt r =
     (let children = ChildrenOf (env_registry env) (res_Kind r) in
      bindE (forE (filter (\<lambda>c. desc_OnParentDelete c = OnParentDeleteRestrict) children) (checkCanDelete cx r)) (\<lambda>_.
      bindE (forE (filter (\<lambda>c. desc_OnParentDelete c = OnParentDeleteCascade) children) (\<lambda>child.
               call (FindByKindAndOwnerForUpdate cx (desc_Kind child) (res_ID r))
                 (svc_err (\<lambda>e. GeneralError ''Unable to find %s children for cascade delete: %s''
                    [FS (desc_Kind child), FS (db_text e)]))
                 (\<lambda>items. forE items (\<lambda>item.
                    deleteResourceTree fuel env cx deletedBy deletedAt (mark_for_deletion deletedBy deletedAt item)))))
        (\<lambda>deleted.
      let outcomes = concat (map fst (concat deleted)) in
      bindE (checkReferencers cx r) (\<lambda>_.
      bindE (shouldSoftDelete env cx r children) (\<lambda>soft.
      if soft then
        bindE (soft_delete env cx r) (\<lambda>(outcome, r1).
        returnE (outcomes @ (case outcome of None \<Rightarrow> [] | Some o1 \<Rightarrow> [o1]), r1))
      else call (ResourceDao_Delete cx (res_Kind r) (res_ID r)) (svc_err (handleDeleteError (res_Kind r)))
             (\<lambda>_. returnE (outcomes, r)))))))"

definition delete_tx ::
  "environment \<Rightarrow> req_context \<Rightarrow> string \<Rightarrow> string \<Rightarrow> string \<Rightarrow> (reconciliation_outcome list \<times> resource) op" where
  "delete_tx env cx kind i ownerID =
     load_for_write env cx kind i ownerID (handleSoftDeleteError kind) (\<lambda>r.
     bindE (time_Now env) (\<lambda>now.
     let deletedBy = actorFromContext cx; deletedAt = truncate_us now in
     deleteResourceTree (Suc (length (env_registry env))) env cx deletedBy deletedAt
       (mark_for_deletion deletedBy deletedAt r)))"

definition deleteResource ::
  "environment \<Rightarrow> req_context \<Rightarrow> string \<Rightarrow> string \<Rightarrow> string \<Rightarrow> resource op" where
  "deleteResource env cx kind i ownerID =
     check (rejectSystemIdentityWrite cx) (
     check (validateWriteKind env kind ownerID) (
     call (Do (delete_tx env cx kind i ownerID)) serviceErrorFromTransaction (\<lambda>(outcomes, r).
     bindE (record_started outcomes) (\<lambda>_. returnE r))))"

definition Service_Delete :: "environment \<Rightarrow> req_context \<Rightarrow> string \<Rightarrow> string \<Rightarrow> resource op" where
  "Service_Delete env cx kind i = deleteResource env cx kind i []"

definition DeleteByOwner :: "environment \<Rightarrow> req_context \<Rightarrow> string \<Rightarrow> string \<Rightarrow> string \<Rightarrow> resource op" where
  "DeleteByOwner env cx kind i ownerID = check (validateOwnerID ownerID) (deleteResource env cx kind i ownerID)"

section \<open>Adapter reports\<close>

definition tryHardDeleteResource ::
  "environment \<Rightarrow> req_context \<Rightarrow> resource \<Rightarrow> adapter_condition list \<Rightarrow> adapter_status list \<Rightarrow> bool \<Rightarrow> bool op" where
  "tryHardDeleteResource env cx r conditions allStatuses hasChildResources =
     (if \<not> incomingReportedFinalized conditions then returnE False
      else bindE (must env (res_Kind r)) (\<lambda>desc.
      if \<not> allAdaptersFinalized (desc_RequiredAdapters desc) allStatuses (res_Generation r) then returnE False
      else if hasChildResources then returnE False
      else call (AdapterStatus_DeleteByResource (res_Kind r) (res_ID r))
             (svc_err (general_err ''Failed to delete adapter statuses during hard-delete'')) (\<lambda>_.
           call (Conditions_DeleteByResource (res_ID r))
             (svc_err (general_err ''Failed to delete resource conditions during hard-delete'')) (\<lambda>_.
           call (ResourceDao_Delete cx (res_Kind r) (res_ID r))
             (svc_err (\<lambda>e. GeneralError ''Failed to hard-delete %s: %s'' [FS (res_Kind r), FS (db_text e)]))
             (\<lambda>_. returnE True)))))"

text \<open>\<open>time.Now()\<close> is read for a report without a time only.\<close>

definition set_transition_times ::
  "environment \<Rightarrow> adapter_status \<Rightarrow> adapter_status option \<Rightarrow> adapter_status op" where
  "set_transition_times env incoming existing =
     bindE (if IsZero (as_LastReportTime incoming) then time_Now env else returnE 0) (\<lambda>now.
     returnE (setConditionTransitionTimes now incoming existing))"

definition report_changed :: "adapter_status \<Rightarrow> adapter_status option \<Rightarrow> bool" where
  "report_changed incoming existing =
     (case existing of
        None \<Rightarrow> True
      | Some e \<Rightarrow> \<not> jsonEqual (as_Conditions e) (as_Conditions incoming) \<or>
                  \<not> jsonEqual (as_Data e) (as_Data incoming))"

text \<open>From the upsert on; the result is the stored report and the recorded work.\<close>

definition apply_report ::
  "environment \<Rightarrow> req_context \<Rightarrow> resource \<Rightarrow> adapter_status list \<Rightarrow> adapter_status \<Rightarrow> adapter_status option \<Rightarrow>
     adapter_condition list \<Rightarrow> bool \<Rightarrow> (reconciliation_outcome option \<times> adapter_status option) op" where
  "apply_report env cx r allStatuses incoming existing conditions triggerAggregation =
     call (Upsert env incoming existing) (svc_err (handleCreateError ''AdapterStatus'')) (\<lambda>upserted.
     let updatedStatuses = replaceAdapterStatusInList allStatuses upserted in
     bindE (childrenRemainDuringDelete env cx r) (\<lambda>hasChildResources.
     bindE (if res_DeletedTime r \<noteq> None
            then tryHardDeleteResource env cx r conditions updatedStatuses hasChildResources
            else returnE False) (\<lambda>hardDeleted.
     if hardDeleted then returnE (None, Some upserted)
     else if triggerAggregation \<or> (env_mappers env (res_Kind r) \<noteq> None \<and> report_changed incoming existing) then
       bindE (saveAggregatedResourceConditions env r updatedStatuses hasChildResources) (\<lambda>(outcome, _).
       returnE (outcome, Some upserted))
     else returnE (None, Some upserted))))"

definition process_tx ::
  "environment \<Rightarrow> req_context \<Rightarrow> string \<Rightarrow> string \<Rightarrow> adapter_status \<Rightarrow>
     (reconciliation_outcome option \<times> adapter_status option) op" where
  "process_tx env cx kind resourceID incoming =
     call (GetForUpdate cx kind resourceID) (svc_err (handleGetError kind resourceID)) (\<lambda>r.
     call (FindByResource kind resourceID) (svc_err (general_err ''Failed to get adapter statuses'')) (\<lambda>allStatuses.
     let existing = findAdapterStatusInList allStatuses (as_Adapter incoming) in
     case validateAndClassifyAdapterStatus (res_Generation r) incoming existing of
       Inl e \<Rightarrow> raiseE (Svc e)
     | Inr None \<Rightarrow> returnE (None, None)
     | Inr (Some (conditions, triggerAggregation)) \<Rightarrow>
         bindE (set_transition_times env (incoming\<lparr>as_ResourceType := kind, as_ResourceID := resourceID\<rparr>) existing) (\<lambda>incoming1.
         apply_report env cx r allStatuses incoming1 existing conditions triggerAggregation)))"

definition ProcessAdapterStatus ::
  "environment \<Rightarrow> req_context \<Rightarrow> string \<Rightarrow> string \<Rightarrow> adapter_status \<Rightarrow> adapter_status option op" where
  "ProcessAdapterStatus env cx kind resourceID incoming =
     check (validateKind env kind) (
     commit_one (process_tx env cx kind resourceID
       (incoming\<lparr>as_LastReportTime := truncate_us (as_LastReportTime incoming)\<rparr>)))"

section \<open>Force-delete\<close>

definition forceDeleteDeadlockReason :: string where
  "forceDeleteDeadlockReason = ''force-delete conflicted with a concurrent transaction; retry the request''"

definition forceDeleteTransactionConflict :: "db_error \<Rightarrow> service_error option" where
  "forceDeleteTransactionConflict e =
     (if SQLState e = Some ''40P01'' then Some (ConflictState forceDeleteDeadlockReason []) else None)"

definition or_conflict :: "(db_error \<Rightarrow> service_error) \<Rightarrow> db_error \<Rightarrow> service_error" where
  "or_conflict h e = (case forceDeleteTransactionConflict e of Some c \<Rightarrow> c | None \<Rightarrow> h e)"

primrec collect :: "nat \<Rightarrow> req_context \<Rightarrow> resource \<Rightarrow> resource list op" where
  "collect 0 cx parent = raiseE OutOfFuel"
| "collect (Suc fuel) cx parent =
     bindE (FindChildrenForUpdate cx (res_ID parent)) (\<lambda>children.
     bindE (forE children (\<lambda>child. bindE (collect fuel cx child) (\<lambda>below. returnE (child # below)))) (\<lambda>trees.
     returnE (concat trees)))"

definition collectForceDeletionResources :: "req_context \<Rightarrow> resource \<Rightarrow> resource list op" where
  "collectForceDeletionResources cx top_row = (\<lambda>w.
     bindE (collect (Suc (length (t_resources (w_tables w)))) cx top_row) (\<lambda>below. returnE (top_row # below)) w)"

definition findReferenceDescriptor :: "reference_descriptor list \<Rightarrow> string \<Rightarrow> reference_descriptor option" where
  "findReferenceDescriptor refs refType = find_first (\<lambda>rd. rd_RefType rd = refType) refs"

fun validateRemainingReferenceMins ::
  "environment \<Rightarrow> string \<Rightarrow> string \<Rightarrow> ExternalReferenceCount list \<Rightarrow> service_error option" where
  "validateRemainingReferenceMins env kind name [] = None"
| "validateRemainingReferenceMins env kind name (c # cs) =
     (case Get (env_registry env) (erc_SourceKind c) of
        None \<Rightarrow> Some (GeneralError ''unregistered reference source kind %s'' [FS (erc_SourceKind c)])
      | Some desc \<Rightarrow>
          (case findReferenceDescriptor (desc_References desc) (erc_RefType c) of
             None \<Rightarrow> Some (GeneralError ''unregistered reference type %s for %s''
                       [FS (erc_RefType c), FS (erc_SourceKind c)])
           | Some rd \<Rightarrow>
               if erc_Remaining c < rd_Min rd then
                 Some (ConflictState ''cannot delete %s %q: required references would be removed'' [FS kind, FS name])
               else validateRemainingReferenceMins env kind name cs))"

definition deleteResourceRows :: "req_context \<Rightarrow> string list \<Rightarrow> unit op" where
  "deleteResourceRows cx ids =
     bindE (DeleteReferencesByTargets ids) (\<lambda>_. bindE (DeleteByResourceIDs ids) (\<lambda>_. DeleteIDs cx ids))"

definition forceDeleteTx ::
  "environment \<Rightarrow> req_context \<Rightarrow> string \<Rightarrow> string \<Rightarrow> string \<Rightarrow> resource list op" where
  "forceDeleteTx env cx kind i ownerID =
     call_else (getRowForUpdate env cx kind i ownerID)
       (on_db_error (\<lambda>e. case forceDeleteTransactionConflict e of
          Some c \<Rightarrow> raiseE (Svc c)
        | None \<Rightarrow> if ownerID \<noteq> [] then handleOwnedGetError env cx kind i ownerID e
                  else raiseE (Svc (handleGetError kind i e))))
       (\<lambda>r.
        if res_DeletedTime r = None then
          raiseE (Svc (ConflictState ''%s '%s' is not in Finalizing state'' [FS kind, FS i]))
        else
          call (collectForceDeletionResources cx r) (svc_err (or_conflict (general_err ''force-delete failed''))) (\<lambda>resources.
          let ids = map res_ID resources in
          call (FindExternalReferenceCounts ids ids) (svc_err (or_conflict (general_err ''force-delete failed''))) (\<lambda>counts.
          check (validateRemainingReferenceMins env kind (res_Name r) counts) (
          call (deleteResourceRows cx ids) (svc_err (or_conflict (handleDeleteError kind))) (\<lambda>_.
          returnE resources)))))"

fun force_delete_error :: "failure \<Rightarrow> failure" where
  "force_delete_error (Db e) =
     (case forceDeleteTransactionConflict e of Some c \<Rightarrow> Svc c | None \<Rightarrow> serviceErrorFromTransaction (Db e))"
| "force_delete_error f = f"

definition forceDelete :: "environment \<Rightarrow> req_context \<Rightarrow> string \<Rightarrow> string \<Rightarrow> string \<Rightarrow> unit op" where
  "forceDelete env cx kind i ownerID =
     check (rejectSystemIdentityWrite cx) (
     check (validateWriteKind env kind ownerID) (
     call (Do (forceDeleteTx env cx kind i ownerID)) force_delete_error (\<lambda>_. returnE ())))"

definition ForceDelete :: "environment \<Rightarrow> req_context \<Rightarrow> string \<Rightarrow> string \<Rightarrow> unit op" where
  "ForceDelete env cx kind i = forceDelete env cx kind i []"

definition ForceDeleteByOwner :: "environment \<Rightarrow> req_context \<Rightarrow> string \<Rightarrow> string \<Rightarrow> string \<Rightarrow> unit op" where
  "ForceDeleteByOwner env cx kind i ownerID = check (validateOwnerID ownerID) (forceDelete env cx kind i ownerID)"

section \<open>Every operation keeps the schema\<close>

text \<open>The five operations that write, as one type of requests.\<close>

datatype request =
    ReqCreate string resource reference_map
  | ReqPatch string string string resource_patch
  | ReqDelete string string string
  | ReqProcess string string adapter_status
  | ReqForceDelete string string string

definition serve :: "environment \<Rightarrow> req_context \<Rightarrow> request \<Rightarrow> unit op" where
  "serve env cx q =
     (case q of
        ReqCreate kind r refs \<Rightarrow> bindE (Service_Create env cx kind r refs) (\<lambda>_. returnE ())
      | ReqPatch kind i ownerID p \<Rightarrow> bindE (patch env cx kind i ownerID p) (\<lambda>_. returnE ())
      | ReqDelete kind i ownerID \<Rightarrow> bindE (deleteResource env cx kind i ownerID) (\<lambda>_. returnE ())
      | ReqProcess kind i s \<Rightarrow> bindE (ProcessAdapterStatus env cx kind i s) (\<lambda>_. returnE ())
      | ReqForceDelete kind i ownerID \<Rightarrow> forceDelete env cx kind i ownerID)"

lemma keeps_case_prod: "(\<And>a b. keeps R (f a b)) \<Longrightarrow> keeps R (case x of (a, b) \<Rightarrow> f a b)"
  by (cases x) simp

lemma keeps_case_option: "keeps R a \<Longrightarrow> (\<And>x. keeps R (f x)) \<Longrightarrow> keeps R (case c of None \<Rightarrow> a | Some x \<Rightarrow> f x)"
  by (cases c) auto

lemma keeps_case_sum: "(\<And>x. keeps R (f x)) \<Longrightarrow> (\<And>x. keeps R (g x)) \<Longrightarrow> keeps R (case c of Inl x \<Rightarrow> f x | Inr x \<Rightarrow> g x)"
  by (cases c) auto

context row_relation
begin

lemma keeps_check: "keeps R k \<Longrightarrow> keeps R (check c k)"
  unfolding check_def by (rule keeps_guardE)

lemma keeps_call_else:
  assumes m: "keeps R m" and h: "\<And>e. keeps R (h e)" and k: "\<And>x. keeps R (k x)"
  shows "keeps R (call_else m h k)"
proof (rule keepsI)
  fix w r w'
  assume run: "call_else m h k w = (r, w')"
  obtain r1 w1 where m1: "m w = (r1, w1)" by (cases "m w")
  with run have "R w1 w'"
    by (cases r1) (auto simp: call_else_def dest: keepsD [OF h] keepsD [OF k])
  with keepsD [OF m m1] show "R w w'" by (rule R_trans)
qed

lemma keeps_on_db_error: "(\<And>e. keeps R (h e)) \<Longrightarrow> keeps R (on_db_error h f)"
  by (cases f) (auto intro: keeps_raiseE)

lemma apply_mapper_keeps: "keeps R (apply_mapper env r statuses t)"
  by (auto simp: keeps_def apply_mapper_def R_refl R_cache split: option.splits prod.splits)

text \<open>\<open>op_rules\<close> walks through the body of an operation down to the DAO.\<close>

lemmas op_rules = keeps_rules keeps_check keeps_call_else keeps_case_prod keeps_case_option keeps_case_sum
  keeps_on_db_error dao_rows_keep apply_mapper_keeps

lemma any_active_child_keeps: "keeps R (any_active_child cx i cs)"
  by (induction cs) (auto intro!: op_rules)

lemma recompute_keeps:
  "keeps R (childrenRemainDuringDelete env cx r)"
  "keeps R (saveAggregatedResourceConditions env r statuses b)"
  "keeps R (recomputeAndSaveResourceConditions env cx r statuses)"
proof -
  show a: "keeps R (childrenRemainDuringDelete env cx r)"
    unfolding childrenRemainDuringDelete_def hasChildren_def Let_def
    by (intro op_rules any_active_child_keeps)
  show b: "keeps R (saveAggregatedResourceConditions env r statuses b)" for b
    unfolding saveAggregatedResourceConditions_def Let_def by (intro op_rules)
  show "keeps R (recomputeAndSaveResourceConditions env cx r statuses)"
    unfolding recomputeAndSaveResourceConditions_def by (intro op_rules a b)
qed

lemma check_refs_keep:
  "keeps R (check_targets cx refType rd seen rs)"
  "keeps R (check_ref_types cx kind m refs)"
  "keeps R (validateReferences env cx kind refs)"
proof -
  show a: "keeps R (check_targets cx refType rd seen rs)" for refType rd seen rs
    by (induction rs arbitrary: seen) (auto intro!: op_rules split: option.splits)
  show b: "keeps R (check_ref_types cx kind m refs)" for m
    by (induction refs) (auto intro!: op_rules a split: option.splits)
  show "keeps R (validateReferences env cx kind refs)"
    unfolding validateReferences_def by (intro op_rules b)
qed

lemma load_keeps:
  "keeps R (getForUpdate env cx kind i ownerID)"
  "keeps R (getRowForUpdate env cx kind i ownerID)"
  "keeps R (handleOwnedGetError env cx kind i ownerID e)"
  unfolding getForUpdate_def getRowForUpdate_def handleOwnedGetError_def
  by (intro op_rules)+

lemma load_for_write_keeps:
  "(\<And>r. keeps R (k r)) \<Longrightarrow> keeps R (load_for_write env cx kind i ownerID h k)"
  unfolding load_for_write_def by (intro op_rules load_keeps)

lemma save_refs_keeps: "keeps R (save_refs env kind refs r)"
  unfolding save_refs_def by (intro op_rules)

lemma create_parts_keep:
  "keeps R (lock_parent env cx kind r)" "keeps R (save_new_labels kind r)"
  unfolding lock_parent_def save_new_labels_def by (intro op_rules)+

lemma delete_checks_keep:
  "keeps R (checkCanDelete cx r child)" "keeps R (checkReferencers cx r)"
  "keeps R (shouldSoftDelete env cx r children)"
  unfolding checkCanDelete_def checkReferencers_def shouldSoftDelete_def
  by (intro op_rules)+

lemma collect_keeps: "keeps R (collect fuel cx r)"
  by (induction fuel arbitrary: r) (auto intro!: op_rules)

lemma collectForceDeletionResources_keeps: "keeps R (collectForceDeletionResources cx r)"
  unfolding collectForceDeletionResources_def
  by (rule keepsI) (erule keepsD [OF keeps_bindE [OF collect_keeps keeps_returnE]])

lemma save_patch_refs_keeps: "keeps R (save_patch_refs env cx kind p r)"
  unfolding save_patch_refs_def by (intro op_rules check_refs_keep save_refs_keeps)

lemma set_transition_times_keeps: "keeps R (set_transition_times env s existing)"
  unfolding set_transition_times_def by (intro op_rules)

lemmas part_rules = op_rules check_refs_keep recompute_keeps load_keeps load_for_write_keeps save_refs_keeps
  create_parts_keep save_patch_refs_keeps delete_checks_keep collectForceDeletionResources_keeps set_transition_times_keeps

text \<open>The operations keep the relation as soon as their statements on resources do.\<close>

lemma create_tx_keeps_from:
  "(\<And>r. keeps R (ResourceDao_Create env r)) \<Longrightarrow> keeps R (create_tx env cx kind r refs)"
  unfolding create_tx_def by (intro part_rules)

lemma process_tx_keeps_from:
  "(\<And>kind i. keeps R (ResourceDao_Delete cx kind i)) \<Longrightarrow> keeps R (process_tx env cx kind i s)"
  unfolding process_tx_def apply_report_def tryHardDeleteResource_def Let_def by (intro part_rules)

lemma forceDeleteTx_keeps_from:
  "(\<And>ids. keeps R (DeleteIDs cx ids)) \<Longrightarrow> keeps R (forceDeleteTx env cx kind i ownerID)"
  unfolding forceDeleteTx_def deleteResourceRows_def Let_def by (intro part_rules)

end

context op_relation
begin

lemma patch_tx_keeps: "keeps R (patch_tx env cx kind i ownerID p)"
  unfolding patch_tx_def patch_loaded_def save_patched_def Let_def by (intro part_rules resource_writes_keep)

lemma deleteResourceTree_keeps: "keeps R (deleteResourceTree fuel env cx deletedBy deletedAt r)"
proof (induction fuel arbitrary: r)
  case 0
  show ?case by (simp add: keeps_raiseE)
next
  case (Suc fuel)
  show ?case
    unfolding deleteResourceTree.simps soft_delete_def Let_def by (intro part_rules resource_writes_keep Suc.IH)
qed

lemma delete_tx_keeps: "keeps R (delete_tx env cx kind i ownerID)"
  unfolding delete_tx_def Let_def by (intro part_rules deleteResourceTree_keeps)

lemmas create_tx_keeps = create_tx_keeps_from [OF resource_writes_keep(1)]
lemmas process_tx_keeps = process_tx_keeps_from [OF resource_writes_keep(3)]
lemmas forceDeleteTx_keeps = forceDeleteTx_keeps_from [OF resource_writes_keep(4)]

lemmas tx_keeps = create_tx_keeps patch_tx_keeps delete_tx_keeps process_tx_keeps forceDeleteTx_keeps

end

section \<open>What holds of every operation\<close>

lemma record_started_run:
  "record_started os w = (Inr (), w\<lparr>w_metrics := w_metrics w @ map (\<lambda>o1. (ro_kind o1, ro_isDelete o1)) os\<rparr>)"
proof -
  have "forE os RecordReconciliationStarted w =
      (Inr (map (\<lambda>_. ()) os), w\<lparr>w_metrics := w_metrics w @ map (\<lambda>o1. (ro_kind o1, ro_isDelete o1)) os\<rparr>)"
    by (induction os arbitrary: w) (auto simp: RecordReconciliationStarted_def effect_simps)
  then show ?thesis by (simp add: record_started_def effect_simps)
qed

lemma record_started_keeps: "keeps keeps_schema (record_started os)"
  by (auto simp: keeps_def record_started_run keeps_schema_def)

lemma commit_one_keeps: "keeps keeps_schema body \<Longrightarrow> keeps keeps_schema (commit_one body)"
  unfolding commit_one_def by (intro schema.op_rules schema.keeps_Do record_started_keeps)

lemma serve_keeps: "keeps keeps_schema (serve env cx q)"
  by (cases q)
     (auto simp: serve_def Service_Create_def patch_def deleteResource_def ProcessAdapterStatus_def forceDelete_def
        intro!: schema.op_rules commit_one_keeps schema.keeps_Do schema.tx_keeps record_started_keeps)

lemma check_Inl: "check c k w = (Inl f, w') \<Longrightarrow> (c \<noteq> None \<and> w' = w) \<or> k w = (Inl f, w')"
  by (auto simp: check_def guardE_run split: option.splits)

lemma Do_call_atomic:
  assumes body: "keeps same_metrics body" and run: "call (Do body) h (\<lambda>x. bindE (record_started (g x)) (\<lambda>_. returnE (f x))) w = (Inl e, w')"
  shows "w_tables w' = w_tables w \<and> w_metrics w' = w_metrics w"
proof -
  from run obtain d where d: "Do body w = (Inl d, w')"
    by (auto simp: call_run bindE_run record_started_run returnE_run split: prod.splits sum.splits)
  then show ?thesis
    using Do_atomic [OF d] keepsD [OF unmetered.keeps_Do [OF body] d] by (simp add: same_metrics_def)
qed

lemma commit_one_atomic:
  assumes "keeps same_metrics body" "commit_one body w = (Inl e, w')"
  shows "w_tables w' = w_tables w \<and> w_metrics w' = w_metrics w"
  using Do_call_atomic [OF assms(1), of _ "\<lambda>(outcome, x). case outcome of None \<Rightarrow> [] | Some o1 \<Rightarrow> [o1]" snd w e w'] assms(2)
  by (simp add: commit_one_def case_prod_beta')

lemma bind_unit_Inl: "bindE m (\<lambda>_. returnE ()) w = (Inl e, w') \<longleftrightarrow> m w = (Inl e, w')"
  by (auto simp: bindE_run returnE_run split: prod.splits sum.splits)

end
