(* ===== verification/Lifecycle.thy ===== *)
theory Lifecycle
  imports Resource_Service
begin

text \<open>
  The properties of the resource service: what holds of every request whatever fails (atomicity, the
  schema, the system identity), and what each operation does to the resource it names.
\<close>

section \<open>All requests\<close>

lemma serve_atomic:
  assumes "serve env cx q w = (Inl f, w')"
  shows "w_tables w' = w_tables w \<and> w_metrics w' = w_metrics w"
proof (cases q)
  case (ReqCreate kind r refs)
  with assms show ?thesis
    using commit_one_atomic [OF unmetered.create_tx_keeps]
    by (auto simp: serve_def bind_unit_Inl Service_Create_def dest!: check_Inl)
next
  case (ReqPatch kind i ownerID p)
  with assms show ?thesis
    using commit_one_atomic [OF unmetered.patch_tx_keeps]
    by (auto simp: serve_def bind_unit_Inl patch_def dest!: check_Inl)
next
  case (ReqDelete kind i ownerID)
  then have "deleteResource env cx kind i ownerID w = (Inl f, w')"
    using assms by (simp add: serve_def bind_unit_Inl)
  then show ?thesis
    using Do_call_atomic [OF unmetered.delete_tx_keeps, where g = fst and f = snd]
    by (auto simp: deleteResource_def case_prod_beta' dest!: check_Inl)
next
  case (ReqProcess kind i s)
  with assms show ?thesis
    using commit_one_atomic [OF unmetered.process_tx_keeps]
    by (auto simp: serve_def bind_unit_Inl ProcessAdapterStatus_def dest!: check_Inl)
next
  case (ReqForceDelete kind i ownerID)
  then have run: "forceDelete env cx kind i ownerID w = (Inl f, w')" using assms by (simp add: serve_def)
  show ?thesis
  proof (cases "w' = w")
    case False
    with run obtain d where d: "Do (forceDeleteTx env cx kind i ownerID) w = (Inl d, w')"
      by (auto simp: forceDelete_def call_run returnE_run split: prod.splits sum.splits dest!: check_Inl)
    then show ?thesis
      using Do_atomic [OF d] keepsD [OF unmetered.keeps_Do [OF unmetered.forceDeleteTx_keeps] d]
      by (simp add: same_metrics_def)
  qed simp
qed

text \<open>C18. Every write operation is atomic: when it returns an error -- a validation error, a failed
  statement at any point, a failed commit, a panic -- all tables and the recorded reconciliation
  metrics are as they were.\<close>

theorem operations_atomic:
  assumes "serve env cx q w = (Inl f, w')"
  shows "w_tables w' = w_tables w \<and> w_metrics w' = w_metrics w"
  using assms by (rule serve_atomic)


text \<open>A system identity writes status and conditions only: every other write request of it is
  refused with the same \<open>Forbidden\<close> error before anything is read or written.\<close>

theorem system_identity_writes_nothing:
  assumes "cx_Tenant cx = Some t" and "rt_System t" and "\<forall>kind i s. q \<noteq> ReqProcess kind i s"
  shows "serve env cx q w =
     (Inl (Svc (Forbidden ''system identities may only write status and conditions'' [])), w)"
  using assms
  by (cases q)
     (simp_all add: serve_def Service_Create_def patch_def deleteResource_def forceDelete_def check_def
        rejectSystemIdentityWrite_def guardE_run bindE_run)

section \<open>What a patch does\<close>

lemma getForUpdate_InrE:
  assumes "getForUpdate env cx kind i ownerID w = (Inr r, w')"
  obtains x where "x \<in> set (t_resources (w_tables w))" "in_scope cx x" "res_Kind x = kind" "res_ID x = i"
    "ownerID = [] \<or> res_OwnerID x = Some ownerID" "r = withAssociations (w_tables w) x" "w_tables w' = w_tables w"
proof (cases "ownerID = []")
  case True
  with assms have "GetForUpdate cx kind i w = (Inr r, w')" by (simp add: getForUpdate_def)
  then show ?thesis unfolding GetForUpdate_def by (rule take_resource_InrE) (use that True in blast)
next
  case False
  with assms obtain d w1 where m: "must env kind w = (Inr d, w1)"
      and g: "GetForUpdateByOwner cx kind i (desc_ParentKind d) ownerID w1 = (Inr r, w')"
    by (auto simp: getForUpdate_def elim: bindE_InrE)
  have "w_tables w1 = w_tables w" using keepsD [OF must_same m] by (simp add: same_tables_def)
  with g show ?thesis
    unfolding GetForUpdateByOwner_def
    by - (erule take_resource_InrE, rule that, auto simp: ownedForUpdate_def)
qed

lemma Save_InrE:
  assumes "Save env r w = (Inr r1, w')"
  obtains now where "r1 = r\<lparr>res_UpdatedTime := now\<rparr>" "save_resource r1 (w_tables w) = Inr (w_tables w')"
proof -
  from assms obtain w1 where h: "Resource_BeforeUpdate env r w = (Inr r1, w1)"
      and e: "execute (save_resource r1) w1 = (Inr (), w')"
    by (auto simp: Save_def returnE_run elim!: bindE_InrE)
  have "w_tables w1 = w_tables w" using keepsD [OF hooks_same(3) h] by (simp add: same_tables_def)
  moreover obtain now where "r1 = r\<lparr>res_UpdatedTime := now\<rparr>"
    using h by (auto simp: Resource_BeforeUpdate_def returnE_run elim!: bindE_InrE)
  ultimately show ?thesis using e that by (auto elim: execute_InrE)
qed

lemma withAssociations_fields [simp]:
  "res_ID (withAssociations t r) = res_ID r" "res_Kind (withAssociations t r) = res_Kind r"
  "res_DeletedTime (withAssociations t r) = res_DeletedTime r" "res_Generation (withAssociations t r) = res_Generation r"
  "res_Spec (withAssociations t r) = res_Spec r" "res_Tenancy (withAssociations t r) = res_Tenancy r"
  "res_OwnerID (withAssociations t r) = res_OwnerID r" "res_Name (withAssociations t r) = res_Name r"
  "strip (withAssociations t r) = strip r"
  by (simp_all add: withAssociations_def strip_def)

lemma strip_upd [simp]:
  "strip (r\<lparr>res_Conditions := cs\<rparr>) = strip r" "strip (r\<lparr>res_Labels := ls\<rparr>) = strip r"
  "strip (r\<lparr>res_References := fs\<rparr>) = strip r" "strip (r\<lparr>res_UpdatedTime := t\<rparr>) = (strip r)\<lparr>res_UpdatedTime := t\<rparr>"
  "strip (r\<lparr>res_UpdatedBy := u\<rparr>) = (strip r)\<lparr>res_UpdatedBy := u\<rparr>" "strip (r\<lparr>res_Spec := j\<rparr>) = (strip r)\<lparr>res_Spec := j\<rparr>"
  "strip (IncrementGeneration r) = IncrementGeneration (strip r)"
  by (simp_all add: strip_def IncrementGeneration_def)

definition same_but_conditions :: "resource \<Rightarrow> resource \<Rightarrow> bool" where
  "same_but_conditions r r' \<longleftrightarrow>
     strip r' = strip r \<and> res_Labels r' = res_Labels r \<and> res_References r' = res_References r"

lemma same_but_conditions_simps [simp]:
  "same_but_conditions r r" "same_but_conditions r (r\<lparr>res_Conditions := cs\<rparr>)"
  by (simp_all add: same_but_conditions_def)

lemma recompute_result:
  assumes "recomputeAndSaveResourceConditions env cx r statuses w = (Inr (outcome, r'), w')"
  shows "same_but_conditions r r'"
  using assms
  by (auto simp: recomputeAndSaveResourceConditions_def saveAggregatedResourceConditions_def Let_def returnE_run
      elim!: bindE_InrE call_InrE split: prod.splits if_splits)

lemma applyResourcePatch_strip:
  "applyResourcePatch p r = Inr r0 \<Longrightarrow>
     strip r0 = (strip r)\<lparr>res_Spec := res_Spec r0\<rparr> \<and> res_ID r0 = res_ID r"
  by (auto simp: applyResourcePatch_def Let_def strip_def split: option.splits sum.splits)

lemma save_refs_InrE:
  assumes "save_refs env kind refs r w = (Inr r', w')"
  obtains fs where "r' = r\<lparr>res_References := fs\<rparr>" "t_resources (w_tables w') = t_resources (w_tables w)"
  using keepsD [OF fixed.save_refs_keeps assms] assms
  by (auto simp: same_resources_def save_refs_def returnE_run elim!: bindE_InrE call_InrE)

lemma save_patched_InrE:
  assumes "save_patched env cx kind ch r w = (Inr (outcome, r'), w')"
  obtains r1 now t1 where "r1 = (IncrementGeneration r)\<lparr>res_UpdatedBy := actorFromContext cx, res_UpdatedTime := now\<rparr>"
    "same_but_conditions r1 r'" "save_resource r1 (w_tables w) = Inr t1" "t_resources (w_tables w') = t_resources t1"
proof -
  from assms obtain r1 w1 where s: "Save env ((IncrementGeneration r)\<lparr>res_UpdatedBy := actorFromContext cx\<rparr>) w = (Inr r1, w1)"
    and k: "bindE (if ch then call (ReplaceLabels (res_ID r1) (res_Labels r1)) (svc_err (handleUpdateError kind)) returnE
            else returnE ()) (\<lambda>_.
     bindE (must env kind) (\<lambda>desc.
     if needs_conditions env desc kind then
       call (FindByResource kind (res_ID r1))
         (svc_err (general_err ''failed to get adapter statuses for condition recompute''))
         (\<lambda>statuses. recomputeAndSaveResourceConditions env cx r1 statuses)
     else returnE (None, r1))) w1 = (Inr (outcome, r'), w')" (is "?k w1 = _")
    by (auto simp: save_patched_def elim: call_InrE)
  have "keeps same_resources ?k" by (intro fixed.part_rules)
  then have "t_resources (w_tables w') = t_resources (w_tables w1)"
    using k by (auto dest: keepsD simp: same_resources_def)
  moreover have "same_but_conditions r1 r'"
    using k by (auto simp: returnE_run elim!: bindE_InrE call_InrE split: if_splits dest!: recompute_result)
  ultimately show ?thesis using s that by (auto elim!: Save_InrE)
qed

lemma strip_row: "schema_ok t \<Longrightarrow> x \<in> set (t_resources t) \<Longrightarrow> strip x = x"
  by (auto simp: schema_ok_def)

lemma commit_one_InrE:
  assumes "commit_one body w = (Inr x, w')"
  obtains outcome w1 w2 where "w_tables w1 = w_tables w" "body w1 = (Inr (outcome, x), w2)" "w_tables w' = w_tables w2"
    "w_caches w1 = w_caches w" "w_metrics w1 = w_metrics w"
    "w_metrics w' = w_metrics w2 @ (case outcome of None \<Rightarrow> [] | Some o1 \<Rightarrow> [(ro_kind o1, ro_isDelete o1)])"
proof -
  from assms obtain outcome v where d: "Do body w = (Inr (outcome, x), v)"
      and v: "w_tables w' = w_tables v" "w_metrics w' = w_metrics v @ (case outcome of None \<Rightarrow> [] | Some o1 \<Rightarrow> [(ro_kind o1, ro_isDelete o1)])"
    by (auto simp: commit_one_def record_started_run bindE_run returnE_run elim!: call_InrE split: option.splits)
  from d obtain w1 w2 where "w_tables w1 = w_tables w" "body w1 = (Inr (outcome, x), w2)" "w_tables v = w_tables w2"
      "w_caches w1 = w_caches w" "w_metrics w1 = w_metrics w" "w_metrics v = w_metrics w2"
    by (rule Do_Inr)
  then show ?thesis using v that [of w1 outcome w2] by simp
qed

lemma call_else_InrE:
  assumes "call_else m h k w = (Inr y, w')" "\<And>e v. h e v \<noteq> (Inr y, w')"
  obtains x v where "m w = (Inr x, v)" "k x v = (Inr y, w')"
  using assms by (auto simp: call_else_def split: prod.splits sum.splits)

lemma handleOwnedGetError_fails: "handleOwnedGetError env cx kind i ownerID e w \<noteq> (Inr y, w')"
  by (auto simp: handleOwnedGetError_def elim!: bindE_InrE call_InrE split: if_splits)

lemma load_for_write_InrE:
  assumes "load_for_write env cx kind i ownerID h k w = (Inr y, w')"
  obtains x v where "x \<in> set (t_resources (w_tables w))" "in_scope cx x" "res_Kind x = kind" "res_ID x = i"
    "ownerID = [] \<or> res_OwnerID x = Some ownerID" "w_tables v = w_tables w"
    "k (withAssociations (w_tables w) x) v = (Inr y, w')"
proof -
  from assms obtain r v where g: "getForUpdate env cx kind i ownerID w = (Inr r, v)" and k: "k r v = (Inr y, w')"
    unfolding load_for_write_def
  proof (rule call_else_InrE)
    fix e v
    show "on_db_error (\<lambda>e. if ownerID \<noteq> [] then handleOwnedGetError env cx kind i ownerID e
        else raiseE (Svc (h e))) e v \<noteq> (Inr y, w')"
      by (cases e) (auto simp: handleOwnedGetError_fails)
  qed
  from g show ?thesis by (rule getForUpdate_InrE) (use k in \<open>auto intro: that\<close>)
qed

lemma save_patch_refs_InrE:
  assumes "save_patch_refs env cx kind p r w = (Inr r', w')"
  shows "strip r' = strip r \<and> res_ID r' = res_ID r \<and> t_resources (w_tables w') = t_resources (w_tables w)"
proof -
  have "t_resources (w_tables w') = t_resources (w_tables w)"
    using keepsD [OF fixed.save_patch_refs_keeps assms] by (simp add: same_resources_def)
  with assms show ?thesis
    by (auto simp: save_patch_refs_def returnE_run elim!: bindE_InrE save_refs_InrE split: option.splits)
qed

lemma patch_rows:
  assumes "schema_ok (w_tables w)" and "patch env cx kind i ownerID p w = (Inr r, w')"
  shows "\<exists>old\<in>set (t_resources (w_tables w)). \<exists>new.
     in_scope cx old \<and> res_Kind old = kind \<and> res_ID old = i \<and> res_DeletedTime old = None \<and>
     (ownerID = [] \<or> res_OwnerID old = Some ownerID) \<and>
     applyResourcePatch p (withAssociations (w_tables w) old) = Inr new \<and>
     (if jsonBytesEqual (res_Spec old) (res_Spec new) \<and> rp_References p = None \<and>
         labelsEqual (res_Labels (withAssociations (w_tables w) old)) (res_Labels new)
      then w_tables w' = w_tables w \<and> strip r = old\<lparr>res_Spec := res_Spec new\<rparr>
      else strip r = old\<lparr>res_Spec := res_Spec new, res_Generation := res_Generation old + 1,
                         res_UpdatedBy := actorFromContext cx, res_UpdatedTime := res_UpdatedTime r\<rparr> \<and>
           t_resources (w_tables w') =
             map (\<lambda>x. if res_ID x = i then strip r else x) (t_resources (w_tables w)))"
proof -
  from assms(2) obtain outcome w1 w2 where w: "w_tables w1 = w_tables w" "w_tables w' = w_tables w2"
      and tx: "patch_tx env cx kind i ownerID p w1 = (Inr (outcome, r), w2)"
    by (auto simp: patch_def check_def elim!: guardE_InrE commit_one_InrE)
  from tx obtain old w3 where old: "old \<in> set (t_resources (w_tables w))" "in_scope cx old" "res_Kind old = kind"
      "res_ID old = i" "ownerID = [] \<or> res_OwnerID old = Some ownerID" and w3: "w_tables w3 = w_tables w"
      and k: "patch_loaded env cx kind i p (withAssociations (w_tables w) old) w3 = (Inr (outcome, r), w2)"
    unfolding patch_tx_def by (rule load_for_write_InrE) (auto simp: w)
  let ?old = "withAssociations (w_tables w) old"
  have row: "strip old = old" using assms(1) old(1) by (rule strip_row)
  from k obtain new where new: "applyResourcePatch p ?old = Inr new" and alive: "res_DeletedTime old = None"
    by (auto simp: patch_loaded_def split: sum.splits if_splits)
  have new_row: "strip new = old\<lparr>res_Spec := res_Spec new\<rparr>" "res_ID new = i"
    using applyResourcePatch_strip [OF new] row old(4) by simp_all
  let ?same = "jsonBytesEqual (res_Spec old) (res_Spec new) \<and> rp_References p = None \<and>
         labelsEqual (res_Labels ?old) (res_Labels new)"
  have "if ?same then w_tables w' = w_tables w \<and> strip r = old\<lparr>res_Spec := res_Spec new\<rparr>
      else strip r = old\<lparr>res_Spec := res_Spec new, res_Generation := res_Generation old + 1,
                         res_UpdatedBy := actorFromContext cx, res_UpdatedTime := res_UpdatedTime r\<rparr> \<and>
           t_resources (w_tables w') = map (\<lambda>x. if res_ID x = i then strip r else x) (t_resources (w_tables w))"
  proof (cases ?same)
    case True
    with k new alive have "r = new" "w2 = w3" by (simp_all add: patch_loaded_def save_patch_refs_def bindE_run returnE_run)
    with True new_row w w3 show ?thesis by simp
  next
    case False
    with k new alive obtain new' w4 where n: "save_patch_refs env cx kind p new w3 = (Inr new', w4)"
      and s: "save_patched env cx kind (\<not> labelsEqual (res_Labels ?old) (res_Labels new)) new' w4 = (Inr (outcome, r), w2)"
      by (auto simp: patch_loaded_def Let_def elim!: bindE_InrE split: if_splits)
    from n have n': "strip new' = strip new" "res_ID new' = i" and w4: "t_resources (w_tables w4) = t_resources (w_tables w)"
      using save_patch_refs_InrE [OF n] w3 new_row by auto
    from s obtain r1 now t1 where r1: "r1 = (IncrementGeneration new')\<lparr>res_UpdatedBy := actorFromContext cx, res_UpdatedTime := now\<rparr>"
      and same: "same_but_conditions r1 r" and sv: "save_resource r1 (w_tables w4) = Inr t1"
      and t1: "t_resources (w_tables w2) = t_resources t1"
      by (rule save_patched_InrE)
    have r: "strip r = (IncrementGeneration (strip new))\<lparr>res_UpdatedBy := actorFromContext cx, res_UpdatedTime := now\<rparr>"
      using same by (simp add: same_but_conditions_def r1 n')
    then have "res_UpdatedTime (strip r) = now" by simp
    then have now: "now = res_UpdatedTime r" by (simp add: strip_def)
    have "res_ID r1 = i" using n' by (simp add: r1 IncrementGeneration_def)
    moreover have "i \<in> resource_ids (w_tables w4)" using old(1,4) w4 by (auto simp: resource_ids_def)
    ultimately have "t_resources t1 = map (\<lambda>x. if res_ID x = i then strip r1 else x) (t_resources (w_tables w))"
      using sv w4 by (auto simp: save_resource_def split: if_splits)
    moreover have "strip r = old\<lparr>res_Spec := res_Spec new, res_Generation := res_Generation old + 1,
                         res_UpdatedBy := actorFromContext cx, res_UpdatedTime := res_UpdatedTime r\<rparr>"
      using r now new_row by (simp add: IncrementGeneration_def)
    ultimately have "strip r = old\<lparr>res_Spec := res_Spec new, res_Generation := res_Generation old + 1,
                         res_UpdatedBy := actorFromContext cx, res_UpdatedTime := res_UpdatedTime r\<rparr> \<and>
           t_resources (w_tables w') = map (\<lambda>x. if res_ID x = i then strip r else x) (t_resources (w_tables w))"
      using w t1 same by (simp add: same_but_conditions_def)
    then show ?thesis unfolding if_not_P [OF False] .
  qed
  with old alive new show ?thesis by blast
qed

text \<open>C20. What a successful patch does: the patched resource is visible to the caller, of the named kind
  (and owner, when one is given) and not marked for deletion.  If the patch changes neither spec nor
  labels and carries no references, no table changes.  Otherwise exactly one row of \<open>resources\<close>
  changes: its generation goes up by one, the spec is the patched one, the actor is recorded, and
  everything else -- identity, owner, tenancy, creation -- stays.\<close>

theorem patch_effect:
  assumes "schema_ok (w_tables w)" and "patch env cx kind i ownerID p w = (Inr r, w')"
  shows "\<exists>old\<in>set (t_resources (w_tables w)). \<exists>new.
     in_scope cx old \<and> res_Kind old = kind \<and> res_ID old = i \<and> res_DeletedTime old = None \<and>
     (ownerID = [] \<or> res_OwnerID old = Some ownerID) \<and>
     applyResourcePatch p (withAssociations (w_tables w) old) = Inr new \<and>
     (if jsonBytesEqual (res_Spec old) (res_Spec new) \<and> rp_References p = None \<and>
         labelsEqual (res_Labels (withAssociations (w_tables w) old)) (res_Labels new)
      then w_tables w' = w_tables w \<and> strip r = old\<lparr>res_Spec := res_Spec new\<rparr>
      else strip r = old\<lparr>res_Spec := res_Spec new, res_Generation := res_Generation old + 1,
                         res_UpdatedBy := actorFromContext cx, res_UpdatedTime := res_UpdatedTime r\<rparr> \<and>
           t_resources (w_tables w') =
             map (\<lambda>x. if res_ID x = i then strip r else x) (t_resources (w_tables w)))"
  using assms by (rule patch_rows)

section \<open>Requests on the small database\<close>

definition sample_caller :: req_context where
  "sample_caller = \<lparr>cx_Username = Some ''ann'', cx_Token = None, cx_Issuer = None,
     cx_Tenant = Some \<lparr>rt_Dimensions = [(''org'', ''acme'')], rt_System = False\<rparr>\<rparr>"

definition sample_patch :: resource_patch where
  "sample_patch = \<lparr>rp_Spec = Some (JObj [(''region'', JStr ''us'')]), rp_Labels = None, rp_References = None\<rparr>"

lemma calm_tables [simp]: "w_tables (calm t) = t"
  by (simp add: calm_def)

lemma operations_atomic_witness:
  "\<exists>f w'. serve sample_env sample_caller (ReqPatch ''Cluster'' ''c2'' [] sample_patch) (calm sample_tables) = (Inl f, w') \<and>
     w_tables w' = sample_tables"
proof -
  let ?run = "serve sample_env sample_caller (ReqPatch ''Cluster'' ''c2'' [] sample_patch) (calm sample_tables)"
  have "isl (fst ?run)" by code_simp
  then obtain f w' where run: "?run = (Inl f, w')" by (cases ?run; cases "fst ?run") auto
  from operations_atomic [OF this] run show ?thesis by auto
qed


lemma system_identity_writes_nothing_witness:
  "fst (serve sample_env (sample_caller\<lparr>cx_Tenant := Some \<lparr>rt_Dimensions = [], rt_System = True\<rparr>\<rparr>)
     (ReqDelete ''Cluster'' ''c1'' []) (calm sample_tables)) =
     Inl (Svc (Forbidden ''system identities may only write status and conditions'' []))"
  using system_identity_writes_nothing [of "sample_caller\<lparr>cx_Tenant := Some \<lparr>rt_Dimensions = [], rt_System = True\<rparr>\<rparr>"
      "\<lparr>rt_Dimensions = [], rt_System = True\<rparr>" "ReqDelete ''Cluster'' ''c1'' []" sample_env "calm sample_tables"]
  by simp

lemma patch_effect_witness:
  "\<exists>r w'. patch sample_env sample_caller ''Cluster'' ''c1'' [] sample_patch (calm sample_tables) = (Inr r, w') \<and>
     res_Generation r = 2 \<and>
     (\<exists>old\<in>set (t_resources sample_tables). in_scope sample_caller old \<and> res_ID old = ''c1'' \<and> res_DeletedTime old = None)"
proof -
  let ?run = "patch sample_env sample_caller ''Cluster'' ''c1'' [] sample_patch (calm sample_tables)"
  have "map_sum (\<lambda>_. ()) res_Generation (fst ?run) = Inr 2" by code_simp
  then obtain r w' where run: "?run = (Inr r, w')" and r: "res_Generation r = 2" by (cases ?run; cases "fst ?run") auto
  have "\<exists>old\<in>set (t_resources sample_tables). in_scope sample_caller old \<and> res_ID old = ''c1'' \<and> res_DeletedTime old = None"
    using patch_effect [OF _ run] sample_schema_ok unfolding calm_tables by blast
  with run r show ?thesis by blast
qed

end
