(* ===== verification/Safety.thy ===== *)
theory Safety
  imports Lifecycle
begin

text \<open>
  Safety of the resource rows over all requests: a resource marked for deletion is never live again,
  and no request changes a row outside the tenancy scope of its caller.
\<close>

section \<open>Live rows come from live rows\<close>

definition live_id :: "world \<Rightarrow> string \<Rightarrow> bool" where
  "live_id w i \<longleftrightarrow> (\<exists>x\<in>set (t_resources (w_tables w)). res_ID x = i \<and> res_DeletedTime x = None)"

definition live_from :: "world \<Rightarrow> world \<Rightarrow> bool" where
  "live_from w w' \<longleftrightarrow> (\<forall>i. live_id w' i \<longrightarrow> live_id w i)"

interpretation live: row_relation live_from
  by unfold_locales (auto simp: live_from_def live_id_def same_tables_def row_write_resources)

lemma delete_resources_rows:
  "delete_resources P t = Inr t' \<Longrightarrow> t_resources t' = filter (\<lambda>r. \<not> P r) (t_resources t)"
  by (auto simp: delete_resources_def Let_def split: if_splits)

lemma save_resource_rows:
  "save_resource r t = Inr t' \<Longrightarrow> x \<in> set (t_resources t') \<Longrightarrow> x \<in> set (t_resources t) \<and> res_ID x \<noteq> res_ID r \<or> x = strip r"
  unfolding save_resource_def insert_resource_def resource_ids_def by (auto split: if_splits) (metis image_eqI)

lemma live_delete: "keeps live_from (ResourceDao_Delete cx kind i)"
  unfolding ResourceDao_Delete_def
  by (rule keepsI, erule live.execute_step [rotated])
     (auto simp: live_from_def live_id_def dest!: delete_resources_rows)

lemma live_delete_ids: "keeps live_from (DeleteIDs cx ids)"
  unfolding DeleteIDs_def
  by (intro live.keeps_rules, rule keepsI, erule live.execute_step [rotated])
     (auto simp: live_from_def live_id_def dest!: delete_resources_rows)

context row_relation
begin

lemma Save_step:
  assumes step: "\<And>v now t'. w_tables v = w_tables w \<Longrightarrow>
      save_resource (r\<lparr>res_UpdatedTime := now\<rparr>) (w_tables w) = Inr t' \<Longrightarrow> R v (v\<lparr>w_tables := t'\<rparr>)"
    and run: "Save env r w = (res, w')"
  shows "R w w'"
proof -
  let ?r = "r\<lparr>res_UpdatedTime := env_now env (w_clock w)\<rparr>" and ?v = "w\<lparr>w_clock := w_clock w + 1\<rparr>"
  obtain e where e: "execute (save_resource ?r) ?v = (e, w')"
    using run by (auto simp: Save_def Resource_BeforeUpdate_def time_Now_def bindE_run returnE_run
        split: prod.splits sum.splits)
  have "R ?v w'"
    using e by (rule execute_step [rotated]) (rule step, auto)
  moreover have "R w ?v" by (rule R_quiet) (simp add: same_tables_def)
  ultimately show ?thesis by (rule R_trans [rotated])
qed

end

lemma live_save: "res_DeletedTime r \<noteq> None \<Longrightarrow> keeps live_from (Save env r)"
  by (rule keepsI, erule live.Save_step [rotated])
     (auto simp: live_from_def live_id_def strip_def dest!: save_resource_rows)

lemma mark_deleted [simp]: "res_DeletedTime (mark_for_deletion who t0 r) \<noteq> None"
  by (auto simp: mark_for_deletion_def MarkDeleted_def IncrementGeneration_def)

lemma live_tree: "res_DeletedTime r \<noteq> None \<Longrightarrow> keeps live_from (deleteResourceTree fuel env cx who t0 r)"
proof (induction fuel arbitrary: r)
  case 0
  show ?case by (simp add: live.keeps_raiseE)
next
  case (Suc fuel)
  show ?case
    unfolding deleteResourceTree.simps soft_delete_def Let_def
    by (intro live.part_rules live_delete live_save Suc.prems Suc.IH mark_deleted)
qed

lemma live_delete_tx: "keeps live_from (delete_tx env cx kind i ownerID)"
  unfolding delete_tx_def Let_def by (intro live.part_rules live_tree mark_deleted)

lemma rollback_live: "live_from w w' \<Longrightarrow> live_from w (w'\<lparr>w_tables := w_tables w\<rparr>)"
  by (simp add: live_from_def live_id_def)

text \<open>A request that is served leaves the tables its transaction body left.\<close>

definition completes :: "environment \<Rightarrow> req_context \<Rightarrow> request \<Rightarrow> world \<Rightarrow> world \<Rightarrow> bool" where
  "completes env cx q w w' \<longleftrightarrow>
     (case q of
        ReqCreate kind r refs \<Rightarrow> \<exists>x. create_tx env cx kind (r\<lparr>res_Kind := kind\<rparr>) refs w = (Inr x, w')
      | ReqPatch kind i ownerID p \<Rightarrow> \<exists>x. patch_tx env cx kind i ownerID p w = (Inr x, w')
      | ReqDelete kind i ownerID \<Rightarrow> \<exists>x. delete_tx env cx kind i ownerID w = (Inr x, w')
      | ReqProcess kind i s \<Rightarrow>
          \<exists>x. process_tx env cx kind i (s\<lparr>as_LastReportTime := truncate_us (as_LastReportTime s)\<rparr>) w = (Inr x, w')
      | ReqForceDelete kind i ownerID \<Rightarrow> \<exists>x. forceDeleteTx env cx kind i ownerID w = (Inr x, w'))"

lemma serve_InrE:
  assumes "serve env cx q w = (Inr u, w')"
  obtains w1 w2 where "w_tables w1 = w_tables w" "completes env cx q w1 w2" "w_tables w' = w_tables w2"
proof (cases q)
  case (ReqCreate kind r refs)
  with assms show ?thesis
    by (auto simp: serve_def Service_Create_def completes_def returnE_run elim!: bindE_InrE check_InrE commit_one_InrE intro!: that)
next
  case (ReqPatch kind i ownerID p)
  with assms show ?thesis
    by (auto simp: serve_def patch_def completes_def returnE_run elim!: bindE_InrE check_InrE commit_one_InrE intro!: that)
next
  case (ReqDelete kind i ownerID)
  with assms have "\<exists>x. deleteResource env cx kind i ownerID w = (Inr x, w')"
    by (auto simp: serve_def returnE_run elim: bindE_InrE)
  then obtain x v where d: "Do (delete_tx env cx kind i ownerID) w = (Inr x, v)" and "w_tables w' = w_tables v"
    unfolding deleteResource_def
    by (auto simp: record_started_run bindE_run returnE_run elim!: check_InrE call_InrE)
  with ReqDelete that show ?thesis by (auto simp: completes_def elim!: Do_Inr)
next
  case (ReqProcess kind i s)
  with assms show ?thesis
    by (auto simp: serve_def ProcessAdapterStatus_def completes_def returnE_run elim!: bindE_InrE check_InrE commit_one_InrE intro!: that)
next
  case (ReqForceDelete kind i ownerID)
  with assms show ?thesis
    by (auto simp: serve_def forceDelete_def completes_def returnE_run elim!: check_InrE call_InrE Do_Inr intro!: that)
qed

lemma serve_completes:
  assumes "serve env cx q w = (res, w')"
  obtains "w_tables w' = w_tables w"
  | w1 w2 where "w_tables w1 = w_tables w" "completes env cx q w1 w2" "w_tables w' = w_tables w2"
  using assms that(1) serve_atomic [of env cx q w _ w'] that(2) by (cases res) (auto elim: serve_InrE)

section \<open>What a create does\<close>

lemma lock_parent_InrE:
  assumes "lock_parent env cx kind r w = (Inr u, w')"
  obtains "w_tables w' = w_tables w"
    "res_OwnerID r = None \<or> res_OwnerID r = Some [] \<or>
     (\<exists>desc. \<exists>parent\<in>set (t_resources (w_tables w)). Get (env_registry env) kind = Some desc \<and>
        in_scope cx parent \<and> res_Kind parent = desc_ParentKind desc \<and> res_OwnerID r = Some (res_ID parent) \<and>
        res_DeletedTime parent = None)"
proof -
  have "keeps same_tables (lock_parent env cx kind r)"
    unfolding lock_parent_def
    by (intro keeps_case_option reading.keeps_rules must_same dao_reads_same)
  then have same: "w_tables w' = w_tables w" using assms by (auto dest: keepsD simp: same_tables_def)
  have "\<exists>desc. \<exists>parent\<in>set (t_resources (w_tables w)). Get (env_registry env) kind = Some desc \<and>
        in_scope cx parent \<and> res_Kind parent = desc_ParentKind desc \<and> res_OwnerID r = Some (res_ID parent) \<and>
        res_DeletedTime parent = None" if "res_OwnerID r = Some o1" "o1 \<noteq> []" for o1
  proof -
    from assms that obtain desc w1 parent where m: "must env kind w = (Inr desc, w1)"
        and g: "GetForUpdate cx (desc_ParentKind desc) o1 w1 = (Inr parent, w')" and live: "res_DeletedTime parent = None"
      by (auto simp: lock_parent_def returnE_run elim!: bindE_InrE call_InrE split: if_splits)
    have w1: "w_tables w1 = w_tables w" using keepsD [OF must_same m] by (simp add: same_tables_def)
    have "Get (env_registry env) kind = Some desc"
      using m by (auto simp: must_def MustGet_def returnE_run split: sum.splits option.splits registry_fault.splits)
    with g live w1 that show ?thesis
      unfolding GetForUpdate_def by (auto elim!: take_resource_InrE)
  qed
  with same that show ?thesis by (cases "res_OwnerID r") auto
qed

lemma set_href_InrE:
  assumes "set_href env r w = (Inr r', w')"
  shows "r' = r\<lparr>res_OwnerHref := res_OwnerHref r', res_Href := res_Href r'\<rparr>" and "w_tables w' = w_tables w"
proof -
  show "w_tables w' = w_tables w" using keepsD [OF hooks_same(1) assms] by (simp add: same_tables_def)
  have *: "r\<lparr>res_OwnerHref := res_OwnerHref r, res_Href := h\<rparr> = r\<lparr>res_Href := h\<rparr>" for h
    by (cases r) simp
  from assms show "r' = r\<lparr>res_OwnerHref := res_OwnerHref r', res_Href := res_Href r'\<rparr>"
    unfolding set_href_def
    by (elim bindE_InrE) (auto simp: returnE_run * elim!: bindE_InrE split: if_splits)
qed

definition born_as :: "resource \<Rightarrow> resource \<Rightarrow> bool" where
  "born_as r x \<longleftrightarrow>
     res_Kind x = res_Kind r \<and> res_Name x = res_Name r \<and> res_Spec x = res_Spec r \<and> res_Tenancy x = res_Tenancy r \<and>
     res_Generation x = (if res_Generation r = 0 then 1 else res_Generation r) \<and>
     res_OwnerID x = (if res_OwnerID r = Some [] then None else res_OwnerID r) \<and>
     res_CreatedBy x = res_CreatedBy r \<and> res_DeletedTime x = res_DeletedTime r"

lemma born_as_strip: "born_as r (strip x) = born_as r x"
  by (simp add: born_as_def strip_def)

lemma Resource_BeforeCreate_InrE:
  assumes "Resource_BeforeCreate env r w = (Inr x, w')" and "res_OwnerID r \<noteq> Some []"
  shows "born_as r x" and "w_tables w' = w_tables w"
proof -
  show "w_tables w' = w_tables w" using keepsD [OF hooks_same(2) assms(1)] by (simp add: same_tables_def)
  let ?r1 = "\<lambda>i now. r\<lparr>res_ID := i,
                res_CreatedTime := (if IsZero (res_CreatedTime r) then now else res_CreatedTime r),
                res_UpdatedTime := now,
                res_Generation := (if res_Generation r = 0 then 1 else res_Generation r)\<rparr>"
  obtain i now v where "(if res_Href (?r1 i now) = [] then set_href env (?r1 i now) else returnE (?r1 i now)) v = (Inr x, w')"
    using assms(1) unfolding Resource_BeforeCreate_def Let_def by (elim bindE_InrE)
  then obtain r1 where r1: "r1 = ?r1 i now" and x: "x = r1 \<or> set_href env r1 v = (Inr x, w')"
    by (simp only: returnE_run prod.inject sum.inject split: if_splits) metis+
  from x show "born_as r x"
  proof
    assume "x = r1" then show ?thesis using assms(2) by (simp add: born_as_def r1)
  next
    assume "set_href env r1 v = (Inr x, w')"
    then have e: "x = r1\<lparr>res_OwnerHref := res_OwnerHref x, res_Href := res_Href x\<rparr>" by (rule set_href_InrE)
    have "born_as r (r1\<lparr>res_OwnerHref := res_OwnerHref x, res_Href := res_Href x\<rparr>)"
      using assms(2) by (simp add: born_as_def r1)
    with e show ?thesis by simp
  qed
qed

lemma insert_resource_Inr:
  "insert_resource r t = Inr t' \<Longrightarrow> res_ID r \<notin> resource_ids t \<and> t_resources t' = t_resources t @ [strip r]"
  by (auto simp: insert_resource_def split: if_splits)

lemma ResourceDao_Create_InrE:
  assumes "ResourceDao_Create env r w = (Inr x, w')"
  shows "born_as r x \<and> res_ID x \<notin> resource_ids (w_tables w) \<and>
     t_resources (w_tables w') = t_resources (w_tables w) @ [strip x]"
proof -
  let ?r = "if res_OwnerID r = Some [] then r\<lparr>res_OwnerID := None, res_OwnerKind := None, res_OwnerHref := None\<rparr> else r"
  from assms obtain w1 where b: "Resource_BeforeCreate env ?r w = (Inr x, w1)"
      and e: "execute (insert_resource x) w1 = (Inr (), w')"
    by (auto simp: ResourceDao_Create_def Let_def returnE_run elim!: bindE_InrE split: if_splits)
  have "res_OwnerID ?r \<noteq> Some []" by simp
  note n = Resource_BeforeCreate_InrE [OF b this]
  from e have "insert_resource x (w_tables w) = Inr (w_tables w')" using n(2) by (auto elim: execute_InrE)
  moreover have "born_as r x" using n(1) by (auto simp: born_as_def split: if_splits)
  ultimately show ?thesis using insert_resource_Inr by blast
qed

lemma create_rows:
  assumes "create_tx env cx kind r refs w = (Inr (outcome, x), w')"
  shows "born_as (stamp_new cx r) x \<and> res_ID x \<notin> resource_ids (w_tables w) \<and>
     t_resources (w_tables w') = t_resources (w_tables w) @ [strip x]"
proof -
  let ?done = "\<lambda>desc c. if needs_conditions env desc kind then recomputeAndSaveResourceConditions env cx c [] else returnE (None, c)"
  from assms obtain w1 w2 w3 w4 w5 w6 c0 c1 desc where l: "lock_parent env cx kind r w = (Inr (), w1)"
      and v: "validateReferences env cx kind refs w1 = (Inr (), w2)"
      and c: "ResourceDao_Create env (stamp_new cx r) w2 = (Inr c0, w3)"
      and s: "save_new_labels kind c0 w3 = (Inr (), w4)"
      and f: "(if refs = [] then returnE c0 else save_refs env kind refs c0) w4 = (Inr c1, w5)"
      and m: "must env kind w5 = (Inr desc, w6)" and d: "?done desc c1 w6 = (Inr (outcome, x), w')"
    unfolding create_tx_def by (auto elim!: bindE_InrE call_InrE)
  have rows: "t_resources (w_tables w2) = t_resources (w_tables w)"
    using keepsD [OF fixed.create_parts_keep(1) l] keepsD [OF fixed.check_refs_keep(3) v] by (simp add: same_resources_def)
  have kd: "keeps same_resources (?done desc c1)" by (intro fixed.part_rules)
  have kf: "keeps same_resources (if refs = [] then returnE c0 else save_refs env kind refs c0)"
    by (intro fixed.part_rules)
  have rest: "t_resources (w_tables w') = t_resources (w_tables w3)"
    using keepsD [OF fixed.create_parts_keep(2) s] keepsD [OF kf f]
      keepsD [OF must_same m] keepsD [OF kd d] by (simp add: same_resources_def same_tables_def)
  have "strip c1 = strip c0" using f by (auto simp: returnE_run split: if_splits elim!: save_refs_InrE)
  moreover have "strip x = strip c1"
    using d by (auto simp: returnE_run elim!: bindE_InrE split: if_splits dest!: recompute_result simp: same_but_conditions_def)
  ultimately have x: "strip x = strip c0" by simp
  then have "born_as r0 x = born_as r0 c0" "res_ID x = res_ID c0" for r0
    using born_as_strip [of r0 x] born_as_strip [of r0 c0] strip_fields(1) [of x] strip_fields(1) [of c0] by simp_all
  then show ?thesis
    using ResourceDao_Create_InrE [OF c] rows rest x by (simp add: resource_ids_def)
qed


text \<open>What a successful create did, inside its transaction.\<close>

lemma Service_Create_InrE:
  assumes "Service_Create env cx kind r refs w = (Inr x, w')"
  shows "res_Name r \<noteq> []" and "Get (env_registry env) kind \<noteq> None"
    and "res_OwnerID r = None \<or> res_OwnerID r = Some [] \<or>
      (\<exists>desc. \<exists>parent\<in>set (t_resources (w_tables w)). Get (env_registry env) kind = Some desc \<and>
        in_scope cx parent \<and> res_Kind parent = desc_ParentKind desc \<and> res_OwnerID r = Some (res_ID parent) \<and>
        res_DeletedTime parent = None)"
    and "born_as (stamp_new cx (r\<lparr>res_Kind := kind\<rparr>)) x" and "res_ID x \<notin> resource_ids (w_tables w)"
    and "t_resources (w_tables w') = t_resources (w_tables w) @ [strip x]"
proof -
  from assms obtain outcome w1 w2 where w: "w_tables w1 = w_tables w" "w_tables w' = w_tables w2"
      and tx: "create_tx env cx kind (r\<lparr>res_Kind := kind\<rparr>) refs w1 = (Inr (outcome, x), w2)"
      and ok: "validateKind env kind = None" "validateName kind (res_Name r) = None"
    by (auto simp: Service_Create_def elim!: check_InrE commit_one_InrE)
  from tx obtain u v where l: "lock_parent env cx kind (r\<lparr>res_Kind := kind\<rparr>) w1 = (Inr u, v)"
    by (auto simp: create_tx_def elim!: bindE_InrE)
  show "res_Name r \<noteq> []" "Get (env_registry env) kind \<noteq> None"
    using ok by (auto simp: validateName_def validateKind_def split: if_splits)
  show "born_as (stamp_new cx (r\<lparr>res_Kind := kind\<rparr>)) x" "res_ID x \<notin> resource_ids (w_tables w)"
      "t_resources (w_tables w') = t_resources (w_tables w) @ [strip x]"
    using create_rows [OF tx] w by simp_all
  show "res_OwnerID r = None \<or> res_OwnerID r = Some [] \<or>
      (\<exists>desc. \<exists>parent\<in>set (t_resources (w_tables w)). Get (env_registry env) kind = Some desc \<and>
        in_scope cx parent \<and> res_Kind parent = desc_ParentKind desc \<and> res_OwnerID r = Some (res_ID parent) \<and>
        res_DeletedTime parent = None)"
    using lock_parent_InrE [OF l] w by simp
qed

text \<open>C21. What a successful create does: the name is not empty and the kind registered; an owner, when one
  is given, is a live resource of the parent kind that the caller sees; exactly one row is added, under
  an identifier no row had, of the given kind, name and spec, at generation 1 unless another is given,
  with the tenancy of the caller -- whatever tenancy the request carried; no other row changes.\<close>

theorem create_effect:
  assumes "Service_Create env cx kind r refs w = (Inr x, w')"
  shows "res_Name r \<noteq> [] \<and> Get (env_registry env) kind \<noteq> None \<and>
     (res_OwnerID r = None \<or> res_OwnerID r = Some [] \<or>
      (\<exists>desc. \<exists>parent\<in>set (t_resources (w_tables w)). Get (env_registry env) kind = Some desc \<and>
        in_scope cx parent \<and> res_Kind parent = desc_ParentKind desc \<and> res_OwnerID r = Some (res_ID parent) \<and>
        res_DeletedTime parent = None)) \<and>
     born_as (stamp_new cx (r\<lparr>res_Kind := kind\<rparr>)) x \<and> res_Tenancy x = TenancyJSON cx \<and>
     res_ID x \<notin> resource_ids (w_tables w) \<and>
     t_resources (w_tables w') = t_resources (w_tables w) @ [strip x]"
proof -
  note created = Service_Create_InrE [OF assms]
  from created(4) have "res_Tenancy x = TenancyJSON cx" by (simp add: born_as_def stamp_new_def)
  with created show ?thesis by simp
qed

section \<open>Marked resources stay marked\<close>

lemma patch_touches:
  assumes "schema_ok (w_tables w)" "patch env cx kind i ownerID p w = (Inr r, w')"
  obtains old where "old \<in> set (t_resources (w_tables w))" "in_scope cx old" "res_ID old = i" "res_DeletedTime old = None"
    "w_tables w' = w_tables w \<or>
       t_resources (w_tables w') = map (\<lambda>x. if res_ID x = i then strip r else x) (t_resources (w_tables w))"
    "res_ID (strip r) = i" "res_Tenancy (strip r) = res_Tenancy old"
proof -
  from patch_rows [OF assms] obtain old and new :: resource where old: "old \<in> set (t_resources (w_tables w))" "in_scope cx old"
      "res_ID old = i" "res_DeletedTime old = None"
    and *: "if jsonBytesEqual (res_Spec old) (res_Spec new) \<and> rp_References p = None \<and>
         labelsEqual (res_Labels (withAssociations (w_tables w) old)) (res_Labels new)
      then w_tables w' = w_tables w \<and> strip r = old\<lparr>res_Spec := res_Spec new\<rparr>
      else strip r = old\<lparr>res_Spec := res_Spec new, res_Generation := res_Generation old + 1,
                         res_UpdatedBy := actorFromContext cx, res_UpdatedTime := res_UpdatedTime r\<rparr> \<and>
           t_resources (w_tables w') =
             map (\<lambda>x. if res_ID x = i then strip r else x) (t_resources (w_tables w))"
    by (elim bexE exE conjE) (rule that)
  from * have "w_tables w' = w_tables w \<or>
       t_resources (w_tables w') = map (\<lambda>x. if res_ID x = i then strip r else x) (t_resources (w_tables w))"
    by (simp only: split: if_splits) blast+
  moreover from * old(3) have "res_ID (strip r) = i" "res_Tenancy (strip r) = res_Tenancy old"
    by (simp_all del: strip_fields split: if_splits)
  ultimately show ?thesis using old that by blast
qed

lemma live_fresh:
  assumes "schema_ok (w_tables w)" and "serve env cx q w = (res, w')" and "live_id w' i"
  shows "live_id w i \<or> ((\<exists>kind r refs. q = ReqCreate kind r refs) \<and> i \<notin> resource_ids (w_tables w))"
proof (cases "\<exists>kind i ownerID p. q = ReqPatch kind i ownerID p")
  case True
  then obtain kind j ownerID p where q: "q = ReqPatch kind j ownerID p" by blast
  show ?thesis
  proof (cases res)
    case (Inl f)
    with assms(2,3) serve_atomic show ?thesis by (auto simp: live_id_def)
  next
    case (Inr u)
    with assms(2) q obtain r where "patch env cx kind j ownerID p w = (Inr r, w')"
      by (auto simp: serve_def returnE_run elim: bindE_InrE)
    then have "live_id w i"
    proof (rule patch_touches [OF assms(1)])
      fix old assume "old \<in> set (t_resources (w_tables w))" "res_ID old = j" "res_DeletedTime old = None"
        "w_tables w' = w_tables w \<or>
           t_resources (w_tables w') = map (\<lambda>x. if res_ID x = j then strip r else x) (t_resources (w_tables w))"
        "res_ID (strip r) = j"
      with assms(3) show ?thesis unfolding live_id_def by (auto split: if_splits) metis+
    qed
    then show ?thesis ..
  qed
next
  case False
  from assms(2) show ?thesis
  proof (cases rule: serve_completes)
    case 1
    with assms(3) show ?thesis by (simp add: live_id_def)
  next
    case (2 w1 w2)
    show ?thesis
    proof (cases "\<exists>kind r refs. q = ReqCreate kind r refs")
      case True
      with 2 obtain b where "t_resources (w_tables w') = t_resources (w_tables w) @ [strip b]"
          "res_ID b \<notin> resource_ids (w_tables w)"
        by (auto simp: completes_def dest!: create_rows)
      with assms(3) True show ?thesis by (simp add: live_id_def) (metis strip_fields(1))
    next
      case no_create: False
      with 2(2) False have "live_from w1 w2"
        by (auto simp: completes_def dest: keepsD [OF live_delete_tx] keepsD [OF live.process_tx_keeps_from [OF live_delete]]
            keepsD [OF live.forceDeleteTx_keeps_from [OF live_delete_ids]] split: request.splits)
      with 2 assms(3) show ?thesis by (simp add: live_from_def live_id_def)
    qed
  qed
qed

text \<open>C22. Deletion is final: a row that is not marked for deletion after a request was there, not marked,
  before it, or was created by the request under an identifier no row had.  No patch, report or
  delete revives a resource marked for deletion.\<close>

theorem no_resurrection:
  assumes "schema_ok (w_tables w)" and "serve env cx q w = (res, w')"
    and "x \<in> set (t_resources (w_tables w'))" and "res_DeletedTime x = None"
  shows "(\<exists>y\<in>set (t_resources (w_tables w)). res_ID y = res_ID x \<and> res_DeletedTime y = None) \<or>
     ((\<exists>kind r refs. q = ReqCreate kind r refs) \<and> res_ID x \<notin> resource_ids (w_tables w))"
proof -
  have "live_id w' (res_ID x)" using assms(3,4) by (auto simp: live_id_def)
  from live_fresh [OF assms(1,2) this] show ?thesis by (simp add: live_id_def)
qed

section \<open>Rows of other tenants\<close>

text \<open>Some operations keep a relation only from worlds with a property \<open>P\<close>.\<close>

definition keeps_on :: "('s \<Rightarrow> bool) \<Rightarrow> ('s \<Rightarrow> 's \<Rightarrow> bool) \<Rightarrow> ('e, 's, 'a) effect \<Rightarrow> bool" where
  "keeps_on P R m \<longleftrightarrow> (\<forall>w r w'. P w \<longrightarrow> m w = (r, w') \<longrightarrow> R w w')"

lemma keeps_onI: "(\<And>w r w'. P w \<Longrightarrow> m w = (r, w') \<Longrightarrow> R w w') \<Longrightarrow> keeps_on P R m"
  by (simp add: keeps_on_def)

lemma keeps_onD: "keeps_on P R m \<Longrightarrow> m w = (r, w') \<Longrightarrow> P w \<Longrightarrow> R w w'"
  by (simp add: keeps_on_def)

lemma keeps_keeps_on: "keeps R m \<Longrightarrow> keeps_on P R m"
  by (simp add: keeps_on_def keeps_def)

context world_relation
begin

lemma keeps_on_call_post:
  assumes m: "keeps_on P R m" and post: "\<And>w x w'. P w \<Longrightarrow> m w = (Inr x, w') \<Longrightarrow> Q x w'"
    and k: "\<And>x. keeps_on (Q x) R (k x)"
  shows "keeps_on P R (call m h k)"
proof (rule keeps_onI)
  fix w r w' assume P: "P w" and run: "call m h k w = (r, w')"
  obtain r1 w1 where m1: "m w = (r1, w1)" by (cases "m w")
  note R1 = keeps_onD [OF m m1 P]
  show "R w w'"
  proof (cases r1)
    case (Inl e)
    with run m1 R1 show ?thesis by (simp add: call_run)
  next
    case (Inr x)
    with run m1 have "k x w1 = (r, w')" by (simp add: call_run)
    then have "R w1 w'" using keeps_onD [OF k] post [OF P] m1 Inr by blast
    with R1 show ?thesis by (rule R_trans)
  qed
qed

lemma keeps_on_bindE_post:
  assumes "keeps_on P R m" and "\<And>w x w'. P w \<Longrightarrow> m w = (Inr x, w') \<Longrightarrow> Q x w'" and "\<And>x. keeps_on (Q x) R (k x)"
  shows "keeps_on P R (bindE m k)"
  unfolding bindE_def by (rule keeps_on_call_post [OF assms])

lemma keeps_on_stable:
  assumes stable: "\<And>w w'. P w \<Longrightarrow> R w w' \<Longrightarrow> P w'"
  shows "keeps_on P R m \<Longrightarrow> (\<And>x. keeps_on P R (k x)) \<Longrightarrow> keeps_on P R (call m h k)"
    and "keeps_on P R m \<Longrightarrow> (\<And>x. keeps_on P R (k x)) \<Longrightarrow> keeps_on P R (bindE m k)"
    and "(\<And>x. x \<in> set xs \<Longrightarrow> keeps_on P R (f x)) \<Longrightarrow> keeps_on P R (forE xs f)"
proof -
  show c: "keeps_on P R (call m h k)" if "keeps_on P R m" "\<And>x. keeps_on P R (k x)" for m :: "('x, 's, 'y) effect" and h k
  proof (rule keeps_on_call_post [OF that(1), where Q = "\<lambda>_. P"])
    show "P w'" if P: "P w" and run: "m w = (Inr x, w')" for w x w'
      using stable [OF P keeps_onD [OF \<open>keeps_on P R m\<close> run P]] .
  qed (rule that(2))
  then show b: "keeps_on P R (bindE m k)" if "keeps_on P R m" "\<And>x. keeps_on P R (k x)" for m :: "('x, 's, 'y) effect" and k
    using that unfolding bindE_def by blast
  show "keeps_on P R (forE xs f)" if "\<And>x. x \<in> set xs \<Longrightarrow> keeps_on P R (f x)"
    using that
  proof (induction xs)
    case (Cons x xs)
    then show ?case unfolding forE.simps by (intro b keeps_keeps_on [OF keeps_returnE]) auto
  qed (simp add: keeps_keeps_on keeps_returnE)
qed

end

definition foreign :: "req_context \<Rightarrow> tables \<Rightarrow> resource list" where
  "foreign cx t = filter (\<lambda>x. \<not> in_scope cx x) (t_resources t)"

definition isolated :: "req_context \<Rightarrow> world \<Rightarrow> world \<Rightarrow> bool" where
  "isolated cx w w' \<longleftrightarrow> keeps_schema w w' \<and> foreign cx (w_tables w') = foreign cx (w_tables w)"

interpretation isolated: row_relation "isolated cx" for cx
  by unfold_locales
     (auto simp: isolated_def foreign_def row_write_resources same_tables_def keeps_schema_def
        intro: row_write_schema)

lemma delete_foreign:
  assumes "delete_resources (\<lambda>r. in_scope cx r \<and> P r) t = Inr t'"
  shows "foreign cx t' = foreign cx t"
  using delete_resources_rows [OF assms] by (auto simp: foreign_def intro: filter_cong)

lemma isolated_delete: "keeps (isolated cx) (ResourceDao_Delete cx kind i)" "keeps (isolated cx) (DeleteIDs cx ids)"
proof -
  have "keeps (isolated cx) (execute (delete_resources (\<lambda>r. in_scope cx r \<and> P r)))" for P
    by (rule keepsI, erule isolated.execute_step [rotated])
       (auto simp: isolated_def keeps_schema_def delete_foreign intro: delete_resources_schema)
  then show "keeps (isolated cx) (ResourceDao_Delete cx kind i)" "keeps (isolated cx) (DeleteIDs cx ids)"
    unfolding ResourceDao_Delete_def DeleteIDs_def by (auto intro: isolated.keeps_rules)
qed

text \<open>A resource that was loaded: the caller sees it, and no row he does not see has its identifier.\<close>

definition loaded :: "req_context \<Rightarrow> resource \<Rightarrow> world \<Rightarrow> bool" where
  "loaded cx r w \<longleftrightarrow> schema_ok (w_tables w) \<and> in_scope cx r \<and> res_ID r \<notin> res_ID ` set (foreign cx (w_tables w))"

lemma loaded_stable: "loaded cx r w \<Longrightarrow> isolated cx w w' \<Longrightarrow> loaded cx r w'"
  by (simp add: loaded_def isolated_def keeps_schema_def)

lemma loaded_row:
  assumes "schema_ok (w_tables w)" "x \<in> set (t_resources (w_tables w))" "in_scope cx x" "res_ID r = res_ID x"
    "res_Tenancy r = res_Tenancy x"
  shows "loaded cx r w"
proof -
  have "y = x" if "y \<in> set (t_resources (w_tables w))" "res_ID y = res_ID x" for y
    using assms(1,2) that by (auto simp: schema_ok_def distinct_map inj_on_def)
  moreover have "in_scope cx r = in_scope cx x" by (simp add: in_scope_def assms(5))
  ultimately show ?thesis using assms(1,3,4) by (auto simp: loaded_def foreign_def)
qed

lemma isolated_save: "keeps_on (loaded cx r) (isolated cx) (Save env r)"
proof (rule keeps_onI)
  fix w res w'
  assume l: "loaded cx r w" and run: "Save env r w = (res, w')"
  show "isolated cx w w'"
  proof (rule isolated.Save_step [OF _ run])
  fix v :: world and now t'
  assume v: "w_tables v = w_tables w" and s: "save_resource (r\<lparr>res_UpdatedTime := now\<rparr>) (w_tables w) = Inr t'"
  let ?r = "strip (r\<lparr>res_UpdatedTime := now\<rparr>)"
  have seen: "in_scope cx ?r" using l by (simp add: loaded_def in_scope_def)
  have "foreign cx t' = foreign cx (w_tables w)"
  proof -
    have *: "filter (\<lambda>x. \<not> in_scope cx x) (map (\<lambda>x. if res_ID x = res_ID r then ?r else x) xs) =
        filter (\<lambda>x. \<not> in_scope cx x) xs"
      if "res_ID r \<notin> res_ID ` set (filter (\<lambda>x. \<not> in_scope cx x) xs)" for xs
      using that seen by (induction xs) (auto split: if_splits)
    show ?thesis
      using s l seen * [of "t_resources (w_tables w)"]
      by (auto simp: save_resource_def insert_resource_def foreign_def loaded_def split: if_splits)
  qed
  moreover have "schema_ok t'" using l s save_resource_schema by (auto simp: loaded_def)
  ultimately show "isolated cx v (v\<lparr>w_tables := t'\<rparr>)" by (simp add: isolated_def keeps_schema_def v)
  qed
qed

lemma loaded_fields [simp]:
  "loaded cx (mark_for_deletion who t0 r) = loaded cx r" "loaded cx (withAssociations t r) = loaded cx r"
  by (simp_all add: loaded_def [abs_def] in_scope_def mark_for_deletion_def MarkDeleted_def IncrementGeneration_def)

lemma children_loaded:
  assumes "schema_ok (w_tables w)" "FindByKindAndOwnerForUpdate cx kind o1 w = (Inr items, w')" "item \<in> set items"
  shows "loaded cx item w'"
proof -
  from assms(2) have items: "items = map (withAssociations (w_tables w)) (sort_key res_ID
       (filter (\<lambda>r. in_scope cx r \<and> res_Kind r = kind \<and> res_OwnerID r = Some o1) (t_resources (w_tables w))))"
    and w': "w_tables w' = w_tables w"
    by (auto simp: FindByKindAndOwnerForUpdate_def elim!: query_InrE)
  from items assms(3) obtain x where "x \<in> set (t_resources (w_tables w))" "in_scope cx x" "item = withAssociations (w_tables w) x"
    by auto
  with assms(1) w' show ?thesis by (auto intro!: loaded_row)
qed

lemma isolated_tree: "keeps_on (loaded cx r) (isolated cx) (deleteResourceTree fuel env cx who t0 r)"
proof (induction fuel arbitrary: r)
  case 0
  show ?case by (simp add: keeps_keeps_on isolated.keeps_raiseE)
next
  case (Suc fuel)
  note stable = isolated.keeps_on_stable [where P = "loaded cx r", OF loaded_stable]
  have child: "keeps_on (loaded cx r) (isolated cx)
      (call (FindByKindAndOwnerForUpdate cx kind (res_ID r)) h
         (\<lambda>items. forE items (\<lambda>item. deleteResourceTree fuel env cx who t0 (mark_for_deletion who t0 item))))"
    for kind h
  proof (rule isolated.keeps_on_call_post [where Q = "\<lambda>items w. \<forall>item\<in>set items. loaded cx item w"])
    show "keeps_on (loaded cx r) (isolated cx) (FindByKindAndOwnerForUpdate cx kind (res_ID r))"
      by (intro keeps_keeps_on isolated.dao_rows_keep)
    show "\<forall>item\<in>set items. loaded cx item w'"
      if "loaded cx r w" "FindByKindAndOwnerForUpdate cx kind (res_ID r) w = (Inr items, w')" for w items w'
    proof -
      have "schema_ok (w_tables w)" using that(1) by (simp add: loaded_def)
      from children_loaded [OF this that(2)] show ?thesis by blast
    qed
    fix items
    let ?P = "\<lambda>w. \<forall>item\<in>set items. loaded cx item w"
    have "keeps_on ?P (isolated cx) (deleteResourceTree fuel env cx who t0 (mark_for_deletion who t0 item))"
      if "item \<in> set items" for item
      using Suc.IH [of "mark_for_deletion who t0 item"] that by (auto simp: keeps_on_def)
    then show "keeps_on ?P (isolated cx)
        (forE items (\<lambda>item. deleteResourceTree fuel env cx who t0 (mark_for_deletion who t0 item)))"
      by (rule isolated.keeps_on_stable(3) [rotated]) (use loaded_stable in blast)+
  qed
  have soft: "keeps_on (loaded cx r) (isolated cx) (soft_delete env cx r)"
    unfolding soft_delete_def by (intro stable isolated_save keeps_keeps_on isolated.part_rules)
  have if_rule: "keeps_on P R m \<Longrightarrow> keeps_on P R n \<Longrightarrow> keeps_on P R (if b then m else n)"
    for P :: "world \<Rightarrow> bool" and R b and m n :: "(reconciliation_outcome list \<times> resource) op" by simp
  have pair: "(\<And>a b. keeps_on P R (f a b)) \<Longrightarrow> keeps_on P R (case x of (a, b) \<Rightarrow> f a b)"
    for P :: "world \<Rightarrow> bool" and R x and f :: "_ \<Rightarrow> _ \<Rightarrow> (reconciliation_outcome list \<times> resource) op"
    by (cases x) simp
  show ?case
    unfolding deleteResourceTree.simps Let_def
    by (intro stable child soft if_rule pair keeps_keeps_on isolated.delete_checks_keep isolated_delete
        isolated.keeps_returnE)
qed

lemma isolated_delete_tx:
  assumes "schema_ok (w_tables w)" "delete_tx env cx kind i ownerID w = (Inr x, w')"
  shows "isolated cx w w'"
proof -
  from assms(2) obtain old v where "old \<in> set (t_resources (w_tables w))" "in_scope cx old" and v: "w_tables v = w_tables w"
      and k: "bindE (time_Now env) (\<lambda>now.
        deleteResourceTree (Suc (length (env_registry env))) env cx (actorFromContext cx) (truncate_us now)
       (mark_for_deletion (actorFromContext cx) (truncate_us now) (withAssociations (w_tables w) old))) v = (Inr x, w')"
    unfolding delete_tx_def Let_def by (rule load_for_write_InrE)
  with assms(1) have "loaded cx old v" by (auto intro: loaded_row)
  from k obtain now v1 where t: "time_Now env v = (Inr now, v1)" and d: "deleteResourceTree (Suc (length (env_registry env))) env cx (actorFromContext cx) (truncate_us now)
       (mark_for_deletion (actorFromContext cx) (truncate_us now) (withAssociations (w_tables w) old)) v1 = (Inr x, w')"
    by (auto elim: bindE_InrE)
  have v1: "w_tables v1 = w_tables w" using keepsD [OF time_Now_same t] v by (simp add: same_tables_def)
  with \<open>loaded cx old v\<close> v have "loaded cx old v1" by (simp add: loaded_def)
  then have "isolated cx v1 w'" using keeps_onD [OF isolated_tree d] by simp
  with v1 show ?thesis by (simp add: isolated_def keeps_schema_def)
qed

lemma serve_foreign:
  assumes "schema_ok (w_tables w)" and "serve env cx q w = (res, w')"
  shows "filter (\<lambda>x. res_ID x \<in> resource_ids (w_tables w)) (foreign cx (w_tables w')) = foreign cx (w_tables w)"
proof -
  have all: "filter (\<lambda>x. res_ID x \<in> resource_ids t) (foreign cx t) = foreign cx t" for t
    by (rule filter_True) (simp add: foreign_def resource_ids_def)
  show ?thesis
  proof (cases "\<exists>kind i ownerID p u. q = ReqPatch kind i ownerID p \<and> res = Inr u")
    case True
    then obtain kind i ownerID p r where q: "patch env cx kind i ownerID p w = (Inr r, w')"
      using assms(2) by (auto simp: serve_def returnE_run elim!: bindE_InrE)
    then have "foreign cx (w_tables w') = foreign cx (w_tables w)"
    proof (rule patch_touches [OF assms(1)])
      fix old assume old: "old \<in> set (t_resources (w_tables w))" "in_scope cx old" "res_ID old = i"
        "res_Tenancy (strip r) = res_Tenancy old"
        and *: "w_tables w' = w_tables w \<or>
           t_resources (w_tables w') = map (\<lambda>x. if res_ID x = i then strip r else x) (t_resources (w_tables w))"
      have "loaded cx old w" using assms(1) old(1,2) by (rule loaded_row) simp_all
      moreover have "in_scope cx (strip r)" using old(2,4) by (simp add: in_scope_def)
      moreover have "filter (\<lambda>x. \<not> in_scope cx x) (map (\<lambda>x. if res_ID x = i then strip r else x) xs) =
          filter (\<lambda>x. \<not> in_scope cx x) xs"
        if "i \<notin> res_ID ` set (filter (\<lambda>x. \<not> in_scope cx x) xs)" for xs
        using that \<open>in_scope cx (strip r)\<close> by (induction xs) (auto split: if_splits)
      ultimately show ?thesis using * old(3) by (auto simp: foreign_def loaded_def)
    qed
    with all show ?thesis by simp
  next
    case no_patch: False
    from assms(2) show ?thesis
    proof (cases rule: serve_completes)
      case 1
      with all show ?thesis by simp
    next
      case (2 w1 w2)
      show ?thesis
      proof (cases q)
        case (ReqCreate kind r refs)
        with 2 obtain b where "t_resources (w_tables w') = t_resources (w_tables w) @ [strip b]"
            "res_ID b \<notin> resource_ids (w_tables w)"
          by (auto simp: completes_def dest!: create_rows)
        then show ?thesis using all [of "w_tables w"] by (simp add: foreign_def)
      next
        case (ReqPatch kind i ownerID p)
        with no_patch assms(2) serve_atomic all show ?thesis by (cases res) auto
      next
        case (ReqDelete kind i ownerID)
        with 2 assms(1) isolated_delete_tx [of w1] all show ?thesis
          by (auto simp: completes_def isolated_def)
      next
        case (ReqProcess kind i s)
        with 2 have "isolated cx w1 w2"
          by (auto simp: completes_def dest: keepsD [OF isolated.process_tx_keeps_from [OF isolated_delete(1)]])
        with 2 all show ?thesis by (simp add: isolated_def)
      next
        case (ReqForceDelete kind i ownerID)
        with 2 have "isolated cx w1 w2"
          by (auto simp: completes_def dest: keepsD [OF isolated.forceDeleteTx_keeps_from [OF isolated_delete(2)]])
        with 2 all show ?thesis by (simp add: isolated_def)
      qed
    qed
  qed
qed

text \<open>C23. Tenant isolation of writes: whatever a caller requests, the resource rows outside his tenancy
  scope are afterwards exactly the rows that were there -- none changed, none removed, and none added
  but under a new identifier by a create.\<close>

theorem tenant_isolation:
  assumes "schema_ok (w_tables w)" and "serve env cx q w = (res, w')"
  shows "filter (\<lambda>x. \<not> in_scope cx x \<and> res_ID x \<in> resource_ids (w_tables w)) (t_resources (w_tables w')) =
     filter (\<lambda>x. \<not> in_scope cx x) (t_resources (w_tables w))"
  using serve_foreign [OF assms] by (simp add: foreign_def conj_commute)

section \<open>Requests on the small database\<close>

definition sample_new :: resource where
  "sample_new = sample_resource\<lparr>res_ID := [], res_Name := ''staging'', res_Href := [], res_Generation := 0,
     res_Tenancy := JDoc (JObj [(''org'', JStr ''beta'')])\<rparr>"

text \<open>The row of another tenant and a row that is marked for deletion.\<close>

definition mixed_tables :: tables where
  "mixed_tables = empty_tables\<lparr>t_resources := [strip sample_resource,
     strip (sample_resource\<lparr>res_ID := ''c2'', res_Tenancy := JDoc (JObj [(''org'', JStr ''beta'')])\<rparr>),
     strip (sample_resource\<lparr>res_ID := ''c3'', res_DeletedTime := Some 7\<rparr>)]\<rparr>"

lemma mixed_schema_ok: "schema_ok mixed_tables"
  by (simp add: mixed_tables_def empty_tables_def schema_ok_def names_ok_def rows_ok_def links_ok_def
      same_name_slot_def sample_resource_def jsonEqual_def strip_def)

lemma create_effect_witness:
  "\<exists>x w'. Service_Create sample_env sample_caller ''Cluster'' sample_new [] (calm sample_tables) = (Inr x, w') \<and>
     t_resources (w_tables w') = [strip sample_resource, strip x] \<and> res_Tenancy x = TenancyJSON sample_caller"
proof -
  let ?run = "Service_Create sample_env sample_caller ''Cluster'' sample_new [] (calm sample_tables)"
  have "\<not> isl (fst ?run)" by code_simp
  then obtain x w' where run: "?run = (Inr x, w')" by (cases ?run; cases "fst ?run") auto
  from create_effect [OF this] run show ?thesis by (auto simp: sample_tables_def)
qed

lemma no_resurrection_witness:
  "\<exists>res w'. serve sample_env sample_caller (ReqDelete ''Cluster'' ''c1'' []) (calm mixed_tables) = (res, w') \<and>
     (\<forall>x\<in>set (t_resources (w_tables w')). res_ID x \<noteq> ''c3'' \<or> res_DeletedTime x \<noteq> None)"
proof -
  let ?run = "serve sample_env sample_caller (ReqDelete ''Cluster'' ''c1'' []) (calm mixed_tables)"
  obtain res w' where run: "?run = (res, w')" by (cases ?run)
  have "\<forall>y\<in>set (t_resources mixed_tables). res_ID y = ''c3'' \<longrightarrow> res_DeletedTime y \<noteq> None"
    by (simp add: mixed_tables_def sample_resource_def)
  then have "res_ID x \<noteq> ''c3'' \<or> res_DeletedTime x \<noteq> None" if "x \<in> set (t_resources (w_tables w'))" for x
    using no_resurrection [OF _ run that, unfolded calm_tables, OF mixed_schema_ok] by (cases "res_DeletedTime x") auto
  with run show ?thesis by blast
qed

lemma tenant_isolation_witness:
  "\<exists>res w'. serve sample_env sample_caller (ReqForceDelete ''Cluster'' ''c3'' []) (calm mixed_tables) = (res, w') \<and>
     ''c2'' \<in> resource_ids (w_tables w')"
proof -
  let ?run = "serve sample_env sample_caller (ReqForceDelete ''Cluster'' ''c3'' []) (calm mixed_tables)"
  obtain res w' where run: "?run = (res, w')" by (cases ?run)
  let ?x = "strip (sample_resource\<lparr>res_ID := ''c2'', res_Tenancy := JDoc (JObj [(''org'', JStr ''beta'')])\<rparr>)"
  have "\<not> in_scope sample_caller ?x" by code_simp
  then have "?x \<in> set (filter (\<lambda>x. \<not> in_scope sample_caller x) (t_resources (w_tables (calm mixed_tables))))"
    by (simp add: mixed_tables_def)
  then have "?x \<in> set (t_resources (w_tables w'))"
    unfolding tenant_isolation [OF _ run, unfolded calm_tables, OF mixed_schema_ok, symmetric] calm_tables by simp
  then have "res_ID ?x \<in> resource_ids (w_tables w')" unfolding resource_ids_def by (rule imageI)
  with run show ?thesis by auto
qed

end
