(* ===== verification/Deletion.thy ===== *)
theory Deletion
  imports Safety
begin

text \<open>
  What a delete does to the rows: it marks or removes the resource and everything it owns, level by
  level along the ownership of kinds, and touches nothing else.  The recursion needs no more fuel than
  there are kinds, because a validated registry has no ownership cycle.
\<close>

section \<open>Rows that wither\<close>

text \<open>What a delete may do to a row: write its update time, or mark it for deletion.\<close>

definition touched :: "gotime \<Rightarrow> resource \<Rightarrow> resource" where
  "touched t x = x\<lparr>res_UpdatedTime := t\<rparr>"

definition marked :: "string \<Rightarrow> gotime \<Rightarrow> resource \<Rightarrow> resource" where
  "marked u d x = x\<lparr>res_Generation := res_Generation x + 1, res_DeletedTime := Some d, res_DeletedBy := Some u\<rparr>"

inductive withered :: "resource \<Rightarrow> resource \<Rightarrow> bool" where
  w_touched: "withered x (touched t x)"
| w_marked: "res_DeletedTime x = None \<Longrightarrow> withered x (touched t (marked u d x))"

inductive_cases witheredE: "withered x y"

lemma withered_refl [simp]: "withered x x"
  using w_touched [of x "res_UpdatedTime x"] by (simp add: touched_def)

lemma touched_touched [simp]: "touched t (touched t' x) = touched t x"
  by (simp add: touched_def)

lemma marked_touched: "marked u d (touched t x) = touched t (marked u d x)"
  by (cases x) (simp add: touched_def marked_def)

lemma touched_live [simp]: "res_DeletedTime (touched t x) = res_DeletedTime x" "res_DeletedTime (marked u d x) = Some d"
  by (simp_all add: touched_def marked_def)

lemma withered_trans: "withered x y \<Longrightarrow> withered y z \<Longrightarrow> withered x z"
  by (elim witheredE) (auto simp: marked_touched intro: withered.intros)

lemma withered_fields:
  assumes "withered x y"
  shows "res_ID y = res_ID x" "res_Kind y = res_Kind x" "res_OwnerID y = res_OwnerID x" "res_Tenancy y = res_Tenancy x"
    "in_scope cx y = in_scope cx x" "res_DeletedTime y = None \<Longrightarrow> res_DeletedTime x = None"
  using assms by (auto simp: touched_def marked_def in_scope_def elim!: witheredE)

lemma strip_touched: "strip (y\<lparr>res_UpdatedTime := t\<rparr>) = touched t (strip y)"
  by (simp add: touched_def)

lemma withered_strip_update: "withered x (strip y) \<Longrightarrow> withered x (strip (y\<lparr>res_UpdatedTime := t\<rparr>))"
  unfolding strip_touched by (erule withered_trans) (rule w_touched)

lemma withered_strip_mark: "withered (strip r) (strip (mark_for_deletion who t0 r))"
proof (cases "res_DeletedTime r = None")
  case True
  then have "strip (mark_for_deletion who t0 r) = touched (res_UpdatedTime r) (marked who t0 (strip r))"
    by (cases r) (simp add: mark_for_deletion_def MarkDeleted_def IncrementGeneration_def strip_def touched_def marked_def)
  with True show ?thesis by (simp add: w_marked)
qed (auto simp: mark_for_deletion_def)

text \<open>Rows that come from rows.\<close>

definition rows_from :: "resource list \<Rightarrow> resource list \<Rightarrow> bool" where
  "rows_from xs ys \<longleftrightarrow> (\<forall>y\<in>set ys. \<exists>x\<in>set xs. withered x y)"

lemma rows_from_subset: "set ys \<subseteq> set xs \<Longrightarrow> rows_from xs ys"
  unfolding rows_from_def using withered_refl by blast

lemma rows_from_trans: "rows_from xs ys \<Longrightarrow> rows_from ys zs \<Longrightarrow> rows_from xs zs"
  unfolding rows_from_def using withered_trans by blast

lemma rows_from_map: "x \<in> set xs \<Longrightarrow> withered x r \<Longrightarrow> rows_from xs (map (\<lambda>y. if P y then r else y) xs)"
  by (auto simp: rows_from_def intro: withered_refl)

text \<open>\<open>withers ks\<close>: every row afterwards is a row from before, withered at most, and the rows whose identifier
  and kind are not in \<open>ks\<close> are as they were.\<close>

definition row_key :: "resource \<Rightarrow> string \<times> string" where
  "row_key x = (res_ID x, res_Kind x)"

definition withers :: "(string \<times> string) set \<Rightarrow> world \<Rightarrow> world \<Rightarrow> bool" where
  "withers ks w w' \<longleftrightarrow>
     keeps_schema w w' \<and>
     rows_from (t_resources (w_tables w)) (t_resources (w_tables w')) \<and>
     filter (\<lambda>x. row_key x \<notin> ks) (t_resources (w_tables w')) = filter (\<lambda>x. row_key x \<notin> ks) (t_resources (w_tables w))"

interpretation withers: row_relation "withers ks" for ks
  by unfold_locales
     (auto simp: withers_def keeps_schema_def same_tables_def row_write_resources rows_from_subset
        intro: rows_from_trans row_write_schema)

lemma withers_mono:
  assumes "withers ks w w'" "ks \<subseteq> ks'"
  shows "withers ks' w w'"
proof -
  have *: "filter (\<lambda>x. row_key x \<notin> ks') xs = filter (\<lambda>x. row_key x \<notin> ks') (filter (\<lambda>x. row_key x \<notin> ks) xs)" for xs
    using assms(2) by (auto intro: filter_cong)
  show ?thesis using assms(1) unfolding withers_def by (subst (1 2) *) simp
qed

lemma withers_row:
  assumes "withers ks w w'" "x \<in> set (t_resources (w_tables w))" "row_key x \<notin> ks"
  shows "x \<in> set (t_resources (w_tables w'))"
proof -
  have "x \<in> set (filter (\<lambda>x. row_key x \<notin> ks) (t_resources (w_tables w)))" using assms(2,3) by simp
  then have "x \<in> set (filter (\<lambda>x. row_key x \<notin> ks) (t_resources (w_tables w')))"
    using assms(1) by (simp only: withers_def)
  then show ?thesis by simp
qed

text \<open>A resource in hand that came from a row.\<close>

definition tracked :: "resource \<Rightarrow> world \<Rightarrow> bool" where
  "tracked r w \<longleftrightarrow> schema_ok (w_tables w) \<and> (\<exists>x\<in>set (t_resources (w_tables w)). withered x (strip r))"

lemma tracked_stable:
  assumes "tracked r w" "withers ks w w'" "row_key r \<notin> ks"
  shows "tracked r w'"
proof -
  from assms(1) obtain x where x: "x \<in> set (t_resources (w_tables w))" "withered x (strip r)" and ok: "schema_ok (w_tables w)"
    by (auto simp: tracked_def)
  have "row_key x = row_key r" using withered_fields(1,2) [OF x(2)] by (simp add: row_key_def)
  with withers_row [OF assms(2) x(1)] assms(3) x(2) have "\<exists>x\<in>set (t_resources (w_tables w')). withered x (strip r)" by auto
  moreover have "schema_ok (w_tables w')" using ok assms(2) by (simp add: withers_def keeps_schema_def)
  ultimately show ?thesis by (simp add: tracked_def)
qed

lemma tracked_mark [simp]: "tracked r w \<Longrightarrow> tracked (mark_for_deletion who t0 r) w"
  unfolding tracked_def using withered_trans [OF _ withered_strip_mark] by blast

lemma tracked_associations [simp]: "tracked (withAssociations t r) = tracked r"
  by (simp add: tracked_def [abs_def])

lemma tracked_of_row: "schema_ok (w_tables w) \<Longrightarrow> x \<in> set (t_resources (w_tables w)) \<Longrightarrow> tracked x w"
  unfolding tracked_def by (auto simp: strip_row intro: bexI [of _ x])

lemma withers_save:
  assumes "row_key r \<in> ks"
  shows "keeps_on (tracked r) (withers ks) (Save env r)"
proof (rule keeps_onI)
  fix w res w'
  assume l: "tracked r w" and run: "Save env r w = (res, w')"
  show "withers ks w w'"
  proof (rule withers.Save_step [OF _ run])
    fix v :: world and now t'
    assume v: "w_tables v = w_tables w" and s: "save_resource (r\<lparr>res_UpdatedTime := now\<rparr>) (w_tables w) = Inr t'"
    let ?r = "strip (r\<lparr>res_UpdatedTime := now\<rparr>)" and ?rs = "t_resources (w_tables w)"
    from l obtain x where x: "x \<in> set ?rs" "withered x (strip r)" and ok: "schema_ok (w_tables w)"
      by (auto simp: tracked_def)
    from x(2) have xr: "withered x ?r" by (rule withered_strip_update)
    from withered_fields [OF x(2)] have f: "res_ID x = res_ID r" "res_Kind x = res_Kind r" by simp_all
    have uniq: "y = x" if "y \<in> set ?rs" "res_ID y = res_ID r" for y
      using ok x(1) that f(1) by (auto simp: schema_ok_def distinct_map inj_on_def)
    have "res_ID r \<in> resource_ids (w_tables w)" unfolding resource_ids_def using x(1) f(1) [symmetric] by simp
    with s have rows: "t_resources t' = map (\<lambda>y. if res_ID y = res_ID r then ?r else y) ?rs"
      by (auto simp: save_resource_def split: if_splits)
    have "filter (\<lambda>y. row_key y \<notin> ks) (map (\<lambda>y. if res_ID y = res_ID r then ?r else y) ys) =
        filter (\<lambda>y. row_key y \<notin> ks) ys" if "set ys \<subseteq> set ?rs" for ys
      using that assms f uniq by (induction ys) (auto simp: row_key_def)
    then have "filter (\<lambda>y. row_key y \<notin> ks) (t_resources t') = filter (\<lambda>y. row_key y \<notin> ks) ?rs"
      by (simp add: rows)
    moreover have "rows_from ?rs (t_resources t')" unfolding rows using x(1) xr by (rule rows_from_map)
    moreover have "schema_ok t'" using ok s by (rule save_resource_schema)
    ultimately show "withers ks v (v\<lparr>w_tables := t'\<rparr>)" by (simp add: withers_def keeps_schema_def v)
  qed
qed

lemma withers_delete:
  assumes "(i, kind) \<in> ks"
  shows "keeps (withers ks) (ResourceDao_Delete cx kind i)"
  unfolding ResourceDao_Delete_def
proof (rule keepsI, erule withers.execute_step [rotated])
  fix w :: world and t' assume d: "delete_resources (\<lambda>r. in_scope cx r \<and> res_Kind r = kind \<and> res_ID r = i) (w_tables w) = Inr t'"
  note rows = delete_resources_rows [OF d]
  have "filter (\<lambda>y. row_key y \<notin> ks) (t_resources t') = filter (\<lambda>y. row_key y \<notin> ks) (t_resources (w_tables w))"
    unfolding rows using assms by (auto simp: row_key_def intro: filter_cong)
  moreover have "rows_from (t_resources (w_tables w)) (t_resources t')" unfolding rows by (rule rows_from_subset) auto
  moreover have "schema_ok (w_tables w) \<Longrightarrow> schema_ok t'" using d delete_resources_schema by blast
  ultimately show "withers ks w (w\<lparr>w_tables := t'\<rparr>)" by (simp add: withers_def keeps_schema_def)
qed

section \<open>The recursion\<close>

lemma must_InrE:
  assumes "must env kind w = (Inr desc, w')"
  shows "Get (env_registry env) kind = Some desc" "w_tables w' = w_tables w"
  using assms keepsD [OF must_same assms]
  by (auto simp: must_def MustGet_def returnE_run same_tables_def split: sum.splits option.splits registry_fault.splits)

lemma items_facts:
  assumes "FindByKindAndOwnerForUpdate cx kind o1 w = (Inr items, w')"
  shows "w_tables w' = w_tables w"
    "item \<in> set items \<longleftrightarrow> (\<exists>x\<in>set (t_resources (w_tables w)). in_scope cx x \<and> res_Kind x = kind \<and>
       res_OwnerID x = Some o1 \<and> item = withAssociations (w_tables w) x)"
  using assms by (auto simp: FindByKindAndOwnerForUpdate_def elim!: query_InrE)

lemma items_distinct:
  assumes "FindByKindAndOwnerForUpdate cx kind o1 w = (Inr items, w')" "schema_ok (w_tables w)"
  shows "distinct (map res_ID items)"
proof -
  let ?P = "\<lambda>r. in_scope cx r \<and> res_Kind r = kind \<and> res_OwnerID r = Some o1"
  have "distinct (map res_ID (filter ?P (t_resources (w_tables w))))"
    using assms(2) by (simp add: schema_ok_def distinct_map_filter)
  then have "distinct (map res_ID (sort_key res_ID (filter ?P (t_resources (w_tables w)))))"
    by (simp only: distinct_map distinct_sort set_sort)
  moreover have "map res_ID items = map res_ID (sort_key res_ID (filter ?P (t_resources (w_tables w))))"
    using assms(1) by (auto simp: FindByKindAndOwnerForUpdate_def elim!: query_InrE)
  ultimately show ?thesis by simp
qed

lemma mark_fields [simp]:
  "res_ID (mark_for_deletion who t0 r) = res_ID r" "res_Kind (mark_for_deletion who t0 r) = res_Kind r"
  "res_Tenancy (mark_for_deletion who t0 r) = res_Tenancy r" "in_scope cx (mark_for_deletion who t0 r) = in_scope cx r"
  by (simp_all add: mark_for_deletion_def MarkDeleted_def IncrementGeneration_def in_scope_def)

text \<open>What a validated registry gives: the kinds below a child lie below its parent, and no kind below
  itself.\<close>

definition well_founded_kinds :: "registry \<Rightarrow> bool" where
  "well_founded_kinds ds \<longleftrightarrow> registry_ok ds \<and> acyclic (owner_rel ds)"

definition below :: "registry \<Rightarrow> string \<Rightarrow> (string \<times> string) set" where
  "below ds k = UNIV \<times> owned_below ds k"

definition family :: "registry \<Rightarrow> resource \<Rightarrow> (string \<times> string) set" where
  "family ds r = insert (row_key r) (below ds (res_Kind r))"

lemma family_child:
  assumes "well_founded_kinds ds" "c \<in> set (ChildrenOf ds k)" "k \<noteq> []" "res_Kind x = desc_Kind c"
  shows "family ds x \<subseteq> below ds k"
proof -
  from assms have edge: "(desc_Kind c, k) \<in> owner_rel ds"
    using Get_mem [of ds c] by (auto simp: well_founded_kinds_def ChildrenOf_def owner_rel_def parent_of_def)
  then show ?thesis using assms(4) by (auto simp: family_def below_def owned_below_def row_key_def intro: trancl_into_trancl)
qed

lemma not_below_itself: "well_founded_kinds ds \<Longrightarrow> k \<notin> owned_below ds k"
  by (auto simp: well_founded_kinds_def owned_below_def acyclic_def)

lemma child_kind: "well_founded_kinds ds \<Longrightarrow> c \<in> set (ChildrenOf ds k) \<Longrightarrow> desc_Kind c \<noteq> []"
  by (auto simp: well_founded_kinds_def registry_ok_def list_all_iff ChildrenOf_def)

lemma keeps_on_weaken: "keeps_on P (withers ks) m \<Longrightarrow> ks \<subseteq> ks' \<Longrightarrow> keeps_on P (withers ks') m"
  unfolding keeps_on_def using withers_mono by blast

lemma keeps_on_seq:
  assumes "keeps_on P (withers ls) m" and "\<And>w w'. P w \<Longrightarrow> withers ls w w' \<Longrightarrow> Q w'" and "\<And>x. keeps_on Q (withers ks) (k x)"
    and "ls \<subseteq> ks"
  shows "keeps_on P (withers ks) (bindE m k)"
  using keeps_on_weaken [OF assms(1,4)] keeps_onD [OF assms(1)] assms(2,3)
  by (intro withers.keeps_on_bindE_post [where Q = "\<lambda>_. Q"]) blast+

lemma keeps_on_cong: "keeps_on P R m \<Longrightarrow> (\<And>w. Q w \<Longrightarrow> P w) \<Longrightarrow> keeps_on Q R m"
  unfolding keeps_on_def by blast

text \<open>Siblings stay tracked while one of them is deleted.\<close>

lemma sibling_tracked:
  assumes wf: "well_founded_kinds ds" and kinds: "res_Kind x = res_Kind z" and ids: "res_ID x \<noteq> res_ID z"
    and z: "tracked z w" and w: "withers (family ds x) w w'"
  shows "tracked z w'"
  using z w by (rule tracked_stable)
    (use kinds ids not_below_itself [OF wf, of "res_Kind x"] in \<open>auto simp: family_def below_def row_key_def\<close>)

lemma siblings_withers:
  assumes wf: "well_founded_kinds ds" and k: "k \<noteq> []" "k \<noteq> K" and below: "\<And>x. res_Kind x = k \<Longrightarrow> family ds x \<subseteq> below ds K"
    and IH: "\<And>x. res_Kind x = k \<Longrightarrow> keeps_on (tracked x) (withers (family ds x)) (f x)"
    and items: "\<forall>x\<in>set items. res_Kind x = k" "distinct (map res_ID items)"
  shows "keeps_on (\<lambda>w. \<forall>x\<in>set items. tracked x w) (withers (below ds K)) (forE items f)"
  using items
proof (induction items)
  case (Cons x xs)
  have stable: "\<forall>z\<in>set xs. tracked z w'" if "\<forall>z\<in>set (x # xs). tracked z w" "f x w = (res, w')" for w res w'
  proof
    fix z assume z: "z \<in> set xs"
    have "withers (family ds x) w w'" using keeps_onD [OF IH that(2)] that(1) Cons.prems by auto
    with z that(1) Cons.prems show "tracked z w'" by (auto intro: sibling_tracked [OF wf])
  qed
  have first: "keeps_on (\<lambda>w. \<forall>z\<in>set (x # xs). tracked z w) (withers (below ds K)) (f x)"
    using Cons.prems by (intro keeps_on_cong [OF keeps_on_weaken [OF IH below]]) auto
  have rest: "keeps_on (\<lambda>w. \<forall>z\<in>set xs. tracked z w) (withers (below ds K))
      (bindE (forE xs f) (\<lambda>ys. returnE (y # ys)))" for y
    by (rule withers.keeps_on_bindE_post [where Q = "\<lambda>_ _. True"])
       (use Cons in \<open>auto intro: keeps_keeps_on withers.keeps_returnE\<close>)
  show ?case
    unfolding forE.simps by (rule withers.keeps_on_bindE_post [OF first _ rest]) (rule stable)
qed (simp add: keeps_keeps_on withers.keeps_returnE)

definition delete_children ::
  "(resource \<Rightarrow> 'a op) \<Rightarrow> req_context \<Rightarrow> string \<Rightarrow> gotime \<Rightarrow> resource \<Rightarrow> entity_descriptor \<Rightarrow> 'a list op" where
  "delete_children del cx who t0 r child =
     call (FindByKindAndOwnerForUpdate cx (desc_Kind child) (res_ID r))
       (svc_err (\<lambda>e. GeneralError ''Unable to find %s children for cascade delete: %s''
          [FS (desc_Kind child), FS (db_text e)]))
       (\<lambda>items. forE items (\<lambda>item. del (mark_for_deletion who t0 item)))"

lemma in_scope_associations [simp]: "in_scope cx (withAssociations t r) = in_scope cx r"
  by (simp add: in_scope_def)

lemma items_tracked:
  assumes "FindByKindAndOwnerForUpdate cx kind o1 w = (Inr items, w')" "schema_ok (w_tables w)"
  shows "distinct (map res_ID items)" "\<forall>x\<in>set items. res_Kind x = kind \<and> in_scope cx x \<and> tracked x w'"
  using items_distinct [OF assms] items_facts [OF assms(1)] assms(2) tracked_of_row [of w'] by auto

lemma children_withers:
  assumes wf: "well_founded_kinds (env_registry env)" and K: "res_Kind r \<noteq> []"
    and c: "c \<in> set (ChildrenOf (env_registry env) (res_Kind r))"
    and IH: "\<And>x. res_Kind x \<noteq> [] \<Longrightarrow> keeps_on (tracked x) (withers (family (env_registry env) x)) (del x)"
  shows "keeps_on (tracked r) (withers (below (env_registry env) (res_Kind r))) (delete_children del cx who t0 r c)"
    (is "keeps_on _ (withers ?below) _")
  unfolding delete_children_def
proof (rule withers.keeps_on_call_post [where Q = "\<lambda>items w. (\<forall>x\<in>set items. res_Kind x = desc_Kind c) \<and>
      distinct (map res_ID items) \<and> (\<forall>x\<in>set items. tracked x w)"])
  show "keeps_on (tracked r) (withers ?below) (FindByKindAndOwnerForUpdate cx (desc_Kind c) (res_ID r))"
    by (intro keeps_keeps_on withers.dao_rows_keep)
  show "(\<forall>x\<in>set items. res_Kind x = desc_Kind c) \<and> distinct (map res_ID items) \<and> (\<forall>x\<in>set items. tracked x w')"
    if "tracked r w" "FindByKindAndOwnerForUpdate cx (desc_Kind c) (res_ID r) w = (Inr items, w')" for w items w'
    using items_tracked [OF that(2)] that(1) by (auto simp: tracked_def)
  fix items
  let ?f = "\<lambda>item. del (mark_for_deletion who t0 item)"
  have f: "keeps_on (tracked x) (withers (family (env_registry env) x)) (?f x)" if "res_Kind x = desc_Kind c" for x
    using IH [of "mark_for_deletion who t0 x"] child_kind [OF wf c] that
    by (auto simp: family_def row_key_def intro: keeps_on_cong)
  have "desc_Kind c \<noteq> res_Kind r"
    using family_child [OF wf c K, of "r\<lparr>res_Kind := desc_Kind c\<rparr>"] not_below_itself [OF wf, of "res_Kind r"]
    by (auto simp: family_def below_def row_key_def)
  from siblings_withers [OF wf child_kind [OF wf c] this family_child [OF wf c K] f]
  show "keeps_on (\<lambda>w. (\<forall>x\<in>set items. res_Kind x = desc_Kind c) \<and> distinct (map res_ID items) \<and> (\<forall>x\<in>set items. tracked x w))
      (withers ?below) (forE items ?f)"
    by (auto simp: keeps_on_def)
qed

lemma tracked_quiet: "tracked r w \<Longrightarrow> withers {} w w' \<Longrightarrow> tracked r w'"
  by (erule (1) tracked_stable) simp

lemma tracked_below: "well_founded_kinds ds \<Longrightarrow> tracked r w \<Longrightarrow> withers (below ds (res_Kind r)) w w' \<Longrightarrow> tracked r w'"
  by (erule (1) tracked_stable) (auto simp: below_def row_key_def not_below_itself)

text \<open>The loop over the children of the cascading kinds.\<close>

definition cascade ::
  "(resource \<Rightarrow> 'a op) \<Rightarrow> req_context \<Rightarrow> string \<Rightarrow> gotime \<Rightarrow> resource \<Rightarrow> entity_descriptor list \<Rightarrow> 'a list list op" where
  "cascade del cx who t0 r children =
     forE (filter (\<lambda>c. desc_OnParentDelete c = OnParentDeleteCascade) children) (delete_children del cx who t0 r)"

lemma cascade_withers:
  assumes wf: "well_founded_kinds (env_registry env)" and K: "res_Kind r \<noteq> []"
    and IH: "\<And>x. res_Kind x \<noteq> [] \<Longrightarrow> keeps_on (tracked x) (withers (family (env_registry env) x)) (del x)"
  shows "keeps_on (tracked r) (withers (below (env_registry env) (res_Kind r)))
     (cascade del cx who t0 r (ChildrenOf (env_registry env) (res_Kind r)))"
  unfolding cascade_def
  by (rule withers.keeps_on_stable(3) [OF tracked_below [OF wf]]) (use children_withers [OF wf K _ IH] in auto)

lemma soft_withers:
  assumes key: "row_key r \<in> ks"
  shows "keeps_on (tracked r) (withers ks) (soft_delete env cx r)"
  unfolding soft_delete_def
  by (rule withers.keeps_on_call_post [where Q = "\<lambda>_ _. True"])
     (use withers_save [OF key] in \<open>auto intro!: keeps_keeps_on withers.part_rules\<close>)

text \<open>What comes after the children.\<close>

definition finish_delete ::
  "environment \<Rightarrow> req_context \<Rightarrow> resource \<Rightarrow> reconciliation_outcome list \<Rightarrow> bool \<Rightarrow>
     (reconciliation_outcome list \<times> resource) op" where
  "finish_delete env cx r outcomes soft =
     (if soft then
        bindE (soft_delete env cx r) (\<lambda>(outcome, r1).
        returnE (outcomes @ (case outcome of None \<Rightarrow> [] | Some o1 \<Rightarrow> [o1]), r1))
      else call (ResourceDao_Delete cx (res_Kind r) (res_ID r)) (svc_err (handleDeleteError (res_Kind r)))
             (\<lambda>_. returnE (outcomes, r)))"

lemma tree_unfold:
  "deleteResourceTree (Suc fuel) env cx who t0 r =
     (let children = ChildrenOf (env_registry env) (res_Kind r) in
      bindE (forE (filter (\<lambda>c. desc_OnParentDelete c = OnParentDeleteRestrict) children) (checkCanDelete cx r)) (\<lambda>_.
      bindE (cascade (deleteResourceTree fuel env cx who t0) cx who t0 r children) (\<lambda>deleted.
      bindE (checkReferencers cx r) (\<lambda>_.
      bindE (shouldSoftDelete env cx r children) (\<lambda>soft.
      finish_delete env cx r (concat (map fst (concat deleted))) soft)))))"
  by (simp add: cascade_def delete_children_def [abs_def] finish_delete_def Let_def)

lemma finish_withers:
  assumes "row_key r \<in> ks"
  shows "keeps_on (tracked r) (withers ks) (finish_delete env cx r outcomes soft)"
proof -
  have "keeps_on (tracked r) (withers ks) (bindE (soft_delete env cx r) (\<lambda>(outcome, r1).
        returnE (outcomes @ (case outcome of None \<Rightarrow> [] | Some o1 \<Rightarrow> [o1]), r1)))"
    by (rule withers.keeps_on_bindE_post [where Q = "\<lambda>_ _. True", OF soft_withers [OF assms]])
       (auto intro: keeps_keeps_on withers.keeps_returnE)
  moreover have "keeps (withers ks) (ResourceDao_Delete cx (res_Kind r) (res_ID r))"
    using assms by (intro withers_delete) (simp add: row_key_def)
  ultimately show ?thesis
    by (auto simp: finish_delete_def intro!: keeps_keeps_on withers.keeps_call withers.keeps_returnE)
qed

lemma tree_withers:
  assumes wf: "well_founded_kinds (env_registry env)" and K: "res_Kind r \<noteq> []"
  shows "keeps_on (tracked r) (withers (family (env_registry env) r)) (deleteResourceTree fuel env cx who t0 r)"
  using K
proof (induction fuel arbitrary: r)
  case 0
  show ?case by (simp add: keeps_keeps_on withers.keeps_raiseE)
next
  case (Suc fuel)
  let ?F = "family (env_registry env) r" and ?B = "below (env_registry env) (res_Kind r)"
  note reads = keeps_on_seq [where Q = "tracked r" and ls = "{}", OF keeps_keeps_on]
  show ?case
    unfolding tree_unfold Let_def
  proof (rule reads)
    show "keeps (withers {}) (forE (filter (\<lambda>c. desc_OnParentDelete c = OnParentDeleteRestrict)
        (ChildrenOf (env_registry env) (res_Kind r))) (checkCanDelete cx r))"
      by (intro withers.keeps_forE withers.delete_checks_keep)
    fix x :: "unit list"
    show "keeps_on (tracked r) (withers ?F)
        (bindE (cascade (deleteResourceTree fuel env cx who t0) cx who t0 r (ChildrenOf (env_registry env) (res_Kind r)))
          (\<lambda>deleted. bindE (checkReferencers cx r) (\<lambda>_.
           bindE (shouldSoftDelete env cx r (ChildrenOf (env_registry env) (res_Kind r))) (\<lambda>soft.
           finish_delete env cx r (concat (map fst (concat deleted))) soft))))"
    proof (rule keeps_on_seq [where Q = "tracked r" and ls = ?B])
      show "keeps_on (tracked r) (withers ?B)
          (cascade (deleteResourceTree fuel env cx who t0) cx who t0 r (ChildrenOf (env_registry env) (res_Kind r)))"
        using wf Suc.prems Suc.IH by (rule cascade_withers)
      show "?B \<subseteq> ?F" by (auto simp: family_def)
      fix deleted
      show "keeps_on (tracked r) (withers ?F) (bindE (checkReferencers cx r) (\<lambda>_.
           bindE (shouldSoftDelete env cx r (ChildrenOf (env_registry env) (res_Kind r))) (\<lambda>soft.
           finish_delete env cx r (concat (map fst (concat deleted))) soft)))"
        by (intro reads withers.delete_checks_keep finish_withers) (auto simp: family_def intro: tracked_quiet)
    qed (rule tracked_below [OF wf])
  qed (auto intro: tracked_quiet)
qed

section \<open>What a delete leaves\<close>

lemma withers_live: "withers ks w w' \<Longrightarrow> live_from w w'"
  unfolding withers_def rows_from_def live_from_def live_id_def using withered_fields(1,6) by metis

lemma not_live_stays: "\<not> live_id w i \<Longrightarrow> live_from w w' \<Longrightarrow> \<not> live_id w' i"
  by (auto simp: live_from_def)

text \<open>A loop after which each of its elements has a property that the later rounds keep.\<close>

lemma forE_each:
  assumes "forE xs f w = (Inr ys, w')" and "P w"
    and "\<And>x w y w'. x \<in> set xs \<Longrightarrow> P w \<Longrightarrow> f x w = (Inr y, w') \<Longrightarrow> Q x w'"
    and "\<And>x w y w'. x \<in> set xs \<Longrightarrow> P w \<Longrightarrow> f x w = (Inr y, w') \<Longrightarrow> P w' \<and> R w w'"
    and "\<And>x w w'. Q x w \<Longrightarrow> R w w' \<Longrightarrow> Q x w'"
    and "\<And>w. R w w" "\<And>u v w. R u v \<Longrightarrow> R v w \<Longrightarrow> R u w"
  shows "P w' \<and> R w w' \<and> (\<forall>x\<in>set xs. Q x w')"
  using assms(1-4)
proof (induction xs arbitrary: w ys)
  case Nil
  then show ?case using assms(6) by (simp add: returnE_run)
next
  case (Cons x xs)
  from Cons.prems(1) obtain y w1 zs where f: "f x w = (Inr y, w1)" and rest: "forE xs f w1 = (Inr zs, w')"
    by (auto simp: returnE_run elim!: bindE_InrE)
  have Q: "Q x w1" using Cons.prems(3) [OF _ Cons.prems(2) f] by simp
  have 1: "P w1" "R w w1" using Cons.prems(4) [OF _ Cons.prems(2) f] by simp_all
  have "P w' \<and> R w1 w' \<and> (\<forall>x\<in>set xs. Q x w')"
  proof (rule Cons.IH [OF rest 1(1)])
    show "Q z v'" if "z \<in> set xs" "P v" "f z v = (Inr y, v')" for z v y v' using Cons.prems(3) [OF _ that(2,3)] that(1) by simp
    show "P v' \<and> R v v'" if "z \<in> set xs" "P v" "f z v = (Inr y, v')" for z v y v'
      using Cons.prems(4) [OF _ that(2,3)] that(1) by simp
  qed
  moreover from this have "Q x w'" using assms(5) [OF Q] by blast
  ultimately show ?case using assms(7) [OF 1(2)] by auto
qed

lemma soft_delete_gone:
  assumes "soft_delete env cx r w = (Inr x, w')" "res_DeletedTime r \<noteq> None"
  shows "\<not> live_id w' (res_ID r)"
proof -
  let ?rest = "\<lambda>r1. call (ReplaceReferences (res_ID r1) [])
       (svc_err (general_err ''failed to clear outbound references on soft-delete'')) (\<lambda>_.
     call (FindByResource (res_Kind r1) (res_ID r1))
       (svc_err (general_err ''failed to get adapter statuses for condition recompute'')) (\<lambda>statuses.
     recomputeAndSaveResourceConditions env cx r1 statuses))"
  from assms(1) obtain r1 w1 where s: "Save env r w = (Inr r1, w1)" and k: "?rest r1 w1 = (Inr x, w')"
    by (auto simp: soft_delete_def elim: call_InrE)
  have "keeps same_resources (?rest r1)" by (intro fixed.part_rules)
  with k have same: "t_resources (w_tables w') = t_resources (w_tables w1)" by (auto dest: keepsD simp: same_resources_def)
  from s obtain now where "r1 = r\<lparr>res_UpdatedTime := now\<rparr>" "save_resource r1 (w_tables w) = Inr (w_tables w1)"
    by (rule Save_InrE)
  then have "\<not> live_id w1 (res_ID r)"
    using assms(2) by (auto simp: live_id_def strip_def dest!: save_resource_rows)
  with same show ?thesis by (simp add: live_id_def)
qed

lemma hard_delete_gone:
  assumes "ResourceDao_Delete cx (res_Kind r) (res_ID r) w = (Inr u, w')" "tracked r w" "in_scope cx r"
  shows "res_ID r \<notin> resource_ids (w_tables w')"
proof
  assume "res_ID r \<in> resource_ids (w_tables w')"
  then obtain y where y: "y \<in> set (t_resources (w_tables w'))" "res_ID y = res_ID r" by (auto simp: resource_ids_def)
  have rows: "t_resources (w_tables w') =
      filter (\<lambda>x. \<not> (in_scope cx x \<and> res_Kind x = res_Kind r \<and> res_ID x = res_ID r)) (t_resources (w_tables w))"
    using assms(1) by (auto simp: ResourceDao_Delete_def elim!: execute_InrE dest: delete_resources_rows)
  from assms(2) obtain x where x: "x \<in> set (t_resources (w_tables w))" "withered x (strip r)" and ok: "schema_ok (w_tables w)"
    by (auto simp: tracked_def)
  note f = withered_fields [OF x(2)]
  have "y = x" using y rows x(1) ok f(1) by (auto simp: schema_ok_def distinct_map inj_on_def)
  moreover have "in_scope cx x" using assms(3) f(4) by (simp add: in_scope_def)
  ultimately show False using y rows f by auto
qed

lemma tree_InrE:
  assumes wf: "well_founded_kinds (env_registry env)" and K: "res_Kind r \<noteq> []" and tr: "tracked r w"
    and run: "deleteResourceTree (Suc fuel) env cx who t0 r w = (Inr x, w')"
  obtains u1 w1 deleted w2 s w3 outcomes where
    "forE (filter (\<lambda>c. desc_OnParentDelete c = OnParentDeleteRestrict) (ChildrenOf (env_registry env) (res_Kind r)))
       (checkCanDelete cx r) w = (Inr u1, w1)" "tracked r w1" "withers {} w w1"
    "cascade (deleteResourceTree fuel env cx who t0) cx who t0 r (ChildrenOf (env_registry env) (res_Kind r)) w1 =
       (Inr deleted, w2)" "withers (below (env_registry env) (res_Kind r)) w1 w2"
    "withers {} w2 w3" "tracked r w3" "finish_delete env cx r outcomes s w3 = (Inr x, w')"
    "withers (family (env_registry env) r) w3 w'"
proof -
  let ?ch = "ChildrenOf (env_registry env) (res_Kind r)"
  from run obtain u1 w1 deleted w2 s w3 v where
      a: "forE (filter (\<lambda>c. desc_OnParentDelete c = OnParentDeleteRestrict) ?ch) (checkCanDelete cx r) w = (Inr u1, w1)"
    and b: "cascade (deleteResourceTree fuel env cx who t0) cx who t0 r ?ch w1 = (Inr deleted, w2)"
    and c: "checkReferencers cx r w2 = (Inr (), v)" "shouldSoftDelete env cx r ?ch v = (Inr s, w3)"
    and d: "finish_delete env cx r (concat (map fst (concat deleted))) s w3 = (Inr x, w')"
    unfolding tree_unfold Let_def by (auto elim!: bindE_InrE)
  have "keeps (withers {}) (forE (filter (\<lambda>c. desc_OnParentDelete c = OnParentDeleteRestrict) ?ch) (checkCanDelete cx r))"
    by (intro withers.keeps_forE withers.delete_checks_keep)
  note w1 = keepsD [OF this a]
  note t1 = tracked_quiet [OF tr w1]
  note w2 = keeps_onD [OF cascade_withers [OF wf K tree_withers [OF wf]] b t1]
  note w3 = withers.R_trans [OF keepsD [OF withers.delete_checks_keep(2) c(1)] keepsD [OF withers.delete_checks_keep(3) c(2)], where ks = "{}"]
  note t3 = tracked_quiet [OF tracked_below [OF wf t1 w2] w3]
  have "withers (family (env_registry env) r) w3 w'"
    using keeps_onD [OF finish_withers d t3] by (simp add: family_def)
  with that [OF a t1 w1 b w2 w3 t3 d] show ?thesis by blast
qed

lemma tree_gone:
  assumes wf: "well_founded_kinds (env_registry env)" and K: "res_Kind r \<noteq> []" and tr: "tracked r w"
    and r: "in_scope cx r" "res_DeletedTime r \<noteq> None"
    and run: "deleteResourceTree fuel env cx who t0 r w = (Inr x, w')"
  shows "\<not> live_id w' (res_ID r)"
proof (cases fuel)
  case (Suc n)
  from tree_InrE [OF wf K tr run [unfolded Suc]] obtain outcomes s w3 where t3: "tracked r w3"
      and d: "finish_delete env cx r outcomes s w3 = (Inr x, w')" by metis
  show ?thesis
  proof (cases s)
    case True
    with d obtain y where "soft_delete env cx r w3 = (Inr y, w')"
      by (auto simp: finish_delete_def returnE_run elim!: bindE_InrE)
    then show ?thesis using r(2) by (rule soft_delete_gone)
  next
    case False
    with d have "ResourceDao_Delete cx (res_Kind r) (res_ID r) w3 = (Inr (), w')"
      by (auto simp: finish_delete_def returnE_run elim!: call_InrE)
    from hard_delete_gone [OF this t3 r(1)] show ?thesis unfolding live_id_def resource_ids_def by (metis imageI)
  qed
qed (use run in \<open>simp add: raiseE_run\<close>)

text \<open>No live child of a kind is left.\<close>

definition childless :: "req_context \<Rightarrow> string \<Rightarrow> entity_descriptor \<Rightarrow> world \<Rightarrow> bool" where
  "childless cx i c w \<longleftrightarrow>
     (\<forall>y\<in>set (t_resources (w_tables w)). in_scope cx y \<longrightarrow> res_Kind y = desc_Kind c \<longrightarrow> res_OwnerID y = Some i \<longrightarrow>
        res_DeletedTime y \<noteq> None)"

lemma childless_stable:
  assumes "childless cx i c w" "withers ks w w'"
  shows "childless cx i c w'"
  unfolding childless_def
proof (intro ballI impI notI)
  fix y assume y: "y \<in> set (t_resources (w_tables w'))" "in_scope cx y" "res_Kind y = desc_Kind c" "res_OwnerID y = Some i"
      "res_DeletedTime y = None"
  with assms(2) obtain x where "x \<in> set (t_resources (w_tables w))" "withered x y" by (auto simp: withers_def rows_from_def)
  with y assms(1) withered_fields [of x y] show False by (auto simp: childless_def)
qed

lemma siblings_gone:
  assumes wf: "well_founded_kinds (env_registry env)" and k: "k \<noteq> []"
    and run: "forE items (\<lambda>x. deleteResourceTree fuel env cx who t0 (mark_for_deletion who t0 x)) w = (Inr ys, w')"
    and items: "\<forall>x\<in>set items. res_Kind x = k \<and> in_scope cx x \<and> tracked x w" "distinct (map res_ID items)"
  shows "\<forall>x\<in>set items. \<not> live_id w' (res_ID x)"
  using run items
proof (induction items arbitrary: w ys)
  case (Cons x xs)
  let ?f = "\<lambda>x. deleteResourceTree fuel env cx who t0 (mark_for_deletion who t0 x)"
  from Cons.prems(1) obtain y w1 zs where f: "?f x w = (Inr y, w1)" and rest: "forE xs ?f w1 = (Inr zs, w')"
    by (auto simp: returnE_run elim!: bindE_InrE)
  have tr: "tracked (mark_for_deletion who t0 x) w" using Cons.prems(2) by simp
  have "\<not> live_id w1 (res_ID x)" using tree_gone [OF wf _ tr _ _ f] k Cons.prems(2) by simp
  moreover have "live_from w1 w'" using keepsD [OF live.keeps_forE [OF live_tree [OF mark_deleted]] rest] .
  ultimately have "\<not> live_id w' (res_ID x)" by (rule not_live_stays)
  have "withers (family (env_registry env) x) w w1"
    using keeps_onD [OF tree_withers [OF wf] f tr] k Cons.prems(2) by (simp add: family_def row_key_def)
  then have "\<forall>z\<in>set xs. tracked z w1" using Cons.prems(2,3) by (auto intro: sibling_tracked [OF wf])
  then have "\<forall>z\<in>set xs. \<not> live_id w' (res_ID z)" using Cons.IH [OF rest] Cons.prems(2,3) by simp
  with \<open>\<not> live_id w' (res_ID x)\<close> show ?case by simp
qed simp

lemma children_gone:
  assumes wf: "well_founded_kinds (env_registry env)" and K: "res_Kind r \<noteq> []"
    and c: "c \<in> set (ChildrenOf (env_registry env) (res_Kind r))" and tr: "tracked r w"
    and run: "delete_children (deleteResourceTree fuel env cx who t0) cx who t0 r c w = (Inr ys, w')"
  shows "childless cx (res_ID r) c w'"
proof -
  from run obtain items w1 where g: "FindByKindAndOwnerForUpdate cx (desc_Kind c) (res_ID r) w = (Inr items, w1)"
    and f: "forE items (\<lambda>x. deleteResourceTree fuel env cx who t0 (mark_for_deletion who t0 x)) w1 = (Inr ys, w')"
    by (auto simp: delete_children_def elim: call_InrE)
  have "schema_ok (w_tables w)" using tr by (simp add: tracked_def)
  note t = items_tracked [OF g this]
  have gone: "\<forall>x\<in>set items. \<not> live_id w' (res_ID x)"
    using siblings_gone [OF wf child_kind [OF wf c] f _ t(1)] t(2) by blast
  have "withers (below (env_registry env) (res_Kind r)) w w'"
    using keeps_onD [OF children_withers [OF wf K c tree_withers [OF wf]] run tr] .
  then have rows: "rows_from (t_resources (w_tables w)) (t_resources (w_tables w'))" by (simp add: withers_def)
  show ?thesis
    unfolding childless_def
  proof (intro ballI impI notI)
    fix y assume y: "y \<in> set (t_resources (w_tables w'))" "in_scope cx y" "res_Kind y = desc_Kind c"
        "res_OwnerID y = Some (res_ID r)" "res_DeletedTime y = None"
    with rows obtain x where x: "x \<in> set (t_resources (w_tables w))" "withered x y" by (auto simp: rows_from_def)
    note xf = withered_fields [OF x(2)]
    have "withAssociations (w_tables w) x \<in> set items"
      using x(1) y xf unfolding items_facts(2) [OF g] by auto
    with gone have "\<not> live_id w' (res_ID y)" using xf(1) by fastforce
    with y show False by (auto simp: live_id_def)
  qed
qed

lemma checkCanDelete_InrE:
  assumes "checkCanDelete cx r c w = (Inr u, w')"
  shows "childless cx (res_ID r) c w'"
  using assms
  by (auto simp: checkCanDelete_def ExistsByOwner_def scopedExists_def childless_def list_ex_iff returnE_run
      elim!: call_InrE query_InrE split: if_splits)

lemma tree_childless:
  assumes wf: "well_founded_kinds (env_registry env)" and K: "res_Kind r \<noteq> []" and tr: "tracked r w"
    and run: "deleteResourceTree fuel env cx who t0 r w = (Inr x, w')"
    and c: "c \<in> set (ChildrenOf (env_registry env) (res_Kind r))"
      "desc_OnParentDelete c \<in> {OnParentDeleteRestrict, OnParentDeleteCascade}"
  shows "childless cx (res_ID r) c w'"
proof (cases fuel)
  case (Suc n)
  let ?ch = "ChildrenOf (env_registry env) (res_Kind r)"
  from tree_InrE [OF wf K tr run [unfolded Suc]] obtain u1 w1 deleted w2 w3 where
      a: "forE (filter (\<lambda>c. desc_OnParentDelete c = OnParentDeleteRestrict) ?ch) (checkCanDelete cx r) w = (Inr u1, w1)"
    and t1: "tracked r w1"
    and b: "cascade (deleteResourceTree n env cx who t0) cx who t0 r ?ch w1 = (Inr deleted, w2)"
    and steps: "withers (below (env_registry env) (res_Kind r)) w1 w2" "withers {} w2 w3" "withers (family (env_registry env) r) w3 w'"
    by metis
  have "tracked r w1 \<and> withers {} w w1 \<and>
      (\<forall>d\<in>set (filter (\<lambda>c. desc_OnParentDelete c = OnParentDeleteRestrict) ?ch). childless cx (res_ID r) d w1)"
    using a tr
  proof (rule forE_each)
    show "tracked r v' \<and> withers {} v v'" if "tracked r v" "checkCanDelete cx r d v = (Inr y, v')" for d v y v'
      using keepsD [OF withers.delete_checks_keep(1) that(2), of "{}"] tracked_quiet [OF that(1)] by simp
  qed (auto intro: childless_stable withers.R_refl withers.R_trans checkCanDelete_InrE)
  then have restrict: "childless cx (res_ID r) d w1" if "d \<in> set ?ch" "desc_OnParentDelete d = OnParentDeleteRestrict" for d
    using that by simp
  have cascade: "childless cx (res_ID r) d w2" if "d \<in> set ?ch" "desc_OnParentDelete d = OnParentDeleteCascade" for d
  proof -
    have step: "keeps_on (tracked r) (withers (below (env_registry env) (res_Kind r)))
        (delete_children (deleteResourceTree n env cx who t0) cx who t0 r d)" if "d \<in> set ?ch" for d
      using wf K that tree_withers [OF wf] by (rule children_withers)
    have "tracked r w2 \<and> withers (below (env_registry env) (res_Kind r)) w1 w2 \<and>
        (\<forall>d\<in>set (filter (\<lambda>c. desc_OnParentDelete c = OnParentDeleteCascade) ?ch). childless cx (res_ID r) d w2)"
      using b [unfolded cascade_def] t1
    proof (rule forE_each)
      show "childless cx (res_ID r) d v'" if "d \<in> set (filter (\<lambda>c. desc_OnParentDelete c = OnParentDeleteCascade) ?ch)"
          "tracked r v" "delete_children (deleteResourceTree n env cx who t0) cx who t0 r d v = (Inr y, v')" for d v y v'
        using children_gone [OF wf K _ that(2,3)] that(1) by simp
      show "tracked r v' \<and> withers (below (env_registry env) (res_Kind r)) v v'"
        if "d \<in> set (filter (\<lambda>c. desc_OnParentDelete c = OnParentDeleteCascade) ?ch)"
          "tracked r v" "delete_children (deleteResourceTree n env cx who t0) cx who t0 r d v = (Inr y, v')" for d v y v'
        using keeps_onD [OF step that(3,2)] that(1) tracked_below [OF wf that(2)] by simp
    qed (auto intro: childless_stable withers.R_refl withers.R_trans)
    with that show ?thesis by simp
  qed
  have "childless cx (res_ID r) c w2"
    using c restrict cascade childless_stable [OF _ steps(1)] by auto
  then show ?thesis using childless_stable steps(2,3) by blast
qed (use run in \<open>simp add: raiseE_run\<close>)

lemma delete_tx_InrE:
  assumes "delete_tx env cx kind i ownerID w = (Inr x, w')"
  obtains old v now where "old \<in> set (t_resources (w_tables w))" "in_scope cx old" "res_Kind old = kind" "res_ID old = i"
    "ownerID = [] \<or> res_OwnerID old = Some ownerID" "w_tables v = w_tables w"
    "deleteResourceTree (Suc (length (env_registry env))) env cx (actorFromContext cx) now
       (mark_for_deletion (actorFromContext cx) now (withAssociations (w_tables w) old)) v = (Inr x, w')"
proof -
  from assms obtain old v where old: "old \<in> set (t_resources (w_tables w))" "in_scope cx old" "res_Kind old = kind" "res_ID old = i"
      "ownerID = [] \<or> res_OwnerID old = Some ownerID" and v: "w_tables v = w_tables w"
      and k: "bindE (time_Now env) (\<lambda>now.
        deleteResourceTree (Suc (length (env_registry env))) env cx (actorFromContext cx) (truncate_us now)
       (mark_for_deletion (actorFromContext cx) (truncate_us now) (withAssociations (w_tables w) old))) v = (Inr x, w')"
    unfolding delete_tx_def Let_def by (rule load_for_write_InrE)
  from k obtain now v1 where t: "time_Now env v = (Inr now, v1)" and d: "deleteResourceTree (Suc (length (env_registry env))) env cx
       (actorFromContext cx) (truncate_us now)
       (mark_for_deletion (actorFromContext cx) (truncate_us now) (withAssociations (w_tables w) old)) v1 = (Inr x, w')"
    by (auto elim: bindE_InrE)
  have "w_tables v1 = w_tables w" using keepsD [OF time_Now_same t] v by (simp add: same_tables_def)
  with old d that show ?thesis by blast
qed

lemma deleteResource_InrE:
  assumes "deleteResource env cx kind i ownerID w = (Inr r, w')"
  obtains x w1 w2 where "w_tables w1 = w_tables w" "delete_tx env cx kind i ownerID w1 = (Inr x, w2)" "w_tables w' = w_tables w2"
    "Get (env_registry env) kind \<noteq> None"
proof -
  from assms obtain x v where d: "Do (delete_tx env cx kind i ownerID) w = (Inr x, v)" and v: "w_tables w' = w_tables v"
      and ok: "validateWriteKind env kind ownerID = None"
    unfolding deleteResource_def
    by (auto simp: record_started_run bindE_run returnE_run elim!: check_InrE call_InrE)
  from ok have "Get (env_registry env) kind \<noteq> None"
    by (auto simp: validateWriteKind_def validateKind_def split: if_splits)
  moreover from d obtain w1 w2 where "w_tables w1 = w_tables w" "delete_tx env cx kind i ownerID w1 = (Inr x, w2)"
      "w_tables v = w_tables w2" by (rule Do_Inr)
  ultimately show ?thesis using v that by simp
qed

lemma delete_rows_tx:
  assumes wf: "well_founded_kinds (env_registry env)" and ok: "schema_ok (w_tables w)" and K: "kind \<noteq> []"
    and run: "delete_tx env cx kind i ownerID w = (Inr x, w')"
  obtains old where "old \<in> set (t_resources (w_tables w))" "in_scope cx old" "res_Kind old = kind" "res_ID old = i"
    "ownerID = [] \<or> res_OwnerID old = Some ownerID" "withers (family (env_registry env) old) w w'"
    "\<not> live_id w' i"
    "\<And>c. c \<in> set (ChildrenOf (env_registry env) kind) \<Longrightarrow>
        desc_OnParentDelete c \<in> {OnParentDeleteRestrict, OnParentDeleteCascade} \<Longrightarrow> childless cx i c w'"
proof -
  from run obtain old v now where old: "old \<in> set (t_resources (w_tables w))" "in_scope cx old" "res_Kind old = kind" "res_ID old = i"
      "ownerID = [] \<or> res_OwnerID old = Some ownerID" and v: "w_tables v = w_tables w"
    and d: "deleteResourceTree (Suc (length (env_registry env))) env cx (actorFromContext cx) now
       (mark_for_deletion (actorFromContext cx) now (withAssociations (w_tables w) old)) v = (Inr x, w')"
    by (rule delete_tx_InrE)
  let ?r = "mark_for_deletion (actorFromContext cx) now (withAssociations (w_tables w) old)"
  have r: "res_Kind ?r = kind" "res_ID ?r = i" "row_key ?r = row_key old" "in_scope cx ?r"
    using old by (simp_all add: row_key_def)
  have tr: "tracked ?r v" using tracked_of_row [of v old] ok old(1) v by simp
  have "withers (family (env_registry env) ?r) v w'" by (rule keeps_onD [OF tree_withers [OF wf] d tr]) (simp add: old(3) K)
  then have "withers (family (env_registry env) old) w w'"
    using r old(3) v by (simp add: family_def withers_def keeps_schema_def)
  moreover have "\<not> live_id w' i" using tree_gone [OF wf _ tr r(4) mark_deleted d] old(3,4) K by simp
  moreover have "childless cx i c w'" if "c \<in> set (ChildrenOf (env_registry env) kind)"
      "desc_OnParentDelete c \<in> {OnParentDeleteRestrict, OnParentDeleteCascade}" for c
    using tree_childless [OF wf _ tr d _ that(2)] that(1) old(3,4) K by simp
  ultimately show ?thesis using old that by blast
qed

lemma registry_kind_nonempty: "registry_ok ds \<Longrightarrow> Get ds k \<noteq> None \<Longrightarrow> k \<noteq> []"
  by (auto simp: registry_ok_def list_all_iff dest: Get_Some)

lemma sound_well_founded: "registry_ok ds \<Longrightarrow> registry_sound ds \<Longrightarrow> well_founded_kinds ds"
  by (simp add: well_founded_kinds_def registry_sound_def)


section \<open>The fuel is enough\<close>

definition fueled :: "'a op \<Rightarrow> bool" where
  "fueled m \<longleftrightarrow> (\<forall>w. fst (m w) \<noteq> Inl OutOfFuel)"

lemma fueledI: "(\<And>w w'. m w \<noteq> (Inl OutOfFuel, w')) \<Longrightarrow> fueled m"
  unfolding fueled_def by (metis prod.collapse)

lemma fueledD: "fueled m \<Longrightarrow> m w \<noteq> (Inl OutOfFuel, w')"
  unfolding fueled_def by (metis fst_conv)

lemma svc_err_fuel [simp]: "svc_err h f = OutOfFuel \<longleftrightarrow> f = OutOfFuel" "wrap_err pre f = OutOfFuel \<longleftrightarrow> f = OutOfFuel"
  by (cases f; simp)+

lemma fueled_call:
  assumes "fueled m" "\<And>f. h f = OutOfFuel \<Longrightarrow> f = OutOfFuel" "\<And>w x w'. m w = (Inr x, w') \<Longrightarrow> fueled (k x)"
  shows "fueled (call m h k)"
  unfolding fueled_def
proof (rule allI)
  fix w
  obtain res v where m: "m w = (res, v)" by (cases "m w")
  show "fst (call m h k w) \<noteq> Inl OutOfFuel"
  proof (cases res)
    case (Inl f)
    with m fueledD [OF assms(1)] have "f \<noteq> OutOfFuel" by blast
    with Inl m assms(2) show ?thesis by (auto simp: call_run)
  next
    case (Inr x)
    with m assms(3) show ?thesis by (simp add: call_run fueled_def)
  qed
qed

lemma fueled_bindE: "fueled m \<Longrightarrow> (\<And>w x w'. m w = (Inr x, w') \<Longrightarrow> fueled (k x)) \<Longrightarrow> fueled (bindE m k)"
  unfolding bindE_def by (rule fueled_call) auto

lemma fueled_forE: "(\<And>x. x \<in> set xs \<Longrightarrow> fueled (f x)) \<Longrightarrow> fueled (forE xs f)"
proof (induction xs)
  case Nil
  show ?case by (simp add: fueled_def returnE_run)
next
  case (Cons x xs)
  then show ?case unfolding forE.simps by (intro fueled_bindE) (auto simp: fueled_def returnE_run)
qed

lemma fueled_basic:
  "fueled (returnE x)" "f \<noteq> OutOfFuel \<Longrightarrow> fueled (raiseE f)" "fueled (time_Now env)" "fueled (query q)" "fueled (execute e)"
  "fueled (statement s)" "fueled (must env kind)" "fueled (NewID env)" "fueled (apply_mapper env r statuses t)"
  by (auto simp: fueled_def returnE_run raiseE_run time_Now_def query_def execute_def statement_def must_def MustGet_def NewID_def
      apply_mapper_def split: list.splits option.splits prod.splits sum.splits registry_fault.splits)

lemma fueled_if: "fueled m \<Longrightarrow> fueled n \<Longrightarrow> fueled (if b then m else n)"
  by simp

lemma fueled_cases:
  "(\<And>a b. fueled (g a b)) \<Longrightarrow> fueled (case p of (a, b) \<Rightarrow> g a b)"
  "fueled m \<Longrightarrow> (\<And>x. fueled (k x)) \<Longrightarrow> fueled (case c of None \<Rightarrow> m | Some x \<Rightarrow> k x)"
  by (cases p; simp) (cases c; simp)

lemma fueled_svc:
  "fueled m \<Longrightarrow> (\<And>w x w'. m w = (Inr x, w') \<Longrightarrow> fueled (k x)) \<Longrightarrow> fueled (call m (svc_err h) k)"
  "fueled m \<Longrightarrow> (\<And>w x w'. m w = (Inr x, w') \<Longrightarrow> fueled (k x)) \<Longrightarrow> fueled (call m (wrap_err pre) k)"
  by (auto intro: fueled_call)

lemma fueled_raise: "fueled (raiseE (Svc e))" "fueled (raiseE (Db d))"
  by (auto intro: fueled_basic(2))

lemma fueled_check: "fueled k \<Longrightarrow> fueled (check c k)"
  by (auto simp: check_def guardE_def fueled_raise split: option.splits)

lemma fueled_call_else:
  assumes "fueled m" "\<And>f. f \<noteq> OutOfFuel \<Longrightarrow> fueled (h f)" "\<And>w x w'. m w = (Inr x, w') \<Longrightarrow> fueled (k x)"
  shows "fueled (call_else m h k)"
  unfolding fueled_def
proof (rule allI)
  fix w
  obtain res v where m: "m w = (res, v)" by (cases "m w")
  show "fst (call_else m h k w) \<noteq> Inl OutOfFuel"
  proof (cases res)
    case (Inl f)
    with m fueledD [OF assms(1)] have "f \<noteq> OutOfFuel" by blast
    with Inl m assms(2) show ?thesis by (simp add: call_else_def fueled_def)
  next
    case (Inr x)
    with m assms(3) show ?thesis by (simp add: call_else_def fueled_def)
  qed
qed

lemma fueled_on_db_error: "(\<And>e. fueled (h e)) \<Longrightarrow> f \<noteq> OutOfFuel \<Longrightarrow> fueled (on_db_error h f)"
  by (cases f) (auto intro: fueled_basic(2))

lemma fueled_Do:
  assumes "fueled m"
  shows "fueled (Do m)"
proof (rule fueledI)
  have q: "query q w \<noteq> (Inl OutOfFuel, w')" for q :: "tables \<Rightarrow> db_error + unit" and w w' using fueled_basic(4) fueledD by blast
  fix w w' show "Do m w \<noteq> (Inl OutOfFuel, w')"
    unfolding Do_def using q fueledD [OF assms] by (auto split: prod.splits sum.splits)
qed

lemmas fueled_rules = fueled_basic(1) fueled_basic(3-) fueled_raise fueled_svc fueled_check fueled_if fueled_cases
  fueled_bindE fueled_forE

lemma fueled_dao:
  "fueled (FindByKindAndOwnerForUpdate cx kind oi)" "fueled (ExistsByOwner cx kind oi)" "fueled (Exists cx kind i)"
  "fueled (ExistsSoftDeletedByOwner cx kinds oi)" "fueled (FindReferencers cx ti)" "fueled (FindByResource kind i)"
  "fueled (FindChildrenForUpdate cx oi)" "fueled (FindExternalReferenceCounts ts ss)"
  "fueled (GetForUpdate cx kind i)" "fueled (GetForUpdateByOwner cx kind i ok oi)"
  "fueled (GetRowForUpdate cx kind i)" "fueled (GetRowForUpdateByOwner cx kind i ok oi)"
  "fueled (Save env r)" "fueled (ReplaceReferences i fs)" "fueled (ResourceDao_Delete cx kind i)"
  "fueled (UpdateConditions env i cs)" "fueled (DeleteIDs cx ids)" "fueled (DeleteByResourceIDs ids)"
  "fueled (DeleteReferencesByTargets ids)"
  unfolding FindByKindAndOwnerForUpdate_def ExistsByOwner_def Exists_def scopedExists_def ExistsSoftDeletedByOwner_def
    FindReferencers_def FindByResource_def FindChildrenForUpdate_def FindExternalReferenceCounts_def
    GetForUpdate_def GetForUpdateByOwner_def GetRowForUpdate_def GetRowForUpdateByOwner_def take_resource_def take_row_def
    Save_def Resource_BeforeUpdate_def ReplaceReferences_def replace_rows_def ResourceDao_Delete_def UpdateConditions_def
    DeleteIDs_def DeleteByResourceIDs_def DeleteReferencesByTargets_def Let_def
  by (intro fueled_rules)+

lemma fueled_any_active_child: "fueled (any_active_child cx i cs)"
  by (induction cs) (auto intro!: fueled_rules fueled_dao)

lemma fueled_recompute: "fueled (recomputeAndSaveResourceConditions env cx r statuses)"
  unfolding recomputeAndSaveResourceConditions_def childrenRemainDuringDelete_def hasChildren_def
    saveAggregatedResourceConditions_def Let_def
  by (intro fueled_rules fueled_dao fueled_any_active_child)

lemma fueled_delete_parts:
  "fueled (checkCanDelete cx r child)" "fueled (checkReferencers cx r)" "fueled (shouldSoftDelete env cx r children)"
  "fueled (finish_delete env cx r outcomes s)"
  unfolding checkCanDelete_def checkReferencers_def shouldSoftDelete_def finish_delete_def soft_delete_def
  by (intro fueled_rules fueled_dao fueled_recompute)+

lemma fueled_owned_error: "fueled (handleOwnedGetError env cx kind i ownerID e)"
  unfolding handleOwnedGetError_def by (intro fueled_rules fueled_dao)

lemma fueled_record: "fueled (record_started os)"
  by (simp add: fueled_def record_started_run)

lemma fueled_load:
  assumes "\<And>r. res_Kind r = kind \<Longrightarrow> fueled (k r)"
  shows "fueled (load_for_write env cx kind i ownerID h k)"
  unfolding load_for_write_def
proof (rule fueled_call_else)
  show "fueled (getForUpdate env cx kind i ownerID)"
    unfolding getForUpdate_def by (intro fueled_rules fueled_dao)
  show "fueled (k r)" if "getForUpdate env cx kind i ownerID w = (Inr r, w')" for w r w'
  proof -
    from that have "res_Kind r = kind" by (rule getForUpdate_InrE) simp
    then show ?thesis by (rule assms)
  qed
  show "fueled (on_db_error (\<lambda>e. if ownerID \<noteq> [] then handleOwnedGetError env cx kind i ownerID e
      else raiseE (Svc (h e))) f)" if "f \<noteq> OutOfFuel" for f
    using that by (intro fueled_on_db_error fueled_if fueled_owned_error fueled_raise)
qed

lemma fueled_tree:
  assumes wf: "well_founded_kinds (env_registry env)"
  shows "res_Kind r \<noteq> [] \<Longrightarrow> card (owned_below (env_registry env) (res_Kind r)) < fuel \<Longrightarrow>
    fueled (deleteResourceTree fuel env cx who t0 r)"
proof (induction fuel arbitrary: r)
  case (Suc fuel)
  have child: "fueled (deleteResourceTree fuel env cx who t0 (mark_for_deletion who t0 x))"
    if c: "c \<in> set (ChildrenOf (env_registry env) (res_Kind r))" and x: "res_Kind x = desc_Kind c" for c x
  proof (rule Suc.IH)
    show "res_Kind (mark_for_deletion who t0 x) \<noteq> []" using x child_kind [OF wf c] by simp
    have "card (owned_below (env_registry env) (desc_Kind c)) < card (owned_below (env_registry env) (res_Kind r))"
      using wf c Suc.prems(1) by (intro owned_below_child) (auto simp: well_founded_kinds_def)
    then show "card (owned_below (env_registry env) (res_Kind (mark_for_deletion who t0 x))) < fuel"
      using x Suc.prems(2) by simp
  qed
  have "fueled (delete_children (deleteResourceTree fuel env cx who t0) cx who t0 r c)"
    if "c \<in> set (ChildrenOf (env_registry env) (res_Kind r))" for c
    unfolding delete_children_def
    by (intro fueled_svc fueled_forE fueled_dao child [OF that]) (auto simp: items_facts(2))
  then show ?case
    unfolding tree_unfold cascade_def Let_def by (intro fueled_rules fueled_delete_parts) auto
qed simp

text \<open>C39. The recursion of delete ends: for a validated registry it never goes deeper than the number of entity
  kinds, so the fuel of the model never runs out, whatever the rows, the caller and the failures.\<close>

theorem delete_terminates:
  assumes "registry_ok (env_registry env)" and "registry_sound (env_registry env)"
  shows "fst (deleteResource env cx kind i ownerID w) \<noteq> Inl OutOfFuel"
proof -
  note wf = sound_well_founded [OF assms]
  have tree: "fueled (deleteResourceTree (Suc (length (env_registry env))) env cx who t0 (mark_for_deletion who t0 r))"
    if "res_Kind r \<noteq> []" for who t0 r
    using that owned_below_bound [of "env_registry env" "res_Kind r"] by (intro fueled_tree [OF wf]) auto
  have tx: "fueled (delete_tx env cx kind i ownerID)" if "kind \<noteq> []"
    unfolding delete_tx_def Let_def
    by (intro fueled_load fueled_bindE fueled_basic tree) (use that in simp)
  show ?thesis
  proof (cases "validateWriteKind env kind ownerID")
    case None
    then have "kind \<noteq> []"
      using registry_kind_nonempty [OF assms(1), of kind] by (auto simp: validateWriteKind_def validateKind_def split: if_splits)
    then have "fueled (deleteResource env cx kind i ownerID)"
      unfolding deleteResource_def
      by (intro fueled_check fueled_call fueled_Do tx fueled_cases fueled_bindE fueled_record fueled_basic)
         (auto elim: serviceErrorFromTransaction.elims)
    then show ?thesis by (simp add: fueled_def)
  next
    case (Some e)
    then have "fueled (deleteResource env cx kind i ownerID)"
      by (simp add: deleteResource_def check_def guardE_def fueled_raise split: option.split)
    then show ?thesis by (simp add: fueled_def)
  qed
qed

text \<open>Force-delete walks along the rows: who owns whom among them.\<close>

definition owns :: "tables \<Rightarrow> (string \<times> string) set" where
  "owns t = {(res_ID x, j) | x j. x \<in> set (t_resources t) \<and> res_OwnerID x = Some j}"

definition ids_below :: "tables \<Rightarrow> string \<Rightarrow> string set" where
  "ids_below t i = {j. (j, i) \<in> (owns t)\<^sup>+}"

lemma ids_below_subset: "ids_below t i \<subseteq> res_ID ` set (t_resources t)"
  by (auto simp: ids_below_def owns_def dest!: tranclD)

lemma ids_below_bound: "card (ids_below t i) \<le> length (t_resources t)"
  using card_mono [OF _ ids_below_subset] card_image_le [of "set (t_resources t)" res_ID] card_length [of "t_resources t"]
  by (meson List.finite_set finite_imageI le_trans)

lemma ids_below_child:
  assumes "acyclic (owns t)" "x \<in> set (t_resources t)" "res_OwnerID x = Some i"
  shows "card (ids_below t (res_ID x)) < card (ids_below t i)"
proof (rule psubset_card_mono)
  show "finite (ids_below t i)" by (rule finite_subset [OF ids_below_subset]) simp
  have edge: "(res_ID x, i) \<in> owns t" using assms(2,3) by (auto simp: owns_def)
  then have "ids_below t (res_ID x) \<subseteq> ids_below t i" by (auto simp: ids_below_def intro: trancl_into_trancl)
  moreover have "res_ID x \<in> ids_below t i" using edge by (auto simp: ids_below_def)
  moreover have "res_ID x \<notin> ids_below t (res_ID x)" using assms(1) by (auto simp: ids_below_def acyclic_def)
  ultimately show "ids_below t (res_ID x) \<subset> ids_below t i" by blast
qed

definition fueled_at :: "tables \<Rightarrow> 'a op \<Rightarrow> bool" where
  "fueled_at t m \<longleftrightarrow> (\<forall>w. w_tables w = t \<longrightarrow> fst (m w) \<noteq> Inl OutOfFuel)"

lemma collect_reads: "keeps same_tables (collect fuel cx r)"
  by (induction fuel arbitrary: r) (auto intro!: reading.keeps_rules dao_reads_same)

lemma fueled_at_bindE:
  assumes "fueled_at t m" "keeps same_tables m" "\<And>w x w'. w_tables w = t \<Longrightarrow> m w = (Inr x, w') \<Longrightarrow> fueled_at t (k x)"
  shows "fueled_at t (bindE m k)"
  unfolding fueled_at_def
proof (intro allI impI)
  fix w :: world assume w: "w_tables w = t"
  obtain res v where m: "m w = (res, v)" by (cases "m w")
  have v: "w_tables v = t" using keepsD [OF assms(2) m] w by (simp add: same_tables_def)
  show "fst (bindE m k w) \<noteq> Inl OutOfFuel"
    using assms(1,3) w m v by (cases res) (auto simp: bindE_run fueled_at_def)
qed

lemma fueled_at_forE:
  assumes "\<And>x. x \<in> set xs \<Longrightarrow> fueled_at t (f x)" "\<And>x. keeps same_tables (f x)"
  shows "fueled_at t (forE xs f)"
  using assms(1)
proof (induction xs)
  case (Cons x xs)
  then show ?case
    unfolding forE.simps
    by (intro fueled_at_bindE assms(2) reading.keeps_forE) (auto simp: fueled_at_def returnE_run)
qed (simp add: fueled_at_def returnE_run)

lemma fueled_at: "fueled m \<Longrightarrow> fueled_at t m"
  by (simp add: fueled_def fueled_at_def)

lemma collect_fueled:
  assumes "acyclic (owns t)"
  shows "card (ids_below t (res_ID p)) < fuel \<Longrightarrow> fueled_at t (collect fuel cx p)"
proof (induction fuel arbitrary: p)
  case (Suc fuel)
  have child: "fueled_at t (collect fuel cx c)"
    if "w_tables w = t" "FindChildrenForUpdate cx (res_ID p) w = (Inr children, w')" "c \<in> set children" for w w' children c
  proof -
    have "c \<in> set (t_resources t)" "res_OwnerID c = Some (res_ID p)"
      using that by (auto simp: FindChildrenForUpdate_def elim!: query_InrE)
    from ids_below_child [OF assms this] Suc.prems show ?thesis by (intro Suc.IH) simp
  qed
  show ?case
    unfolding collect.simps
  proof (rule fueled_at_bindE)
    show "fueled_at t (FindChildrenForUpdate cx (res_ID p))" by (intro fueled_at fueled_dao)
    show "keeps same_tables (FindChildrenForUpdate cx (res_ID p))" by (intro dao_reads_same)
    fix w children w' assume w: "w_tables w = t" "FindChildrenForUpdate cx (res_ID p) w = (Inr children, w')"
    show "fueled_at t (bindE (forE children (\<lambda>child. bindE (collect fuel cx child) (\<lambda>below. returnE (child # below))))
        (\<lambda>trees. returnE (concat trees)))"
      by (intro fueled_at_bindE fueled_at_forE child [OF w] collect_reads reading.keeps_rules fueled_at [OF fueled_basic(1)])
  qed
qed simp

lemma fueled_at_call_else:
  assumes "fueled_at t m" "keeps same_tables m" "\<And>f. f \<noteq> OutOfFuel \<Longrightarrow> fueled (h f)" "\<And>x. fueled_at t (k x)"
  shows "fueled_at t (call_else m h k)"
  unfolding fueled_at_def
proof (intro allI impI)
  fix w :: world assume w: "w_tables w = t"
  obtain res v where m: "m w = (res, v)" by (cases "m w")
  have v: "w_tables v = t" using keepsD [OF assms(2) m] w by (simp add: same_tables_def)
  show "fst (call_else m h k w) \<noteq> Inl OutOfFuel"
  proof (cases res)
    case (Inl f)
    then have "f \<noteq> OutOfFuel" using assms(1) w m by (auto simp: fueled_at_def)
    with Inl m assms(3) show ?thesis by (simp add: call_else_def fueled_def)
  next
    case (Inr x)
    with m v assms(4) show ?thesis by (simp add: call_else_def fueled_at_def)
  qed
qed

lemma fueled_at_call:
  assumes "fueled_at t m" "\<And>f. h f = OutOfFuel \<Longrightarrow> f = OutOfFuel" "\<And>x. fueled (k x)"
  shows "fueled_at t (call m h k)"
  unfolding fueled_at_def
proof (intro allI impI)
  fix w :: world assume w: "w_tables w = t"
  obtain res v where m: "m w = (res, v)" by (cases "m w")
  then show "fst (call m h k w) \<noteq> Inl OutOfFuel"
    using assms w by (cases res) (auto simp: call_run fueled_at_def fueled_def)
qed

lemma fueled_at_Do:
  assumes "fueled_at t m"
  shows "fueled_at t (Do m)"
  unfolding fueled_at_def
proof (intro allI impI)
  have q: "query q w \<noteq> (Inl OutOfFuel, w')" for q :: "tables \<Rightarrow> db_error + unit" and w w' using fueled_basic(4) fueledD by blast
  fix w :: world assume w: "w_tables w = t"
  obtain r1 w1 where b: "query (\<lambda>_. Inr ()) w = (r1, w1)" by (cases "query (\<lambda>_. Inr () :: db_error + unit) w")
  have "w_tables w1 = t" using keepsD [OF query_same b] w by (simp add: same_tables_def)
  then have "fst (m w1) \<noteq> Inl OutOfFuel" using assms by (simp add: fueled_at_def)
  then show "fst (Do m w) \<noteq> Inl OutOfFuel"
    unfolding Do_def using q b by (auto split: prod.splits sum.splits)
qed

lemma force_tx_fueled:
  assumes "acyclic (owns t)"
  shows "fueled_at t (forceDeleteTx env cx kind i ownerID)"
proof -
  have collect: "fueled_at t (collectForceDeletionResources cx r)" for r
    unfolding fueled_at_def
  proof (intro allI impI)
    fix w :: world assume w: "w_tables w = t"
    have "card (ids_below t (res_ID r)) < Suc (length (t_resources t))" using ids_below_bound [of t "res_ID r"] by simp
    then have "fueled_at t (bindE (collect (Suc (length (t_resources t))) cx r) (\<lambda>below. returnE (r # below)))"
      by (intro fueled_at_bindE collect_fueled [OF assms] collect_reads fueled_at [OF fueled_basic(1)])
    then show "fst (collectForceDeletionResources cx r w) \<noteq> Inl OutOfFuel"
      using w by (simp add: collectForceDeletionResources_def fueled_at_def)
  qed
  show ?thesis
    unfolding forceDeleteTx_def deleteResourceRows_def Let_def
  proof (rule fueled_at_call_else)
    show "fueled_at t (getRowForUpdate env cx kind i ownerID)"
      unfolding getRowForUpdate_def by (intro fueled_at fueled_rules fueled_dao)
    show "keeps same_tables (getRowForUpdate env cx kind i ownerID)"
      unfolding getRowForUpdate_def by (intro reading.keeps_rules dao_reads_same must_same)
    show "fueled (on_db_error (\<lambda>e. case forceDeleteTransactionConflict e of
          Some c \<Rightarrow> raiseE (Svc c)
        | None \<Rightarrow> if ownerID \<noteq> [] then handleOwnedGetError env cx kind i ownerID e
                  else raiseE (Svc (handleGetError kind i e))) f)" if "f \<noteq> OutOfFuel" for f
      using that by (intro fueled_on_db_error fueled_cases fueled_if fueled_owned_error fueled_raise)
    fix r
    have rest: "fueled (bindE (DeleteReferencesByTargets ids) (\<lambda>_. bindE (DeleteByResourceIDs ids) (\<lambda>_. DeleteIDs cx ids)))" for ids
      by (intro fueled_bindE fueled_dao)
    show "fueled_at t (if res_DeletedTime r = None then
          raiseE (Svc (ConflictState ''%s '%s' is not in Finalizing state'' [FS kind, FS i]))
        else call (collectForceDeletionResources cx r) (svc_err (or_conflict (general_err ''force-delete failed''))) (\<lambda>resources.
          call (FindExternalReferenceCounts (map res_ID resources) (map res_ID resources))
            (svc_err (or_conflict (general_err ''force-delete failed''))) (\<lambda>counts.
          check (validateRemainingReferenceMins env kind (res_Name r) counts) (
          call (bindE (DeleteReferencesByTargets (map res_ID resources)) (\<lambda>_.
              bindE (DeleteByResourceIDs (map res_ID resources)) (\<lambda>_. DeleteIDs cx (map res_ID resources))))
            (svc_err (or_conflict (handleDeleteError kind))) (\<lambda>_. returnE resources)))))"
      by (cases "res_DeletedTime r = None")
         (auto intro!: fueled_at_call collect fueled_svc fueled_check fueled_dao fueled_at [OF fueled_raise(1)] rest fueled_basic(1))
  qed
qed

lemma force_delete_error_fuel: "force_delete_error f = OutOfFuel \<Longrightarrow> f = OutOfFuel"
  by (cases f) (auto split: option.splits)

text \<open>C40. The walk of force-delete ends: as long as no resource owns itself, directly or through others, it
  visits each row once at most, so the fuel of the model, the number of rows, never runs out.\<close>

theorem force_delete_terminates:
  assumes "acyclic (owns (w_tables w))"
  shows "fst (forceDelete env cx kind i ownerID w) \<noteq> Inl OutOfFuel"
proof -
  have "fueled_at (w_tables w) (call (Do (forceDeleteTx env cx kind i ownerID)) force_delete_error (\<lambda>_. returnE ()))"
    by (rule fueled_at_call [OF fueled_at_Do [OF force_tx_fueled [OF assms]] force_delete_error_fuel fueled_basic(1)])
  then have "fst (call (Do (forceDeleteTx env cx kind i ownerID)) force_delete_error (\<lambda>_. returnE ()) w) \<noteq> Inl OutOfFuel"
    unfolding fueled_at_def by blast
  then show ?thesis
    by (simp add: forceDelete_def check_def guardE_run split: option.splits)
qed

section \<open>Deletes on a small database\<close>

text \<open>A cluster that owns a node pool; the cluster is live or marked for deletion.\<close>

definition family_tables :: "gotime option \<Rightarrow> tables" where
  "family_tables deleted = empty_tables\<lparr>t_resources := [strip (sample_resource\<lparr>res_DeletedTime := deleted\<rparr>),
     strip (sample_resource\<lparr>res_ID := ''np1'', res_Kind := ''NodePool'', res_OwnerID := Some ''c1''\<rparr>)]\<rparr>"

lemma family_schema_ok: "schema_ok (family_tables d)"
  by (simp add: family_tables_def empty_tables_def schema_ok_def names_ok_def rows_ok_def links_ok_def
      same_name_slot_def sample_resource_def jsonEqual_def strip_def)

lemma family_acyclic: "acyclic (owns (family_tables d))"
proof -
  have "owns (family_tables d) \<subseteq> {(''np1'', ''c1'')}"
    by (auto simp: owns_def family_tables_def sample_resource_def strip_def)
  moreover have "acyclic {(''np1'', ''c1'')}"
    by (rule acyclicI) (auto elim: tranclE dest: tranclD)
  ultimately show ?thesis by (rule acyclic_subset [rotated])
qed

lemma sample_env_sound: "registry_ok (env_registry sample_env)" "registry_sound (env_registry sample_env)"
  by (simp_all add: sample_env_def sample_registry_ok sample_registry_sound)


lemma delete_terminates_witness:
  "fst (deleteResource sample_env sample_caller ''Cluster'' ''c1'' [] (calm (family_tables None))) \<noteq> Inl OutOfFuel"
  using sample_env_sound by (rule delete_terminates)

lemma force_delete_terminates_witness:
  "fst (forceDelete sample_env sample_caller ''Cluster'' ''c1'' [] (calm (family_tables (Some 7)))) \<noteq> Inl OutOfFuel"
  by (rule force_delete_terminates) (simp add: family_acyclic)

end
