(* ===== verification/Search.thy ===== *)
theory Search
  imports Resource_Service
begin

text \<open>
  The walker that turns a parsed search query into a parameterized SQL condition (\<open>pkg/db/sql_tsl.go\<close>).

  The parser of the query language is not part of the repository: \<open>tsl_node\<close> has the node kinds and
  operators the walker tells apart, \<open>NilNode\<close> is Go's nil.  A timestamp literal is carried as the text
  \<open>Format(RFC3339Nano)\<close> gives for it.  How Go prints a \<open>float64\<close> matters for two error messages only and
  is a parameter.  The walker's mutable \<open>conditionSubfield\<close> is threaded through the calls.
\<close>

section \<open>Parsed queries\<close>

datatype tsl_op =
    OpEQ | OpNE | OpLT | OpLE | OpGT | OpGE
  | OpAnd | OpOr | OpNot | OpUMinus
  | OpIn | OpBetween | OpIs | OpLike | OpILike
  | OpOther string

datatype tsl_node =
    NilNode
  | IdentNode string
  | StringLit string
  | NumLit rat
  | BoolLit bool
  | TimestampLit string
  | DateLit string
  | NullLit
  | ExprNode tsl_op tsl_node tsl_node
  | ArrayLit "tsl_node list"
  | OtherNode

datatype sql_arg = AStr string | ANum rat | ABool bool

record walk_env =
  we_TableName :: string
  we_float_text :: "rat \<Rightarrow> string"

definition resourceLabelsTable :: string where "resourceLabelsTable = ''resource_labels''"
definition resourceConditionsTable :: string where "resourceConditionsTable = ''resource_conditions''"
definition conditionStatusField :: string where "conditionStatusField = ''status''"

definition is_key_char :: "char \<Rightarrow> bool" where
  "is_key_char c \<longleftrightarrow> is_lower c \<or> is_digit c \<or> c = CHR ''_''"

definition jsonbKeyPattern :: "string \<Rightarrow> bool" where
  "jsonbKeyPattern s \<longleftrightarrow> s \<noteq> [] \<and> list_all is_key_char s"

definition conditionTypePattern :: "string \<Rightarrow> bool" where
  "conditionTypePattern s \<longleftrightarrow> s \<noteq> [] \<and> is_upper (hd s) \<and> list_all (\<lambda>c. is_alpha c \<or> is_digit c) (tl s)"

definition conditionAllowedStatuses :: "string list" where
  "conditionAllowedStatuses = [''True'', ''False'', ''Unknown'']"

definition conditionAllowedSubfields :: "string list" where
  "conditionAllowedSubfields = [''last_updated_time'', ''last_transition_time'', ''observed_generation'']"

fun comparisonOperators :: "tsl_op \<Rightarrow> string option" where
  "comparisonOperators OpEQ = Some ''=''"
| "comparisonOperators OpNE = Some ''!=''"
| "comparisonOperators OpLT = Some ''<''"
| "comparisonOperators OpLE = Some ''<=''"
| "comparisonOperators OpGT = Some ''>''"
| "comparisonOperators OpGE = Some ''>=''"
| "comparisonOperators _ = None"

text \<open>The library's name of an operator the walker does not know; no other operator gets into a message.\<close>

fun op_text :: "tsl_op \<Rightarrow> string" where
  "op_text (OpOther s) = s"
| "op_text _ = []"

definition prefixStatusConditions :: "string \<Rightarrow> bool" where
  "prefixStatusConditions s \<longleftrightarrow> HasPrefix s ''status.conditions.''"

definition prefixSpec :: "string \<Rightarrow> bool" where "prefixSpec s \<longleftrightarrow> HasPrefix s ''spec.''"

definition prefixLabels :: "string \<Rightarrow> bool" where "prefixLabels s \<longleftrightarrow> HasPrefix s ''labels.''"

text \<open>The top-level columns that take one kind of literal.\<close>

datatype typed_kind = WantNumeric | WantTimestamp

definition searchTypedFields :: "(string \<times> typed_kind) list" where
  "searchTypedFields = [(''generation'', WantNumeric), (''created_time'', WantTimestamp),
     (''updated_time'', WantTimestamp), (''deleted_time'', WantTimestamp)]"

fun typedKindHints :: "typed_kind \<Rightarrow> string" where
  "typedKindHints WantNumeric = ''an integer''"
| "typedKindHints WantTimestamp = ''an RFC3339 timestamp (e.g. 2026-01-01T00:00:00Z)''"

section \<open>Checks\<close>

fun isConditionNode :: "tsl_node \<Rightarrow> bool" where
  "isConditionNode (IdentNode name) = prefixStatusConditions name"
| "isConditionNode _ = False"

definition literal_only :: service_error where
  "literal_only = BadRequest ''search comparisons must reference a field; literal-only comparisons are not allowed'' []"

fun requirePredicate :: "tsl_node \<Rightarrow> service_error option" where
  "requirePredicate NilNode = None"
| "requirePredicate (ExprNode _ _ _) = None"
| "requirePredicate _ = Some literal_only"

fun isConstantExpr :: "tsl_node \<Rightarrow> bool" where
  "isConstantExpr (IdentNode _) = False"
| "isConstantExpr (ExprNode _ l r) = (isConstantExpr l \<and> isConstantExpr r)"
| "isConstantExpr _ = True"

fun has_kind :: "typed_kind \<Rightarrow> tsl_node \<Rightarrow> bool" where
  "has_kind WantNumeric (NumLit _) = True"
| "has_kind WantTimestamp (TimestampLit _) = True"
| "has_kind WantTimestamp (DateLit _) = True"
| "has_kind _ _ = False"

definition validateTypedNode :: "string \<Rightarrow> typed_kind \<Rightarrow> tsl_node \<Rightarrow> service_error option" where
  "validateTypedNode field wantKind value =
     (if value = NilNode then Some (BadRequest (''missing value for field '%s'' @ [CHR 0x27]) [FS field])
      else if value = NullLit \<or> has_kind wantKind value then None
      else Some (BadRequest ''field '%s' expects %s'' [FS field, FS (typedKindHints wantKind)]))"

definition tracked_field :: "tsl_node \<Rightarrow> (string \<times> typed_kind) option" where
  "tracked_field n = (case n of
     IdentNode field \<Rightarrow> map_option (Pair field) (map_of searchTypedFields field) | _ \<Rightarrow> None)"

definition validateTypedSide :: "tsl_node \<Rightarrow> tsl_node \<Rightarrow> service_error option" where
  "validateTypedSide ident value =
     (case tracked_field ident of None \<Rightarrow> None | Some (field, k) \<Rightarrow> validateTypedNode field k value)"

fun first_error :: "('a \<Rightarrow> 'e option) \<Rightarrow> 'a list \<Rightarrow> 'e option" where
  "first_error f [] = None"
| "first_error f (x # xs) = (case f x of Some e \<Rightarrow> Some e | None \<Rightarrow> first_error f xs)"

fun array_values :: "tsl_node \<Rightarrow> tsl_node list option" where
  "array_values (ArrayLit vs) = Some vs"
| "array_values _ = None"

definition validateTypedArray :: "tsl_node \<Rightarrow> tsl_node \<Rightarrow> service_error option" where
  "validateTypedArray ident arr =
     (case tracked_field ident of
        None \<Rightarrow> None
      | Some (field, k) \<Rightarrow>
          (case array_values arr of None \<Rightarrow> None | Some vs \<Rightarrow> first_error (validateTypedNode field k) vs))"

definition validateJSONBKey :: "string \<Rightarrow> string \<Rightarrow> service_error option" where
  "validateJSONBKey key fieldType =
     (if key = [] then Some (BadRequest ''%s cannot be empty'' [FS fieldType])
      else if \<not> jsonbKeyPattern key then
        Some (BadRequest ''%s '%s' is invalid: must contain only lowercase letters, digits, and underscores''
          [FS fieldType, FS key])
      else None)"

text \<open>\<open>time.Parse(time.RFC3339, s)\<close> succeeds: the hour may have one digit, a fraction of any length after a
  point or a comma may follow the seconds, and the zone is \<open>Z\<close> or an offset.\<close>

fun digits_value :: "string \<Rightarrow> nat" where
  "digits_value s = foldl (\<lambda>n c. 10 * n + (of_char c - 48)) 0 s"

definition number_at :: "nat \<Rightarrow> string \<Rightarrow> (nat \<times> string) option" where
  "number_at n s = (if length s \<ge> n \<and> list_all is_digit (take n s) then Some (digits_value (take n s), drop n s) else None)"

definition hour_at :: "string \<Rightarrow> (nat \<times> string) option" where
  "hour_at s = (case number_at 2 s of Some x \<Rightarrow> Some x | None \<Rightarrow> number_at 1 s)"

definition expect :: "char \<Rightarrow> string \<Rightarrow> string option" where
  "expect c s = (case s of [] \<Rightarrow> None | d # s' \<Rightarrow> if d = c then Some s' else None)"

definition leap_year :: "nat \<Rightarrow> bool" where
  "leap_year y \<longleftrightarrow> y mod 4 = 0 \<and> (y mod 100 \<noteq> 0 \<or> y mod 400 = 0)"

definition days_in :: "nat \<Rightarrow> nat \<Rightarrow> nat" where
  "days_in m y = (if m = 2 then (if leap_year y then 29 else 28) else if m \<in> {4, 6, 9, 11} then 30 else 31)"

definition skip_fraction :: "string \<Rightarrow> string" where
  "skip_fraction s = (case s of
     p # d # s' \<Rightarrow> if (p = CHR ''.'' \<or> p = CHR '','') \<and> is_digit d then dropWhile is_digit s' else s
   | _ \<Rightarrow> s)"

definition zone_ok :: "string \<Rightarrow> bool" where
  "zone_ok s = (case s of
     [] \<Rightarrow> False
   | c # s' \<Rightarrow>
       if c = CHR ''Z'' then s' = []
       else if c = CHR ''+'' \<or> c = CHR ''-'' then
         (case number_at 2 s' of None \<Rightarrow> False | Some (h, s1) \<Rightarrow>
         (case expect (CHR '':'') s1 of None \<Rightarrow> False | Some s2 \<Rightarrow>
         (case number_at 2 s2 of None \<Rightarrow> False | Some (m, s3) \<Rightarrow> h \<le> 24 \<and> m \<le> 60 \<and> s3 = [])))
       else False)"

definition clock_ok :: "string \<Rightarrow> bool" where
  "clock_ok s =
     (case hour_at s of None \<Rightarrow> False | Some (h, s1) \<Rightarrow>
     (case expect (CHR '':'') s1 of None \<Rightarrow> False | Some s2 \<Rightarrow>
     (case number_at 2 s2 of None \<Rightarrow> False | Some (mi, s3) \<Rightarrow>
     (case expect (CHR '':'') s3 of None \<Rightarrow> False | Some s4 \<Rightarrow>
     (case number_at 2 s4 of None \<Rightarrow> False | Some (sec, s5) \<Rightarrow>
        h < 24 \<and> mi < 60 \<and> sec < 60 \<and> zone_ok (skip_fraction s5))))))"

definition parses_RFC3339 :: "string \<Rightarrow> bool" where
  "parses_RFC3339 s =
     (case number_at 4 s of None \<Rightarrow> False | Some (y, s1) \<Rightarrow>
     (case expect (CHR ''-'') s1 of None \<Rightarrow> False | Some s2 \<Rightarrow>
     (case number_at 2 s2 of None \<Rightarrow> False | Some (m, s3) \<Rightarrow>
     (case expect (CHR ''-'') s3 of None \<Rightarrow> False | Some s4 \<Rightarrow>
     (case number_at 2 s4 of None \<Rightarrow> False | Some (d, s5) \<Rightarrow>
     (case expect (CHR ''T'') s5 of None \<Rightarrow> False | Some s6 \<Rightarrow>
        1 \<le> m \<and> m \<le> 12 \<and> 1 \<le> d \<and> d \<le> days_in m y \<and> clock_ok s6))))))"

definition Trunc :: "rat \<Rightarrow> rat" where
  "Trunc f = (if f < 0 then of_int (- \<lfloor>- f\<rfloor>) else of_int \<lfloor>f\<rfloor>)"

definition unsupported_subfield_op :: "tsl_op \<Rightarrow> service_error" where
  "unsupported_subfield_op op =
     BadRequest ''operator '%s' is not supported for condition subfield queries; use =, !=, <, <=, >, or >='' [FS (op_text op)]"

fun validateConditionComparison :: "(rat \<Rightarrow> string) \<Rightarrow> tsl_op \<Rightarrow> string \<Rightarrow> sql_arg list \<Rightarrow> service_error option" where
  "validateConditionComparison ft op subfield [] = None"
| "validateConditionComparison ft op subfield (a # as) =
     (if subfield = conditionStatusField then
        if op \<noteq> OpEQ then
          Some (BadRequest ''only equality operator (=) is supported for condition status queries'' [])
        else (case a of
                AStr s \<Rightarrow> if s \<in> set conditionAllowedStatuses then None
                          else Some (BadRequest ''condition status '%s' is invalid: must be True, False, or Unknown'' [FS s])
              | _ \<Rightarrow> None)
      else if subfield = ''last_updated_time'' \<or> subfield = ''last_transition_time'' then
        if comparisonOperators op = None then Some (unsupported_subfield_op op)
        else (case a of
                AStr s \<Rightarrow> if parses_RFC3339 s then None
                  else Some (BadRequest ''invalid timestamp for condition subfield: expected RFC3339 format (e.g., 2026-01-01T00:00:00Z)'' [])
              | _ \<Rightarrow> None)
      else if subfield = ''observed_generation'' then
        if comparisonOperators op = None then Some (unsupported_subfield_op op)
        else (case a of
                ANum f \<Rightarrow>
                  if f \<noteq> Trunc f then
                    Some (BadRequest ''expected integer value for condition subfield 'observed_generation', got %v'' [FS (ft f)])
                  else if f < - 2147483648 \<or> f > 2147483647 then
                    Some (BadRequest (''value %v is out of 32-bit integer range for condition subfield 'observed_generation'' @ [CHR 0x27])
                      [FS (ft f)])
                  else None
              | _ \<Rightarrow> None)
      else Some (BadRequest ''condition subfield '%s' has no comparison validation configured'' [FS subfield]))"

section \<open>Columns\<close>

text \<open>A walker takes the \<open>conditionSubfield\<close> it finds and returns SQL, arguments and the one it leaves.\<close>

type_synonym walker = "string \<Rightarrow> service_error + (string \<times> sql_arg list \<times> string)"

definition bindS :: "'e + 'a \<Rightarrow> ('a \<Rightarrow> 'e + 'b) \<Rightarrow> 'e + 'b" where
  "bindS x f = (case x of Inl e \<Rightarrow> Inl e | Inr a \<Rightarrow> f a)"

definition guardS :: "'e option \<Rightarrow> 'e + 'b \<Rightarrow> 'e + 'b" where
  "guardS c x = (case c of Some e \<Rightarrow> Inl e | None \<Rightarrow> x)"

definition resolveLabelColumn :: "string \<Rightarrow> string \<Rightarrow> walker" where
  "resolveLabelColumn tbl name sub =
     (let key = CutPrefix name ''labels.'' in
      if key = [] then Inl (BadRequest ''label key cannot be empty'' [])
      else Inr (''(SELECT value FROM '' @ resourceLabelsTable @ '' WHERE '' @ resourceLabelsTable @
                  ''.resource_id = '' @ tbl @ ''.id AND '' @ resourceLabelsTable @ ''.key = ?)'',
                [AStr key], sub))"

definition resolveStatusConditionColumn :: "string \<Rightarrow> string \<Rightarrow> walker" where
  "resolveStatusConditionColumn tbl name sub =
     (let typeFull = CutPrefix name ''status.conditions.'' in
      if typeFull = [] then Inl (BadRequest ''condition type cannot be empty'' [])
      else let typeParts = Split (CHR ''.'') typeFull in
        if length typeParts > 2 then
          Inl (BadRequest ''invalid condition format: expected status.conditions.<Type> or status.conditions.<Type>.<subfield>'' [])
        else let typeName = hd typeParts in
          if \<not> conditionTypePattern typeName then
            Inl (BadRequest ''condition type '%s' is invalid: must be PascalCase (e.g., Reconciled, Available)'' [FS typeName])
          else let subfield = (if length typeParts = 2 then typeParts ! 1 else conditionStatusField) in
            if length typeParts = 2 \<and> subfield \<notin> set conditionAllowedSubfields then
              Inl (BadRequest ''condition subfield '%s' is not supported; use last_updated_time, last_transition_time, or observed_generation''
                [FS subfield])
            else Inr (''(SELECT rc.'' @ subfield @ '' FROM '' @ resourceConditionsTable @
                        '' rc WHERE rc.resource_id = '' @ tbl @ ''.id AND rc.type = ?)'',
                      [AStr typeName], subfield))"

fun spec_path :: "string list \<Rightarrow> string" where
  "spec_path [] = []"
| "spec_path [p] = ''->>'' @ [CHR 0x27] @ p @ [CHR 0x27]"
| "spec_path (p # ps) = ''->'' @ [CHR 0x27] @ p @ [CHR 0x27] @ spec_path ps"

definition resolveSpecColumn :: "string \<Rightarrow> walker" where
  "resolveSpecColumn name sub =
     (let parts = Split (CHR ''.'') (CutPrefix name ''spec.'') in
      guardS (first_error (\<lambda>p. validateJSONBKey p ''spec field segment'') parts)
        (Inr (''spec'' @ spec_path parts, [], sub)))"

definition resolveField :: "string \<Rightarrow> string \<Rightarrow> walker" where
  "resolveField tbl name sub =
     (let trimmedName = TrimSpace name; fieldParts = Split (CHR ''.'') trimmedName in
      if list_ex (\<lambda>p. validateJSONBKey p ''field'' \<noteq> None) fieldParts \<or> length fieldParts \<noteq> 1
      then Inl (BadRequest ''%s is not a valid field name'' [FS name])
      else Inr (tbl @ ''.'' @ trimmedName, [], sub))"

definition resolveColumn :: "string \<Rightarrow> bool \<Rightarrow> string \<Rightarrow> walker" where
  "resolveColumn tbl inNot name sub =
     (if prefixLabels name then
        if inNot then Inl (BadRequest ''NOT operator is not supported with label queries'' [])
        else resolveLabelColumn tbl name sub
      else if prefixStatusConditions name then
        if inNot then Inl (BadRequest ''NOT operator is not supported with condition queries'' [])
        else resolveStatusConditionColumn tbl name sub
      else if prefixSpec name then resolveSpecColumn name sub
      else resolveField tbl name sub)"

section \<open>The walk\<close>

text \<open>Each function gets the operands and their walkers, in the order the code calls them.\<close>

definition walkLogical :: "tsl_op \<Rightarrow> tsl_node \<Rightarrow> tsl_node \<Rightarrow> walker \<Rightarrow> walker \<Rightarrow> walker" where
  "walkLogical op l r walkL walkR sub =
     guardS (requirePredicate l) (guardS (requirePredicate r) (
     bindS (walkL sub) (\<lambda>(leftSQL, leftArgs, sub1).
     bindS (walkR sub1) (\<lambda>(rightSQL, rightArgs, sub2).
     Inr (''('' @ leftSQL @ '') '' @ (if op = OpAnd then ''AND'' else ''OR'') @ '' ('' @ rightSQL @ '')'',
          leftArgs @ rightArgs, sub2)))))"

definition first_numeric :: "sql_arg list \<Rightarrow> bool" where
  "first_numeric args = (case args of ANum _ # _ \<Rightarrow> True | _ \<Rightarrow> False)"

definition is_numeric :: "sql_arg \<Rightarrow> bool" where
  "is_numeric a = (case a of ANum _ \<Rightarrow> True | _ \<Rightarrow> False)"

definition cast_if :: "bool \<Rightarrow> string \<Rightarrow> string" where
  "cast_if numeric sql =
     (if HasPrefix sql ''spec->'' \<and> numeric then ''CAST('' @ sql @ '' AS numeric)'' else sql)"

definition walkComparison :: "(rat \<Rightarrow> string) \<Rightarrow> tsl_op \<Rightarrow> tsl_node \<Rightarrow> tsl_node \<Rightarrow> walker \<Rightarrow> walker \<Rightarrow> walker" where
  "walkComparison ft op l r walkL walkR sub =
     (if isConstantExpr l \<and> isConstantExpr r then Inl literal_only
      else guardS (validateTypedSide l r) (guardS (validateTypedSide r l) (
      bindS (walkL sub) (\<lambda>(leftSQL, leftArgs, sub1).
      bindS (walkR sub1) (\<lambda>(rightSQL, rightArgs, sub2).
      case comparisonOperators op of
        None \<Rightarrow> Inl (BadRequest ''unsupported comparison operator: %s'' [FS (op_text op)])
      | Some sqlOp \<Rightarrow>
          guardS (if sub2 = [] then None
                  else validateConditionComparison ft op sub2 (if isConditionNode r then leftArgs else rightArgs))
            (Inr (cast_if (first_numeric rightArgs) leftSQL @ '' '' @ sqlOp @ '' '' @ cast_if (first_numeric leftArgs) rightSQL,
                  leftArgs @ rightArgs, [])))))))"

definition walkIn :: "tsl_node \<Rightarrow> walker \<Rightarrow>
    (string \<Rightarrow> service_error + ((string \<times> sql_arg list) list \<times> string)) option \<Rightarrow> tsl_node \<Rightarrow> walker" where
  "walkIn l walkL walkValues r sub =
     (if isConditionNode l then
        Inl (BadRequest ''IN is not supported for condition queries; use comparison operators (=, !=, <, <=, >, >=)'' [])
      else if isConstantExpr l then Inl literal_only
      else guardS (validateTypedArray l r) (
      bindS (walkL sub) (\<lambda>(leftSQL, leftArgs, sub1).
      case walkValues of
        None \<Rightarrow> Inl (BadRequest ''expected array on right side of IN'' [])
      | Some vals \<Rightarrow>
          bindS (vals sub1) (\<lambda>(items, sub2).
          let rightArgs = concat (map snd items) in
          Inr (cast_if (rightArgs \<noteq> [] \<and> list_all is_numeric rightArgs) leftSQL @ '' IN ('' @
                 Join '', '' (map fst items) @ '')'',
               leftArgs @ rightArgs, sub2)))))"

definition walkBetween :: "tsl_node \<Rightarrow> walker \<Rightarrow>
    (string \<Rightarrow> service_error + ((string \<times> sql_arg list) list \<times> string)) option \<Rightarrow> nat \<Rightarrow> walker" where
  "walkBetween l walkL walkValues n sub =
     (if isConditionNode l then
        Inl (BadRequest ''BETWEEN is not supported for condition queries; use comparison operators (=, !=, <, <=, >, >=)'' [])
      else if isConstantExpr l then Inl literal_only
      else bindS (walkL sub) (\<lambda>(leftSQL, leftArgs, sub1).
      if n \<noteq> 2 then Inl (BadRequest ''BETWEEN requires exactly 2 values'' [])
      else case walkValues of
        None \<Rightarrow> Inl (BadRequest ''BETWEEN requires exactly 2 values'' [])
      | Some vals \<Rightarrow>
          bindS (vals sub1) (\<lambda>(items, sub2).
          case items of
            [(lowSQL, lowArgs), (highSQL, highArgs)] \<Rightarrow>
              Inr (cast_if (first_numeric lowArgs \<and> first_numeric highArgs) leftSQL @ '' BETWEEN '' @ lowSQL @ '' AND '' @ highSQL,
                   leftArgs @ lowArgs @ highArgs, sub2)
          | _ \<Rightarrow> Inl (BadRequest ''BETWEEN requires exactly 2 values'' []))))"

definition walkIsNull :: "tsl_node \<Rightarrow> walker \<Rightarrow> walker" where
  "walkIsNull l walkL sub =
     (if isConstantExpr l then Inl literal_only
      else bindS (walkL sub) (\<lambda>(leftSQL, leftArgs, sub1). Inr (leftSQL @ '' IS NULL'', leftArgs, [])))"

definition walkStringMatch :: "tsl_op \<Rightarrow> tsl_node \<Rightarrow> tsl_node \<Rightarrow> walker \<Rightarrow> walker \<Rightarrow> walker" where
  "walkStringMatch op l r walkL walkR sub =
     (if isConditionNode l then
        Inl (BadRequest ''LIKE/ILIKE is not supported for condition queries; use comparison operators (=, !=, <, <=, >, >=)'' [])
      else if isConstantExpr l \<and> isConstantExpr r then Inl literal_only
      else bindS (walkL sub) (\<lambda>(leftSQL, leftArgs, sub1).
      bindS (walkR sub1) (\<lambda>(rightSQL, rightArgs, sub2).
      Inr (leftSQL @ '' '' @ (if op = OpILike then ''ILIKE'' else ''LIKE'') @ '' '' @ rightSQL, leftArgs @ rightArgs, sub2))))"

definition walkNot :: "tsl_node \<Rightarrow> walker \<Rightarrow> walker" where
  "walkNot r walkChild sub =
     guardS (requirePredicate r) (
     bindS (walkChild []) (\<lambda>(childSQL, childArgs, _). Inr (''NOT ('' @ childSQL @ '')'', childArgs, sub)))"

definition walkUMinus :: "walker \<Rightarrow> walker" where
  "walkUMinus walkR sub = bindS (walkR sub) (\<lambda>(childSQL, childArgs, sub1). Inr (''(-'' @ childSQL @ '')'', childArgs, sub1))"

fun walkNode :: "walk_env \<Rightarrow> bool \<Rightarrow> tsl_node \<Rightarrow> walker"
  and walkValues :: "walk_env \<Rightarrow> bool \<Rightarrow> tsl_node list \<Rightarrow> string \<Rightarrow> service_error + ((string \<times> sql_arg list) list \<times> string)"
where
  "walkNode we inNot NilNode sub = Inr ([], [], sub)"
| "walkNode we inNot (IdentNode name) sub = resolveColumn (we_TableName we) inNot name sub"
| "walkNode we inNot (StringLit s) sub = Inr (''?'', [AStr s], sub)"
| "walkNode we inNot (NumLit f) sub = Inr (''?'', [ANum f], sub)"
| "walkNode we inNot (BoolLit b) sub = Inr (''?'', [ABool b], sub)"
| "walkNode we inNot (TimestampLit s) sub = Inr (''?'', [AStr s], sub)"
| "walkNode we inNot (DateLit s) sub = Inr (''?'', [AStr s], sub)"
| "walkNode we inNot NullLit sub = Inr (''NULL'', [], sub)"
| "walkNode we inNot (ArrayLit vs) sub =
     bindS (walkValues we inNot vs sub) (\<lambda>(items, sub1).
     Inr (''('' @ Join '', '' (map fst items) @ '')'', concat (map snd items), sub1))"
| "walkNode we inNot OtherNode sub = Inl (BadRequest ''unsupported node type in search query'' [])"
| "walkNode we inNot (ExprNode op l r) sub =
     (case op of
        OpAnd \<Rightarrow> walkLogical op l r (walkNode we inNot l) (walkNode we inNot r) sub
      | OpOr \<Rightarrow> walkLogical op l r (walkNode we inNot l) (walkNode we inNot r) sub
      | OpIn \<Rightarrow> walkIn l (walkNode we inNot l)
          (case r of ArrayLit vs \<Rightarrow> Some (walkValues we inNot vs) | _ \<Rightarrow> None) r sub
      | OpBetween \<Rightarrow> walkBetween l (walkNode we inNot l)
          (case r of ArrayLit vs \<Rightarrow> Some (walkValues we inNot vs) | _ \<Rightarrow> None)
          (case r of ArrayLit vs \<Rightarrow> length vs | _ \<Rightarrow> 0) sub
      | OpIs \<Rightarrow> walkIsNull l (walkNode we inNot l) sub
      | OpLike \<Rightarrow> walkStringMatch op l r (walkNode we inNot l) (walkNode we inNot r) sub
      | OpILike \<Rightarrow> walkStringMatch op l r (walkNode we inNot l) (walkNode we inNot r) sub
      | OpNot \<Rightarrow> walkNot r (walkNode we True r) sub
      | OpUMinus \<Rightarrow> walkUMinus (walkNode we inNot r) sub
      | _ \<Rightarrow> walkComparison (we_float_text we) op l r (walkNode we inNot l) (walkNode we inNot r) sub)"
| "walkValues we inNot [] sub = Inr ([], sub)"
| "walkValues we inNot (v # vs) sub =
     bindS (walkNode we inNot v sub) (\<lambda>(s, a, sub1).
     bindS (walkValues we inNot vs sub1) (\<lambda>(items, sub2). Inr ((s, a) # items, sub2)))"

definition TSLToSQL :: "walk_env \<Rightarrow> tsl_node \<Rightarrow> service_error + (string \<times> sql_arg list)" where
  "TSLToSQL we node =
     guardS (requirePredicate node)
       (bindS (walkNode we False node []) (\<lambda>(sql, args, _). Inr (sql, args)))"

section \<open>The SQL of a query is contained\<close>

text \<open>
  The emitted text goes into the statement next to the tenancy clause, so it must not close a
  parenthesis it did not open, nor start a comment, a string or another statement.  \<open>scan\<close> reads it with
  the depth of parentheses, whether a quote is open and whether the last character was a dash; inside
  quotes only key characters pass, outside only those of names, operators and placeholders.
\<close>

definition plain_char :: "char \<Rightarrow> bool" where
  "plain_char c \<longleftrightarrow> is_alpha c \<or> is_digit c \<or> c \<in> {CHR ''_'', CHR ''.'', CHR '' '', CHR '','', CHR ''?'',
     CHR ''='', CHR ''!'', CHR ''<'', CHR ''>''}"

fun scan_step :: "nat \<times> bool \<times> bool \<Rightarrow> char \<Rightarrow> (nat \<times> bool \<times> bool) option" where
  "scan_step (d, quoted, dash) c =
     (if quoted then
        if c = CHR 0x27 then Some (d, False, False) else if is_key_char c then Some (d, True, False) else None
      else if c = CHR 0x27 then Some (d, True, False)
      else if c = CHR ''('' then Some (d + 1, False, False)
      else if c = CHR '')'' then if d = 0 then None else Some (d - 1, False, False)
      else if c = CHR ''-'' then if dash then None else Some (d, False, True)
      else if plain_char c then Some (d, False, False) else None)"

fun scan :: "nat \<times> bool \<times> bool \<Rightarrow> string \<Rightarrow> (nat \<times> bool \<times> bool) option" where
  "scan st [] = Some st"
| "scan st (c # s) = (case scan_step st c of None \<Rightarrow> None | Some st' \<Rightarrow> scan st' s)"

definition sql_contained :: "string \<Rightarrow> bool" where
  "sql_contained s \<longleftrightarrow> scan (0, False, False) s = Some (0, False, False)"

definition placeholders :: "string \<Rightarrow> nat" where
  "placeholders s = length (filter (\<lambda>c. c = CHR ''?'') s)"

lemma placeholders_simps [simp]:
  "placeholders [] = 0" "placeholders (s @ t) = placeholders s + placeholders t"
  "placeholders (c # s) = (if c = CHR ''?'' then 1 else 0) + placeholders s"
  by (simp_all add: placeholders_def)

lemma scan_append: "scan st (s @ t) = (case scan st s of None \<Rightarrow> None | Some st' \<Rightarrow> scan st' t)"
  by (induction s arbitrary: st) (auto split: option.splits)

text \<open>A piece leaves depth and quotes as they were; a fragment may also follow a dash.\<close>

definition piece :: "string \<Rightarrow> bool" where
  "piece s \<longleftrightarrow> (\<forall>d. scan (d, False, False) s = Some (d, False, False))"

definition frag :: "string \<Rightarrow> bool" where
  "frag s \<longleftrightarrow> piece s \<and> (s \<noteq> [] \<longrightarrow> (\<forall>d. scan (d, False, True) s = Some (d, False, False)))"

lemma frag_Nil [simp]: "frag []" "piece []"
  by (simp_all add: frag_def piece_def)

lemma frag_piece: "frag s \<Longrightarrow> piece s"
  by (simp add: frag_def)

lemma piece_append: "piece s \<Longrightarrow> piece t \<Longrightarrow> piece (s @ t)"
  by (simp add: piece_def scan_append)

lemma frag_append: "frag s \<Longrightarrow> frag t \<Longrightarrow> frag (s @ t)"
  by (cases "s = []") (auto simp: frag_def piece_def scan_append)

lemma frag_Cons: "plain_char c \<and> c \<notin> {CHR 0x27, CHR ''('', CHR '')'', CHR ''-''} \<Longrightarrow> piece s \<Longrightarrow> frag (c # s)"
  by (auto simp: frag_def piece_def)

lemma frag_parens: "frag s \<Longrightarrow> frag (CHR ''('' # s @ '')'')"
  by (auto simp: frag_def piece_def scan_append)

lemma frag_minus: "frag s \<Longrightarrow> frag (CHR ''('' # CHR ''-'' # s @ '')'')"
  by (cases "s = []") (auto simp: frag_def piece_def scan_append)

lemma key_char_plain: "is_key_char c \<Longrightarrow> plain_char c \<and> c \<notin> {CHR 0x27, CHR ''('', CHR '')'', CHR ''-'', CHR ''?''}"
  by (auto simp: is_key_char_def plain_char_def is_alpha_def is_lower_def is_digit_def)

lemma alnum_plain: "is_alpha c \<or> is_digit c \<Longrightarrow> plain_char c \<and> c \<notin> {CHR 0x27, CHR ''('', CHR '')'', CHR ''-'', CHR ''?''}"
  by (auto simp: plain_char_def is_alpha_def is_lower_def is_upper_def is_digit_def)

lemma frag_plain: "\<forall>c\<in>set s. plain_char c \<and> c \<notin> {CHR 0x27, CHR ''('', CHR '')'', CHR ''-'', CHR ''?''} \<Longrightarrow>
    frag s \<and> placeholders s = 0"
  by (induction s) (auto intro!: frag_Cons frag_piece)

lemma quoted_key: "list_all is_key_char p \<Longrightarrow> scan (d, True, m) (p @ CHR 0x27 # s) = scan (d, False, False) s"
  by (induction p arbitrary: m) (auto simp: is_key_char_def is_lower_def is_digit_def)

lemma spec_path_piece:
  "list_all jsonbKeyPattern ps \<Longrightarrow> piece (spec_path ps) \<and> placeholders (spec_path ps) = 0"
proof (induction ps rule: spec_path.induct)
  case (2 p)
  then have "list_all is_key_char p" by (simp add: jsonbKeyPattern_def)
  then have "placeholders p = 0" by (induction p) (auto dest: key_char_plain)
  with \<open>list_all is_key_char p\<close> show ?case by (simp add: piece_def quoted_key plain_char_def)
next
  case (3 p q ps)
  then have "list_all is_key_char p" by (simp add: jsonbKeyPattern_def)
  then have "placeholders p = 0" by (induction p) (auto dest: key_char_plain)
  with 3 \<open>list_all is_key_char p\<close> show ?case by (simp add: piece_def quoted_key plain_char_def)
qed simp

definition good_sql :: "string \<Rightarrow> sql_arg list \<Rightarrow> bool" where
  "good_sql s args \<longleftrightarrow> frag s \<and> placeholders s = length args"

definition sound_walk :: "walker \<Rightarrow> bool" where
  "sound_walk f \<longleftrightarrow> (\<forall>sub s a sub'. f sub = Inr (s, a, sub') \<longrightarrow> good_sql s a)"

definition sound_values :: "(string \<Rightarrow> service_error + ((string \<times> sql_arg list) list \<times> string)) \<Rightarrow> bool" where
  "sound_values f \<longleftrightarrow> (\<forall>sub items sub'. f sub = Inr (items, sub') \<longrightarrow> (\<forall>it\<in>set items. good_sql (fst it) (snd it)))"

lemma sound_walkD: "sound_walk f \<Longrightarrow> f sub = Inr (s, a, sub') \<Longrightarrow> good_sql s a"
  by (auto simp: sound_walk_def)

lemma sound_valuesD: "sound_values f \<Longrightarrow> f sub = Inr (items, sub') \<Longrightarrow> \<forall>it\<in>set items. good_sql (fst it) (snd it)"
  by (auto simp: sound_values_def)

lemma bindS_Inr [simp]: "bindS x f = Inr y \<longleftrightarrow> (\<exists>z. x = Inr z \<and> f z = Inr y)"
  by (cases x) (auto simp: bindS_def)

lemma guardS_Inr [simp]: "guardS c x = Inr y \<longleftrightarrow> c = None \<and> x = Inr y"
  by (cases c) (auto simp: guardS_def)

definition word_char :: "char \<Rightarrow> bool" where
  "word_char c \<longleftrightarrow> plain_char c \<and> c \<notin> {CHR 0x27, CHR ''('', CHR '')'', CHR ''-'', CHR ''?''}"

lemma good_plain: "list_all word_char s \<Longrightarrow> good_sql s []"
  using frag_plain [of s] by (auto simp: good_sql_def list_all_iff word_char_def)

lemma good_placeholder [simp]: "good_sql ''?'' [a]"
  by (simp add: good_sql_def frag_Cons plain_char_def)

lemma good_append: "good_sql s a \<Longrightarrow> good_sql t b \<Longrightarrow> good_sql (s @ t) (a @ b)"
  by (simp add: good_sql_def frag_append)

lemma good_infix: "good_sql s a \<Longrightarrow> good_sql m [] \<Longrightarrow> good_sql t b \<Longrightarrow> good_sql (s @ m @ t) (a @ b)"
  using good_append [of s a m "[]"] good_append [of "s @ m" a t b] by simp

lemma good_suffix: "good_sql s a \<Longrightarrow> good_sql m [] \<Longrightarrow> good_sql (s @ m) a"
  using good_append [of s a m "[]"] by simp

lemma good_prefix: "good_sql m [] \<Longrightarrow> good_sql s a \<Longrightarrow> good_sql (m @ s) a"
  using good_append [of m "[]" s a] by simp

lemma good_parens: "good_sql s a \<Longrightarrow> good_sql (''('' @ s @ '')'') a"
  by (simp add: good_sql_def frag_parens)

lemma good_minus: "good_sql s a \<Longrightarrow> good_sql (''(-'' @ s @ '')'') a"
  by (simp add: good_sql_def frag_minus)

lemma good_words:
  "good_sql '' AND '' []" "good_sql '' OR '' []" "good_sql '' IN '' []" "good_sql '' BETWEEN '' []" "good_sql '' IS NULL'' []"
  "good_sql '' LIKE '' []" "good_sql '' ILIKE '' []" "good_sql ''NOT '' []" "good_sql ''NULL'' []" "good_sql ''CAST'' []"
  "good_sql '' AS numeric'' []" "good_sql '', '' []" "good_sql ''spec'' []" "good_sql ''.'' []"
  "good_sql ''SELECT value FROM resource_labels WHERE resource_labels.resource_id = '' []"
  "good_sql ''.id AND resource_labels.key = '' []" "good_sql ''SELECT rc.'' []"
  "good_sql '' FROM resource_conditions rc WHERE rc.resource_id = '' []" "good_sql ''.id AND rc.type = '' []"
  by (rule good_plain, code_simp)+

lemma good_keys: "list_all is_key_char s \<Longrightarrow> good_sql s []"
  by (rule good_plain) (auto simp: list_all_iff word_char_def dest: key_char_plain)

lemma good_operator: "comparisonOperators op = Some s \<Longrightarrow> good_sql ('' '' @ s @ '' '') []"
proof -
  have "list_all word_char ('' '' @ s @ '' '')" if "s \<in> {''='', ''!='', ''<'', ''<='', ''>'', ''>=''}" for s
    using that by (auto simp: word_char_def plain_char_def is_alpha_def is_lower_def is_upper_def is_digit_def)
  then show "comparisonOperators op = Some s \<Longrightarrow> good_sql ('' '' @ s @ '' '') []"
    by (intro good_plain) (cases op; auto)
qed

lemma good_cast:
  assumes "good_sql s a"
  shows "good_sql (cast_if numeric s) a"
proof -
  have "good_sql (''CAST'' @ ''('' @ (s @ '' AS numeric'') @ '')'') a"
    by (intro good_prefix good_words good_parens good_suffix assms)
  with assms show ?thesis by (simp add: cast_if_def)
qed

lemma good_join:
  assumes "\<forall>it\<in>set items. good_sql (fst it) (snd it)"
  shows "good_sql (Join '', '' (map fst items)) (concat (map snd items))"
  using assms
proof (induction items)
  case (Cons it items)
  then show ?case
    using good_infix [of "fst it" "snd it" "'', ''"] good_words
    by (cases items) (auto simp: Join_Cons)
qed (simp add: good_sql_def)

section \<open>Every walker is sound\<close>

lemma first_error_none: "first_error f xs = None \<longleftrightarrow> (\<forall>x\<in>set xs. f x = None)"
  by (induction xs) auto

lemma validateJSONBKey_None: "validateJSONBKey k t = None \<longleftrightarrow> jsonbKeyPattern k"
  by (auto simp: validateJSONBKey_def jsonbKeyPattern_def)

lemma column_sound:
  assumes "list_all is_key_char tbl"
  shows "sound_walk (resolveColumn tbl inNot name)"
proof -
  have label: "good_sql (''('' @ (''SELECT value FROM resource_labels WHERE resource_labels.resource_id = '' @ tbl @
      (''.id AND resource_labels.key = '' @ ''?'')) @ '')'') [a]" for a
    by (intro good_parens good_prefix good_words good_keys assms good_placeholder)
  have cond: "good_sql (''('' @ (''SELECT rc.'' @ f @ '' FROM resource_conditions rc WHERE rc.resource_id = '' @ tbl @
      (''.id AND rc.type = '' @ ''?'')) @ '')'') [a]" if "list_all is_key_char f" for a f
    by (intro good_parens good_prefix good_words good_keys assms that good_placeholder)
  have field: "list_all is_key_char f" if "f = conditionStatusField \<or> f \<in> set conditionAllowedSubfields" for f
    using that by (auto simp: conditionStatusField_def conditionAllowedSubfields_def is_key_char_def is_lower_def is_digit_def)
  have "good_sql s a" if "resolveLabelColumn tbl name sub = Inr (s, a, sub')" for sub s a sub'
    using that label by (auto simp: resolveLabelColumn_def Let_def resourceLabelsTable_def split: if_splits)
  moreover have "good_sql s a" if "resolveStatusConditionColumn tbl name sub = Inr (s, a, sub')" for sub s a sub'
    using that cond field
    by (auto simp: resolveStatusConditionColumn_def Let_def resourceConditionsTable_def split: if_splits)
  moreover have "good_sql s a" if "resolveSpecColumn name sub = Inr (s, a, sub')" for sub s a sub'
  proof -
    from that obtain ps where ps: "list_all jsonbKeyPattern ps" and s: "s = ''spe'' @ CHR ''c'' # spec_path ps" "a = []"
      by (auto simp: resolveSpecColumn_def Let_def first_error_none validateJSONBKey_None list_all_iff)
    have "frag (CHR ''c'' # spec_path ps)"
      using spec_path_piece [OF ps] by (intro frag_Cons) (simp_all add: plain_char_def is_alpha_def is_lower_def)
    then have "good_sql (CHR ''c'' # spec_path ps) []" using spec_path_piece [OF ps] by (simp add: good_sql_def)
    moreover have "list_all is_key_char ''spe''" by code_simp
    then have "good_sql ''spe'' []" by (rule good_keys)
    ultimately have "good_sql (''spe'' @ CHR ''c'' # spec_path ps) []" by (intro good_prefix)
    with s show ?thesis by simp
  qed
  moreover have "good_sql s a" if "resolveField tbl name sub = Inr (s, a, sub')" for sub s a sub'
  proof -
    let ?f = "TrimSpace name"
    from that have parts: "list_all jsonbKeyPattern (Split (CHR ''.'') ?f)" "length (Split (CHR ''.'') ?f) = 1"
        and s: "s = tbl @ ''.'' @ ?f" "a = []"
      by (auto simp: resolveField_def Let_def validateJSONBKey_None list_ex_iff list_all_iff split: if_splits)
    from parts(2) obtain p where p: "Split (CHR ''.'') ?f = [p]" by (auto simp: length_Suc_conv)
    with Join_Split [of "CHR ''.''" ?f] have "?f = p" by simp
    with parts(1) p have "list_all is_key_char ?f" by (simp add: jsonbKeyPattern_def)
    then have "good_sql (tbl @ ''.'' @ ?f) []" by (intro good_prefix good_keys good_words assms)
    with s show ?thesis by simp
  qed
  ultimately show ?thesis
    by (auto simp: sound_walk_def resolveColumn_def split: if_splits)
qed

lemma walk_parts_sound:
  assumes L: "sound_walk L" and R: "sound_walk R"
  shows "sound_walk (walkLogical op l r L R)" "sound_walk (walkComparison ft op l r L R)"
    "sound_walk (walkIsNull l L)" "sound_walk (walkStringMatch op l r L R)" "sound_walk (walkNot r R)" "sound_walk (walkUMinus R)"
proof -
  show "sound_walk (walkLogical op l r L R)"
    unfolding sound_walk_def
  proof (intro allI impI)
    fix sub s a sub' assume "walkLogical op l r L R sub = Inr (s, a, sub')"
    then obtain ls la sub1 rs ra where g: "L sub = Inr (ls, la, sub1)" "R sub1 = Inr (rs, ra, sub')"
        and s: "s = (''('' @ ls @ '')'') @ (if op = OpAnd then '' AND '' else '' OR '') @ (''('' @ rs @ '')'')" "a = la @ ra"
      by (auto simp: walkLogical_def)
    show "good_sql s a"
      unfolding s by (intro good_infix good_parens sound_walkD [OF L g(1)] sound_walkD [OF R g(2)]) (simp add: good_words)
  qed
  show "sound_walk (walkComparison ft op l r L R)"
    unfolding sound_walk_def
  proof (intro allI impI)
    fix sub s a sub' assume "walkComparison ft op l r L R sub = Inr (s, a, sub')"
    then obtain ls la sub1 rs ra sub2 o1 where g: "L sub = Inr (ls, la, sub1)" "R sub1 = Inr (rs, ra, sub2)"
        and op: "comparisonOperators op = Some o1"
        and s: "s = cast_if (first_numeric ra) ls @ ('' '' @ o1 @ '' '') @ cast_if (first_numeric la) rs" "a = la @ ra"
      by (auto simp: walkComparison_def split: if_splits option.splits)
    show "good_sql s a"
      unfolding s by (intro good_infix good_cast sound_walkD [OF L g(1)] sound_walkD [OF R g(2)] good_operator [OF op])
  qed
  show "sound_walk (walkIsNull l L)"
    unfolding sound_walk_def
  proof (intro allI impI)
    fix sub s a sub' assume "walkIsNull l L sub = Inr (s, a, sub')"
    then obtain ls sub1 where g: "L sub = Inr (ls, a, sub1)" and s: "s = ls @ '' IS NULL''"
      by (auto simp: walkIsNull_def split: if_splits)
    show "good_sql s a" unfolding s by (intro good_suffix sound_walkD [OF L g] good_words)
  qed
  show "sound_walk (walkStringMatch op l r L R)"
    unfolding sound_walk_def
  proof (intro allI impI)
    fix sub s a sub' assume "walkStringMatch op l r L R sub = Inr (s, a, sub')"
    then obtain ls la sub1 rs ra where g: "L sub = Inr (ls, la, sub1)" "R sub1 = Inr (rs, ra, sub')"
        and s: "s = ls @ (if op = OpILike then '' ILIKE '' else '' LIKE '') @ rs" "a = la @ ra"
      by (auto simp: walkStringMatch_def split: if_splits)
    show "good_sql s a"
      unfolding s by (intro good_infix sound_walkD [OF L g(1)] sound_walkD [OF R g(2)]) (simp add: good_words)
  qed
  show "sound_walk (walkNot r R)"
    unfolding sound_walk_def
  proof (intro allI impI)
    fix sub s a sub' assume "walkNot r R sub = Inr (s, a, sub')"
    then obtain rs where g: "\<exists>sub1. R [] = Inr (rs, a, sub1)" and s: "s = ''NOT '' @ (''('' @ rs @ '')'')"
      by (auto simp: walkNot_def)
    from g have "good_sql rs a" using R by (auto simp: sound_walk_def)
    then show "good_sql s a" unfolding s by (intro good_prefix good_parens good_words)
  qed
  show "sound_walk (walkUMinus R)"
    unfolding sound_walk_def
  proof (intro allI impI)
    fix sub s a sub' assume "walkUMinus R sub = Inr (s, a, sub')"
    then obtain rs where g: "R sub = Inr (rs, a, sub')" and s: "s = ''(-'' @ rs @ '')''"
      by (auto simp: walkUMinus_def)
    show "good_sql s a" unfolding s by (intro good_minus sound_walkD [OF R g])
  qed
qed

lemma walk_lists_sound:
  assumes L: "sound_walk L" and V: "\<And>f. vals = Some f \<Longrightarrow> sound_values f"
  shows "sound_walk (walkIn l L vals r)" "sound_walk (walkBetween l L vals n)"
proof -
  show "sound_walk (walkIn l L vals r)"
    unfolding sound_walk_def
  proof (intro allI impI)
    fix sub s a sub' assume "walkIn l L vals r sub = Inr (s, a, sub')"
    then obtain ls la sub1 f items numeric where g: "L sub = Inr (ls, la, sub1)" "vals = Some f" "f sub1 = Inr (items, sub')"
        and s: "s = cast_if numeric ls @ '' IN '' @ (''('' @ Join '', '' (map fst items) @ '')'')" "a = la @ concat (map snd items)"
      by (auto simp: walkIn_def Let_def split: if_splits option.splits)
    have "good_sql (Join '', '' (map fst items)) (concat (map snd items))"
      by (rule good_join) (rule sound_valuesD [OF V [OF g(2)] g(3)])
    then show "good_sql s a"
      unfolding s by (intro good_infix good_cast good_parens sound_walkD [OF L g(1)] good_words)
  qed
  show "sound_walk (walkBetween l L vals n)"
    unfolding sound_walk_def
  proof (intro allI impI)
    fix sub s a sub' assume "walkBetween l L vals n sub = Inr (s, a, sub')"
    then obtain ls la sub1 f items sub2 where g: "L sub = Inr (ls, la, sub1)" "vals = Some f" "f sub1 = Inr (items, sub2)"
        and r: "(case items of
            [(lowSQL, lowArgs), (highSQL, highArgs)] \<Rightarrow>
              Inr (cast_if (first_numeric lowArgs \<and> first_numeric highArgs) ls @ '' BETWEEN '' @ lowSQL @ '' AND '' @ highSQL,
                   la @ lowArgs @ highArgs, sub2)
          | _ \<Rightarrow> Inl (BadRequest ''BETWEEN requires exactly 2 values'' [])) = Inr (s, a, sub')"
      by (auto simp: walkBetween_def split: if_splits option.splits)
    from r obtain lo loa hi hia where items: "items = [(lo, loa), (hi, hia)]"
      by (cases items; cases "tl items"; cases "tl (tl items)") auto
    with r have s: "s = cast_if (first_numeric loa \<and> first_numeric hia) ls @ '' BETWEEN '' @ (lo @ '' AND '' @ hi)"
        "a = la @ (loa @ hia)" by simp_all
    from sound_valuesD [OF V [OF g(2)] g(3)] items have "good_sql lo loa" "good_sql hi hia" by simp_all
    then show "good_sql s a"
      unfolding s by (intro good_infix good_cast sound_walkD [OF L g(1)] good_words)
  qed
qed

lemma values_sound:
  "(\<And>v. v \<in> set vs \<Longrightarrow> sound_walk (walkNode we inNot v)) \<Longrightarrow> sound_values (walkValues we inNot vs)"
proof (induction vs)
  case (Cons v vs)
  then have "sound_walk (walkNode we inNot v)" "sound_values (walkValues we inNot vs)" by simp_all
  then show ?case by (fastforce simp: sound_values_def sound_walk_def)
qed (simp add: sound_values_def)

lemma walk_sound:
  assumes "list_all is_key_char (we_TableName we)"
  shows "(\<forall>inNot. sound_walk (walkNode we inNot n)) \<and>
     (\<forall>vs. n = ArrayLit vs \<longrightarrow> (\<forall>inNot. sound_values (walkValues we inNot vs)))"
proof (induction n)
  case (IdentNode name)
  have "walkNode we inNot (IdentNode name) = resolveColumn (we_TableName we) inNot name" for inNot by (rule ext) simp
  with column_sound [OF assms] show ?case by simp
next
  case (ArrayLit vs)
  then have v: "sound_values (walkValues we inNot vs)" for inNot by (intro values_sound) blast
  have "sound_walk (walkNode we inNot (ArrayLit vs))" for inNot
    unfolding sound_walk_def
  proof (intro allI impI)
    fix sub s a sub' assume "walkNode we inNot (ArrayLit vs) sub = Inr (s, a, sub')"
    then obtain items where g: "walkValues we inNot vs sub = Inr (items, sub')"
        and s: "s = ''('' @ Join '', '' (map fst items) @ '')''" "a = concat (map snd items)" by auto
    show "good_sql s a" unfolding s by (intro good_parens good_join sound_valuesD [OF v g])
  qed
  with v show ?case by (simp del: walkNode.simps)
next
  case (ExprNode op l r)
  then have L: "sound_walk (walkNode we inNot l)" and R: "sound_walk (walkNode we inNot r)" for inNot by simp_all
  let ?vals = "\<lambda>inNot. case r of ArrayLit vs \<Rightarrow> Some (walkValues we inNot vs) | _ \<Rightarrow> None"
  have V: "sound_values f" if "?vals inNot = Some f" for inNot f
    using that ExprNode.IH(2) by (auto split: tsl_node.splits)
  note parts = walk_parts_sound [OF L R] walk_lists_sound [OF L V]
  have "sound_walk (\<lambda>sub. walkNode we inNot (ExprNode op l r) sub)" for inNot
    by (cases op) (simp_all add: parts eta_contract_eq)
  then show ?case by (simp del: walkNode.simps)
qed (auto simp: sound_walk_def good_words(9), auto simp: good_sql_def)

text \<open>C33. A search query can not break out of its place in the statement, whatever its text: the SQL
  the walker accepts balances its parentheses, quotes key characters only, has no comment, separator
  or other quote, and has exactly one placeholder per argument.  So user input reaches the database
  as arguments only, and a tenancy clause conjoined to the SQL in parentheses stays in force.\<close>

theorem search_contained:
  assumes "list_all is_key_char (we_TableName we)" and "TSLToSQL we n = Inr (sql, args)"
  shows "sql_contained sql \<and> placeholders sql = length args"
proof -
  from assms(2) obtain sub where "walkNode we False n [] = Inr (sql, args, sub)" by (auto simp: TSLToSQL_def)
  moreover have "sound_walk (walkNode we False n)" using walk_sound [OF assms(1)] by blast
  ultimately have "good_sql sql args" by (rule sound_walkD [rotated])
  then show ?thesis by (simp add: good_sql_def frag_def piece_def sql_contained_def)
qed

section \<open>Which queries are accepted\<close>

text \<open>The field names the walker resolves, and the operands of \<open>NOT\<close>.\<close>

fun visited :: "tsl_node \<Rightarrow> string list" where
  "visited (IdentNode name) = [name]"
| "visited (ArrayLit vs) = concat (map visited vs)"
| "visited (ExprNode op l r) =
     (if op = OpNot \<or> op = OpUMinus then [] else visited l) @ (if op = OpIs then [] else visited r)"
| "visited _ = []"

fun negated :: "tsl_node \<Rightarrow> tsl_node list" where
  "negated (ArrayLit vs) = concat (map negated vs)"
| "negated (ExprNode op l r) =
     (if op = OpNot then [r] else []) @
     (if op = OpNot \<or> op = OpUMinus then [] else negated l) @ (if op = OpIs then [] else negated r)"
| "negated _ = []"

definition association :: "string \<Rightarrow> bool" where
  "association name \<longleftrightarrow> prefixLabels name \<or> prefixStatusConditions name"

text \<open>Every predicate compares a field; a unary minus is let through as it is.\<close>

fun anchored :: "tsl_node \<Rightarrow> bool" where
  "anchored NilNode = True"
| "anchored (ExprNode op l r) =
     (if op = OpAnd \<or> op = OpOr then anchored l \<and> anchored r
      else if op = OpNot then anchored r
      else if op = OpUMinus then True
      else if op \<in> {OpIn, OpBetween, OpIs} then \<not> isConstantExpr l
      else \<not> (isConstantExpr l \<and> isConstantExpr r))"
| "anchored _ = False"

lemma walkValues_each:
  "walkValues we inNot vs sub = Inr (items, sub') \<Longrightarrow> v \<in> set vs \<Longrightarrow> \<exists>sub1 x. walkNode we inNot v sub1 = Inr x"
  by (induction vs arbitrary: sub items) auto

lemma walk_operands:
  assumes "walkNode we inNot (ExprNode op l r) sub = Inr x"
  shows "op \<noteq> OpNot \<and> op \<noteq> OpUMinus \<longrightarrow> (\<exists>sub1 y. walkNode we inNot l sub1 = Inr y)"
    and "op \<noteq> OpNot \<and> op \<noteq> OpIs \<longrightarrow> (\<exists>sub1 y. walkNode we inNot r sub1 = Inr y)"
    and "op = OpNot \<longrightarrow> (\<exists>y. walkNode we True r [] = Inr y)"
proof -
  show "op \<noteq> OpNot \<and> op \<noteq> OpUMinus \<longrightarrow> (\<exists>sub1 y. walkNode we inNot l sub1 = Inr y)"
    using assms
    by (cases op) (auto simp: walkLogical_def walkIn_def walkBetween_def walkIsNull_def walkStringMatch_def
        walkComparison_def split: if_splits)
  show "op \<noteq> OpNot \<and> op \<noteq> OpIs \<longrightarrow> (\<exists>sub1 y. walkNode we inNot r sub1 = Inr y)"
  proof (cases "op = OpIn \<or> op = OpBetween")
    case True
    then obtain vs sub1 items sub2 where "r = ArrayLit vs" "walkValues we inNot vs sub1 = Inr (items, sub2)"
      using assms by (cases r) (auto simp: walkIn_def walkBetween_def split: if_splits)
    then have "\<exists>y. walkNode we inNot r sub1 = Inr y" by simp
    then show ?thesis by blast
  next
    case False
    then show ?thesis using assms
      by (cases op) (auto simp: walkLogical_def walkStringMatch_def walkUMinus_def walkComparison_def split: if_splits)
  qed
  show "op = OpNot \<longrightarrow> (\<exists>y. walkNode we True r [] = Inr y)"
    using assms by (auto simp: walkNot_def)
qed

lemma walk_no_association:
  "walkNode we True n sub = Inr x \<Longrightarrow> name \<in> set (visited n) \<Longrightarrow> \<not> association name"
proof (induction n arbitrary: sub x)
  case (IdentNode m)
  then show ?case by (auto simp: resolveColumn_def association_def split: if_splits)
next
  case (ArrayLit vs)
  then obtain v where v: "v \<in> set vs" "name \<in> set (visited v)" by auto
  with ArrayLit.prems(1) walkValues_each obtain sub1 y where "walkNode we True v sub1 = Inr y" by fastforce
  with ArrayLit.IH v show ?case by blast
next
  case (ExprNode op l r)
  note ops = walk_operands [OF ExprNode.prems(1)]
  from ExprNode.prems(2) consider "op \<noteq> OpNot" "op \<noteq> OpUMinus" "name \<in> set (visited l)"
    | "op \<noteq> OpIs" "name \<in> set (visited r)" by (auto split: if_splits)
  then show ?case
  proof cases
    case 1
    with ops(1) ExprNode.IH(1) show ?thesis by blast
  next
    case 2
    with ops(2,3) ExprNode.IH(2) show ?thesis by (cases "op = OpNot") blast+
  qed
qed simp_all

lemma walk_negated:
  "walkNode we inNot n sub = Inr x \<Longrightarrow> m \<in> set (negated n) \<Longrightarrow> name \<in> set (visited m) \<Longrightarrow> \<not> association name"
proof (induction n arbitrary: inNot sub x)
  case (ArrayLit vs)
  then obtain v where v: "v \<in> set vs" "m \<in> set (negated v)" by auto
  with ArrayLit.prems(1) walkValues_each obtain sub1 y where "walkNode we inNot v sub1 = Inr y" by fastforce
  with ArrayLit.IH ArrayLit.prems(3) v show ?case by blast
next
  case (ExprNode op l r)
  note ops = walk_operands [OF ExprNode.prems(1)]
  from ExprNode.prems(2) consider "op = OpNot" "m = r" | "op \<noteq> OpNot" "op \<noteq> OpUMinus" "m \<in> set (negated l)"
    | "op \<noteq> OpIs" "m \<in> set (negated r)" by (auto split: if_splits)
  then show ?case
  proof cases
    case 1
    with ops(3) walk_no_association ExprNode.prems(3) show ?thesis by blast
  next
    case 2
    with ops(1) ExprNode.IH(1) ExprNode.prems(3) show ?thesis by blast
  next
    case 3
    with ops(2,3) ExprNode.IH(2) ExprNode.prems(3) show ?thesis by (cases "op = OpNot") blast+
  qed
qed simp_all

lemma walk_anchored:
  "walkNode we inNot n sub = Inr x \<Longrightarrow> requirePredicate n = None \<Longrightarrow> anchored n"
proof (induction n arbitrary: inNot sub x)
  case (ExprNode op l r)
  then show ?case
    by (cases op) (auto simp: walkLogical_def walkIn_def walkBetween_def walkIsNull_def walkStringMatch_def
        walkComparison_def walkNot_def split: if_splits)
qed simp_all


section \<open>A small query\<close>

text \<open>\<open>labels.env = 'prod' AND NOT (kind = 'Cluster')\<close>.\<close>

definition sample_walk :: walk_env where
  "sample_walk = \<lparr>we_TableName = ''resources'', we_float_text = (\<lambda>_. ''0'')\<rparr>"

definition sample_query :: tsl_node where
  "sample_query = ExprNode OpAnd (ExprNode OpEQ (IdentNode ''labels.env'') (StringLit ''prod''))
     (ExprNode OpNot NilNode (ExprNode OpEQ (IdentNode ''kind'') (StringLit ''Cluster'')))"

lemma sample_accepted: "\<exists>sql args. TSLToSQL sample_walk sample_query = Inr (sql, args)"
proof -
  have "\<not> isl (TSLToSQL sample_walk sample_query)" by code_simp
  then show ?thesis by (cases "TSLToSQL sample_walk sample_query") auto
qed

lemma search_contained_witness:
  "\<exists>sql args. TSLToSQL sample_walk sample_query = Inr (sql, args) \<and> sql_contained sql \<and> placeholders sql = length args"
proof -
  from sample_accepted obtain sql args where run: "TSLToSQL sample_walk sample_query = Inr (sql, args)" by blast
  have "list_all is_key_char (we_TableName sample_walk)" by code_simp
  from search_contained [OF this run] run show ?thesis by blast
qed


end
