(* ===== verification/Listing.thy ===== *)
theory Listing
  imports Search Lifecycle
begin

text \<open>
  Listing resources: the check of order arguments (\<open>pkg/db/sql_helpers.go\<close>), the generic list
  (\<open>pkg/services/generic.go\<close> and the methods of \<open>pkg/dao/generic.go\<close> it calls) and the list methods of
  the resource service.  The parser of the query language and PostgreSQL's reading of conditions and
  orders are parameters.
\<close>

section \<open>Order arguments (\<open>sql_helpers.go\<close>)\<close>

definition re_space :: "char \<Rightarrow> bool" where
  "re_space c \<longleftrightarrow> (of_char c :: nat) \<in> {9, 10, 12, 13, 32}"

definition orderPattern :: "string \<Rightarrow> bool" where
  "orderPattern s =
     (let field = takeWhile is_key_char s; rest = dropWhile is_key_char s in
      field \<noteq> [] \<and> \<not> is_digit (hd field) \<and>
      (rest = [] \<or> (re_space (hd rest) \<and> dropWhile re_space rest \<in> {''asc'', ''desc''})))"

definition invalid_order :: "string \<Rightarrow> service_error" where
  "invalid_order val = BadRequest (''invalid order format '%s': expected 'field' or 'field asc|desc'' @ [CHR 0x27]) [FS val]"

definition clean_order :: "string \<Rightarrow> string \<Rightarrow> service_error + string" where
  "clean_order val trimVal =
     (if \<not> orderPattern trimVal then Inl (invalid_order val)
      else case Fields trimVal of
             [field, direction] \<Rightarrow>
               if direction \<noteq> ''asc'' \<and> direction \<noteq> ''desc'' then
                 Inl (BadRequest (''invalid sort direction '%s': must be 'asc' or 'desc'' @ [CHR 0x27]) [FS direction])
               else Inr (field @ '' '' @ direction)
           | [field] \<Rightarrow> Inr (field @ '' asc'')
           | _ \<Rightarrow> Inl (invalid_order val))"

fun ArgsToOrder :: "string list \<Rightarrow> service_error + string list" where
  "ArgsToOrder [] = Inr []"
| "ArgsToOrder (val # vals) =
     (let trimVal = TrimSpace val in
      if trimVal = [] then ArgsToOrder vals
      else bindS (clean_order val trimVal) (\<lambda>cleaned. bindS (ArgsToOrder vals) (\<lambda>rest. Inr (cleaned # rest))))"

section \<open>The generic list (\<open>generic.go\<close>, \<open>types.go\<close>)\<close>

record list_arguments =
  la_Search :: string
  la_RefType :: string
  la_RefTargetID :: string
  la_Preloads :: "string list"
  la_Order :: "string list"
  la_Fields :: "string list option"
  la_Size :: int
  la_Page :: int

definition NewListArguments :: list_arguments where
  "NewListArguments = \<lparr>la_Search = [], la_RefType = [], la_RefTargetID = [], la_Preloads = [], la_Order = [],
     la_Fields = None, la_Size = 20, la_Page = 1\<rparr>"

record paging_meta =
  pm_Page :: int
  pm_Size :: int
  pm_Total :: int

text \<open>What is not in the repository: the parser of the query language, and PostgreSQL's reading of a search
  condition and of an order.\<close>

record list_engine =
  le_parse :: "string \<Rightarrow> string + tsl_node"
  le_where :: "string \<Rightarrow> sql_arg list \<Rightarrow> tables \<Rightarrow> db_error + (resource \<Rightarrow> bool)"
  le_order :: "string list \<Rightarrow> resource list \<Rightarrow> db_error + resource list"
  le_float_text :: "rat \<Rightarrow> string"

definition maxSearchLength :: nat where "maxSearchLength = 4096"

definition buildSearch :: "list_engine \<Rightarrow> list_arguments \<Rightarrow> service_error + (string \<times> sql_arg list) option" where
  "buildSearch eng args =
     (if la_Search args = [] then Inr None
      else if length (la_Search args) > maxSearchLength then
        Inl (BadRequest ''search query exceeds maximum length of %d characters'' [FD (int maxSearchLength)])
      else case le_parse eng (la_Search args) of
             Inl err \<Rightarrow> Inl (BadRequest ''failed to parse search query: %s'' [FS err])
           | Inr tslTree \<Rightarrow>
               bindS (TSLToSQL \<lparr>we_TableName = ''resources'', we_float_text = le_float_text eng\<rparr> tslTree) (\<lambda>sql. Inr (Some sql)))"

definition buildOrderBy :: "list_arguments \<Rightarrow> service_error + string list" where
  "buildOrderBy args = (if la_Order args \<noteq> [] then ArgsToOrder (la_Order args) else Inr [])"

text \<open>The rows both WHERE clauses let through.\<close>

definition matching_rows ::
  "list_engine \<Rightarrow> req_context \<Rightarrow> (string \<times> sql_arg list) option \<Rightarrow> tables \<Rightarrow> db_error + resource list" where
  "matching_rows eng cx clause t =
     (case clause of
        None \<Rightarrow> Inr (filter (in_scope cx) (t_resources t))
      | Some (sql, sqlArgs) \<Rightarrow>
          bindS (le_where eng sql sqlArgs t) (\<lambda>P. Inr (filter (\<lambda>r. in_scope cx r \<and> P r) (t_resources t))))"

definition preload :: "string list \<Rightarrow> tables \<Rightarrow> resource \<Rightarrow> resource" where
  "preload preloads t r =
     r\<lparr>res_Labels := (if ''Labels'' \<in> set preloads then res_Labels (withAssociations t r) else res_Labels r),
       res_Conditions := (if ''Conditions'' \<in> set preloads then res_Conditions (withAssociations t r) else res_Conditions r),
       res_References := (if ''References'' \<in> set preloads then res_References (withAssociations t r) else res_References r)\<rparr>"

definition list_error :: "db_error \<Rightarrow> service_error" where
  "list_error e =
     (if IsDBConnectionError e then ServiceUnavailable ''Database connection unavailable'' []
      else if IsInvalidColumnError e then BadRequest ''invalid field in search or order query'' []
      else GeneralError ''Unable to list resources: %s'' [FS (db_text e)])"

text \<open>The offset is a product of 64-bit integers that wraps; an offset that is not positive skips nothing.\<close>

definition page_offset :: "int \<Rightarrow> int \<Rightarrow> int" where
  "page_offset page n = sint (word_of_int ((page - 1) * n) :: 64 word)"

definition page_of :: "int \<Rightarrow> int \<Rightarrow> 'a list \<Rightarrow> 'a list" where
  "page_of page n xs = take (nat n) (drop (nat (page_offset page n)) xs)"

definition loadList ::
  "list_engine \<Rightarrow> req_context \<Rightarrow> list_arguments \<Rightarrow> string list \<Rightarrow> (string \<times> sql_arg list) option \<Rightarrow>
     (resource list \<times> paging_meta) op" where
  "loadList eng cx args order clause =
     call (query (\<lambda>t. bindS (matching_rows eng cx clause t) (\<lambda>rs. Inr (int (length rs))))) (svc_err list_error) (\<lambda>total.
     if la_Size args \<le> 0 then returnE ([], \<lparr>pm_Page = la_Page args, pm_Size = 0, pm_Total = total\<rparr>)
     else call_else (query (\<lambda>t.
              bindS (matching_rows eng cx clause t) (\<lambda>rs.
              bindS (le_order eng order rs) (\<lambda>sorted.
              Inr (map (preload (la_Preloads args) t) (page_of (la_Page args) (la_Size args) sorted))))))
            (on_db_error (\<lambda>e. if IsRecordNotFound e
                then returnE ([], \<lparr>pm_Page = la_Page args, pm_Size = 0, pm_Total = total\<rparr>)
                else raiseE (Svc (list_error e))))
            (\<lambda>rows. returnE (rows, \<lparr>pm_Page = la_Page args, pm_Size = int (length rows), pm_Total = total\<rparr>)))"

definition Generic_List ::
  "list_engine \<Rightarrow> req_context \<Rightarrow> list_arguments \<Rightarrow> (resource list \<times> paging_meta) op" where
  "Generic_List eng cx args =
     (case buildOrderBy args of
        Inl e \<Rightarrow> raiseE (Svc e)
      | Inr order \<Rightarrow>
          (case buildSearch eng args of
             Inl e \<Rightarrow> raiseE (Svc e)
           | Inr clause \<Rightarrow> loadList eng cx args order clause))"

section \<open>The list methods of the resource service\<close>

definition quoted :: "string \<Rightarrow> string" where
  "quoted s = [CHR 0x27] @ s @ [CHR 0x27]"

definition and_filter :: "string \<Rightarrow> string \<Rightarrow> string" where
  "and_filter search kindFilter =
     (if search = [] then kindFilter else ''('' @ search @ '') AND '' @ kindFilter)"

definition default_args :: "list_arguments option \<Rightarrow> list_arguments" where
  "default_args args = (case args of None \<Rightarrow> NewListArguments | Some a \<Rightarrow> a)"

definition with_preloads :: "list_arguments \<Rightarrow> list_arguments" where
  "with_preloads args = args\<lparr>la_Preloads := la_Preloads args @ [''Labels'', ''Conditions'', ''References'']\<rparr>"

definition applyRefFilter :: "environment \<Rightarrow> string \<Rightarrow> list_arguments \<Rightarrow> list_arguments op" where
  "applyRefFilter env kind args =
     (if la_RefType args = [] then returnE args
      else bindE (must env kind) (\<lambda>desc.
      if \<not> list_ex (\<lambda>rd. rd_RefType rd = la_RefType args) (desc_References desc) then
        raiseE (Svc (Validation ''Unknown ref_type %q for entity %s'' [FS (la_RefType args), FS kind]))
      else call (FindSourceIDsByRef (la_RefType args) (la_RefTargetID args))
        (svc_err (general_err ''failed to query references'')) (\<lambda>sourceIDs.
      if sourceIDs = [] then
        returnE (args\<lparr>la_Search := la_Search args @ '' AND id = '' @ [CHR 0x22, CHR 0x22]\<rparr>)
      else returnE (args\<lparr>la_Search := la_Search args @ '' AND id in ['' @
             Join '', '' (map (\<lambda>i. [CHR 0x22] @ i @ [CHR 0x22]) sourceIDs) @ '']''\<rparr>))))"

definition Service_List ::
  "environment \<Rightarrow> list_engine \<Rightarrow> req_context \<Rightarrow> string \<Rightarrow> list_arguments option \<Rightarrow> (resource list \<times> paging_meta) op" where
  "Service_List env eng cx kind args0 =
     check (validateKind env kind) (
     let args = with_preloads (default_args args0) in
     bindE (applyRefFilter env kind
       (args\<lparr>la_Search := and_filter (la_Search args) (''kind = '' @ quoted kind)\<rparr>)) (Generic_List eng cx))"

definition ListByOwner ::
  "environment \<Rightarrow> list_engine \<Rightarrow> req_context \<Rightarrow> string \<Rightarrow> string \<Rightarrow> list_arguments option \<Rightarrow>
     (resource list \<times> paging_meta) op" where
  "ListByOwner env eng cx kind ownerID args0 =
     check (validateKind env kind) (
     let args = with_preloads (default_args args0) in
     bindE (applyRefFilter env kind
       (args\<lparr>la_Search := and_filter (la_Search args) (''kind = '' @ quoted kind @ '' AND owner_id = '' @ quoted ownerID)\<rparr>))
       (Generic_List eng cx))"

definition ListAll :: "list_engine \<Rightarrow> req_context \<Rightarrow> list_arguments option \<Rightarrow> (resource list \<times> paging_meta) op" where
  "ListAll eng cx args0 = Generic_List eng cx (with_preloads (default_args args0))"

section \<open>What a cleaned order is\<close>

definition order_clause :: "string \<Rightarrow> bool" where
  "order_clause s \<longleftrightarrow> (\<exists>field direction. s = field @ '' '' @ direction \<and> field \<noteq> [] \<and> \<not> is_digit (hd field) \<and>
     list_all is_key_char field \<and> direction \<in> {''asc'', ''desc''})"

lemma key_not_space: "is_key_char c \<Longrightarrow> \<not> is_space c"
  by (auto simp: is_key_char_def is_space_def is_lower_def is_digit_def)

lemma re_space_space: "re_space c \<Longrightarrow> is_space c"
  by (auto simp: re_space_def is_space_def)

lemma fields_word: "\<forall>c\<in>set f. \<not> is_space c \<Longrightarrow> fields_from acc (f @ s) = fields_from (acc @ f) s"
  by (induction f arbitrary: acc) auto

lemma fields_spaces: "\<forall>c\<in>set f. is_space c \<Longrightarrow> fields_from [] (f @ s) = fields_from [] s"
  by (induction f) auto

lemma direction_not_space: "direction \<in> {''asc'', ''desc''} \<Longrightarrow> \<forall>c\<in>set direction. \<not> is_space c"
  by (auto simp: is_space_def)

lemma Fields_one: "f \<noteq> [] \<Longrightarrow> \<forall>c\<in>set f. \<not> is_space c \<Longrightarrow> Fields f = [f]"
  using fields_word [of f "[]" "[]"] by (simp add: Fields_def)

lemma Fields_two:
  assumes "f \<noteq> []" "\<forall>c\<in>set f. \<not> is_space c" "g \<noteq> []" "\<forall>c\<in>set g. \<not> is_space c" "is_space c" "\<forall>x\<in>set sp. is_space x"
  shows "Fields (f @ c # sp @ g) = [f, g]"
  using assms Fields_one [OF assms(3,4)] fields_word [of f "[]" "c # sp @ g"]
  by (simp add: Fields_def fields_spaces)

lemma clean_order_clause:
  assumes "clean_order val s = Inr cleaned"
  shows "order_clause cleaned"
proof -
  let ?field = "takeWhile is_key_char s" and ?rest = "dropWhile is_key_char s"
  from assms have pat: "orderPattern s" by (auto simp: clean_order_def split: if_splits)
  then have f: "?field \<noteq> []" "\<not> is_digit (hd ?field)" by (auto simp: orderPattern_def Let_def)
  have keys: "list_all is_key_char ?field" by (auto simp: list_all_iff dest: set_takeWhileD)
  then have word: "\<forall>c\<in>set ?field. \<not> is_space c" by (auto simp: list_all_iff key_not_space)
  show ?thesis
  proof (cases "?rest = []")
    case True
    then have s: "s = ?field" by (metis append_Nil2 takeWhile_dropWhile_id)
    have "Fields ?field = [?field]" using f(1) word by (rule Fields_one)
    then have "Fields s = [?field]" using s by metis
    with assms pat have "cleaned = ?field @ '' '' @ ''asc''" by (auto simp: clean_order_def)
    with f keys show ?thesis unfolding order_clause_def by blast
  next
    case False
    with pat have sp: "re_space (hd ?rest)" and dir: "dropWhile re_space ?rest \<in> {''asc'', ''desc''}"
      by (auto simp: orderPattern_def Let_def)
    let ?g = "dropWhile re_space ?rest"
    have "?rest = hd ?rest # takeWhile re_space (tl ?rest) @ ?g"
      using False sp by (cases ?rest) auto
    then have s: "s = ?field @ hd ?rest # takeWhile re_space (tl ?rest) @ ?g"
      using takeWhile_dropWhile_id [of is_key_char s] by metis
    have "Fields (?field @ hd ?rest # takeWhile re_space (tl ?rest) @ ?g) = [?field, ?g]"
    proof (rule Fields_two [OF f(1) word])
      have "d \<in> {''asc'', ''desc''} \<Longrightarrow> d \<noteq> []" for d :: string by auto
      then show "?g \<noteq> []" using dir .
    qed (use direction_not_space [OF dir] sp in \<open>auto intro!: re_space_space dest: set_takeWhileD\<close>)
    then have "Fields s = [?field, ?g]" using s by metis
    with assms pat dir have "cleaned = ?field @ '' '' @ ?g" by (auto simp: clean_order_def)
    with f keys dir show ?thesis unfolding order_clause_def by blast
  qed
qed

lemma order_clause_clean:
  assumes "order_clause s"
  shows "TrimSpace s = s" "s \<noteq> []" "clean_order val s = Inr s"
proof -
  from assms obtain f d where s: "s = f @ '' '' @ d" and f: "f \<noteq> []" "\<not> is_digit (hd f)" "list_all is_key_char f"
      and d: "d \<in> {''asc'', ''desc''}" by (auto simp: order_clause_def)
  have word: "\<forall>c\<in>set f. \<not> is_space c" using f(3) by (auto simp: list_all_iff key_not_space)
  have d': "d \<noteq> []" "\<forall>c\<in>set d. \<not> is_space c" "\<not> re_space (hd d)"
    using d direction_not_space [OF d] by (auto simp: re_space_def)
  show "s \<noteq> []" using f s by simp
  have "\<not> is_space (hd s)" "\<not> is_space (last s)" using f(1) word d' s by auto
  then have "dropWhile is_space s = s" "dropWhile is_space (rev s) = rev s"
    by (simp_all add: dropWhile_eq_self_iff hd_rev)
  then show "TrimSpace s = s" by (simp add: TrimSpace_def)
  have sp: "re_space (CHR '' '')" "\<not> is_key_char (CHR '' '')" by code_simp+
  then have "takeWhile is_key_char s = f" "dropWhile is_key_char s = '' '' @ d"
    using f(3) by (simp_all add: s list_all_iff takeWhile_append dropWhile_append)
  then have "orderPattern s" using f d' d sp by (auto simp: orderPattern_def)
  moreover have "Fields s = [f, d]"
    using Fields_two [OF f(1) word d'(1,2), of "CHR '' ''" "[]"] re_space_space [OF sp(1)] by (simp add: s)
  ultimately show "clean_order val s = Inr s" using d by (auto simp: clean_order_def s)
qed

lemma ArgsToOrder_clauses: "ArgsToOrder vals = Inr os \<Longrightarrow> \<forall>o1\<in>set os. order_clause o1"
  by (induction vals arbitrary: os) (auto simp: Let_def clean_order_clause split: if_splits)

lemma ArgsToOrder_of_clauses: "\<forall>o1\<in>set os. order_clause o1 \<Longrightarrow> ArgsToOrder os = Inr os"
  by (induction os) (auto simp: Let_def order_clause_clean bindS_def)

text \<open>What goes into \<open>ORDER BY\<close>: every cleaned order is a column name of lower-case letters, digits and
  underscores with a direction, whatever the request said, and cleaning is idempotent: the cleaned
  list is its own cleaning.\<close>

theorem ArgsToOrder_clean:
  assumes "ArgsToOrder vals = Inr os"
  shows "(\<forall>o1\<in>set os. order_clause o1) \<and> ArgsToOrder os = Inr os"
  using ArgsToOrder_clauses [OF assms] ArgsToOrder_of_clauses by blast

section \<open>What a list returns\<close>

lemma loadList_InrE:
  assumes "loadList eng cx args order clause w = (Inr (rows, pm), w')"
  obtains matching where "matching_rows eng cx clause (w_tables w) = Inr matching" "pm_Total pm = int (length matching)"
    "pm_Page pm = la_Page args" "pm_Size pm = int (length rows)" "w_tables w' = w_tables w"
    "rows = [] \<or> (\<exists>sorted. le_order eng order matching = Inr sorted \<and> 0 < la_Size args \<and>
       rows = map (preload (la_Preloads args) (w_tables w)) (page_of (la_Page args) (la_Size args) sorted))"
proof -
  from assms obtain total w1 where c: "query (\<lambda>t. bindS (matching_rows eng cx clause t) (\<lambda>rs. Inr (int (length rs)))) w = (Inr total, w1)"
    and k: "(if la_Size args \<le> 0 then returnE ([], \<lparr>pm_Page = la_Page args, pm_Size = 0, pm_Total = total\<rparr>)
     else call_else (query (\<lambda>t.
              bindS (matching_rows eng cx clause t) (\<lambda>rs.
              bindS (le_order eng order rs) (\<lambda>sorted.
              Inr (map (preload (la_Preloads args) t) (page_of (la_Page args) (la_Size args) sorted))))))
            (on_db_error (\<lambda>e. if IsRecordNotFound e
                then returnE ([], \<lparr>pm_Page = la_Page args, pm_Size = 0, pm_Total = total\<rparr>)
                else raiseE (Svc (list_error e))))
            (\<lambda>rows. returnE (rows, \<lparr>pm_Page = la_Page args, pm_Size = int (length rows), pm_Total = total\<rparr>))) w1 =
      (Inr (rows, pm), w')"
    unfolding loadList_def by (rule call_InrE)
  from c obtain matching where m: "matching_rows eng cx clause (w_tables w) = Inr matching" "total = int (length matching)"
      and w1: "w_tables w1 = w_tables w"
    by (auto elim!: query_InrE)
  show ?thesis
  proof (cases "la_Size args \<le> 0")
    case True
    with k m w1 show ?thesis by (auto simp: returnE_run intro!: that)
  next
    case False
    let ?q = "query (\<lambda>t.
              bindS (matching_rows eng cx clause t) (\<lambda>rs.
              bindS (le_order eng order rs) (\<lambda>sorted.
              Inr (map (preload (la_Preloads args) t) (page_of (la_Page args) (la_Size args) sorted)))))
        :: resource list op"
    obtain res w2 where q: "?q w1 = (res, w2)" by (cases "?q w1")
    have w2: "w_tables w2 = w_tables w" using keepsD [OF query_same q] w1 by (simp add: same_tables_def)
    show ?thesis
    proof (cases res)
      case (Inl f)
      with False k q have "rows = []" "pm = \<lparr>pm_Page = la_Page args, pm_Size = 0, pm_Total = total\<rparr>" "w' = w2"
        by (cases f; auto simp: call_else_def returnE_run split: if_splits)+
      with m w2 show ?thesis by (intro that) auto
    next
      case (Inr rs)
      with False k q have r: "rows = rs" "pm = \<lparr>pm_Page = la_Page args, pm_Size = int (length rows), pm_Total = total\<rparr>" "w' = w2"
        by (auto simp: call_else_def returnE_run)
      from q [unfolded Inr] obtain sorted where "le_order eng order matching = Inr sorted"
          "rs = map (preload (la_Preloads args) (w_tables w)) (page_of (la_Page args) (la_Size args) sorted)"
        by (rule query_InrE) (use m w1 in auto)
      with False r m w2 show ?thesis by (intro that) auto
    qed
  qed
qed

lemma matching_rows_scope:
  "matching_rows eng cx clause t = Inr matching \<Longrightarrow> r \<in> set matching \<Longrightarrow> r \<in> set (t_resources t) \<and> in_scope cx r"
  by (auto simp: matching_rows_def split: option.splits prod.splits)

lemma page_of_subset: "set (page_of p n xs) \<subseteq> set xs"
  by (auto simp: page_of_def dest: in_set_takeD in_set_dropD)

lemma page_of_length: "length (page_of p n xs) \<le> nat n"
  by (simp add: page_of_def)

lemma preload_all: "{''Labels'', ''Conditions'', ''References''} \<subseteq> set ps \<Longrightarrow> preload ps t r = withAssociations t r"
  by (simp add: preload_def withAssociations_def)

definition permutes_rows :: "list_engine \<Rightarrow> bool" where
  "permutes_rows eng \<longleftrightarrow>
     (\<forall>order rs sorted. le_order eng order rs = Inr sorted \<longrightarrow> set sorted = set rs \<and> length sorted = length rs)"

lemma Generic_List_contract:
  assumes run: "Generic_List eng cx args w = (Inr (rows, pm), w')" and eng: "permutes_rows eng"
    and pre: "{''Labels'', ''Conditions'', ''References''} \<subseteq> set (la_Preloads args)"
  shows "(\<forall>r\<in>set rows. \<exists>x\<in>set (t_resources (w_tables w)). in_scope cx x \<and> r = withAssociations (w_tables w) x) \<and>
     pm_Size pm = int (length rows) \<and> pm_Size pm \<le> max 0 (la_Size args) \<and> w_tables w' = w_tables w"
proof -
  from run obtain order clause where "loadList eng cx args order clause w = (Inr (rows, pm), w')"
    by (auto simp: Generic_List_def split: sum.splits)
  then obtain matching where m: "matching_rows eng cx clause (w_tables w) = Inr matching"
    and pm: "pm_Size pm = int (length rows)" "w_tables w' = w_tables w"
    and rows: "rows = [] \<or> (\<exists>sorted. le_order eng order matching = Inr sorted \<and> 0 < la_Size args \<and>
       rows = map (preload (la_Preloads args) (w_tables w)) (page_of (la_Page args) (la_Size args) sorted))"
    by (rule loadList_InrE)
  from rows show ?thesis
  proof
    assume "rows = []" with pm show ?thesis by simp
  next
    assume "\<exists>sorted. le_order eng order matching = Inr sorted \<and> 0 < la_Size args \<and>
       rows = map (preload (la_Preloads args) (w_tables w)) (page_of (la_Page args) (la_Size args) sorted)"
    then obtain sorted where s: "le_order eng order matching = Inr sorted" "0 < la_Size args"
        "rows = map (preload (la_Preloads args) (w_tables w)) (page_of (la_Page args) (la_Size args) sorted)" by blast
    have "set sorted = set matching" using eng s(1) by (auto simp: permutes_rows_def)
    then have "\<exists>x\<in>set (t_resources (w_tables w)). in_scope cx x \<and> r = withAssociations (w_tables w) x" if "r \<in> set rows" for r
      using that s(3) page_of_subset [of "la_Page args" "la_Size args" sorted] matching_rows_scope [OF m] preload_all [OF pre]
      by auto
    moreover have "length rows \<le> nat (la_Size args)" using page_of_length s(3) by simp
    ultimately show ?thesis using pm s(2) by auto
  qed
qed

lemma with_preloads_args [simp]:
  "{''Labels'', ''Conditions'', ''References''} \<subseteq> set (la_Preloads (with_preloads args))"
  "''Labels'' \<in> set (la_Preloads (with_preloads args))" "''Conditions'' \<in> set (la_Preloads (with_preloads args))"
  "''References'' \<in> set (la_Preloads (with_preloads args))"
  "la_Size (with_preloads args) = la_Size args"
  by (auto simp: with_preloads_def)

lemma applyRefFilter_InrE:
  assumes "applyRefFilter env kind args w = (Inr args', w')"
  shows "la_Preloads args' = la_Preloads args \<and> la_Size args' = la_Size args \<and> w_tables w' = w_tables w"
proof -
  have "keeps same_tables (applyRefFilter env kind args)"
    unfolding applyRefFilter_def by (intro reading.keeps_rules must_same dao_reads_same)
  with assms have "w_tables w' = w_tables w" by (auto dest: keepsD simp: same_tables_def)
  moreover have "la_Preloads args' = la_Preloads args \<and> la_Size args' = la_Size args"
    using assms by (auto simp: applyRefFilter_def returnE_run elim!: bindE_InrE call_InrE split: if_splits)
  ultimately show ?thesis by simp
qed

lemma filtered_list:
  assumes run: "bindE (applyRefFilter env kind args) (Generic_List eng cx) w = (Inr (rows, pm), w')" and eng: "permutes_rows eng"
    and pre: "{''Labels'', ''Conditions'', ''References''} \<subseteq> set (la_Preloads args)"
  shows "(\<forall>r\<in>set rows. \<exists>x\<in>set (t_resources (w_tables w)). in_scope cx x \<and> r = withAssociations (w_tables w) x) \<and>
     pm_Size pm = int (length rows) \<and> pm_Size pm \<le> max 0 (la_Size args) \<and> w_tables w' = w_tables w"
proof -
  from run obtain args' w1 where f: "applyRefFilter env kind args w = (Inr args', w1)"
      and g: "Generic_List eng cx args' w1 = (Inr (rows, pm), w')" by (rule bindE_InrE)
  note f' = applyRefFilter_InrE [OF f]
  from Generic_List_contract [OF g eng] pre f' show ?thesis by simp
qed

lemma listed_rows:
  assumes "m \<in> {Service_List env eng cx kind args, ListByOwner env eng cx kind ownerID args, ListAll eng cx args}"
    and "m w = (Inr (rows, pm), w')" and "permutes_rows eng"
  shows "(\<forall>r\<in>set rows. \<exists>x\<in>set (t_resources (w_tables w)). in_scope cx x \<and> r = withAssociations (w_tables w) x) \<and>
     pm_Size pm = int (length rows) \<and> pm_Size pm \<le> max 0 (la_Size (default_args args)) \<and> w_tables w' = w_tables w"
proof -
  let ?args = "with_preloads (default_args args)"
  from assms(1,2) consider search where "bindE (applyRefFilter env kind (?args\<lparr>la_Search := search\<rparr>)) (Generic_List eng cx) w = (Inr (rows, pm), w')"
    | "Generic_List eng cx ?args w = (Inr (rows, pm), w')"
    by (auto simp: Service_List_def ListByOwner_def ListAll_def Let_def elim!: check_InrE)
  then show ?thesis
  proof cases
    case 1
    from filtered_list [OF this assms(3)] show ?thesis by simp
  next
    case 2
    from Generic_List_contract [OF this assms(3) with_preloads_args(1)] show ?thesis by simp
  qed
qed

text \<open>C35. No list leaks another tenant's resources, whatever the search: every resource the three list methods
  return is a row the caller sees, with its own associations; a page has at most the requested number
  of resources and reports how many it has; listing changes no table.  PostgreSQL's ordering is assumed
  to permute the rows.\<close>

theorem list_scoped:
  assumes "m \<in> {Service_List env eng cx kind args, ListByOwner env eng cx kind ownerID args, ListAll eng cx args}"
    and "m w = (Inr (rows, pm), w')" and "permutes_rows eng"
  shows "(\<forall>r\<in>set rows. \<exists>x\<in>set (t_resources (w_tables w)). in_scope cx x \<and> r = withAssociations (w_tables w) x) \<and>
     pm_Size pm = int (length rows) \<and> pm_Size pm \<le> max 0 (la_Size (default_args args)) \<and> w_tables w' = w_tables w"
  using assms by (rule listed_rows)

lemma page_offset_small:
  assumes "int (k * n) < 2 ^ 63"
  shows "page_offset (int k + 1) (int n) = int (k * n)"
proof -
  have "signed_take_bit 63 (int (k * n)) = int (k * n)"
    using assms by (intro signed_take_bit_int_eq_self) (rule order_trans [of _ 0], simp_all del: of_nat_mult)
  then show ?thesis unfolding page_offset_def sint_sbintrunc' by simp
qed

text \<open>Reading the pages of a list one after the other gives every row exactly once and in order: as long as
  the offset fits 64 bits, the first \<open>k\<close> pages of size \<open>n\<close> are the first \<open>k * n\<close> rows, and so all of them
  once \<open>k\<close> is large enough.\<close>

theorem pages_cover:
  "int (m * n) < 2 ^ 63 \<Longrightarrow> concat (map (\<lambda>k. page_of (int k + 1) (int n) xs) [0..<m]) = take (m * n) xs"
proof (induction m)
  case (Suc m)
  then have m: "int (m * n) < 2 ^ 63" by simp
  have "page_of (int m + 1) (int n) xs = take n (drop (m * n) xs)"
    unfolding page_of_def page_offset_small [OF m] by (simp del: of_nat_mult)
  then show ?case using Suc.IH [OF m] take_add [of "m * n" n xs] by (simp add: add.commute)
qed simp

lemma pages_cover_witness:
  "concat (map (\<lambda>k. page_of (int k + 1) (int 2) [10::int, 20, 30]) [0..<2]) = [10, 20, 30]"
  using pages_cover [of 2 2 "[10, 20, 30]"] by simp

section \<open>A list of the small database\<close>

text \<open>An engine that parses one search text, reads its SQL as true, and leaves the order of the rows alone.\<close>

definition sample_engine :: list_engine where
  "sample_engine = \<lparr>le_parse = (\<lambda>s. if s = [] then Inl ''empty'' else Inr (ExprNode OpEQ (IdentNode ''kind'') (StringLit ''Cluster''))),
     le_where = (\<lambda>sql args t. Inr (\<lambda>r. True)), le_order = (\<lambda>order rs. Inr rs), le_float_text = (\<lambda>_. ''0'')\<rparr>"

lemma ArgsToOrder_clean_witness:
  "ArgsToOrder ['' name desc '', ''id''] = Inr [''name desc'', ''id asc''] \<and> order_clause ''id asc''"
proof -
  have run: "ArgsToOrder ['' name desc '', ''id''] = Inr [''name desc'', ''id asc'']" by code_simp
  from ArgsToOrder_clean [OF run] run show ?thesis by simp
qed

lemma list_scoped_witness:
  "\<exists>rows pm w'. Service_List sample_env sample_engine sample_caller ''Cluster'' None (calm sample_tables) = (Inr (rows, pm), w') \<and>
     rows \<noteq> [] \<and> pm_Size pm \<le> 20 \<and> w_tables w' = sample_tables"
proof -
  let ?m = "Service_List sample_env sample_engine sample_caller ''Cluster'' None"
  have "case fst (?m (calm sample_tables)) of Inl _ \<Rightarrow> False | Inr (rows, _) \<Rightarrow> rows \<noteq> []" by code_simp
  then obtain rows pm w' where run: "?m (calm sample_tables) = (Inr (rows, pm), w')" and "rows \<noteq> []"
    by (cases "?m (calm sample_tables)") (auto split: sum.splits)
  moreover have "permutes_rows sample_engine" by (simp add: permutes_rows_def sample_engine_def)
  ultimately show ?thesis
    using list_scoped [of ?m sample_env sample_engine sample_caller "''Cluster''" None "[]" "calm sample_tables" rows pm w']
    by (simp add: default_args_def NewListArguments_def)
qed

end
