(* ===== verification/Phases.thy ===== *)
theory Phases
  imports Deletion
begin

text \<open>
  The life of one resource, as an abstract machine: absent, live at a generation, or finalizing at a
  generation.  \<open>lifecycle_step\<close> says which moves which request may cause; the service refines it, for
  every row at once and over any history of requests.
\<close>

section \<open>The abstract machine\<close>

datatype phase = Absent | Live int32 | Finalizing int32

definition phase_of :: "resource \<Rightarrow> phase" where
  "phase_of x = (if res_DeletedTime x = None then Live (res_Generation x) else Finalizing (res_Generation x))"

text \<open>The phase a create gives: generation 1 unless the request has another.\<close>

definition born_phase :: "resource \<Rightarrow> phase" where
  "born_phase r = phase_of (r\<lparr>res_Generation := (if res_Generation r = 0 then 1 else res_Generation r)\<rparr>)"

text \<open>A create gives life to an absent identifier.  A patch advances the live resource it names by one
  generation.  A delete marks live resources, advancing them by one generation, or removes resources.  A
  report removes the finalizing resource it names.  Force-delete removes resources, the one it names if
  finalizing only.\<close>

inductive lifecycle_step :: "request \<Rightarrow> string \<Rightarrow> phase \<Rightarrow> phase \<Rightarrow> bool" where
  step_stay: "lifecycle_step q i p p"
| step_create: "lifecycle_step (ReqCreate kind r refs) i Absent (born_phase r)"
| step_patch: "lifecycle_step (ReqPatch kind i ownerID p) i (Live g) (Live (g + 1))"
| step_mark: "lifecycle_step (ReqDelete kind n ownerID) i (Live g) (Finalizing (g + 1))"
| step_remove: "lifecycle_step (ReqDelete kind n ownerID) i p Absent"
| step_finalized: "lifecycle_step (ReqProcess kind i s) i (Finalizing g) Absent"
| step_forced: "(i = n \<Longrightarrow> \<exists>g. p = Finalizing g) \<Longrightarrow> lifecycle_step (ReqForceDelete kind n ownerID) i p Absent"

inductive_simps lifecycle_step_simps:
  "lifecycle_step (ReqCreate kind r refs) i p p'" "lifecycle_step (ReqPatch kind n ownerID pa) i p p'"
  "lifecycle_step (ReqDelete kind n ownerID) i p p'" "lifecycle_step (ReqProcess kind n s) i p p'"
  "lifecycle_step (ReqForceDelete kind n ownerID) i p p'"

fun lifecycle_trace :: "request list \<Rightarrow> string \<Rightarrow> phase \<Rightarrow> phase \<Rightarrow> bool" where
  "lifecycle_trace [] i p p' \<longleftrightarrow> p' = p"
| "lifecycle_trace (q # qs) i p p' \<longleftrightarrow> (\<exists>p1. lifecycle_step q i p p1 \<and> lifecycle_trace qs i p1 p')"

section \<open>The phase of an identifier\<close>

definition phase :: "world \<Rightarrow> string \<Rightarrow> phase" where
  "phase w i = (case find_first (\<lambda>x. res_ID x = i) (t_resources (w_tables w)) of
     None \<Rightarrow> Absent | Some x \<Rightarrow> phase_of x)"

lemma phase_tables: "t_resources (w_tables w') = t_resources (w_tables w) \<Longrightarrow> phase w' = phase w"
  by (simp add: phase_def fun_eq_iff)

lemma phase_row:
  assumes "schema_ok (w_tables w)" "x \<in> set (t_resources (w_tables w))"
  shows "phase w (res_ID x) = phase_of x"
  using find_first_key [of res_ID _ x "res_ID x"] assms by (simp add: phase_def schema_ok_def)

lemma phase_absent: "phase w i = Absent \<longleftrightarrow> i \<notin> resource_ids (w_tables w)"
  by (auto simp: phase_def phase_of_def resource_ids_def find_first_None split: option.splits if_splits
      dest: find_first_Some)

lemma phase_row_or_absent:
  assumes "schema_ok (w_tables w)"
  obtains "phase w i = Absent" "i \<notin> resource_ids (w_tables w)"
  | x where "x \<in> set (t_resources (w_tables w))" "res_ID x = i" "phase w i = phase_of x"
proof (cases "i \<in> resource_ids (w_tables w)")
  case True
  then show ?thesis using that(2) phase_row [OF assms] by (auto simp: resource_ids_def)
qed (use that(1) phase_absent in blast)

text \<open>Where rows are only removed, a phase stays or becomes absent.\<close>

lemma phase_filter:
  assumes "schema_ok (w_tables w)" "schema_ok (w_tables w')"
    and "t_resources (w_tables w') = filter P (t_resources (w_tables w))"
  shows "phase w' i = phase w i \<or> phase w' i = Absent \<and>
     (\<exists>x\<in>set (t_resources (w_tables w)). res_ID x = i \<and> \<not> P x \<and> phase w i = phase_of x)"
  using assms(1)
proof (cases rule: phase_row_or_absent [of w i])
  case 1
  then have "i \<notin> resource_ids (w_tables w')" using assms(3) by (auto simp: resource_ids_def)
  then show ?thesis using 1 phase_absent [of w' i] by simp
next
  case (2 x)
  show ?thesis
  proof (cases "P x")
    case True
    then have "x \<in> set (t_resources (w_tables w'))" using 2 assms(3) by simp
    from phase_row [OF assms(2) this] show ?thesis using 2 by simp
  next
    case False
    have "y = x" if "y \<in> set (t_resources (w_tables w))" "res_ID y = i" for y
      using assms(1) 2(1,2) that by (auto simp: schema_ok_def distinct_map inj_on_def)
    then have "i \<notin> resource_ids (w_tables w')" using False assms(3) by (auto simp: resource_ids_def)
    with False 2 phase_absent show ?thesis by blast
  qed
qed

section \<open>What reports and force-deletes remove\<close>

lemma ResourceDao_Delete_rows:
  assumes "ResourceDao_Delete cx kind i w = (Inr u, w')"
  shows "t_resources (w_tables w') =
     filter (\<lambda>x. \<not> (in_scope cx x \<and> res_Kind x = kind \<and> res_ID x = i)) (t_resources (w_tables w))"
  using assms unfolding ResourceDao_Delete_def
  by (auto elim!: execute_InrE dest!: delete_resources_rows)


lemmas rows_same = keepsD [OF fixed.row_writes_keep(4), unfolded same_resources_def]
  keepsD [OF fixed.status_writes_keep(3), unfolded same_resources_def]
  keepsD [OF fixed.Upsert_keeps, unfolded same_resources_def]
  keepsD [OF fixed.recompute_keeps(1), unfolded same_resources_def]
  keepsD [OF fixed.recompute_keeps(2), unfolded same_resources_def]

abbreviation without :: "req_context \<Rightarrow> string \<Rightarrow> string \<Rightarrow> resource list \<Rightarrow> resource list" where
  "without cx kind i \<equiv> filter (\<lambda>x. \<not> (in_scope cx x \<and> res_Kind x = kind \<and> res_ID x = i))"

lemma tryHardDelete_rows:
  assumes "tryHardDeleteResource env cx r conditions statuses b w = (Inr h, w')"
  shows "t_resources (w_tables w') =
     (if h then without cx (res_Kind r) (res_ID r) (t_resources (w_tables w)) else t_resources (w_tables w))"
  using assms
  by (auto simp: tryHardDeleteResource_def returnE_run elim!: bindE_InrE call_InrE
      dest!: must_InrE(2) ResourceDao_Delete_rows rows_same split: if_splits)

lemma apply_report_rows:
  assumes "apply_report env cx r allStatuses incoming existing conditions trigger w = (Inr res, w')"
  shows "t_resources (w_tables w') = t_resources (w_tables w) \<or>
     res_DeletedTime r \<noteq> None \<and>
     t_resources (w_tables w') = without cx (res_Kind r) (res_ID r) (t_resources (w_tables w))"
  using assms
  by (auto simp: apply_report_def Let_def returnE_run elim!: bindE_InrE call_InrE
      dest!: tryHardDelete_rows rows_same split: if_splits prod.splits)

lemma process_rows:
  assumes "process_tx env cx kind i s w = (Inr res, w')"
  shows "t_resources (w_tables w') = t_resources (w_tables w) \<or>
     (\<exists>r\<in>set (t_resources (w_tables w)). in_scope cx r \<and> res_Kind r = kind \<and> res_ID r = i \<and> res_DeletedTime r \<noteq> None \<and>
        t_resources (w_tables w') = without cx kind i (t_resources (w_tables w)))"
proof -
  from assms obtain r v allStatuses v1 where g: "GetForUpdate cx kind i w = (Inr r, v)"
      and f: "FindByResource kind i v = (Inr allStatuses, v1)"
      and k: "(case validateAndClassifyAdapterStatus (res_Generation r) s (findAdapterStatusInList allStatuses (as_Adapter s)) of
       Inl e \<Rightarrow> raiseE (Svc e)
     | Inr None \<Rightarrow> returnE (None, None)
     | Inr (Some (conditions, trigger)) \<Rightarrow>
         bindE (set_transition_times env (s\<lparr>as_ResourceType := kind, as_ResourceID := i\<rparr>)
             (findAdapterStatusInList allStatuses (as_Adapter s)))
           (\<lambda>incoming1. apply_report env cx r allStatuses incoming1 (findAdapterStatusInList allStatuses (as_Adapter s))
              conditions trigger)) v1 = (Inr res, w')"
    by (auto simp: process_tx_def Let_def elim!: call_InrE)
  from g obtain x where x: "x \<in> set (t_resources (w_tables w))" "in_scope cx x" "res_Kind x = kind" "res_ID x = i"
      "r = withAssociations (w_tables w) x" and v: "w_tables v = w_tables w"
    unfolding GetForUpdate_def by (rule take_resource_InrE) auto
  have v1: "w_tables v1 = w_tables w" using keepsD [OF dao_reads_same(16) f] v by (simp add: same_tables_def)
  have set_times: "w_tables u' = w_tables u" if "set_transition_times env s0 ex u = (Inr s1, u')" for s0 ex u u' s1
    using that by (auto simp: set_transition_times_def returnE_run time_Now_def elim!: bindE_InrE split: if_splits)
  from k show ?thesis
    using x v1 set_times
    by (fastforce simp: returnE_run elim!: bindE_InrE dest!: apply_report_rows
        split: sum.splits option.splits prod.splits)
qed

lemma deleteResourceRows_rows:
  assumes "deleteResourceRows cx ids w = (Inr u, w')"
  shows "t_resources (w_tables w') = filter (\<lambda>x. \<not> (ids \<noteq> [] \<and> in_scope cx x \<and> res_ID x \<in> set ids)) (t_resources (w_tables w))"
proof -
  note same = keepsD [OF fixed.row_writes_keep(5), unfolded same_resources_def]
    keepsD [OF fixed.status_writes_keep(4), unfolded same_resources_def]
  from assms show ?thesis
    by (auto simp: deleteResourceRows_def DeleteIDs_def returnE_run elim!: bindE_InrE execute_InrE
        dest!: same delete_resources_rows split: if_splits)
qed

lemma getRowForUpdate_InrE:
  assumes "getRowForUpdate env cx kind i ownerID w = (Inr r, w')"
  shows "r \<in> set (t_resources (w_tables w)) \<and> in_scope cx r \<and> res_Kind r = kind \<and> res_ID r = i \<and>
     (ownerID = [] \<or> res_OwnerID r = Some ownerID) \<and> w_tables w' = w_tables w"
  using assms
  by (auto simp: getRowForUpdate_def GetRowForUpdate_def GetRowForUpdateByOwner_def take_row_def ownedForUpdate_def
      elim!: bindE_InrE query_InrE split: if_splits option.splits dest!: find_first_Some must_InrE(2))

lemma force_rows:
  assumes "forceDeleteTx env cx kind i ownerID w = (Inr res, w')"
  shows "\<exists>r\<in>set (t_resources (w_tables w)). in_scope cx r \<and> res_Kind r = kind \<and> res_ID r = i \<and> res_DeletedTime r \<noteq> None \<and>
     (\<exists>P. t_resources (w_tables w') = filter P (t_resources (w_tables w)))"
  using assms unfolding forceDeleteTx_def
proof (rule call_else_InrE)
  fix e v
  show "on_db_error (\<lambda>e. case forceDeleteTransactionConflict e of Some c \<Rightarrow> raiseE (Svc c)
      | None \<Rightarrow> if ownerID \<noteq> [] then handleOwnedGetError env cx kind i ownerID e
                else raiseE (Svc (handleGetError kind i e))) e v \<noteq> (Inr res, w')"
    by (cases e) (auto simp: handleOwnedGetError_fails split: option.splits)
next
  fix r v
  assume g: "getRowForUpdate env cx kind i ownerID w = (Inr r, v)"
    and k: "(if res_DeletedTime r = None then
          raiseE (Svc (ConflictState ''%s '%s' is not in Finalizing state'' [FS kind, FS i]))
        else
          call (collectForceDeletionResources cx r) (svc_err (or_conflict (general_err ''force-delete failed''))) (\<lambda>resources.
          let ids = map res_ID resources in
          call (FindExternalReferenceCounts ids ids) (svc_err (or_conflict (general_err ''force-delete failed''))) (\<lambda>counts.
          check (validateRemainingReferenceMins env kind (res_Name r) counts) (
          call (deleteResourceRows cx ids) (svc_err (or_conflict (handleDeleteError kind))) (\<lambda>_.
          returnE resources))))) v = (Inr res, w')"
  from k obtain resources v1 counts v2 u where c: "collectForceDeletionResources cx r v = (Inr resources, v1)"
      and f: "FindExternalReferenceCounts (map res_ID resources) (map res_ID resources) v1 = (Inr counts, v2)"
      and d: "deleteResourceRows cx (map res_ID resources) v2 = (Inr u, w')" and fin: "res_DeletedTime r \<noteq> None"
    by (auto simp: Let_def returnE_run elim!: call_InrE check_InrE split: if_splits)
  have "t_resources (w_tables v2) = t_resources (w_tables w)"
    using keepsD [OF fixed.collectForceDeletionResources_keeps c] keepsD [OF dao_reads_same(14) f] getRowForUpdate_InrE [OF g]
    by (simp add: same_resources_def same_tables_def)
  with deleteResourceRows_rows [OF d] fin getRowForUpdate_InrE [OF g] show ?thesis by auto
qed

section \<open>The refinement\<close>

lemma served_schema:
  assumes "schema_ok (w_tables w)" "serve env cx q w = (res, w')"
  shows "schema_ok (w_tables w')"
  using keepsD [OF serve_keeps assms(2)] assms(1) by (simp add: keeps_schema_def)

lemma find_first_append:
  "find_first P (xs @ ys) = (case find_first P xs of None \<Rightarrow> find_first P ys | Some x \<Rightarrow> Some x)"
  by (induction xs) auto

lemma either_branch: "(if c then a \<and> b else d) \<Longrightarrow> a \<or> d"
  by (cases c) auto

lemma refine_patch:
  assumes ok: "schema_ok (w_tables w)" and run: "patch env cx kind n ownerID p w = (Inr r, w')"
  shows "lifecycle_step (ReqPatch kind n ownerID p) i (phase w i) (phase w' i)"
proof -
  let ?same = "\<lambda>(old :: resource) (new :: resource). jsonBytesEqual (res_Spec old) (res_Spec new) \<and> rp_References p = None \<and>
      labelsEqual (res_Labels (withAssociations (w_tables w) old)) (res_Labels new)"
  let ?saved = "\<lambda>(old :: resource) (new :: resource). strip r = old\<lparr>res_Spec := res_Spec new, res_Generation := res_Generation old + 1,
         res_UpdatedBy := actorFromContext cx, res_UpdatedTime := res_UpdatedTime r\<rparr> \<and>
       t_resources (w_tables w') = map (\<lambda>x. if res_ID x = n then strip r else x) (t_resources (w_tables w))"
  from patch_rows [OF ok run] obtain old new :: resource where old: "old \<in> set (t_resources (w_tables w))" "res_ID old = n"
      "res_DeletedTime old = None"
    and c: "if ?same old new then w_tables w' = w_tables w \<and> strip r = old\<lparr>res_Spec := res_Spec new\<rparr> else ?saved old new"
    by blast
  from c have "w_tables w' = w_tables w \<or> ?saved old new" by (rule either_branch)
  then show ?thesis
  proof
    assume "w_tables w' = w_tables w"
    then have "phase w' = phase w" by (intro phase_tables) simp
    then show ?thesis by (simp add: step_stay)
  next
    assume *: "?saved old new"
    let ?f = "\<lambda>x. if res_ID x = n then strip r else x"
    have "res_ID (?f x) = res_ID x" for x using * old(2) by simp
    then have new: "phase w' i = (case find_first (\<lambda>x. res_ID x = i) (t_resources (w_tables w)) of
        None \<Rightarrow> Absent | Some x \<Rightarrow> phase_of (?f x))"
      using * by (subst phase_def) (simp add: find_first_map split: option.splits)
    show ?thesis
    proof (cases "i = n")
      case True
      have f: "find_first (\<lambda>x. res_ID x = n) (t_resources (w_tables w)) = Some old"
        using ok old by (intro find_first_key) (simp_all add: schema_ok_def)
      then have "phase w n = Live (res_Generation old)" using old by (simp add: phase_def phase_of_def)
      moreover have "phase w' n = phase_of (strip r)" using new True f old by simp
      moreover have "phase_of (strip r) = Live (res_Generation old + 1)" using * old by (simp add: phase_of_def)
      ultimately have "phase w i = Live (res_Generation old)" "phase w' i = Live (res_Generation old + 1)"
        using True by simp_all
      with True show ?thesis by (simp add: step_patch)
    next
      case False
      then have "phase w' i = phase w i" unfolding new by (auto simp: phase_def split: option.splits dest: find_first_Some)
      then show ?thesis by (simp add: step_stay)
    qed
  qed
qed

lemma phase_append:
  assumes "t_resources (w_tables w') = t_resources (w_tables w) @ [y]"
  shows "phase w' i = (if phase w i \<noteq> Absent then phase w i else if res_ID y = i then phase_of y else Absent)"
  unfolding phase_def assms find_first_append
  by (cases "find_first (\<lambda>x. res_ID x = i) (t_resources (w_tables w))") (simp_all add: phase_of_def)

lemma refine_create:
  assumes run: "create_tx env cx kind (r\<lparr>res_Kind := kind\<rparr>) refs w = (Inr x, w')"
  shows "lifecycle_step (ReqCreate kind r refs) i (phase w i) (phase w' i)"
proof -
  obtain outcome b where x: "x = (outcome, b)" by (cases x)
  note rows = create_rows [OF run [unfolded x]]
  have "phase_of (strip b) = born_phase r"
    using rows by (auto simp: born_as_def stamp_new_def born_phase_def phase_of_def)
  then have "phase w' i = (if phase w i \<noteq> Absent then phase w i else if res_ID b = i then born_phase r else Absent)"
    using phase_append [of w' w "strip b" i] rows by simp
  then show ?thesis by (auto intro: lifecycle_step.intros)
qed

lemma refine_withers:
  assumes "withers ks w w'" "schema_ok (w_tables w)"
  shows "lifecycle_step (ReqDelete kind n ownerID) i (phase w i) (phase w' i)"
proof -
  from assms have ok': "schema_ok (w_tables w')" by (simp add: withers_def keeps_schema_def)
  from ok' show ?thesis
  proof (cases rule: phase_row_or_absent [of w' i])
    case 1 then show ?thesis by (simp add: step_remove)
  next
    case (2 y)
    with assms(1) obtain x where x: "x \<in> set (t_resources (w_tables w))" "withered x y"
      by (auto simp: withers_def rows_from_def)
    then have "phase w i = phase_of x" using phase_row [OF assms(2) x(1)] withered_fields(1) [OF x(2)] 2 by simp
    then show ?thesis using x(2) 2 by (auto simp: phase_of_def touched_def marked_def elim!: witheredE intro: lifecycle_step.intros)
  qed
qed

lemma refine_delete:
  assumes reg: "registry_ok (env_registry env)" "registry_sound (env_registry env)" and ok: "schema_ok (w_tables w)"
    and run: "deleteResource env cx kind n ownerID w = (Inr r, w')"
  shows "lifecycle_step (ReqDelete kind n ownerID) i (phase w i) (phase w' i)"
  using run
proof (rule deleteResource_InrE)
  fix x w1 w2
  assume w: "w_tables w1 = w_tables w" "w_tables w' = w_tables w2" and tx: "delete_tx env cx kind n ownerID w1 = (Inr x, w2)"
    and g: "Get (env_registry env) kind \<noteq> None"
  have ok1: "schema_ok (w_tables w1)" using ok w by simp
  from delete_rows_tx [OF sound_well_founded [OF reg] ok1 registry_kind_nonempty [OF reg(1) g] tx]
  obtain ks where "withers ks w1 w2" by metis
  from refine_withers [OF this ok1] w show ?thesis by (simp add: phase_def)
qed

lemma refine_process:
  assumes ok: "schema_ok (w_tables w)" "schema_ok (w_tables w')" and run: "process_tx env cx kind n s w = (Inr x, w')"
  shows "lifecycle_step (ReqProcess kind n s0) i (phase w i) (phase w' i)"
  using process_rows [OF run]
proof
  assume "t_resources (w_tables w') = t_resources (w_tables w)"
  then have "phase w' = phase w" by (rule phase_tables)
  then show ?thesis by (simp add: step_stay)
next
  assume "\<exists>r\<in>set (t_resources (w_tables w)). in_scope cx r \<and> res_Kind r = kind \<and> res_ID r = n \<and> res_DeletedTime r \<noteq> None \<and>
        t_resources (w_tables w') = without cx kind n (t_resources (w_tables w))"
  then obtain r where r: "r \<in> set (t_resources (w_tables w))" "res_ID r = n" "res_DeletedTime r \<noteq> None"
      "t_resources (w_tables w') = without cx kind n (t_resources (w_tables w))" by blast
  have "phase w n = Finalizing (res_Generation r)" using phase_row [OF ok(1) r(1)] r by (simp add: phase_of_def)
  with phase_filter [OF ok r(4), of i] show ?thesis by (auto intro: lifecycle_step.intros)
qed

lemma refine_force:
  assumes ok: "schema_ok (w_tables w)" "schema_ok (w_tables w')" and run: "forceDeleteTx env cx kind n ownerID w = (Inr x, w')"
  shows "lifecycle_step (ReqForceDelete kind n ownerID) i (phase w i) (phase w' i)"
proof -
  from force_rows [OF run] obtain r P where r: "r \<in> set (t_resources (w_tables w))" "res_ID r = n" "res_DeletedTime r \<noteq> None"
      and P: "t_resources (w_tables w') = filter P (t_resources (w_tables w))" by blast
  have "phase w n = Finalizing (res_Generation r)" using phase_row [OF ok(1) r(1)] r by (simp add: phase_of_def)
  then have f: "\<exists>g. phase w i = Finalizing g" if "i = n" using that by simp
  from phase_filter [OF ok P, of i] show ?thesis
  proof
    assume "phase w' i = phase w i" then show ?thesis by (simp add: step_stay)
  next
    assume "phase w' i = Absent \<and> (\<exists>x\<in>set (t_resources (w_tables w)). res_ID x = i \<and> \<not> P x \<and> phase w i = phase_of x)"
    then show ?thesis using step_forced [OF f] by simp
  qed
qed

lemma serve_refines:
  assumes reg: "registry_ok (env_registry env)" "registry_sound (env_registry env)" and ok: "schema_ok (w_tables w)"
    and run: "serve env cx q w = (res, w')"
  shows "lifecycle_step q i (phase w i) (phase w' i)"
proof (cases res)
  case (Inl f)
  then have "phase w' = phase w" using serve_atomic run by (intro phase_tables) simp
  then show ?thesis by (simp add: step_stay)
next
  case (Inr u)
  note ok' = served_schema [OF ok run]
  from run Inr obtain w1 w2 where w: "w_tables w1 = w_tables w" "w_tables w' = w_tables w2" and c: "completes env cx q w1 w2"
    by (auto elim: serve_InrE)
  then have p: "phase w1 = phase w" "phase w' = phase w2" using w by (auto intro: phase_tables)
  have ok12: "schema_ok (w_tables w1)" "schema_ok (w_tables w2)" using ok ok' w by simp_all
  show ?thesis
  proof (cases q)
    case (ReqCreate kind r refs)
    with c p show ?thesis using refine_create by (fastforce simp: completes_def)
  next
    case (ReqPatch kind n ownerID pa)
    with run Inr ok show ?thesis by (auto simp: serve_def returnE_run elim!: bindE_InrE intro: refine_patch)
  next
    case (ReqDelete kind n ownerID)
    with run Inr ok reg show ?thesis by (auto simp: serve_def returnE_run elim!: bindE_InrE intro: refine_delete)
  next
    case (ReqProcess kind n s)
    with c p ok12 show ?thesis using refine_process by (fastforce simp: completes_def)
  next
    case (ReqForceDelete kind n ownerID)
    with c p ok12 show ?thesis using refine_force by (fastforce simp: completes_def)
  qed
qed

text \<open>A history of requests, each by its caller; between two of them anything but the tables may change.\<close>

inductive history :: "environment \<Rightarrow> world \<Rightarrow> request list \<Rightarrow> world \<Rightarrow> bool" where
  h_done: "history env w [] w"
| h_serve: "w_tables w1 = w_tables w \<Longrightarrow> serve env cx q w1 = (res, w2) \<Longrightarrow> history env w2 qs w' \<Longrightarrow>
     history env w (q # qs) w'"

lemma history_refines:
  assumes "history env w qs w'" and "schema_ok (w_tables w)"
    and "registry_ok (env_registry env)" and "registry_sound (env_registry env)"
  shows "schema_ok (w_tables w') \<and> (\<forall>i. lifecycle_trace qs i (phase w i) (phase w' i))"
  using assms
proof (induction rule: history.induct)
  case (h_serve w1 w env cx q res w2 qs w')
  then have ok: "schema_ok (w_tables w1)" and p: "phase w1 = phase w" by (auto intro: phase_tables)
  note next_ok = served_schema [OF ok h_serve.hyps(2)]
  have "lifecycle_step q i (phase w i) (phase w2 i)" for i
    using serve_refines [OF h_serve.prems(2,3) ok h_serve.hyps(2)] by (simp add: p)
  with h_serve.IH [OF next_ok h_serve.prems(2,3)] show ?case by auto
qed simp

text \<open>C24. The service refines the abstract lifecycle: over any history of requests, by any callers and with
  any failures, the phase of every identifier takes only moves that the requests, in their order,
  may cause.\<close>

theorem lifecycle_refines:
  assumes "history env w qs w'" and "schema_ok (w_tables w)"
    and "registry_ok (env_registry env)" and "registry_sound (env_registry env)"
  shows "schema_ok (w_tables w') \<and> (\<forall>i. lifecycle_trace qs i (phase w i) (phase w' i))"
  using assms by (rule history_refines)

text \<open>On the abstract side: finalizing ends in absence only.\<close>

lemma finalizing_steps:
  assumes "lifecycle_step q i (Finalizing g) p"
  shows "p = Finalizing g \<or> p = Absent"
  using assms by (cases rule: lifecycle_step.cases) auto

section \<open>A history of the small database\<close>

lemma lifecycle_refines_witness:
  "\<exists>w'. history sample_env (calm (family_tables None)) [ReqDelete ''Cluster'' ''c1'' []] w' \<and>
     lifecycle_trace [ReqDelete ''Cluster'' ''c1'' []] ''np1'' (Live 1) (phase w' ''np1'')"
proof -
  let ?w = "calm (family_tables None)" and ?q = "ReqDelete ''Cluster'' ''c1'' []"
  obtain res w' where "serve sample_env sample_caller ?q ?w = (res, w')" by (cases "serve sample_env sample_caller ?q ?w")
  then have h: "history sample_env ?w [?q] w'" by (auto intro: history.intros)
  have "phase ?w ''np1'' = Live 1" by code_simp
  with lifecycle_refines [OF h _ sample_env_sound] family_schema_ok h show ?thesis by (metis calm_tables)
qed

end
