(* ===== verification/Finalization.thy ===== *)
theory Finalization
  imports Phases
begin

text \<open>
  The end of a resource comes: in a run without failures the report that completes the finalizers of a
  resource marked for deletion removes it, with its statuses and conditions.
\<close>

section \<open>Without failures\<close>

lemma statement_calm:
  assumes "w_faults w = []"
  shows "statement f w = (case f (w_tables w) of (Inl e, t) \<Rightarrow> (Inl (Db e), w) | (Inr x, t) \<Rightarrow> (Inr x, w\<lparr>w_tables := t\<rparr>))"
proof -
  have "w\<lparr>w_tables := t, w_faults := []\<rparr> = w\<lparr>w_tables := t\<rparr>" "w\<lparr>w_faults := []\<rparr> = w" for t
    using assms by (cases w; simp)+
  then show ?thesis using assms by (auto simp: statement_def split: sum.splits prod.splits)
qed

lemma same_world [simp]: "w\<lparr>w_tables := w_tables w\<rparr> = w"
  by (cases w) simp

lemma query_calm: "w_faults w = [] \<Longrightarrow> f (w_tables w) = Inr x \<Longrightarrow> query f w = (Inr x, w)"
  by (simp add: query_def statement_calm)

lemma execute_calm: "w_faults w = [] \<Longrightarrow> f (w_tables w) = Inr t \<Longrightarrow> execute f w = (Inr (), w\<lparr>w_tables := t\<rparr>)"
  by (simp add: execute_def statement_calm)

lemma Do_calm:
  assumes "w_faults w = []" "body w = (Inr x, w')" "w_faults w' = []"
  shows "Do body w = (Inr x, w')"
  using assms by (simp add: Do_def query_calm)

lemma exists_calm:
  assumes "w_faults w = []" and "\<forall>x\<in>set (t_resources (w_tables w)). res_OwnerID x \<noteq> Some i"
  shows "ExistsByOwner cx kind i w = (Inr False, w)" "ExistsSoftDeletedByOwner cx kinds i w = (Inr False, w)"
proof -
  have "scopedExists cx (\<lambda>r. P r \<and> res_OwnerID r = Some i \<and> Q r) w = (Inr False, w)" for P Q
    unfolding scopedExists_def by (rule query_calm) (use assms in \<open>auto simp: list_ex_iff\<close>)
  then show "ExistsByOwner cx kind i w = (Inr False, w)" "ExistsSoftDeletedByOwner cx kinds i w = (Inr False, w)"
    by (simp_all add: ExistsByOwner_def ExistsSoftDeletedByOwner_def effect_simps)
qed

lemma childless_calm:
  assumes "w_faults w = []" and "\<forall>x\<in>set (t_resources (w_tables w)). res_OwnerID x \<noteq> Some (res_ID r)"
  shows "childrenRemainDuringDelete env cx r w = (Inr False, w)"
proof -
  have "any_active_child cx (res_ID r) cs w = (Inr False, w)" for cs
    by (induction cs) (simp_all add: effect_simps exists_calm(1) [OF assms])
  then show ?thesis
    by (simp add: childrenRemainDuringDelete_def hasChildren_def Let_def effect_simps exists_calm(2) [OF assms])
qed

text \<open>An upsert of a report that is new or newer than the stored one stores it.\<close>

lemma Upsert_calm:
  assumes calm: "w_faults w = []" and ok: "schema_ok (w_tables w)" and s: "as_ID s = []"
    and id: "env_newid env (w_ids w) = Inr n" "n \<notin> as_ID ` set (t_statuses (w_tables w))"
    and ex: "case existing of
        None \<Rightarrow> status_key s \<notin> status_key ` set (t_statuses (w_tables w))
      | Some e \<Rightarrow> e \<in> set (t_statuses (w_tables w)) \<and> older_row s e"
  shows "\<exists>y w'. Upsert env s existing w = (Inr y, w') \<and> w_faults w' = [] \<and>
     w_tables w' = (w_tables w)\<lparr>t_statuses := t_statuses (w_tables w')\<rparr> \<and> status_key y = status_key s \<and>
     as_Conditions y = as_Conditions s \<and> as_ObservedGeneration y = as_ObservedGeneration s"
proof (cases existing)
  case None
  let ?s = "s\<lparr>as_ID := n\<rparr>" and ?w = "w\<lparr>w_ids := w_ids w + 1\<rparr>"
  have "AdapterStatus_BeforeCreate env s w = (Inr ?s, ?w)"
    by (simp add: AdapterStatus_BeforeCreate_def s NewID_def id effect_simps)
  moreover have "insert_status ?s (w_tables w) = Inr ((w_tables w)\<lparr>t_statuses := t_statuses (w_tables w) @ [?s]\<rparr>)"
    using ex None id by (simp add: insert_status_def status_key_def)
  ultimately have "Upsert env s existing w =
      (Inr ?s, ?w\<lparr>w_tables := (w_tables w)\<lparr>t_statuses := t_statuses (w_tables w) @ [?s]\<rparr>\<rparr>)"
    using calm None by (simp add: Upsert_def effect_simps insert_status_or_nothing_def statement_calm)
  then show ?thesis using calm by (simp add: status_key_def)
next
  case (Some e)
  then have e: "e \<in> set (t_statuses (w_tables w))" "older_row s e" using ex by simp_all
  then have key: "status_key e = status_key s" by (simp add: older_row_def)
  let ?t = "t_statuses_update (overwrite_older s) (w_tables w)"
  let ?w = "w\<lparr>w_tables := ?t\<rparr>"
  have u: "update_status s w = (Inr (length (filter (older_row s) (t_statuses (w_tables w)))), ?w)"
    using calm by (simp add: update_status_def statement_calm)
  have "filter (older_row s) (t_statuses (w_tables w)) \<noteq> []" using e by (auto simp: filter_empty_conv)
  moreover
  have "\<exists>y. find_first (\<lambda>z. of_resource (as_ResourceType s) (as_ResourceID s) z \<and> as_Adapter z = as_Adapter s)
      (t_statuses ?t) = Some y"
  proof -
    have "overwrite_row s e \<in> set (t_statuses ?t)" using e by (auto simp: overwrite_older_def)
    moreover have "status_key (overwrite_row s e) = status_key s" using key by simp
    ultimately show ?thesis by (auto simp: find_first_None of_resource_def status_key_def simp flip: not_None_eq)
  qed
  then obtain y where f: "find_first (\<lambda>z. of_resource (as_ResourceType s) (as_ResourceID s) z \<and> as_Adapter z = as_Adapter s)
      (t_statuses ?t) = Some y" by blast
  have "FindByResourceAndAdapter (as_ResourceType s) (as_ResourceID s) (as_Adapter s) ?w = (Inr y, ?w)"
    unfolding FindByResourceAndAdapter_def take_status_def by (rule query_calm) (use calm f in simp_all)
  ultimately have run: "Upsert env s (Some e) w = (Inr y, ?w)"
    by (simp add: Upsert_def effect_simps u)
  from Upsert_update [OF ok run e(1) key] e have y: "y = overwrite_row s e" by simp
  have "as_Conditions y = as_Conditions s" "as_ObservedGeneration y = as_ObservedGeneration s" "status_key y = status_key s"
    using key by (simp_all add: y overwrite_row_def status_key_def)
  moreover have "w_tables ?w = (w_tables w)\<lparr>t_statuses := t_statuses (w_tables ?w)\<rparr>"
    by (cases "w_tables w") simp
  ultimately show ?thesis using Some run calm by fastforce
qed


section \<open>The report that finalizes\<close>

lemma transition_times_statuses:
  assumes "decode_adapter_conditions (as_Conditions s) = Some cs"
  shows "\<exists>cs'. decode_adapter_conditions (as_Conditions (setConditionTransitionTimes now s existing)) = Some cs' \<and>
     map (\<lambda>c. (ac_Type c, ac_Status c)) cs' = map (\<lambda>c. (ac_Type c, ac_Status c)) cs"
  using assms
  by (auto simp: setConditionTransitionTimes_def Let_def keep_transition_same split: option.splits)

lemma set_times_fields:
  "as_ID (setConditionTransitionTimes now s existing) = as_ID s"
  "status_key (setConditionTransitionTimes now s existing) = status_key s"
  "as_ObservedGeneration (setConditionTransitionTimes now s existing) = as_ObservedGeneration s"
  "as_LastReportTime s \<noteq> 0 \<Longrightarrow> as_LastReportTime (setConditionTransitionTimes now s existing) = as_LastReportTime s"
  by (auto simp: setConditionTransitionTimes_def Let_def IsZero_def status_key_def split: option.splits)

lemma finalized_by_pairs:
  assumes "decode_adapter_conditions (as_Conditions y) = Some cs'"
    and "map (\<lambda>c. (ac_Type c, ac_Status c)) cs' = map (\<lambda>c. (ac_Type c, ac_Status c)) cs"
  shows "IsFinalized y = incomingReportedFinalized cs"
proof -
  have e: "incomingReportedFinalized l =
      list_ex (\<lambda>(ty, st). ty = AdapterConditionTypeFinalized \<and> st = AdapterConditionTrue)
        (map (\<lambda>c. (ac_Type c, ac_Status c)) l)" for l
    by (simp add: incomingReportedFinalized_def list_ex_iff)
  have "IsFinalized y = incomingReportedFinalized cs'" using assms(1) by (simp add: IsFinalized_def incomingReportedFinalized_def)
  then show ?thesis by (simp only: e assms(2))
qed

text \<open>Every other required adapter has finalized at the generation of the resource.\<close>

definition others_finalized :: "tables \<Rightarrow> entity_descriptor \<Rightarrow> resource \<Rightarrow> string \<Rightarrow> bool" where
  "others_finalized t desc r adapter \<longleftrightarrow>
     list_all (\<lambda>a. a = adapter \<or>
       list_ex (\<lambda>s. of_resource (res_Kind r) (res_ID r) s \<and> as_Adapter s = a \<and>
           as_ObservedGeneration s = res_Generation r \<and> IsFinalized s) (t_statuses t))
       (desc_RequiredAdapters desc)"

lemma all_finalized:
  assumes others: "others_finalized t desc r (as_Adapter y)"
    and y: "IsFinalized y" "as_ObservedGeneration y = res_Generation r" "of_resource (res_Kind r) (res_ID r) y"
  shows "allAdaptersFinalized (desc_RequiredAdapters desc)
     (replaceAdapterStatusInList (filter (of_resource (res_Kind r) (res_ID r)) (t_statuses t)) y) (res_Generation r)"
  unfolding allAdaptersFinalized_def Let_def list_all_iff
proof
  fix a assume "a \<in> set (desc_RequiredAdapters desc)"
  with others have "a = as_Adapter y \<or> (\<exists>s\<in>set (t_statuses t). of_resource (res_Kind r) (res_ID r) s \<and>
      as_Adapter s = a \<and> as_ObservedGeneration s = res_Generation r \<and> IsFinalized s)"
    by (auto simp: others_finalized_def list_all_iff list_ex_iff)
  then show "a \<in> set (map as_Adapter (filter (\<lambda>s. as_ObservedGeneration s = res_Generation r \<and> IsFinalized s)
      (replaceAdapterStatusInList (filter (of_resource (res_Kind r) (res_ID r)) (t_statuses t)) y)))"
    using y by (cases "a = as_Adapter y") (auto simp: replaceAdapterStatusInList_set same_slot_def)
qed

lemma tryHardDelete_calm:
  assumes calm: "w_faults w = []" and reg: "Get (env_registry env) (res_Kind r) = Some desc"
    and gate: "incomingReportedFinalized cs" "allAdaptersFinalized (desc_RequiredAdapters desc) statuses (res_Generation r)"
    and refs: "\<forall>f\<in>set (t_references (w_tables w)). rr_TargetID f \<noteq> res_ID r"
  shows "\<exists>w'. tryHardDeleteResource env cx r cs statuses False w = (Inr True, w') \<and> w_faults w' = [] \<and>
     t_resources (w_tables w') = without cx (res_Kind r) (res_ID r) (t_resources (w_tables w)) \<and>
     filter (of_resource (res_Kind r) (res_ID r)) (t_statuses (w_tables w')) = [] \<and>
     res_ID r \<notin> rc_ResourceID ` set (t_conditions (w_tables w'))"
proof -
  let ?t1 = "t_statuses_update (filter (\<lambda>s. \<not> of_resource (res_Kind r) (res_ID r) s)) (w_tables w)"
  let ?t2 = "t_conditions_update (filter (\<lambda>c. rc_ResourceID c \<noteq> res_ID r)) ?t1"
  let ?P = "\<lambda>x. in_scope cx x \<and> res_Kind x = res_Kind r \<and> res_ID x = res_ID r"
  have m: "must env (res_Kind r) w = (Inr desc, w)" by (simp add: must_def MustGet_def reg effect_simps)
  have s: "AdapterStatus_DeleteByResource (res_Kind r) (res_ID r) w = (Inr (), w\<lparr>w_tables := ?t1\<rparr>)"
    unfolding AdapterStatus_DeleteByResource_def by (rule execute_calm [OF calm]) simp
  have c: "Conditions_DeleteByResource (res_ID r) (w\<lparr>w_tables := ?t1\<rparr>) = (Inr (), w\<lparr>w_tables := ?t2\<rparr>)"
    unfolding Conditions_DeleteByResource_def delete_rows_def
    by (subst execute_calm [where t = ?t2]) (simp_all add: calm)
  have "\<exists>t3. delete_resources ?P ?t2 = Inr t3"
    using refs by (auto simp: delete_resources_def Let_def list_ex_iff)
  then obtain t3 where d: "delete_resources ?P ?t2 = Inr t3" ..
  then have x: "ResourceDao_Delete cx (res_Kind r) (res_ID r) (w\<lparr>w_tables := ?t2\<rparr>) = (Inr (), w\<lparr>w_tables := t3\<rparr>)"
    unfolding ResourceDao_Delete_def by (subst execute_calm [where t = t3]) (simp_all add: calm)
  have "tryHardDeleteResource env cx r cs statuses False w = (Inr True, w\<lparr>w_tables := t3\<rparr>)"
    by (simp add: tryHardDeleteResource_def effect_simps gate m s c x)
  moreover have "t_resources t3 = without cx (res_Kind r) (res_ID r) (t_resources (w_tables w))"
    "t_statuses t3 = t_statuses ?t2" "set (t_conditions t3) \<subseteq> set (t_conditions ?t2)"
    using d by (auto simp: delete_resources_def Let_def split: if_splits)
  ultimately show ?thesis using calm by fastforce
qed


text \<open>What the theorem asks of the moment: the row is marked and alone, and the report completes the
  finalizers.\<close>

definition last_finalizer ::
  "environment \<Rightarrow> req_context \<Rightarrow> resource \<Rightarrow> adapter_status \<Rightarrow> world \<Rightarrow> bool" where
  "last_finalizer env cx r s w \<longleftrightarrow>
     (let t = w_tables w; mine = filter (of_resource (res_Kind r) (res_ID r)) (t_statuses t);
          existing = findAdapterStatusInList mine (as_Adapter s);
          stamped = s\<lparr>as_LastReportTime := truncate_us (as_LastReportTime s)\<rparr>
      in r \<in> set (t_resources t) \<and> in_scope cx r \<and> res_DeletedTime r \<noteq> None \<and>
         list_all (\<lambda>x. res_OwnerID x \<noteq> Some (res_ID r)) (t_resources t) \<and>
         list_all (\<lambda>f. rr_TargetID f \<noteq> res_ID r) (t_references t) \<and>
         as_ID s = [] \<and> as_ObservedGeneration s = res_Generation r \<and>
         (case validateAndClassifyAdapterStatus (res_Generation r) stamped existing of
            Inr (Some (cs, trigger)) \<Rightarrow> incomingReportedFinalized cs | _ \<Rightarrow> False) \<and>
         (case existing of None \<Rightarrow> True
          | Some e \<Rightarrow> older_row (stamped\<lparr>as_ResourceType := res_Kind r, as_ResourceID := res_ID r\<rparr>) e) \<and>
         (case Get (env_registry env) (res_Kind r) of None \<Rightarrow> False
          | Some desc \<Rightarrow> others_finalized t desc r (as_Adapter s)) \<and>
         (case env_newid env (w_ids w) of Inl _ \<Rightarrow> False | Inr n \<Rightarrow> n \<notin> as_ID ` set (t_statuses t)))"

lemma accepted_facts:
  assumes "validateAndClassifyAdapterStatus g s existing = Inr (Some (cs, trigger))"
  shows "as_LastReportTime s \<noteq> 0" "decode_adapter_conditions (as_Conditions s) = Some cs"
proof -
  have "ValidateMandatoryConditions [] = (ConditionValidationErrorMissing, AdapterConditionTypeAvailable)"
    by (simp add: ValidateMandatoryConditions_def mandatoryConditions_def)
  then show "as_LastReportTime s \<noteq> 0" "decode_adapter_conditions (as_Conditions s) = Some cs"
    using assms
    by (auto simp: validateAndClassifyAdapterStatus_def Let_def AdapterObservedTime_def IsZero_def
        ConditionValidationErrorMissing_def split: if_splits option.splits prod.splits sum.splits)
qed

lemma stored_report:
  assumes "existing = findAdapterStatusInList (filter (of_resource kind i) ss) a"
    and "status_key s = (kind, i, a)"
  shows "case existing of None \<Rightarrow> status_key s \<notin> status_key ` set ss
    | Some e \<Rightarrow> e \<in> set ss \<and> status_key e = status_key s"
proof (cases existing)
  case None
  then have "find_first (\<lambda>s. as_Adapter s = a) (filter (of_resource kind i) ss) = None"
    using assms(1) by (simp add: findAdapterStatusInList_def)
  then show ?thesis using assms(2) None by (auto simp: find_first_None of_resource_def status_key_def)
next
  case (Some e)
  then have "find_first (\<lambda>s. as_Adapter s = a) (filter (of_resource kind i) ss) = Some e"
    using assms(1) by (simp add: findAdapterStatusInList_def)
  from find_first_Some [OF this] assms(2) Some show ?thesis by (simp add: of_resource_def status_key_def)
qed

lemma process_calm:
  assumes calm: "w_faults w = []" and ok: "schema_ok (w_tables w)"
    and last: "last_finalizer env cx r s w"
  shows "\<exists>y w'. process_tx env cx (res_Kind r) (res_ID r) (s\<lparr>as_LastReportTime := truncate_us (as_LastReportTime s)\<rparr>) w =
       (Inr (None, Some y), w') \<and> w_faults w' = [] \<and> status_key y = (res_Kind r, res_ID r, as_Adapter s) \<and>
     t_resources (w_tables w') = without cx (res_Kind r) (res_ID r) (t_resources (w_tables w)) \<and>
     filter (of_resource (res_Kind r) (res_ID r)) (t_statuses (w_tables w')) = [] \<and>
     res_ID r \<notin> rc_ResourceID ` set (t_conditions (w_tables w'))"
proof -
  let ?k = "res_Kind r" and ?i = "res_ID r" and ?t = "w_tables w"
  let ?mine = "filter (of_resource ?k ?i) (t_statuses ?t)"
  let ?s0 = "s\<lparr>as_LastReportTime := truncate_us (as_LastReportTime s)\<rparr>"
  let ?s1 = "?s0\<lparr>as_ResourceType := ?k, as_ResourceID := ?i\<rparr>"
  define existing where "existing = findAdapterStatusInList ?mine (as_Adapter s)"
  from last obtain cs trigger desc n where r: "r \<in> set (t_resources ?t)" "in_scope cx r" "res_DeletedTime r \<noteq> None"
    and alone: "\<forall>x\<in>set (t_resources ?t). res_OwnerID x \<noteq> Some ?i" "\<forall>f\<in>set (t_references ?t). rr_TargetID f \<noteq> ?i"
    and s: "as_ID s = []" "as_ObservedGeneration s = res_Generation r"
    and v: "validateAndClassifyAdapterStatus (res_Generation r) ?s0 existing = Inr (Some (cs, trigger))"
      "incomingReportedFinalized cs"
    and ex: "\<And>e. existing = Some e \<Longrightarrow> older_row ?s1 e"
    and d: "Get (env_registry env) ?k = Some desc" "others_finalized ?t desc r (as_Adapter s)"
    and n: "env_newid env (w_ids w) = Inr n" "n \<notin> as_ID ` set (t_statuses ?t)"
    unfolding last_finalizer_def Let_def existing_def [symmetric]
    by (auto simp: list_all_iff split: option.splits sum.splits prod.splits)
  note accepted = accepted_facts [OF v(1)]
  define s2 where "s2 = setConditionTransitionTimes 0 ?s1 existing"
  have time: "as_LastReportTime ?s1 \<noteq> 0" using accepted(1) by simp
  have times: "set_transition_times env ?s1 existing w = (Inr s2, w)"
    using time by (simp add: set_transition_times_def IsZero_def effect_simps s2_def)
  have s2: "as_ID s2 = []" "status_key s2 = (?k, ?i, as_Adapter s)" "as_ObservedGeneration s2 = res_Generation r"
      "as_LastReportTime s2 = as_LastReportTime ?s1"
    using s time by (simp_all add: s2_def set_times_fields) (simp add: status_key_def)
  have older: "older_row s2 e = older_row ?s1 e" for e
    using s s2 by (simp add: older_row_def status_key_def)
  have stored: "case existing of None \<Rightarrow> status_key s2 \<notin> status_key ` set (t_statuses ?t)
      | Some e \<Rightarrow> e \<in> set (t_statuses ?t) \<and> older_row s2 e"
    using stored_report [OF existing_def s2(2)] ex older by (cases existing) auto
  obtain y w1 where up: "Upsert env s2 existing w = (Inr y, w1)" "w_faults w1 = []"
      "w_tables w1 = ?t\<lparr>t_statuses := t_statuses (w_tables w1)\<rparr>" "status_key y = status_key s2"
      "as_Conditions y = as_Conditions s2" "as_ObservedGeneration y = as_ObservedGeneration s2"
    using Upsert_calm [OF calm ok s2(1) n stored] by blast
  obtain cs' where "decode_adapter_conditions (as_Conditions y) = Some cs'"
      "map (\<lambda>c. (ac_Type c, ac_Status c)) cs' = map (\<lambda>c. (ac_Type c, ac_Status c)) cs"
    using transition_times_statuses [of ?s1 cs 0 existing] accepted(2) by (auto simp: up s2_def)
  then have fin: "IsFinalized y" using finalized_by_pairs v(2) by blast
  have y: "as_Adapter y = as_Adapter s" "of_resource ?k ?i y" "as_ObservedGeneration y = res_Generation r"
    using up s2 by (simp_all add: status_key_def of_resource_def)
  let ?r = "withAssociations ?t r"
  have same1: "t_resources (w_tables w1) = t_resources ?t" "t_references (w_tables w1) = t_references ?t"
    by (subst up(3), simp)+
  have kids: "childrenRemainDuringDelete env cx ?r w1 = (Inr False, w1)"
    by (rule childless_calm) (use up same1 alone in simp_all)
  have gate: "allAdaptersFinalized (desc_RequiredAdapters desc) (replaceAdapterStatusInList ?mine y) (res_Generation r)"
    using all_finalized [of ?t desc r y] d y fin by simp
  obtain w2 where hard: "tryHardDeleteResource env cx ?r cs (replaceAdapterStatusInList ?mine y) False w1 = (Inr True, w2)"
      "w_faults w2 = []" "t_resources (w_tables w2) = without cx ?k ?i (t_resources ?t)"
      "filter (of_resource ?k ?i) (t_statuses (w_tables w2)) = []" "?i \<notin> rc_ResourceID ` set (t_conditions (w_tables w2))"
    using tryHardDelete_calm [of w1 env ?r desc cs "replaceAdapterStatusInList ?mine y" cx]
      up(2) d v(2) gate alone same1 by auto
  have "find_first (\<lambda>x. in_scope cx x \<and> res_Kind x = ?k \<and> res_ID x = ?i) (t_resources ?t) = Some r"
    using ok r by (intro find_first_unique) (auto simp: schema_ok_def distinct_map inj_on_def)
  then have get: "GetForUpdate cx ?k ?i w = (Inr ?r, w)"
    unfolding GetForUpdate_def take_resource_def by (intro query_calm [OF calm]) simp
  have find: "FindByResource ?k ?i w = (Inr ?mine, w)"
    unfolding FindByResource_def by (rule query_calm [OF calm]) simp
  have report: "apply_report env cx ?r ?mine s2 existing cs trigger w = (Inr (None, Some y), w2)"
    using r(3) by (simp add: apply_report_def effect_simps up(1) kids hard(1) Let_def)
  have "process_tx env cx ?k ?i ?s0 w = (Inr (None, Some y), w2)"
    using v(1) times report
    by (simp add: process_tx_def effect_simps get find Let_def flip: existing_def)
  with hard up(4) s2(2) show ?thesis by auto
qed


text \<open>C25. The end comes: when every other required adapter has finalized a resource marked for deletion, no
  resource is owned by it and none refers to it, then the report by which the last adapter finalizes
  at the current generation, if no statement fails, is answered by the stored report and removes the
  resource with its statuses and conditions; all other resources stay.\<close>

theorem hard_delete_completes:
  assumes "w_faults w = []" and "schema_ok (w_tables w)" and "last_finalizer env cx r s w"
  shows "\<exists>y w'. ProcessAdapterStatus env cx (res_Kind r) (res_ID r) s w = (Inr (Some y), w') \<and>
     status_key y = (res_Kind r, res_ID r, as_Adapter s) \<and> phase w' (res_ID r) = Absent \<and>
     t_resources (w_tables w') = filter (\<lambda>x. res_ID x \<noteq> res_ID r) (t_resources (w_tables w)) \<and>
     filter (of_resource (res_Kind r) (res_ID r)) (t_statuses (w_tables w')) = [] \<and>
     res_ID r \<notin> rc_ResourceID ` set (t_conditions (w_tables w'))"
proof -
  let ?s0 = "s\<lparr>as_LastReportTime := truncate_us (as_LastReportTime s)\<rparr>"
  from process_calm [OF assms] obtain y w1 where tx: "process_tx env cx (res_Kind r) (res_ID r) ?s0 w = (Inr (None, Some y), w1)"
      and y: "w_faults w1 = []" "status_key y = (res_Kind r, res_ID r, as_Adapter s)"
      and rows: "t_resources (w_tables w1) = without cx (res_Kind r) (res_ID r) (t_resources (w_tables w))"
      and rest: "filter (of_resource (res_Kind r) (res_ID r)) (t_statuses (w_tables w1)) = []"
        "res_ID r \<notin> rc_ResourceID ` set (t_conditions (w_tables w1))" by blast
  have r: "r \<in> set (t_resources (w_tables w))" "in_scope cx r" "Get (env_registry env) (res_Kind r) \<noteq> None"
    using assms(3) by (auto simp: last_finalizer_def Let_def split: option.splits)
  have "x = r" if "x \<in> set (t_resources (w_tables w))" "res_ID x = res_ID r" for x
    using assms(2) r(1) that by (auto simp: schema_ok_def distinct_map inj_on_def)
  then have rows': "t_resources (w_tables w1) = filter (\<lambda>x. res_ID x \<noteq> res_ID r) (t_resources (w_tables w))"
    using r(2) unfolding rows by (intro filter_cong) auto
  have "Do (process_tx env cx (res_Kind r) (res_ID r) ?s0) w = (Inr (None, Some y), w1)"
    using assms(1) tx y(1) by (rule Do_calm)
  then have "ProcessAdapterStatus env cx (res_Kind r) (res_ID r) s w = (Inr (Some y), w1)"
    using r(3) by (simp add: ProcessAdapterStatus_def check_def validateKind_def effect_simps commit_one_def
        record_started_def)
  moreover have "phase w1 (res_ID r) = Absent" unfolding phase_absent by (auto simp: resource_ids_def rows')
  ultimately show ?thesis using y rows' rest by blast
qed

section \<open>The last finalizer of a small database\<close>

text \<open>The cluster is marked, the adapter \<open>dns\<close> has finalized, and \<open>validation\<close> has reported once.\<close>

definition cluster_report :: "string \<Rightarrow> gotime \<Rightarrow> string \<Rightarrow> adapter_status" where
  "cluster_report adapter t fin = (sample_full_report adapter 1 t ''True'' fin)\<lparr>as_ID := ''st-'' @ adapter,
     as_ResourceType := ''Cluster'', as_ResourceID := ''c1''\<rparr>"

definition finalizing_resource :: resource where
  "finalizing_resource = strip (sample_resource\<lparr>res_DeletedTime := Some 7\<rparr>)"

definition finalizing_tables :: tables where
  "finalizing_tables = empty_tables\<lparr>t_resources := [finalizing_resource],
     t_statuses := [cluster_report ''dns'' 50000 ''True'', cluster_report ''validation'' 60000 ''False'']\<rparr>"

lemma finalizing_schema_ok: "schema_ok finalizing_tables"
  by (simp add: finalizing_tables_def empty_tables_def schema_ok_def names_ok_def rows_ok_def links_ok_def
      finalizing_resource_def cluster_report_def status_key_def sample_full_report_def sample_report_def)

lemma hard_delete_completes_witness:
  "\<exists>y w'. ProcessAdapterStatus sample_env sample_caller ''Cluster'' ''c1''
        ((cluster_report ''validation'' 90000 ''True'')\<lparr>as_ID := []\<rparr>) (calm finalizing_tables) = (Inr (Some y), w') \<and>
     t_resources (w_tables w') = [] \<and> as_Adapter y = ''validation''"
proof -
  let ?s = "(cluster_report ''validation'' 90000 ''True'')\<lparr>as_ID := []\<rparr>"
  have "last_finalizer sample_env sample_caller finalizing_resource ?s (calm finalizing_tables)" by code_simp
  from hard_delete_completes [OF _ _ this] finalizing_schema_ok show ?thesis
    by (auto simp: calm_def finalizing_tables_def finalizing_resource_def sample_resource_def strip_def
        cluster_report_def sample_full_report_def sample_report_def status_key_def)
qed

end
