(* ===== verification/List_Params.thy ===== *)
theory List_Params
  imports Listing
begin

text \<open>
  The query parameters of a list request (\<open>pkg/handlers/list_params.go\<close>).  A query is the list of its
  keys and values in order.  The validator library is a parameter: what \<open>Struct\<close> returns for the
  parameters, nil being \<open>None\<close>; the tags of the struct say what it checks.
\<close>

type_synonym url_values = "(string \<times> string list) list"

definition query_values :: "url_values \<Rightarrow> string \<Rightarrow> string list" where
  "query_values q k = (case map_of q k of None \<Rightarrow> [] | Some vs \<Rightarrow> vs)"

definition query_get :: "url_values \<Rightarrow> string \<Rightarrow> string" where
  "query_get q k = (case query_values q k of [] \<Rightarrow> [] | v # _ \<Rightarrow> v)"

definition defaultOrder :: string where "defaultOrder = ''created_time desc''"

record list_params =
  lp_RefType :: string
  lp_RefTargetID :: string
  lp_Size :: int
  lp_Page :: int

record field_error =
  fe_Field :: string
  fe_Value :: string
  fe_Tag :: string
  fe_Param :: string
  fe_Error :: string

datatype validator_error = ValidationErrors "field_error list" | OtherError string

section \<open>Binding and checking\<close>

definition bind_int :: "url_values \<Rightarrow> string \<Rightarrow> int \<Rightarrow> validation_detail list \<times> int" where
  "bind_int q key dflt =
     (let v = TrimSpace (query_get q key) in
      if v = [] then ([], dflt)
      else case ParseInt v of
             None \<Rightarrow> ([\<lparr>vd_Field = key, vd_Value = v, vd_Constraint = ''format'',
                        vd_Message = ''must be a valid integer''\<rparr>], dflt)
           | Some i \<Rightarrow> ([], i))"

definition bindListParams :: "url_values \<Rightarrow> service_error + list_params" where
  "bindListParams q =
     (case bind_int q ''page'' (la_Page NewListArguments) of (pageErrors, page) \<Rightarrow>
      case bind_int q ''size'' (la_Size NewListArguments) of (sizeErrors, sz) \<Rightarrow>
        let formatErrors = pageErrors @ sizeErrors in
        if length formatErrors > 0 then Inl (ValidationWithDetails ''Invalid query parameters'' formatErrors)
        else Inr \<lparr>lp_RefType = TrimSpace (query_get q ''ref_type''),
                  lp_RefTargetID = TrimSpace (query_get q ''ref_target_id''), lp_Size = sz, lp_Page = page\<rparr>)"

definition mapConstraint :: "string \<Rightarrow> string" where
  "mapConstraint tag = (if tag = ''required_with'' then ''required'' else tag)"

definition validationMessage :: "string \<Rightarrow> field_error \<Rightarrow> string" where
  "validationMessage field fe =
     (if fe_Tag fe = ''min'' then field @ '' must be at least '' @ fe_Param fe
      else if fe_Tag fe = ''max'' then field @ '' must be at most '' @ fe_Param fe
      else if fe_Tag fe = ''required_with'' then ''ref_type and ref_target_id must be provided together''
      else fe_Error fe)"

definition param_detail :: "field_error \<Rightarrow> validation_detail" where
  "param_detail fe =
     (let field = ToLower (fe_Field fe) in
      \<lparr>vd_Field = field, vd_Value = fe_Value fe, vd_Constraint = mapConstraint (fe_Tag fe),
       vd_Message = validationMessage field fe\<rparr>)"

definition validateListParams :: "(list_params \<Rightarrow> validator_error option) \<Rightarrow> list_params \<Rightarrow> service_error option" where
  "validateListParams sv p =
     (case sv p of
        None \<Rightarrow> None
      | Some (OtherError err) \<Rightarrow> Some (GeneralError ''unexpected validation error: %s'' [FS err])
      | Some (ValidationErrors fes) \<Rightarrow>
          Some (ValidationWithDetails ''Invalid query parameters'' (map param_detail fes)))"

text \<open>A list that would be empty is nil; \<open>None\<close> and \<open>[]\<close> stand for nil.\<close>

definition normalizeList :: "string list \<Rightarrow> string list" where
  "normalizeList values = filter (\<lambda>s. s \<noteq> []) (map TrimSpace (concat (map (Split (CHR '','')) values)))"

definition ensureIDField :: "string list \<Rightarrow> string list option" where
  "ensureIDField fs =
     (if length fs = 0 then None
      else if ''id'' \<in> set fs then Some fs
      else Some (fs @ [''id'']))"

definition parseListParams ::
  "(list_params \<Rightarrow> validator_error option) \<Rightarrow> url_values \<Rightarrow> service_error + list_arguments" where
  "parseListParams sv q =
     (case bindListParams q of
        Inl formatErr \<Rightarrow> Inl formatErr
      | Inr p \<Rightarrow>
          (case validateListParams sv p of
             Some err \<Rightarrow> Inl err
           | None \<Rightarrow>
               let order = normalizeList (query_values q ''order'') in
               Inr \<lparr>la_Search = TrimSpace (query_get q ''search''), la_RefType = lp_RefType p,
                    la_RefTargetID = lp_RefTargetID p, la_Preloads = [],
                    la_Order = (if length order = 0 then [defaultOrder] else order),
                    la_Fields = ensureIDField (normalizeList (query_values q ''fields'')),
                    la_Size = lp_Size p, la_Page = lp_Page p\<rparr>))"

section \<open>The bounds\<close>

text \<open>What the tags say: \<open>min=1,max=100\<close>, \<open>min=1,max=100000\<close>, and \<open>required_with\<close> each other.\<close>

definition tags_hold :: "list_params \<Rightarrow> bool" where
  "tags_hold p \<longleftrightarrow> 1 \<le> lp_Size p \<and> lp_Size p \<le> 100 \<and> 1 \<le> lp_Page p \<and> lp_Page p \<le> 100000 \<and>
     (lp_RefTargetID p \<noteq> [] \<longrightarrow> lp_RefType p \<noteq> []) \<and> (lp_RefType p \<noteq> [] \<longrightarrow> lp_RefTargetID p \<noteq> [])"

text \<open>The documented behaviour of the validator: nil when the tags hold, an error otherwise.\<close>

definition checks_tags :: "(list_params \<Rightarrow> validator_error option) \<Rightarrow> bool" where
  "checks_tags sv \<longleftrightarrow> (\<forall>p. sv p = None \<longleftrightarrow> tags_hold p)"

lemma page_offset_exact:
  assumes "1 \<le> page" "page \<le> 100000" "1 \<le> n" "n \<le> 100"
  shows "page_offset page n = (page - 1) * n"
proof -
  have "0 \<le> (page - 1) * n" using assms by simp
  moreover have "(page - 1) * n \<le> 99999 * 100" using assms by (intro mult_mono) simp_all
  ultimately have "signed_take_bit 63 ((page - 1) * n) = (page - 1) * n" by (intro signed_take_bit_int_eq_self) simp_all
  then show ?thesis unfolding page_offset_def sint_sbintrunc' by simp
qed

lemma TrimSpace_in: "c \<in> set (TrimSpace s) \<Longrightarrow> c \<in> set s"
  by (auto simp: TrimSpace_def dest!: set_dropWhileD)

lemma normalizeList_clean: "f \<in> set (normalizeList vs) \<Longrightarrow> f \<noteq> [] \<and> CHR '','' \<notin> set f"
  unfolding normalizeList_def using Split_no_sep [of _ "CHR '',''"] TrimSpace_in by fastforce

text \<open>C36. The bounds of a list request: parameters that are accepted have a page from 1 to 100000 and a size
  from 1 to 100, so the 64-bit offset of the page is the exact product and does not wrap; a reference
  filter is complete or absent; there is an order; and a field selection, when there is one, has the
  field \<open>id\<close> and no empty field.\<close>

theorem parseListParams_bounds:
  assumes "checks_tags sv" and "parseListParams sv q = Inr args"
  shows "1 \<le> la_Page args \<and> la_Page args \<le> 100000 \<and> 1 \<le> la_Size args \<and> la_Size args \<le> 100 \<and>
     page_offset (la_Page args) (la_Size args) = (la_Page args - 1) * la_Size args \<and>
     (la_RefType args = [] \<longleftrightarrow> la_RefTargetID args = []) \<and> la_Order args \<noteq> [] \<and>
     (\<forall>fs. la_Fields args = Some fs \<longrightarrow> ''id'' \<in> set fs \<and> [] \<notin> set fs)"
proof -
  from assms(2) obtain p where p: "bindListParams q = Inr p" "sv p = None"
      "la_Page args = lp_Page p" "la_Size args = lp_Size p" "la_RefType args = lp_RefType p" "la_RefTargetID args = lp_RefTargetID p"
    and f: "la_Order args \<noteq> []" "la_Fields args = ensureIDField (normalizeList (query_values q ''fields''))"
    by (auto simp: parseListParams_def validateListParams_def Let_def split: sum.splits option.splits validator_error.splits)
  have tags: "tags_hold p" using assms(1) p(2) by (simp add: checks_tags_def)
  have "\<forall>fs. la_Fields args = Some fs \<longrightarrow> ''id'' \<in> set fs \<and> [] \<notin> set fs"
    using normalizeList_clean by (fastforce simp: f(2) ensureIDField_def split: if_splits)
  with tags p f(1) page_offset_exact show ?thesis by (auto simp: tags_hold_def)
qed

section \<open>A list request\<close>

text \<open>A validator as documented.\<close>

definition tag_check :: "list_params \<Rightarrow> validator_error option" where
  "tag_check p = (if tags_hold p then None else Some (OtherError ''invalid''))"

lemma tag_check_ok: "checks_tags tag_check"
  by (simp add: checks_tags_def tag_check_def)

definition sample_list_query :: url_values where
  "sample_list_query = [(''page'', ['' 3 '']), (''size'', [''50'']), (''fields'', [''name, kind'', ''''])]"

lemma parseListParams_bounds_witness:
  "\<exists>args. parseListParams tag_check sample_list_query = Inr args \<and> page_offset (la_Page args) (la_Size args) = 100 \<and>
     la_Fields args = Some [''name'', ''kind'', ''id'']"
proof -
  have "case parseListParams tag_check sample_list_query of Inl _ \<Rightarrow> False
     | Inr args \<Rightarrow> la_Page args = 3 \<and> la_Size args = 50 \<and> la_Fields args = Some [''name'', ''kind'', ''id'']" by code_simp
  then obtain args where run: "parseListParams tag_check sample_list_query = Inr args"
      and "la_Page args = 3" "la_Size args = 50" "la_Fields args = Some [''name'', ''kind'', ''id'']"
    by (auto split: sum.splits)
  with parseListParams_bounds [OF tag_check_ok run] show ?thesis by simp
qed

end
