(* ===== verification/Projection.thy ===== *)
theory Projection
  imports Api_Types
begin

text \<open>
  The projection of a response to the fields a client asks for (\<open>pkg/api/presenters/slice_filter.go\<close>).
  The source walks the response by reflection; \<open>gval\<close> is what reflection shows of a value.  A set of
  requested fields is a list; the order in which Go ranges over the set shows in an error text only.
\<close>

text \<open>\<open>GOther\<close>: a value of any other kind, with its JSON form.  \<open>GNil\<close>: a nil pointer, whose element has the
  kind \<open>Invalid\<close>.  \<open>GTime\<close>: a time, or (\<open>True\<close>) a pointer to one.  \<open>GStruct\<close>: a struct or a pointer to one, with
  the name of its type (empty for a pointer) and its fields, each with its json tag.  \<open>GSlice\<close>: a slice with
  the zero value of its element type (no response has slices of slices).\<close>

datatype gval =
    GOther json
  | GNil
  | GTime bool gotime
  | GStruct string "(string \<times> gval) list"
  | GSlice gval "gval list"

definition dotted :: "string \<Rightarrow> string \<Rightarrow> string" where
  "dotted pre name = (if pre \<noteq> [] then pre @ ''.'' @ name else name)"

definition tag_name :: "string \<Rightarrow> string" where
  "tag_name tag = hd (Split (CHR '','') tag)"

definition skipped :: "string \<Rightarrow> bool" where
  "skipped tag \<longleftrightarrow> tag = [] \<or> tag = ''-''"

abbreviation delete :: "string \<Rightarrow> string list \<Rightarrow> string list" where
  "delete k \<equiv> filter (\<lambda>f. f \<noteq> k)"

definition below_path :: "string \<Rightarrow> string \<Rightarrow> bool" where
  "below_path p f \<longleftrightarrow> HasPrefix f (p @ ''.'')"

definition removeByPrefix :: "string list \<Rightarrow> string \<Rightarrow> string list" where
  "removeByPrefix fs name = filter (\<lambda>f. \<not> below_path name f) fs"

section \<open>Validation of the requested fields\<close>

definition leftover :: "string \<Rightarrow> string \<Rightarrow> string list \<Rightarrow> service_error option" where
  "leftover tyname pre left =
     (let fs = filter (\<lambda>f. pre = [] \<or> below_path pre f) left in
      if left = [] then None
      else if fs = [] then None
      else Some (Validation ''%s'' [FS (Sprintf ''The following field(s) doesn't exist in `%s`: %s''
                   [FS tyname, FS (Join '', '' fs)])]))"

text \<open>The loop of \<open>validate\<close> over the fields of a struct: an error, or what is left of the set.  The fields
  below a struct, or below the elements of a slice, are validated on their own.\<close>

function validate_fields :: "(string \<times> gval) list \<Rightarrow> string list \<Rightarrow> string \<Rightarrow> service_error + string list" where
  "validate_fields [] req pre = Inr req"
| "validate_fields ((tag, GStruct tyname inner) # gfs) req pre =
     (let p = dotted pre (tag_name tag);
          req1 = delete (p @ ''.*'') req;
          sub = filter (below_path p) req1
      in if skipped tag then validate_fields gfs req pre
         else if sub = [] then validate_fields gfs req1 pre
         else case validate_fields inner sub p of
                Inl e \<Rightarrow> Inl e
              | Inr left \<Rightarrow>
                  (case leftover tyname p left of
                     Some e \<Rightarrow> Inl e
                   | None \<Rightarrow> validate_fields gfs (filter (\<lambda>f. f \<notin> set sub) req1) pre))"
| "validate_fields ((tag, GSlice (GStruct tyname inner) xs) # gfs) req pre =
     (let p = dotted pre (tag_name tag);
          req1 = delete (p @ ''.*'') (delete p req);
          sub = filter (below_path p) req1
      in if skipped tag then validate_fields gfs req pre
         else if sub = [] then validate_fields gfs req1 pre
         else case validate_fields inner sub p of
                Inl e \<Rightarrow> Inl e
              | Inr left \<Rightarrow>
                  (case leftover tyname p left of
                     Some e \<Rightarrow> Inl e
                   | None \<Rightarrow> validate_fields gfs (filter (\<lambda>f. f \<notin> set sub) req1) pre))"
| "validate_fields ((tag, GSlice (GOther j) xs) # gfs) req pre =
     (if skipped tag then validate_fields gfs req pre
      else let p = dotted pre (tag_name tag) in validate_fields gfs (removeByPrefix (delete (p @ ''.*'') (delete p req)) p) pre)"
| "validate_fields ((tag, GSlice GNil xs) # gfs) req pre =
     (if skipped tag then validate_fields gfs req pre
      else let p = dotted pre (tag_name tag) in validate_fields gfs (removeByPrefix (delete (p @ ''.*'') (delete p req)) p) pre)"
| "validate_fields ((tag, GSlice (GTime ptr t) xs) # gfs) req pre =
     (if skipped tag then validate_fields gfs req pre
      else let p = dotted pre (tag_name tag) in validate_fields gfs (removeByPrefix (delete (p @ ''.*'') (delete p req)) p) pre)"
| "validate_fields ((tag, GSlice (GSlice z ys) xs) # gfs) req pre =
     (if skipped tag then validate_fields gfs req pre
      else let p = dotted pre (tag_name tag) in validate_fields gfs (removeByPrefix (delete (p @ ''.*'') (delete p req)) p) pre)"
| "validate_fields ((tag, GOther j) # gfs) req pre =
     (if skipped tag then validate_fields gfs req pre
      else let p = dotted pre (tag_name tag) in validate_fields gfs (delete p req) pre)"
| "validate_fields ((tag, GNil) # gfs) req pre =
     (if skipped tag then validate_fields gfs req pre
      else let p = dotted pre (tag_name tag) in validate_fields gfs (delete p req) pre)"
| "validate_fields ((tag, GTime ptr t) # gfs) req pre =
     (if skipped tag then validate_fields gfs req pre
      else let p = dotted pre (tag_name tag) in validate_fields gfs (delete p req) pre)"
  by pat_completeness auto

termination
  by (relation "measure (\<lambda>(gfs, _, _). size_list (size_prod (\<lambda>_. 0) size) gfs)") auto

definition validate_model :: "gval \<Rightarrow> string list \<Rightarrow> string \<Rightarrow> service_error option" where
  "validate_model v req pre =
     (case v of
        GStruct tyname gfs \<Rightarrow>
          (case validate_fields gfs req pre of Inl e \<Rightarrow> Some e | Inr left \<Rightarrow> leftover tyname pre left)
      | _ \<Rightarrow> None)"

section \<open>The projection\<close>

text \<open>\<open>Format(time.RFC3339)\<close> gives the JSON form of a time; a time that is zero is left out.\<close>

definition time_member :: "string \<Rightarrow> bool \<Rightarrow> gotime \<Rightarrow> (string \<times> json) list" where
  "time_member name pointer t = (if pointer \<or> \<not> IsZero t then [(name, JTime t)] else [])"

definition asked :: "string list \<Rightarrow> string \<Rightarrow> string \<Rightarrow> bool" where
  "asked req pre name \<longleftrightarrow> dotted pre name \<in> set req \<or> pre @ ''.*'' \<in> set req"

definition slice_requested :: "string list \<Rightarrow> string \<Rightarrow> string \<Rightarrow> bool" where
  "slice_requested req pre p \<longleftrightarrow>
     p \<in> set req \<or> p @ ''.*'' \<in> set req \<or> pre @ ''.*'' \<in> set req \<or> list_ex (below_path p) req"

text \<open>A slice asked for by name, or by a star on its parent, is asked for with all the fields of its elements.\<close>

definition elem_fields :: "string list \<Rightarrow> string \<Rightarrow> string \<Rightarrow> string list" where
  "elem_fields req pre p =
     (if (p \<in> set req \<or> pre @ ''.*'' \<in> set req) \<and> p @ ''.*'' \<notin> set req then req @ [p @ ''.*''] else req)"

function struct_members :: "(string \<times> gval) list \<Rightarrow> string list \<Rightarrow> string \<Rightarrow> (string \<times> json) list"
  and slice_items :: "gval list \<Rightarrow> string list \<Rightarrow> string \<Rightarrow> json list" where
  "struct_members [] req pre = []"
| "struct_members ((tag, GTime pointer t) # gfs) req pre =
     (let name = tag_name tag in
      (if \<not> skipped tag \<and> asked req pre name then time_member name pointer t else []) @ struct_members gfs req pre)"
| "struct_members ((tag, GStruct tyname inner) # gfs) req pre =
     (let name = tag_name tag; sub = struct_members inner req (dotted pre name) in
      (if \<not> skipped tag \<and> length sub > 0 then [(name, JObj sub)] else []) @ struct_members gfs req pre)"
| "struct_members ((tag, GSlice zero xs) # gfs) req pre =
     (let name = tag_name tag; p = dotted pre name; items = slice_items xs (elem_fields req pre p) p in
      (if skipped tag then []
       else if length xs = 0 then (if slice_requested req pre p then [(name, JArr [])] else [])
       else if length items > 0 then [(name, JArr items)] else [])
      @ struct_members gfs req pre)"
| "struct_members ((tag, GNil) # gfs) req pre =
     (let name = tag_name tag in
      (if \<not> skipped tag \<and> asked req pre name then [(name, JNull)] else []) @ struct_members gfs req pre)"
| "struct_members ((tag, GOther j) # gfs) req pre =
     (let name = tag_name tag in
      (if \<not> skipped tag \<and> asked req pre name then [(name, j)] else []) @ struct_members gfs req pre)"
| "slice_items [] req p = []"
| "slice_items (x # xs) req p =
     (case x of
        GStruct tyname inner \<Rightarrow>
          (let ms = struct_members inner req p in if length ms = 0 then [] else [JObj ms])
      | GOther j \<Rightarrow> if p @ ''.*'' \<in> set req then [j] else []
      | _ \<Rightarrow> [])
     @ slice_items xs req p"
  by pat_completeness auto

termination
  by (relation "measure (case_sum (\<lambda>(gfs, _, _). size_list (size_prod (\<lambda>_. 0) size) gfs) (\<lambda>(xs, _, _). size_list size xs))") auto

definition structToMap :: "gval \<Rightarrow> string list \<Rightarrow> string \<Rightarrow> (string \<times> json) list" where
  "structToMap v req pre = (case v of GStruct tyname gfs \<Rightarrow> struct_members gfs req pre | _ \<Rightarrow> [])"

definition FilterSingle :: "string list \<Rightarrow> gval option \<Rightarrow> service_error + (string \<times> json) list" where
  "FilterSingle fields2Store r =
     (case r of
        None \<Rightarrow> Inl (Validation ''Empty resource'' [])
      | Some v \<Rightarrow>
          (case validate_model v fields2Store [] of
             Some err \<Rightarrow> Inl err
           | None \<Rightarrow> Inr (structToMap v fields2Store [])))"

record projection_list =
  pj_Items :: "(string \<times> json) list list"
  pj_Page :: int32
  pj_Size :: int32
  pj_Total :: int32

text \<open>The model is a list response: its items and its paging.\<close>

definition SliceFilter ::
  "string list \<Rightarrow> (gval list \<times> int32 \<times> int32 \<times> int32) option \<Rightarrow> service_error + projection_list" where
  "SliceFilter fields2Store model =
     (case model of
        None \<Rightarrow> Inl (Validation ''Empty model'' [])
      | Some (items, page, sz, tot) \<Rightarrow>
          let result = \<lparr>pj_Items = [], pj_Page = page, pj_Size = sz, pj_Total = tot\<rparr> in
          if length items = 0 then Inr result
          else case validate_model (hd items) fields2Store [] of
                 Some err \<Rightarrow> Inl err
               | None \<Rightarrow> Inr (result\<lparr>pj_Items := map (\<lambda>item. structToMap item fields2Store []) items\<rparr>))"

section \<open>What is asked for is what is returned\<close>

lemma dotted_nil [simp]: "dotted [] name = name"
  by (simp add: dotted_def)

lemma dotted_cons: "pre \<noteq> [] \<Longrightarrow> dotted pre name = pre @ CHR ''.'' # name"
  by (simp add: dotted_def)

lemma dotted_not_nil: "pre \<noteq> [] \<or> name \<noteq> [] \<Longrightarrow> dotted pre name \<noteq> []"
  by (simp add: dotted_def)

text \<open>A requested field names a path, or lies below it.\<close>

definition reaches :: "string \<Rightarrow> string \<Rightarrow> bool" where
  "reaches p f \<longleftrightarrow> f = p \<or> below_path p f"

lemma below_star [simp]: "below_path p (p @ ''.*'')"
  by (simp add: below_path_def HasPrefix_iff)

lemma reaches_iff: "reaches p f \<longleftrightarrow> f = p \<or> f = p @ ''.*'' \<or> below_path p f"
  by (auto simp: reaches_def)

lemma below_trans: "p \<noteq> [] \<Longrightarrow> reaches (dotted p name) f \<Longrightarrow> below_path p f"
  by (auto simp: reaches_def below_path_def HasPrefix_iff dotted_def)

text \<open>The fields of a struct that a request can name.\<close>

definition names_field :: "(string \<times> gval) list \<Rightarrow> string \<Rightarrow> string \<Rightarrow> bool" where
  "names_field gfs pre f \<longleftrightarrow>
     list_ex (\<lambda>(tag, v). \<not> skipped tag \<and> reaches (dotted pre (tag_name tag)) f) gfs"

lemma names_field_Cons:
  "names_field ((tag, v) # gfs) pre f \<longleftrightarrow>
     \<not> skipped tag \<and> reaches (dotted pre (tag_name tag)) f \<or> names_field gfs pre f"
  by (auto simp: names_field_def)

lemma validate_fields_left:
  "validate_fields gfs req pre = Inr left \<Longrightarrow> f \<in> set req \<Longrightarrow> \<not> names_field gfs pre f \<Longrightarrow> f \<in> set left"
  by (induction gfs req pre arbitrary: left rule: validate_fields.induct)
     (auto simp: names_field_Cons Let_def reaches_iff removeByPrefix_def split: if_splits sum.splits option.splits)

text \<open>A member of the result was asked for, by its name, by a field below it, or by a star on its struct.\<close>

definition wanted :: "string list \<Rightarrow> string \<Rightarrow> string \<Rightarrow> bool" where
  "wanted req pre k \<longleftrightarrow> list_ex (reaches (dotted pre k)) req \<or> pre @ ''.*'' \<in> set req"

lemma asked_wanted: "asked req pre k \<Longrightarrow> wanted req pre k"
  by (auto simp: asked_def wanted_def list_ex_iff reaches_def)

lemma wanted_below: "p \<noteq> [] \<Longrightarrow> wanted req p k \<Longrightarrow> list_ex (below_path p) req"
  by (auto simp: wanted_def list_ex_iff intro: below_trans below_star)

text \<open>The names in the json tags are not empty and do not begin with a dot.\<close>

fun named :: "(string \<times> gval) list \<Rightarrow> bool" where
  "named [] = True"
| "named ((tag, v) # gfs) =
     ((skipped tag \<or> tag_name tag \<noteq> [] \<and> hd (tag_name tag) \<noteq> CHR ''.'') \<and> named gfs)"

lemma slice_wanted:
  "slice_requested req pre (dotted pre k) \<Longrightarrow> wanted req pre k"
  by (auto simp: slice_requested_def wanted_def list_ex_iff reaches_iff)

lemma elem_fields_wanted:
  "list_ex (below_path (dotted pre k)) (elem_fields req pre (dotted pre k)) \<Longrightarrow> wanted req pre k"
  by (auto simp: elem_fields_def wanted_def list_ex_iff reaches_iff split: if_splits)

lemma below_wanted: "list_ex (below_path (dotted pre k)) req \<Longrightarrow> wanted req pre k"
  by (auto simp: wanted_def list_ex_iff reaches_def)

lemma members_wanted:
  shows "pre \<noteq> [] \<or> named gfs \<Longrightarrow> (k, j) \<in> set (struct_members gfs req pre) \<Longrightarrow> wanted req pre k"
    and "p \<noteq> [] \<Longrightarrow> slice_items xs req p \<noteq> [] \<Longrightarrow> list_ex (below_path p) req"
proof (induction gfs req pre and xs req p arbitrary: k j rule: struct_members_slice_items.induct)
  case (3 tag tyname inner gfs req pre)
  have "wanted req pre (tag_name tag)"
    if tag: "\<not> skipped tag" and sub: "struct_members inner req (dotted pre (tag_name tag)) \<noteq> []"
  proof -
    let ?p = "dotted pre (tag_name tag)"
    have p: "?p \<noteq> []" using 3(3) tag by (auto simp: dotted_not_nil)
    obtain k' j' where "(k', j') \<in> set (struct_members inner req ?p)" using sub by (cases "struct_members inner req ?p") auto
    then have "wanted req ?p k'" using 3(1) p by blast
    then show ?thesis using below_wanted wanted_below p by blast
  qed
  then show ?case using 3 by (auto simp: Let_def split: if_splits)
next
  case (4 tag zero xs gfs req pre)
  then show ?case 
    by (auto simp: Let_def slice_wanted elem_fields_wanted dotted_not_nil split: if_splits)
next
  case (8 x xs req p)
  have "list_ex (below_path p) req" if x: "x = GStruct tyname inner" and sub: "struct_members inner req p \<noteq> []" for tyname inner
  proof -
    obtain k' j' where "(k', j') \<in> set (struct_members inner req p)" using sub by (cases "struct_members inner req p") auto
    then show ?thesis using 8(1)[OF x] 8(3) wanted_below by blast
  qed
  moreover have "list_ex (below_path p) req" if "p @ ''.*'' \<in> set req"
    unfolding list_ex_iff by (rule bexI[of _ "p @ ''.*''"]) (simp_all add: that)
  ultimately show ?case using 8(2-4) by (auto simp: Let_def split: gval.splits if_splits)
qed (auto simp: Let_def asked_wanted time_member_def split: if_splits)

lemma no_bare_star: "named gfs \<Longrightarrow> \<not> names_field gfs [] ''.*''"
proof (induction gfs rule: named.induct)
  case (2 tag v gfs)
  have "\<not> reaches n ''.*''" if "n \<noteq> []" "hd n \<noteq> CHR ''.''" for n
    using that by (cases n) (auto simp: reaches_def below_path_def HasPrefix_iff)
  then show ?case using 2 by (auto simp: names_field_Cons)
qed (simp add: names_field_def)

lemma member_later: "m \<in> set (struct_members gfs req pre) \<Longrightarrow> m \<in> set (struct_members (gf # gfs) req pre)"
  by (cases gf rule: prod.exhaust, rename_tac tag v, case_tac v) (auto simp: Let_def)

lemma plain_member:
  "(tag, GOther j) \<in> set gfs \<Longrightarrow> \<not> skipped tag \<Longrightarrow> tag_name tag \<in> set req
    \<Longrightarrow> (tag_name tag, j) \<in> set (struct_members gfs req [])"
  by (induction gfs) (auto simp: asked_def member_later)


definition sample_struct :: gval where
  "sample_struct = GStruct ''Resource''
     [(''id'', GOther (JStr ''c-1'')), (''name,omitempty'', GOther (JStr ''east'')),
      (''labels,omitempty'', GNil),
      (''status'', GStruct ''ResourceStatus''
         [(''conditions'', GSlice (GStruct ''ResourceCondition'' [(''type'', GOther (JStr [])), (''status'', GOther (JStr []))])
            [GStruct ''ResourceCondition'' [(''type'', GOther (JStr ''Ready'')), (''status'', GOther (JStr ''True''))]])])]"

definition sample_projection :: "(string \<times> json) list" where
  "sample_projection =
     [(''id'', JStr ''c-1''), (''status'', JObj [(''conditions'', JArr [JObj [(''type'', JStr ''Ready'')]])])]"

lemma sample_projected:
  "FilterSingle [''status.conditions.type'', ''id''] (Some sample_struct) = Inr sample_projection"
  by code_simp


end
