(* ===== verification/Patterns.thy ===== *)
theory Patterns
  imports Prelude
begin

text \<open>
  Anchored regular expressions of Go's \<open>regexp\<close>, as far as the request validation uses them: the
  expressions, the language they denote, and a matcher by derivatives that decides it.
\<close>

datatype rx = Void | Eps | Cls "char \<Rightarrow> bool" | Cat rx rx | Alt rx rx | Star rx

definition Opt :: "rx \<Rightarrow> rx" where "Opt r = Alt r Eps"

inductive_set many :: "string set \<Rightarrow> string set" for L :: "string set" where
  many_none: "[] \<in> many L"
| many_more: "s \<in> L \<Longrightarrow> t \<in> many L \<Longrightarrow> s @ t \<in> many L"

primrec lang :: "rx \<Rightarrow> string set" where
  "lang Void = {}"
| "lang Eps = {[]}"
| "lang (Cls P) = {[c] | c. P c}"
| "lang (Cat r q) = {s @ t | s t. s \<in> lang r \<and> t \<in> lang q}"
| "lang (Alt r q) = lang r \<union> lang q"
| "lang (Star r) = many (lang r)"

section \<open>The matcher\<close>

primrec nullable :: "rx \<Rightarrow> bool" where
  "nullable Void = False"
| "nullable Eps = True"
| "nullable (Cls P) = False"
| "nullable (Cat r q) = (nullable r \<and> nullable q)"
| "nullable (Alt r q) = (nullable r \<or> nullable q)"
| "nullable (Star r) = True"

fun cat :: "rx \<Rightarrow> rx \<Rightarrow> rx" where
  "cat Void q = Void"
| "cat Eps q = q"
| "cat r q = Cat r q"

fun alt :: "rx \<Rightarrow> rx \<Rightarrow> rx" where
  "alt Void q = q"
| "alt r Void = r"
| "alt r q = Alt r q"

primrec deriv :: "char \<Rightarrow> rx \<Rightarrow> rx" where
  "deriv c Void = Void"
| "deriv c Eps = Void"
| "deriv c (Cls P) = (if P c then Eps else Void)"
| "deriv c (Cat r q) = (if nullable r then alt (cat (deriv c r) q) (deriv c q) else cat (deriv c r) q)"
| "deriv c (Alt r q) = alt (deriv c r) (deriv c q)"
| "deriv c (Star r) = cat (deriv c r) (Star r)"

fun MatchString :: "rx \<Rightarrow> string \<Rightarrow> bool" where
  "MatchString r [] = nullable r"
| "MatchString r (c # s) = MatchString (deriv c r) s"

lemma lang_cat: "lang (cat r q) = lang (Cat r q)"
  by (cases r) auto

lemma lang_alt: "lang (alt r q) = lang (Alt r q)"
  by (cases "(r, q)" rule: alt.cases) auto

lemma nullable_iff: "nullable r \<longleftrightarrow> [] \<in> lang r"
  by (induction r) (auto intro: many_none)

lemma many_cons:
  "c # s \<in> many L \<longleftrightarrow> (\<exists>u t. s = u @ t \<and> c # u \<in> L \<and> t \<in> many L)"
proof
  assume "c # s \<in> many L"
  then show "\<exists>u t. s = u @ t \<and> c # u \<in> L \<and> t \<in> many L"
  proof (induction "c # s" arbitrary: s)
    case (many_more x t)
    then show ?case by (cases x) auto
  qed
next
  assume "\<exists>u t. s = u @ t \<and> c # u \<in> L \<and> t \<in> many L"
  then show "c # s \<in> many L" using many_more [of "c # _"] by fastforce
qed

lemma deriv_iff: "s \<in> lang (deriv c r) \<longleftrightarrow> c # s \<in> lang r"
proof (induction r arbitrary: s)
  case (Cat r q)
  then show ?case
    by (auto simp: lang_cat lang_alt nullable_iff Cons_eq_append_conv)
next
  case (Star r)
  then show ?case by (auto simp: lang_cat many_cons)
qed (auto simp: lang_alt)

text \<open>The matcher decides the language.\<close>

theorem MatchString_iff: "MatchString r s \<longleftrightarrow> s \<in> lang r"
  by (induction s arbitrary: r) (simp_all add: nullable_iff deriv_iff)

section \<open>Words that begin and end in a class\<close>

lemma many_class: "many {[c] | c. P c} = {s. list_all P s}"
proof (intro set_eqI iffI)
  fix s assume "s \<in> many {[c] | c. P c}"
  then show "s \<in> {s. list_all P s}" by induction auto
next
  fix s assume "s \<in> {s. list_all P s}"
  then have "list_all P s" by simp
  then show "s \<in> many {[c] | c. P c}"
  proof (induction s)
    case (Cons c s)
    then show ?case using many_more [of "[c]" "{[c] | c. P c}" s] by auto
  qed (rule many_none)
qed

text \<open>\<open>P(Q*P)?\<close>\<close>

definition bracketed :: "(char \<Rightarrow> bool) \<Rightarrow> (char \<Rightarrow> bool) \<Rightarrow> rx" where
  "bracketed P Q = Cat (Cls P) (Opt (Cat (Star (Cls Q)) (Cls P)))"

lemma bracketed_iff:
  assumes "\<And>c. P c \<Longrightarrow> Q c"
  shows "MatchString (bracketed P Q) s \<longleftrightarrow> s \<noteq> [] \<and> list_all Q s \<and> P (hd s) \<and> P (last s)"
proof
  assume "MatchString (bracketed P Q) s"
  then show "s \<noteq> [] \<and> list_all Q s \<and> P (hd s) \<and> P (last s)"
    using assms by (auto simp: MatchString_iff bracketed_def Opt_def many_class)
next
  assume r: "s \<noteq> [] \<and> list_all Q s \<and> P (hd s) \<and> P (last s)"
  show "MatchString (bracketed P Q) s"
  proof (cases "tl s = []")
    case True
    with r obtain c where "s = [c]" "P c" by (cases s) auto
    then show ?thesis by (auto simp: MatchString_iff bracketed_def Opt_def)
  next
    case False
    with r obtain c t where s: "s = c # t" "t \<noteq> []" by (cases s) auto
    then have "P c" "P (last t)" "list_all Q (butlast t)"
      using r by (auto simp: list_all_iff dest: in_set_butlastD)
    then have "t \<in> lang (Opt (Cat (Star (Cls Q)) (Cls P)))"
      using append_butlast_last_id [OF s(2), symmetric] by (simp add: many_class Opt_def) blast
    moreover have "[c] \<in> lang (Cls P)" using \<open>P c\<close> by simp
    ultimately have "[c] @ t \<in> lang (bracketed P Q)" unfolding bracketed_def lang.simps by blast
    with s(1) show ?thesis by (simp add: MatchString_iff)
  qed
qed

end
