(* ===== verification/Request_Validation.thy ===== *)
theory Request_Validation
  imports Patterns Service_Support
begin

text \<open>
  The checks of a decoded request (\<open>pkg/handlers/validation.go\<close>).  The functions of the source take
  the request and the name of a field, and read the field by reflection; here they take the field:
  \<open>Plain\<close>, or a pointer that may be nil.  A nil map is \<open>None\<close>.  A check is the error it returns, if any.
  The request types are generated from the API description, which is not in the repository; their
  records have the fields that the handlers and presenters read, with the types these give them.
\<close>

datatype 'a go_field = Plain 'a | Pointer "'a option"

fun elem :: "'a go_field \<Rightarrow> 'a option" where
  "elem (Plain x) = Some x"
| "elem (Pointer p) = p"

section \<open>Requests\<close>

record resource_create_request =
  crq_Kind :: string
  crq_Name :: string
  crq_Spec :: "(string \<times> json) list option"
  crq_Labels :: "(string \<times> string) list option"
  crq_References :: "reference_map option"

record resource_patch_request =
  prq_Spec :: "(string \<times> json) list option"
  prq_Labels :: "(string \<times> string) list option"
  prq_References :: "reference_map option"

record force_delete_request =
  frq_Reason :: string

record condition_request =
  cr_Type :: string
  cr_Status :: string
  cr_Reason :: "string option"
  cr_Message :: "string option"

record adapter_status_request =
  arq_Adapter :: string
  arq_ObservedGeneration :: int32
  arq_ObservedTime :: gotime
  arq_Conditions :: "condition_request list"
  arq_Data :: "(string \<times> json) list option"
  arq_Metadata :: "json option"

section \<open>Label keys and values\<close>

definition maxReasonLength :: nat where "maxReasonLength = 1024"
definition maxLabelKeyLen :: nat where "maxLabelKeyLen = MaxLabelKeyLen"
definition maxLabelValueLen :: nat where "maxLabelValueLen = 63"
definition minute :: int where "minute = 60 * 10 ^ 9"
definition maxObservedTimeSkew :: int where "maxObservedTimeSkew = 5 * minute"
definition maxObservedTimeAge :: int where "maxObservedTimeAge = 30 * minute"
definition dbNameMaxLen :: nat where "dbNameMaxLen = 100"

definition lower_alnum :: "char \<Rightarrow> bool" where
  "lower_alnum c \<longleftrightarrow> is_lower c \<or> is_digit c"

definition alnum :: "char \<Rightarrow> bool" where
  "alnum c \<longleftrightarrow> is_alpha c \<or> is_digit c"

definition or_one_of :: "(char \<Rightarrow> bool) \<Rightarrow> string \<Rightarrow> char \<Rightarrow> bool" where
  "or_one_of P cs c \<longleftrightarrow> P c \<or> c \<in> set cs"

definition dnsLabelPattern :: rx where
  "dnsLabelPattern = bracketed lower_alnum (or_one_of lower_alnum ''-'')"

definition labelNamePattern :: rx where
  "labelNamePattern = bracketed alnum (or_one_of alnum ''._-'')"

definition labelValuePattern :: rx where
  "labelValuePattern = Opt (bracketed alnum (or_one_of alnum ''._-''))"

definition namePattern :: rx where
  "namePattern = bracketed lower_alnum (or_one_of lower_alnum ''-'')"

definition isValidLabelKeyPrefix :: "string \<Rightarrow> bool" where
  "isValidLabelKeyPrefix s \<longleftrightarrow>
     \<not> (s = [] \<or> length s > 253) \<and>
     list_all (\<lambda>seg. \<not> (seg = [] \<or> length seg > 63 \<or> \<not> MatchString dnsLabelPattern seg)) (Split (CHR ''.'') s)"

text \<open>\<open>strings.Cut\<close>: before and after the first separator, and whether there is one.\<close>

fun Cut :: "char \<Rightarrow> string \<Rightarrow> string \<times> string \<times> bool" where
  "Cut sep [] = ([], [], False)"
| "Cut sep (c # s) = (if c = sep then ([], s, True) else case Cut sep s of (a, b, found) \<Rightarrow> (c # a, b, found))"

definition isValidLabelKey :: "string \<Rightarrow> bool" where
  "isValidLabelKey k \<longleftrightarrow>
     \<not> (k = [] \<or> length k > maxLabelKeyLen) \<and>
     (case Cut (CHR ''/'') k of (pre, name, hasPrefix) \<Rightarrow>
        (hasPrefix \<longrightarrow> isValidLabelKeyPrefix pre) \<and>
        (let name = (if hasPrefix then name else pre) in
         0 < length name \<and> length name \<le> 63 \<and> MatchString labelNamePattern name))"

section \<open>Field checks\<close>

definition required :: "string \<Rightarrow> service_error" where
  "required field = Validation ''%s is required'' [FS field]"

definition validateNotEmpty :: "string go_field \<Rightarrow> string \<Rightarrow> service_error option" where
  "validateNotEmpty value field =
     (case elem value of
        None \<Rightarrow> Some (required field)
      | Some s \<Rightarrow> if length s = 0 then Some (required field) else None)"

text \<open>\<open>utf8.RuneCountInString\<close>: a byte that starts no valid encoding counts as one rune.\<close>

function RuneCount :: "string \<Rightarrow> nat" where
  "RuneCount s = (if s = [] then 0 else Suc (RuneCount (drop (case rune_size s of None \<Rightarrow> 1 | Some n \<Rightarrow> n) s)))"
  by pat_completeness auto

termination RuneCount
  by (relation "measure length") (auto split: option.splits dest: rune_size_bounds)

declare RuneCount.simps [simp del]

definition validateMaxLength :: "string go_field \<Rightarrow> string \<Rightarrow> nat \<Rightarrow> service_error option" where
  "validateMaxLength value field maxLen =
     (case elem value of
        None \<Rightarrow> None
      | Some s \<Rightarrow> if RuneCount s > maxLen
                  then Some (Validation ''%s must be at most %d characters'' [FS field, FD (int maxLen)]) else None)"

definition validateEntityName :: "string go_field \<Rightarrow> string \<Rightarrow> int \<Rightarrow> int \<Rightarrow> service_error option" where
  "validateEntityName value field minLen maxLen =
     (case elem value of
        None \<Rightarrow> Some (required field)
      | Some name \<Rightarrow>
          if length name = 0 then Some (required field)
          else if minLen > 0 \<and> int (length name) < minLen then
            Some (Validation ''%s must be at least %d characters'' [FS field, FD minLen])
          else let effectiveMax = (if maxLen > 0 \<and> maxLen < int dbNameMaxLen then maxLen else int dbNameMaxLen) in
            if int (length name) > effectiveMax then
              Some (Validation ''%s must be at most %d characters'' [FS field, FD effectiveMax])
            else if \<not> MatchString namePattern name then
              Some (Validation (''%s must start and end with lowercase letter or number, and contain only '' @
                ''lowercase letters, numbers, and hyphens'') [FS field])
            else None)"

definition validateEntityKind :: "string go_field \<Rightarrow> string \<Rightarrow> string \<Rightarrow> service_error option" where
  "validateEntityKind value field expectedKind =
     (case elem value of
        None \<Rightarrow> Some (required field)
      | Some kind \<Rightarrow>
          if length kind = 0 then Some (required field)
          else if kind \<noteq> expectedKind then
            Some (Validation (''%s must be '%s'' @ [CHR 0x27]) [FS field, FS expectedKind])
          else None)"

definition validateSpec :: "(string \<times> json) list option go_field \<Rightarrow> string \<Rightarrow> service_error option" where
  "validateSpec value field =
     (case elem value of
        None \<Rightarrow> Some (required field)
      | Some m \<Rightarrow> if m = None then Some (required field) else None)"

definition label_details :: "string \<times> string \<Rightarrow> validation_detail list" where
  "label_details kv = (case kv of (k, v) \<Rightarrow>
     (if \<not> isValidLabelKey k then
        [\<lparr>vd_Field = ''labels'', vd_Value = k, vd_Constraint = ''pattern'',
          vd_Message = ''label key must match Kubernetes label format (optional DNS prefix/name, alphanumeric with ._-)''\<rparr>]
      else []) @
     (if length v > maxLabelValueLen \<or> \<not> MatchString labelValuePattern v then
        [\<lparr>vd_Field = Sprintf ''labels[%s]'' [FS k], vd_Value = v, vd_Constraint = ''pattern'',
          vd_Message = Sprintf ''label value must be at most %d chars (alphanumeric with ._-)'' [FD (int maxLabelValueLen)]\<rparr>]
      else []))"

definition validateLabels :: "(string \<times> string) list go_field \<Rightarrow> service_error option" where
  "validateLabels value =
     (case elem value of
        None \<Rightarrow> None
      | Some labels \<Rightarrow>
          let details = concat (map label_details labels) in
          if length details > 0 then Some (ValidationWithDetails ''label validation failed'' details) else None)"

definition validatePatchRequest :: "resource_patch_request \<Rightarrow> service_error option" where
  "validatePatchRequest req =
     (if prq_Spec req = None \<and> prq_Labels req = None \<and> prq_References req = None
      then Some (BadRequest ''at least one field must be provided for update'' []) else None)"

definition validateObservedGeneration :: "adapter_status_request \<Rightarrow> service_error option" where
  "validateObservedGeneration req =
     (if i32_less (arq_ObservedGeneration req) 1
      then Some (Validation ''observed_generation must be >= 1'' []) else None)"

definition isValidAdapterConditionStatus :: "string \<Rightarrow> bool" where
  "isValidAdapterConditionStatus status \<longleftrightarrow>
     status = ''True'' \<or> status = ''False'' \<or> status = ''Unknown''"

text \<open>The loop, at index \<open>idx\<close> with the types seen so far.\<close>

fun check_condition_requests :: "nat \<Rightarrow> string set \<Rightarrow> condition_request list \<Rightarrow> service_error option" where
  "check_condition_requests idx seen [] = None"
| "check_condition_requests idx seen (c # cs) =
     (if cr_Type c = [] then Some (Validation ''condition type cannot be empty at index %d'' [FD (int idx)])
      else if cr_Type c \<in> seen then
        Some (Validation ''duplicate condition type '%s' at index %d'' [FS (cr_Type c), FD (int idx)])
      else if \<not> isValidAdapterConditionStatus (cr_Status c) then
        Some (Validation (''invalid status value '%s' for condition at index %d (type: %s): must be 'True', 'False', or 'Unknown'' @ [CHR 0x27])
          [FS (cr_Status c), FD (int idx), FS (cr_Type c)])
      else check_condition_requests (Suc idx) (insert (cr_Type c) seen) cs)"

definition validateConditions :: "condition_request list \<Rightarrow> service_error option" where
  "validateConditions conditions = check_condition_requests 0 {} conditions"

text \<open>\<open>now\<close> is the value of \<open>time.Now()\<close>.\<close>

definition validateObservedTimeRange :: "gotime \<Rightarrow> gotime option \<Rightarrow> service_error option" where
  "validateObservedTimeRange now t =
     (case t of
        None \<Rightarrow> None
      | Some t \<Rightarrow>
          if IsZero t then None
          else if now + maxObservedTimeSkew < t then
            Some (Validation ''observed_time must not be more than %s in the future'' [FS ''5m0s''])
          else if t < now - maxObservedTimeAge then
            Some (Validation ''observed_time must not be more than %s in the past'' [FS ''30m0s''])
          else None)"

section \<open>What passes\<close>

lemma validateNotEmpty_None: "validateNotEmpty (Plain s) field = None \<longleftrightarrow> s \<noteq> []"
  by (simp add: validateNotEmpty_def)

lemma or_one_of_base: "P c \<Longrightarrow> or_one_of P cs c"
  by (simp add: or_one_of_def)

text \<open>RFC 1123 labels: lower-case letters, digits and hyphens, beginning and ending with a letter or digit.\<close>

definition rfc1123_label :: "string \<Rightarrow> bool" where
  "rfc1123_label s \<longleftrightarrow> s \<noteq> [] \<and> list_all (\<lambda>c. lower_alnum c \<or> c = CHR ''-'') s \<and> hd s \<noteq> CHR ''-'' \<and> last s \<noteq> CHR ''-''"

lemma namePattern_iff: "MatchString namePattern s \<longleftrightarrow> rfc1123_label s"
proof -
  have "\<not> lower_alnum (CHR ''-'')" by code_simp
  moreover have "\<forall>c\<in>set s. lower_alnum c \<or> c = CHR ''-'' \<Longrightarrow> s \<noteq> [] \<Longrightarrow> (lower_alnum (hd s) \<longleftrightarrow> hd s \<noteq> CHR ''-'') \<and>
      (lower_alnum (last s) \<longleftrightarrow> last s \<noteq> CHR ''-'')"
    using calculation hd_in_set [of s] last_in_set [of s] by auto
  moreover have "MatchString namePattern s \<longleftrightarrow>
      s \<noteq> [] \<and> list_all (or_one_of lower_alnum ''-'') s \<and> lower_alnum (hd s) \<and> lower_alnum (last s)"
    unfolding namePattern_def by (rule bracketed_iff) (rule or_one_of_base)
  ultimately show ?thesis
    by (auto simp: rfc1123_label_def or_one_of_def list_all_iff)
qed

text \<open>A name that passes is a label within the limits of its kind and of the column.\<close>

lemma validateEntityName_None:
  "validateEntityName (Plain s) field minLen maxLen = None \<longleftrightarrow>
     rfc1123_label s \<and> minLen \<le> int (length s) \<and> length s \<le> 100 \<and> (0 < maxLen \<longrightarrow> int (length s) \<le> maxLen)"
  by (cases "s = []") (auto simp: validateEntityName_def Let_def namePattern_iff dbNameMaxLen_def rfc1123_label_def Suc_le_eq)

definition valid_label :: "string \<times> string \<Rightarrow> bool" where
  "valid_label kv \<longleftrightarrow> isValidLabelKey (fst kv) \<and> length (snd kv) \<le> 63 \<and> MatchString labelValuePattern (snd kv)"

lemma label_details_none: "label_details kv = [] \<longleftrightarrow> valid_label kv"
  by (cases kv) (auto simp: label_details_def valid_label_def maxLabelValueLen_def)

lemma validateLabels_None:
  "validateLabels value = None \<longleftrightarrow> (\<forall>labels. elem value = Some labels \<longrightarrow> (\<forall>kv\<in>set labels. valid_label kv))"
  by (cases "elem value") (auto simp: validateLabels_def Let_def label_details_none)

lemma valid_label_key_bound: "isValidLabelKey k \<Longrightarrow> k \<noteq> [] \<and> length k \<le> MaxLabelKeyLen"
  by (simp add: isValidLabelKey_def maxLabelKeyLen_def)

text \<open>Labels that pass are labels the database takes.\<close>

lemma valid_labels_convert:
  assumes "validateLabels (Pointer (Some kvs)) = None" "(k, v) \<in> set kvs"
  shows "ValidateLabel k v = None"
proof -
  from assms have "isValidLabelKey k" "length v \<le> 63" by (auto simp: validateLabels_None valid_label_def)
  then show ?thesis using valid_label_key_bound [of k] by (simp add: ValidateLabel_def MaxLabelValueLen_def)
qed

end
