(* ===== verification/Presenters.thy ===== *)
theory Presenters
  imports Request_Validation "HOL-Library.AList"
begin

text \<open>
  Between the API and the models: \<open>pkg/api/presenters/resource.go\<close> and \<open>adapter_status.go\<close>, and the
  conversions of \<open>pkg/handlers/helpers.go\<close>.  The records of presented values stand for the generated
  \<open>openapi\<close> types, with the fields the presenters set.  Decoded JSON always encodes again, so the
  marshalling errors of the source do not occur.
\<close>

section \<open>Requests to models\<close>

definition zero_resource :: resource where
  "zero_resource = \<lparr>res_OwnerID = None, res_OwnerHref = None, res_OwnerKind = None, res_DeletedBy = None,
     res_DeletedTime = None, res_CreatedTime = 0, res_UpdatedTime = 0, res_ID = [], res_Kind = [], res_Name = [],
     res_Href = [], res_CreatedBy = [], res_UpdatedBy = [], res_Labels = [], res_Spec = JEmpty, res_Tenancy = JEmpty,
     res_Conditions = [], res_References = [], res_Generation = 0\<rparr>"

text \<open>\<open>json.Marshal\<close> of a map: a nil map is null.\<close>

definition marshal_map :: "(string \<times> json) list option \<Rightarrow> json" where
  "marshal_map m = (case m of None \<Rightarrow> JNull | Some ms \<Rightarrow> JObj ms)"

fun label_rows :: "(string \<times> string) list \<Rightarrow> string + resource_label list" where
  "label_rows [] = Inr []"
| "label_rows ((k, v) # kvs) =
     (case ValidateLabel k v of
        Some err \<Rightarrow> Inl err
      | None \<Rightarrow> (case label_rows kvs of
          Inl err \<Rightarrow> Inl err
        | Inr ls \<Rightarrow> Inr (\<lparr>rl_ResourceID = [], rl_Key = k, rl_Value = v\<rparr> # ls)))"

definition convertLabelsToModel :: "(string \<times> string) list option \<Rightarrow> string + resource_label list" where
  "convertLabelsToModel labels =
     (case labels of None \<Rightarrow> Inr [] | Some kvs \<Rightarrow> if length kvs = 0 then Inr [] else label_rows kvs)"

definition ConvertResource :: "resource_create_request \<Rightarrow> string + resource" where
  "ConvertResource req =
     (case convertLabelsToModel (crq_Labels req) of
        Inl err \<Rightarrow> Inl (''invalid labels: '' @ err)
      | Inr labels \<Rightarrow> Inr (zero_resource\<lparr>res_Kind := crq_Kind req, res_Name := crq_Name req,
                            res_Spec := JDoc (marshal_map (crq_Spec req)), res_Labels := labels\<rparr>))"

definition ConvertResourceWithOwner ::
  "resource_create_request \<Rightarrow> string \<Rightarrow> string \<Rightarrow> string \<Rightarrow> string + resource" where
  "ConvertResourceWithOwner req ownerID ownerKind ownerHref =
     (case ConvertResource req of
        Inl err \<Rightarrow> Inl err
      | Inr r \<Rightarrow> Inr (SetOwner ownerID ownerKind ownerHref r))"

definition convertResourcePatch :: "resource_patch_request \<Rightarrow> resource_patch" where
  "convertResourcePatch req =
     \<lparr>rp_Spec = map_option JObj (prq_Spec req), rp_Labels = prq_Labels req, rp_References = prq_References req\<rparr>"

definition extractReferences :: "reference_map option \<Rightarrow> reference_map" where
  "extractReferences refs = (case refs of None \<Rightarrow> [] | Some m \<Rightarrow> m)"

text \<open>\<open>now\<close> is the value of \<open>time.Now()\<close>.\<close>

definition ConvertAdapterStatus :: "gotime \<Rightarrow> string \<Rightarrow> string \<Rightarrow> adapter_status_request \<Rightarrow> adapter_status" where
  "ConvertAdapterStatus now resourceType resourceID req =
     (let now = (if \<not> IsZero (arq_ObservedTime req) then arq_ObservedTime req else now);
          conditions = map (\<lambda>c. \<lparr>ac_LastTransitionTime = now, ac_Reason = cr_Reason c, ac_Message = cr_Message c,
                                 ac_Type = cr_Type c, ac_Status = cr_Status c\<rparr>) (arq_Conditions req);
          data = (case arq_Data req of None \<Rightarrow> [] | Some d \<Rightarrow> d)
      in \<lparr>as_LastReportTime = now, as_CreatedTime = now, as_UpdatedTime = 0, as_ID = [],
          as_ResourceType = resourceType, as_ResourceID = resourceID, as_Adapter = arq_Adapter req,
          as_Conditions = encode_adapter_conditions conditions, as_Data = JDoc (JObj data),
          as_Metadata = (case arq_Metadata req of None \<Rightarrow> JEmpty | Some m \<Rightarrow> JDoc m),
          as_ObservedGeneration = arq_ObservedGeneration req\<rparr>)"

section \<open>Models to responses\<close>

record presented_reference =
  pf_Id :: "string option"
  pf_Kind :: string
  pf_Href :: "string option"

record presented_condition =
  pc_Type :: string
  pc_Status :: string
  pc_Reason :: "string option"
  pc_Message :: "string option"
  pc_ObservedGeneration :: int32
  pc_CreatedTime :: gotime
  pc_LastUpdatedTime :: gotime
  pc_LastTransitionTime :: gotime

record presented_resource =
  po_Id :: string
  po_Kind :: string
  po_Name :: string
  po_Href :: "string option"
  po_Spec :: "(string \<times> json) list option"
  po_Labels :: "(string \<times> string) list option"
  po_Tenancy :: "(string \<times> string) list"
  po_Generation :: int32
  po_CreatedTime :: gotime
  po_UpdatedTime :: gotime
  po_CreatedBy :: string
  po_UpdatedBy :: string
  po_DeletedTime :: "gotime option"
  po_DeletedBy :: "string option"
  po_Conditions :: "presented_condition list"
  po_OwnerReferences :: "presented_reference option"
  po_References :: "(string \<times> presented_reference list) list option"

text \<open>\<open>json.Unmarshal\<close> into a map, which null leaves nil; \<open>None\<close> is an error.\<close>

definition unmarshal_map :: "jsonb \<Rightarrow> (string \<times> json) list option option" where
  "unmarshal_map b =
     (case Unmarshal b of
        Some (JObj ms) \<Rightarrow> Some (Some ms) | Some JNull \<Rightarrow> Some None | _ \<Rightarrow> None)"

definition presentLabels :: "resource_label list \<Rightarrow> (string \<times> string) list option" where
  "presentLabels labels =
     (if length labels = 0 then None
      else Some (foldl (\<lambda>m l. AList.update (rl_Key l) (rl_Value l) m) [] labels))"

text \<open>A null member of a \<open>map[string]string\<close> is the empty string.\<close>

fun decode_strings :: "(string \<times> json) list \<Rightarrow> (string \<times> string) list option" where
  "decode_strings [] = Some []"
| "decode_strings ((k, v) # ms) =
     (case (case v of JStr s \<Rightarrow> Some s | JNull \<Rightarrow> Some [] | _ \<Rightarrow> None) of
        None \<Rightarrow> None
      | Some s \<Rightarrow> map_option ((#) (k, s)) (decode_strings ms))"

definition presentTenancy :: "jsonb \<Rightarrow> (string \<times> string) list" where
  "presentTenancy t =
     (case unmarshal_map t of
        Some (Some ms) \<Rightarrow> (case decode_strings ms of None \<Rightarrow> [] | Some m \<Rightarrow> m)
      | _ \<Rightarrow> [])"

definition presentResourceConditions :: "resource_condition list \<Rightarrow> presented_condition list" where
  "presentResourceConditions conditions =
     map (\<lambda>c. \<lparr>pc_Type = rc_Type c, pc_Status = rc_Status c, pc_Reason = rc_Reason c, pc_Message = rc_Message c,
               pc_ObservedGeneration = rc_ObservedGeneration c, pc_CreatedTime = rc_CreatedTime c,
               pc_LastUpdatedTime = rc_LastUpdatedTime c, pc_LastTransitionTime = rc_LastTransitionTime c\<rparr>) conditions"

definition present_reference :: "registry \<Rightarrow> resource_reference \<Rightarrow> presented_reference" where
  "present_reference ds ref =
     \<lparr>pf_Id = Some (rr_TargetID ref), pf_Kind = rr_TargetKind ref,
      pf_Href = (case Get ds (rr_TargetKind ref) of
         None \<Rightarrow> None
       | Some targetDesc \<Rightarrow>
           Some (Sprintf ''/api/hyperfleet/v1/%s/%s'' [FS (desc_Plural targetDesc), FS (rr_TargetID ref)]))\<rparr>"

definition presentResourceReferences ::
  "registry \<Rightarrow> resource_reference list \<Rightarrow> (string \<times> presented_reference list) list" where
  "presentResourceReferences ds refs =
     foldl (\<lambda>m ref. AList.update (rr_RefType ref)
              ((case map_of m (rr_RefType ref) of None \<Rightarrow> [] | Some rs \<Rightarrow> rs) @ [present_reference ds ref]) m)
       [] refs"

definition PresentResource :: "registry \<Rightarrow> resource \<Rightarrow> presented_resource" where
  "PresentResource ds r =
     \<lparr>po_Id = res_ID r, po_Kind = res_Kind r, po_Name = res_Name r, po_Href = Some (res_Href r),
      po_Spec = (case unmarshal_map (res_Spec r) of None \<Rightarrow> None | Some spec \<Rightarrow> spec),
      po_Labels = presentLabels (res_Labels r), po_Tenancy = presentTenancy (res_Tenancy r),
      po_Generation = res_Generation r, po_CreatedTime = res_CreatedTime r, po_UpdatedTime = res_UpdatedTime r,
      po_CreatedBy = res_CreatedBy r, po_UpdatedBy = res_UpdatedBy r, po_DeletedTime = res_DeletedTime r,
      po_DeletedBy = res_DeletedBy r, po_Conditions = presentResourceConditions (res_Conditions r),
      po_OwnerReferences =
        (case res_OwnerID r of
           None \<Rightarrow> None
         | Some i \<Rightarrow> if i = [] then None
             else Some \<lparr>pf_Id = Some i, pf_Kind = (case res_OwnerKind r of None \<Rightarrow> [] | Some k \<Rightarrow> k),
                        pf_Href = res_OwnerHref r\<rparr>),
      po_References = (if length (res_References r) > 0
                       then Some (presentResourceReferences ds (res_References r)) else None)\<rparr>"

text \<open>\<open>int32(n)\<close> of a 64-bit value keeps the low 32 bits.\<close>

definition to_int32 :: "int \<Rightarrow> int32" where
  "to_int32 n = word_of_int n"

record presented_status =
  ps_Adapter :: string
  ps_Conditions :: "adapter_condition list"
  ps_CreatedTime :: gotime
  ps_Data :: "(string \<times> json) list option"
  ps_LastReportTime :: gotime
  ps_Metadata :: "json option"
  ps_ObservedGeneration :: int32

text \<open>\<open>AdapterStatusMetadata\<close>: the members that are there have the declared types.\<close>

definition metadata_ok :: "(string \<times> json) list \<Rightarrow> bool" where
  "metadata_ok ms \<longleftrightarrow>
     member_int32 ms ''attempt'' \<noteq> None \<and> member_time ms ''completed_time'' \<noteq> None \<and>
     member_string ms ''duration'' \<noteq> None \<and> member_string ms ''job_name'' \<noteq> None \<and>
     member_string ms ''job_namespace'' \<noteq> None \<and> member_time ms ''started_time'' \<noteq> None"

definition metadata_names :: "string list" where
  "metadata_names = [''attempt'', ''completed_time'', ''duration'', ''job_name'', ''job_namespace'', ''started_time'']"

text \<open>Decoding to the struct and copying its fields keeps the known members that are not null.\<close>

definition present_metadata :: "jsonb \<Rightarrow> string + json option" where
  "present_metadata b =
     (if b = JEmpty then Inr None
      else case Unmarshal b of
             Some JNull \<Rightarrow> Inr None
           | Some (JObj ms) \<Rightarrow>
               if metadata_ok ms
               then Inr (Some (JObj (concat (map (\<lambda>k. case map_of ms k of None \<Rightarrow> [] | Some JNull \<Rightarrow> [] | Some v \<Rightarrow> [(k, v)])
                                        metadata_names))))
               else Inl ''failed to unmarshal adapter status metadata: ''
           | _ \<Rightarrow> Inl ''failed to unmarshal adapter status metadata: '')"

definition PresentAdapterStatus :: "adapter_status \<Rightarrow> string + presented_status" where
  "PresentAdapterStatus s =
     (case (if as_Conditions s \<noteq> JEmpty then decode_adapter_conditions (as_Conditions s) else Some []) of
        None \<Rightarrow> Inl ''failed to unmarshal adapter status conditions: ''
      | Some conditions \<Rightarrow>
          (case (if as_Data s \<noteq> JEmpty then unmarshal_map (as_Data s) else Some None) of
             None \<Rightarrow> Inl ''failed to unmarshal adapter status data: ''
           | Some data \<Rightarrow>
               (case present_metadata (as_Metadata s) of
                  Inl err \<Rightarrow> Inl err
                | Inr metadata \<Rightarrow>
                    Inr \<lparr>ps_Adapter = as_Adapter s,
                         ps_Conditions = filter (\<lambda>c. AdapterConditionStatus_IsValid (ac_Status c)) conditions,
                         ps_CreatedTime = as_CreatedTime s, ps_Data = data, ps_LastReportTime = as_LastReportTime s,
                         ps_Metadata = metadata, ps_ObservedGeneration = as_ObservedGeneration s\<rparr>)))"

record presented_list =
  pl_Items :: "presented_resource list"
  pl_Page :: int32
  pl_Size :: int32
  pl_Total :: int

text \<open>Each item presented, up to the first that cannot be.\<close>

fun present_statuses :: "adapter_status list \<Rightarrow> string + presented_status list" where
  "present_statuses [] = Inr []"
| "present_statuses (s # ss) =
     (case PresentAdapterStatus s of
        Inl err \<Rightarrow> Inl err
      | Inr p \<Rightarrow> (case present_statuses ss of Inl err \<Rightarrow> Inl err | Inr ps \<Rightarrow> Inr (p # ps)))"

section \<open>A report is presented as it was sent\<close>

lemma valid_statuses:
  "check_condition_requests idx seen cs = None \<Longrightarrow> list_all (\<lambda>c. AdapterConditionStatus_IsValid (cr_Status c)) cs"
  by (induction idx seen cs rule: check_condition_requests.induct)
     (auto simp: isValidAdapterConditionStatus_def AdapterConditionStatus_IsValid_def AdapterConditionTrue_def
        AdapterConditionFalse_def AdapterConditionUnknown_def split: if_splits)

lemma filter_all: "list_all P xs \<Longrightarrow> filter P xs = xs"
  by (induction xs) auto

definition sent_condition :: "gotime \<Rightarrow> condition_request \<Rightarrow> adapter_condition" where
  "sent_condition t c = \<lparr>ac_LastTransitionTime = t, ac_Reason = cr_Reason c, ac_Message = cr_Message c,
     ac_Type = cr_Type c, ac_Status = cr_Status c\<rparr>"

lemma PresentAdapterStatus_stored:
  "as_Conditions s = encode_adapter_conditions cs \<Longrightarrow> as_Data s = JDoc (JObj d)
    \<Longrightarrow> list_all (\<lambda>c. AdapterConditionStatus_IsValid (ac_Status c)) cs \<Longrightarrow> present_metadata (as_Metadata s) = Inr m
    \<Longrightarrow> PresentAdapterStatus s = Inr \<lparr>ps_Adapter = as_Adapter s, ps_Conditions = cs, ps_CreatedTime = as_CreatedTime s,
          ps_Data = Some d, ps_LastReportTime = as_LastReportTime s, ps_Metadata = m,
          ps_ObservedGeneration = as_ObservedGeneration s\<rparr>"
  by (simp add: PresentAdapterStatus_def unmarshal_map_def filter_all encode_adapter_conditions_def[symmetric])
     (simp add: encode_adapter_conditions_def)

text \<open>A report whose conditions pass the checks of the handler is presented as it was sent: the adapter, its
  observed generation, every condition in order with its type, status, reason and message, and the data; the
  times are the observed time, or the clock of the server when the report gives none.\<close>

theorem report_presented_as_sent:
  assumes "validateConditions (arq_Conditions req) = None" and "arq_Metadata req = None"
  shows "PresentAdapterStatus (ConvertAdapterStatus now ty i req) =
    (let t = (if IsZero (arq_ObservedTime req) then now else arq_ObservedTime req) in
     Inr \<lparr>ps_Adapter = arq_Adapter req, ps_Conditions = map (sent_condition t) (arq_Conditions req),
          ps_CreatedTime = t, ps_Data = Some (case arq_Data req of None \<Rightarrow> [] | Some d \<Rightarrow> d),
          ps_LastReportTime = t, ps_Metadata = None, ps_ObservedGeneration = arq_ObservedGeneration req\<rparr>)"
proof -
  have "list_all (\<lambda>c. AdapterConditionStatus_IsValid (ac_Status c)) (map (sent_condition t) (arq_Conditions req))" for t
    using valid_statuses[OF assms(1)[unfolded validateConditions_def]]
    by (simp add: list_all_iff sent_condition_def)
  then show ?thesis
    by (subst PresentAdapterStatus_stored)
       (auto simp: ConvertAdapterStatus_def Let_def sent_condition_def[abs_def] assms(2) present_metadata_def)
qed

definition sample_report_request :: adapter_status_request where
  "sample_report_request = \<lparr>arq_Adapter = ''dns'', arq_ObservedGeneration = 3, arq_ObservedTime = 0,
     arq_Conditions = [\<lparr>cr_Type = ''Available'', cr_Status = ''True'', cr_Reason = Some ''Ok'', cr_Message = None\<rparr>],
     arq_Data = None, arq_Metadata = None\<rparr>"

theorem report_presented_as_sent_witness:
  "PresentAdapterStatus (ConvertAdapterStatus 70 ''Cluster'' ''c-1'' sample_report_request) =
    Inr \<lparr>ps_Adapter = ''dns'', ps_Conditions = [\<lparr>ac_LastTransitionTime = 70, ac_Reason = Some ''Ok'',
           ac_Message = None, ac_Type = ''Available'', ac_Status = ''True''\<rparr>], ps_CreatedTime = 70, ps_Data = Some [],
         ps_LastReportTime = 70, ps_Metadata = None, ps_ObservedGeneration = 3\<rparr>"
proof -
  have "validateConditions (arq_Conditions sample_report_request) = None" by code_simp
  then show ?thesis
    by (subst report_presented_as_sent) (simp_all add: sample_report_request_def sent_condition_def IsZero_def)
qed

end
