(* ===== verification/Schema_Validation.thy ===== *)
theory Schema_Validation
  imports Presenters
begin

text \<open>
  Validation of specs against the OpenAPI document: \<open>pkg/validators/schema_validator.go\<close> and the middleware
  of \<open>pkg/middleware/schema_validation.go\<close>.  The OpenAPI library is a parameter: the document gives, for the
  name of a component schema, what \<open>VisitJSON\<close> returns for an object, nil being \<open>None\<close>.
\<close>

section \<open>The validator\<close>

text \<open>An error of the library; a schema error has the JSON pointer of the offending value and a reason.\<close>

datatype openapi_error =
    MultiError "openapi_error list"
  | SchemaError "string list" string
  | OtherOpenapiError string

type_synonym visit_json = "(string \<times> json) list \<Rightarrow> openapi_error option"
type_synonym openapi_doc = "string \<Rightarrow> visit_json option"

record resource_schema =
  rsc_TypeName :: string
  rsc_Schema :: visit_json

record schema_validator =
  sv_schemas :: "string \<Rightarrow> resource_schema option"

definition add_schema :: "openapi_doc \<Rightarrow> (string \<Rightarrow> resource_schema option) \<Rightarrow> entity_descriptor \<Rightarrow> (string \<Rightarrow> resource_schema option)" where
  "add_schema doc schemas d =
     (case doc (desc_SpecSchemaName d) of
        None \<Rightarrow> schemas
      | Some ref \<Rightarrow> schemas(desc_Plural d \<mapsto> \<lparr>rsc_TypeName = desc_SpecSchemaName d, rsc_Schema = ref\<rparr>))"

definition buildSchemasMap :: "registry \<Rightarrow> openapi_doc \<Rightarrow> (string \<Rightarrow> resource_schema option)" where
  "buildSchemasMap ds doc = foldl (add_schema doc) (\<lambda>_. None) (WithSpecSchema ds)"

definition NewSchemaValidator :: "registry \<Rightarrow> openapi_doc \<Rightarrow> registry_fault + schema_validator" where
  "NewSchemaValidator ds doc =
     (case ValidateSpecSchemas (\<lambda>name. doc name \<noteq> None) ds of
        Some fault \<Rightarrow> Inl fault
      | None \<Rightarrow> Inr \<lparr>sv_schemas = buildSchemasMap ds doc\<rparr>)"

definition HasSchema :: "schema_validator \<Rightarrow> string \<Rightarrow> bool" where
  "HasSchema v resourcePlural \<longleftrightarrow> sv_schemas v resourcePlural \<noteq> None"

text \<open>A detail that names no value and no constraint has these empty.\<close>

definition schema_detail :: "string \<Rightarrow> string \<Rightarrow> validation_detail" where
  "schema_detail field msg = \<lparr>vd_Field = field, vd_Value = [], vd_Constraint = [], vd_Message = msg\<rparr>"

fun convertValidationError :: "openapi_error \<Rightarrow> string \<Rightarrow> validation_detail list" where
  "convertValidationError (MultiError es) pre = concat (map (\<lambda>e. convertValidationError e pre) es)"
| "convertValidationError (SchemaError pointer reason) pre =
     (let jsonPath = Join ''.'' pointer in
      [schema_detail (if length pointer > 0 \<and> jsonPath \<noteq> [] then pre @ ''.'' @ jsonPath else pre) reason])"
| "convertValidationError (OtherOpenapiError msg) pre = [schema_detail pre msg]"

definition validator_validateSpec :: "(string \<times> json) list \<Rightarrow> visit_json \<Rightarrow> string \<Rightarrow> service_error option" where
  "validator_validateSpec spec visit specTypeName =
     (case visit spec of
        None \<Rightarrow> None
      | Some err \<Rightarrow> Some (ValidationWithDetails (Sprintf ''Invalid %s'' [FS specTypeName]) (convertValidationError err ''spec'')))"

definition Validator_Validate :: "schema_validator \<Rightarrow> string \<Rightarrow> (string \<times> json) list \<Rightarrow> service_error option" where
  "Validator_Validate v resourcePlural spec =
     (case sv_schemas v resourcePlural of
        None \<Rightarrow> None
      | Some rs \<Rightarrow> validator_validateSpec spec (rsc_Schema rs) (rsc_TypeName rs))"

section \<open>Which requests are validated\<close>

definition is_hex :: "char \<Rightarrow> bool" where
  "is_hex c \<longleftrightarrow> is_digit c \<or> c \<in> set ''abcdefABCDEF''"

fun literal :: "string \<Rightarrow> rx" where
  "literal [] = Eps"
| "literal (c # s) = Cat (Cls (\<lambda>d. d = c)) (literal s)"

fun repeated :: "nat \<Rightarrow> rx \<Rightarrow> rx \<Rightarrow> rx" where
  "repeated 0 r q = q"
| "repeated (Suc n) r q = Cat r (repeated n r q)"

definition uuid_rx :: rx where
  "uuid_rx =
     (let hexes = (\<lambda>n q. repeated n (Cls is_hex) q); dash = (\<lambda>q. Cat (literal ''-'') q) in
      hexes 8 (dash (hexes 4 (dash (hexes 4 (dash (hexes 4 (dash (hexes 12 Eps)))))))))"

text \<open>\<open>/<plural>(?:/?|/<uuid>)\<close>, to be found at the end of a path.\<close>

definition buildEndsWithEntityRegex :: "string \<Rightarrow> rx" where
  "buildEndsWithEntityRegex plural =
     Cat (literal (''/'' @ plural)) (Alt (Opt (literal ''/'')) (Cat (literal ''/'') uuid_rx))"

fun match_at_end :: "rx \<Rightarrow> string \<Rightarrow> bool" where
  "match_at_end r [] = MatchString r []"
| "match_at_end r (c # s) = (MatchString r (c # s) \<or> match_at_end r s)"

definition rootResourcePattern :: rx where
  "rootResourcePattern = buildEndsWithEntityRegex ''resources''"

definition buildMatchers :: "entity_descriptor list \<Rightarrow> (string \<times> rx) list" where
  "buildMatchers specEntities = map (\<lambda>d. (desc_Plural d, buildEndsWithEntityRegex (desc_Plural d))) specEntities"

definition shouldValidateRequest :: "string \<Rightarrow> string \<Rightarrow> (string \<times> rx) list \<Rightarrow> bool \<times> string" where
  "shouldValidateRequest verb path matchers =
     (if verb \<noteq> ''POST'' \<and> verb \<noteq> ''PATCH'' then (False, [])
      else case find_first (\<lambda>(plural, re). match_at_end re path) matchers of
             Some (plural, re) \<Rightarrow> (True, plural)
           | None \<Rightarrow>
               if verb = ''POST'' \<and> match_at_end rootResourcePattern path then (True, []) else (False, []))"

definition resolveRootResourcePlural :: "registry \<Rightarrow> (string \<times> json) list \<Rightarrow> string" where
  "resolveRootResourcePlural ds requestData =
     (case map_of requestData ''kind'' of
        Some (JStr kind) \<Rightarrow>
          if kind = [] then []
          else (case Get ds kind of None \<Rightarrow> [] | Some d \<Rightarrow> desc_Plural d)
      | _ \<Rightarrow> [])"

section \<open>The middleware\<close>

text \<open>The body as read, \<open>None\<close> when reading failed.  The result is the error that is answered; \<open>None\<close>: the next
  handler runs, on the same body.  The validator returns service errors only.\<close>

definition check_body_spec :: "registry \<Rightarrow> schema_validator \<Rightarrow> string \<Rightarrow> (string \<times> json) list \<Rightarrow> service_error option" where
  "check_body_spec ds v resourcePlural0 requestData =
     (let resourcePlural = (if resourcePlural0 = [] then resolveRootResourcePlural ds requestData else resourcePlural0) in
      if resourcePlural = [] then None
      else case map_of requestData ''spec'' of
             None \<Rightarrow> None
           | Some (JObj specMap) \<Rightarrow> Validator_Validate v resourcePlural specMap
           | Some _ \<Rightarrow> Some (Validation ''spec field must be an object'' []))"

definition SchemaValidationMiddleware ::
  "registry \<Rightarrow> schema_validator \<Rightarrow> string \<Rightarrow> string \<Rightarrow> jsonb option \<Rightarrow> service_error option" where
  "SchemaValidationMiddleware ds v verb path body =
     (case shouldValidateRequest verb path (buildMatchers (WithSpecSchema ds)) of
        (shouldValidate, resourcePlural) \<Rightarrow>
          if \<not> shouldValidate then None
          else case body of
                 None \<Rightarrow> Some (MalformedRequest ''Failed to read request body'' [])
               | Some b \<Rightarrow>
                   (case unmarshal_map b of
                      None \<Rightarrow> Some (MalformedRequest ''Invalid JSON in request body'' [])
                    | Some data \<Rightarrow>
                        check_body_spec ds v resourcePlural (case data of None \<Rightarrow> [] | Some ms \<Rightarrow> ms)))"

section \<open>What the middleware lets through\<close>

lemma lang_literal: "lang (literal s) = {s}"
  by (induction s) auto

lemma match_at_end_iff: "match_at_end r s \<longleftrightarrow> (\<exists>a b. s = a @ b \<and> b \<in> lang r)"
proof (induction s)
  case (Cons c s)
  have "(\<exists>a b. c # s = a @ b \<and> b \<in> lang r) \<longleftrightarrow> c # s \<in> lang r \<or> (\<exists>a b. s = a @ b \<and> b \<in> lang r)"
    by (auto simp: Cons_eq_append_conv)
  with Cons show ?case by (simp add: MatchString_iff)
qed (simp add: MatchString_iff)

lemma collection_matches: "match_at_end (buildEndsWithEntityRegex plural) (pre @ ''/'' @ plural)"
proof -
  have "''/'' @ plural \<in> lang (buildEndsWithEntityRegex plural)"
    by (simp add: buildEndsWithEntityRegex_def lang_literal Opt_def)
  then show ?thesis by (auto simp: match_at_end_iff)
qed

lemma foldl_add_schema:
  "foldl (add_schema doc) m ds p = Some rs \<Longrightarrow>
     m p = Some rs \<or> (\<exists>d\<in>set ds. desc_Plural d = p \<and> doc (desc_SpecSchemaName d) = Some (rsc_Schema rs) \<and>
       rsc_TypeName rs = desc_SpecSchemaName d)"
proof (induction ds arbitrary: m)
  case (Cons d ds)
  from Cons.IH [of "add_schema doc m d"] Cons.prems show ?case
    by (auto simp: add_schema_def split: option.splits if_splits)
qed simp

text \<open>The schemas of a validator are schemas of the document, each the one its kind declares.\<close>

lemma buildSchemasMap_sound:
  "buildSchemasMap ds doc p = Some rs \<Longrightarrow> \<exists>d\<in>set ds. desc_Plural d = p \<and> desc_SpecSchemaName d \<noteq> [] \<and>
     doc (desc_SpecSchemaName d) = Some (rsc_Schema rs)"
  using foldl_add_schema [of doc "\<lambda>_. None" "WithSpecSchema ds" p rs]
  by (auto simp: buildSchemasMap_def WithSpecSchema_def)

lemma Validator_Validate_None:
  "Validator_Validate v p spec = None \<longleftrightarrow> (\<forall>rs. sv_schemas v p = Some rs \<longrightarrow> rsc_Schema rs spec = None)"
  by (auto simp: Validator_Validate_def validator_validateSpec_def split: option.splits)

text \<open>Only a member that is spelled \<open>spec\<close> is looked at.\<close>

lemma check_body_spec_unspelled: "map_of data ''spec'' = None \<Longrightarrow> check_body_spec ds v p data = None"
  by (simp add: check_body_spec_def Let_def)

lemma check_body_spec_conforms:
  assumes "check_body_spec ds v p data = None" "p \<noteq> []" "map_of data ''spec'' = Some j"
  shows "\<exists>spec. j = JObj spec \<and> Validator_Validate v p spec = None"
  using assms by (auto simp: check_body_spec_def Let_def split: json.splits)

end
