(* ===== verification/Handlers.thy ===== *)
theory Handlers
  imports List_Params Projection Schema_Validation Deletion
begin

text \<open>
  The HTTP handlers (\<open>pkg/handlers\<close>: \<open>helpers.go\<close>, \<open>resource_handler.go\<close>, \<open>root_resource_handler.go\<close>,
  \<open>resource_status_handler.go\<close>; \<open>pkg/services/adapter_status.go\<close>).  A handler is an operation that ends in a
  response; a service error is answered as a problem document, a panic goes up to the server.  The request
  body is the result of decoding it, in strict mode or not; the decoder fills types generated from the API
  description, and reflection on them, which the projection needs, is the parameter \<open>rf\<close>.
\<close>

section \<open>Requests and responses\<close>

text \<open>The values of the path parameters are empty when the route has none.\<close>

record http_request =
  rq_Path :: string
  rq_ID :: string
  rq_ParentID :: string
  rq_Query :: url_values
  rq_RequestID :: "string option"

record presented_status_list =
  sl_Items :: "presented_status list"
  sl_Page :: int32
  sl_Size :: int32
  sl_Total :: int32

datatype payload =
    NoContent
  | ProblemDoc problem_details
  | ResourceDoc presented_resource
  | ProjectedDoc "(string \<times> json) list"
  | ResourceListDoc presented_list
  | ProjectedListDoc projection_list
  | StatusDoc presented_status
  | StatusListDoc presented_status_list

record http_response =
  rs_Code :: nat
  rs_ContentType :: string
  rs_Vary :: string
  rs_Payload :: payload

definition writeJSONResponse :: "nat \<Rightarrow> payload \<Rightarrow> http_response op" where
  "writeJSONResponse code p =
     returnE \<lparr>rs_Code = code, rs_ContentType = ''application/json'', rs_Vary = ''Authorization'', rs_Payload = p\<rparr>"

definition WriteProblemDetailsResponse :: "nat \<Rightarrow> problem_details \<Rightarrow> http_response" where
  "WriteProblemDetailsResponse code p =
     \<lparr>rs_Code = code, rs_ContentType = ''application/problem+json'', rs_Vary = ''Authorization'', rs_Payload = ProblemDoc p\<rparr>"

text \<open>\<open>w.WriteHeader(http.StatusNoContent)\<close>\<close>

definition write_no_content :: "http_response op" where
  "write_no_content = returnE \<lparr>rs_Code = 204, rs_ContentType = [], rs_Vary = [], rs_Payload = NoContent\<rparr>"

definition handleError :: "environment \<Rightarrow> http_request \<Rightarrow> service_error \<Rightarrow> http_response op" where
  "handleError env q err =
     bindE (time_Now env) (\<lambda>now.
     let traceID = (case rq_RequestID q of None \<Rightarrow> [] | Some t \<Rightarrow> t) in
     returnE (WriteProblemDetailsResponse (se_HTTPCode err) (AsProblemDetails now err (rq_Path q) traceID)))"

text \<open>\<open>if err != nil { handleError(r, w, err); return }\<close>\<close>

fun answer :: "environment \<Rightarrow> http_request \<Rightarrow> failure \<Rightarrow> http_response op" where
  "answer env q (Svc err) = handleError env q err"
| "answer env q f = raiseE f"

definition handle :: "environment \<Rightarrow> http_request \<Rightarrow> 'a op \<Rightarrow> ('a \<Rightarrow> http_response op) \<Rightarrow> http_response op" where
  "handle env q m k = call_else m (answer env q) k"

definition lift :: "service_error + 'a \<Rightarrow> 'a op" where
  "lift r = (case r of Inl e \<Rightarrow> raiseE (Svc e) | Inr x \<Rightarrow> returnE x)"

section \<open>Decoding and validation\<close>

datatype reflect_kind =
    KBool | KInt | KInt8 | KInt16 | KInt32 | KInt64 | KUint | KUint8 | KUint16 | KUint32 | KUint64
  | KFloat32 | KFloat64 | KString | KMap | KStruct | KSlice | KArray | KPtr | KInterface | KOther

fun describeJSONKind :: "reflect_kind \<Rightarrow> string" where
  "describeJSONKind KMap = ''an object''"
| "describeJSONKind KStruct = ''an object''"
| "describeJSONKind KSlice = ''an array''"
| "describeJSONKind KArray = ''an array''"
| "describeJSONKind KString = ''a string''"
| "describeJSONKind KBool = ''a boolean''"
| "describeJSONKind KPtr = ''the correct type''"
| "describeJSONKind KInterface = ''the correct type''"
| "describeJSONKind KOther = ''the correct type''"
| "describeJSONKind _ = ''a number''"

text \<open>What \<open>Decode\<close> returns when it fails: \<open>io.EOF\<close>, a value of the wrong type for a field, another error.\<close>

datatype decode_error = EOF | TypeMismatch string reflect_kind | OtherDecodeError string

type_synonym 'req decoder = "bool \<Rightarrow> decode_error + 'req"

fun cleanTypeMismatchError :: "decode_error \<Rightarrow> service_error option" where
  "cleanTypeMismatchError (TypeMismatch field k) =
     Some (Validation ''field '%s' must be %s'' [FS field, FS (describeJSONKind k)])"
| "cleanTypeMismatchError _ = None"

definition decode_failure :: "decode_error \<Rightarrow> service_error" where
  "decode_failure err =
     (if err = EOF then MalformedRequest ''Request body is required but was empty'' []
      else case cleanTypeMismatchError err of
             Some typeErr \<Rightarrow> typeErr
           | None \<Rightarrow> MalformedRequest ''Invalid request format: %s''
                       [FS (case err of OtherDecodeError msg \<Rightarrow> msg | _ \<Rightarrow> [])])"

fun first_failure :: "service_error option list \<Rightarrow> service_error option" where
  "first_failure [] = None"
| "first_failure (None # rs) = first_failure rs"
| "first_failure (Some e # rs) = Some e"

definition decodeAndValidate ::
  "'req decoder \<Rightarrow> ('req \<Rightarrow> service_error option) list \<Rightarrow> string list \<Rightarrow> service_error + 'req" where
  "decodeAndValidate decode validateFuncs decodeType =
     (if length decodeType > 0 \<and> hd decodeType \<noteq> ''strict'' then
        Inl (GeneralError ''invalid decode mode: %s (must be 'strict')'' [FS (hd decodeType)])
      else case decode (length decodeType > 0) of
             Inl err \<Rightarrow> Inl (decode_failure err)
           | Inr req \<Rightarrow>
               (case first_failure (map (\<lambda>f. f req) validateFuncs) of
                  Some svcErr \<Rightarrow> Inl svcErr
                | None \<Rightarrow> Inr req))"

definition create_validators :: "entity_descriptor \<Rightarrow> (resource_create_request \<Rightarrow> service_error option) list" where
  "create_validators desc =
     [\<lambda>req. validateEntityKind (Plain (crq_Kind req)) ''kind'' (desc_Kind desc),
      \<lambda>req. validateEntityName (Plain (crq_Name req)) ''name'' (desc_NameMinLen desc) (desc_NameMaxLen desc),
      \<lambda>req. validateSpec (Plain (crq_Spec req)) ''spec'',
      \<lambda>req. validateLabels (Pointer (crq_Labels req))]"

definition patch_validators :: "(resource_patch_request \<Rightarrow> service_error option) list" where
  "patch_validators = [validatePatchRequest, \<lambda>req. validateLabels (Pointer (prq_Labels req))]"

definition force_delete_validators :: "(force_delete_request \<Rightarrow> service_error option) list" where
  "force_delete_validators =
     [\<lambda>req. validateNotEmpty (Plain (frq_Reason req)) ''reason'',
      \<lambda>req. validateMaxLength (Plain (frq_Reason req)) ''reason'' maxReasonLength]"

definition status_validators :: "gotime \<Rightarrow> (adapter_status_request \<Rightarrow> service_error option) list" where
  "status_validators now =
     [\<lambda>req. validateNotEmpty (Plain (arq_Adapter req)) ''adapter'',
      validateObservedGeneration,
      \<lambda>req. validateConditions (arq_Conditions req),
      \<lambda>req. validateObservedTimeRange now (Some (arq_ObservedTime req))]"

text \<open>\<open>childCreateRejection\<close>: a validation error with another HTTP status.\<close>

definition childCreateRejection :: "environment \<Rightarrow> entity_descriptor \<Rightarrow> service_error op" where
  "childCreateRejection env desc =
     bindE (must env (desc_ParentKind desc)) (\<lambda>parent.
     returnE ((Validation ''kind %q is a child kind; create it via /%s/{id}/%s''
                [FS (desc_Kind desc), FS (desc_Plural parent), FS (desc_Plural desc)])\<lparr>se_HTTPCode := 422\<rparr>))"

definition applyFieldFilter ::
  "(presented_resource \<Rightarrow> gval) \<Rightarrow> http_request \<Rightarrow> presented_resource \<Rightarrow> service_error + payload" where
  "applyFieldFilter rf q presented =
     (case ensureIDField (normalizeList (query_values (rq_Query q) ''fields'')) of
        None \<Rightarrow> Inr (ResourceDoc presented)
      | Some fs \<Rightarrow>
          (case FilterSingle fs (Some (rf presented)) of
             Inl filterErr \<Rightarrow> Inl filterErr
           | Inr filtered \<Rightarrow> Inr (ProjectedDoc filtered)))"

definition PresentResourceList :: "registry \<Rightarrow> resource list \<Rightarrow> paging_meta \<Rightarrow> presented_list" where
  "PresentResourceList ds resources paging =
     \<lparr>pl_Items = map (PresentResource ds) resources, pl_Page = to_int32 (pm_Page paging),
      pl_Size = to_int32 (pm_Size paging), pl_Total = pm_Total paging\<rparr>"

text \<open>The list, or its projection.\<close>

definition list_payload ::
  "(presented_resource \<Rightarrow> gval) \<Rightarrow> list_arguments \<Rightarrow> presented_list \<Rightarrow> service_error + payload" where
  "list_payload rf listArgs presented =
     (case la_Fields listArgs of
        None \<Rightarrow> Inr (ResourceListDoc presented)
      | Some fs \<Rightarrow>
          (case SliceFilter fs (Some (map rf (pl_Items presented), pl_Page presented, pl_Size presented,
                                      to_int32 (pl_Total presented))) of
             Inl err \<Rightarrow> Inl err
           | Inr filtered \<Rightarrow> Inr (ProjectedListDoc filtered)))"

section \<open>The handler of one kind\<close>

definition parentIDIfExists :: "environment \<Rightarrow> req_context \<Rightarrow> entity_descriptor \<Rightarrow> http_request \<Rightarrow> string op" where
  "parentIDIfExists env cx desc q =
     (if rq_ParentID q = [] then returnE []
      else bindE (Service_Get env cx (desc_ParentKind desc) (rq_ParentID q)) (\<lambda>_. returnE (rq_ParentID q)))"

text \<open>The resource a create request asks for, or the text of a conversion error.\<close>

definition requested_resource ::
  "environment \<Rightarrow> req_context \<Rightarrow> entity_descriptor \<Rightarrow> http_request \<Rightarrow> resource_create_request \<Rightarrow> (string + resource) op" where
  "requested_resource env cx desc q req =
     (if rq_ParentID q \<noteq> [] then
        bindE (Service_Get env cx (desc_ParentKind desc) (rq_ParentID q)) (\<lambda>parent.
        returnE (ConvertResourceWithOwner req (res_ID parent) (res_Kind parent) (res_Href parent)))
      else returnE (ConvertResource req))"

definition create_converted ::
  "environment \<Rightarrow> req_context \<Rightarrow> http_request \<Rightarrow> string \<Rightarrow> resource_create_request \<Rightarrow> string + resource \<Rightarrow> http_response op" where
  "create_converted env cx q kind req conv =
     (case conv of
        Inl convErr \<Rightarrow> handleError env q (GeneralError ''failed to convert resource: %v'' [FS convErr])
      | Inr r \<Rightarrow>
          handle env q (Service_Create env cx kind r (extractReferences (crq_References req))) (\<lambda>created.
          writeJSONResponse 201 (ResourceDoc (PresentResource (env_registry env) created))))"

definition Handler_Create ::
  "environment \<Rightarrow> req_context \<Rightarrow> entity_descriptor \<Rightarrow> http_request \<Rightarrow> resource_create_request decoder \<Rightarrow> http_response op" where
  "Handler_Create env cx desc q body =
     handle env q (lift (decodeAndValidate body (create_validators desc) [])) (\<lambda>req.
     if rq_ParentID q = [] \<and> desc_ParentKind desc \<noteq> [] then
       bindE (childCreateRejection env desc) (handleError env q)
     else
       handle env q (requested_resource env cx desc q req) (create_converted env cx q (desc_Kind desc) req))"

definition Handler_Get ::
  "environment \<Rightarrow> (presented_resource \<Rightarrow> gval) \<Rightarrow> req_context \<Rightarrow> entity_descriptor \<Rightarrow> http_request \<Rightarrow> http_response op" where
  "Handler_Get env rf cx desc q =
     handle env q (parentIDIfExists env cx desc q) (\<lambda>parentID.
     handle env q (if parentID \<noteq> [] then Service_GetByOwner env cx (desc_Kind desc) (rq_ID q) parentID
                   else Service_Get env cx (desc_Kind desc) (rq_ID q)) (\<lambda>r.
     handle env q (lift (applyFieldFilter rf q (PresentResource (env_registry env) r))) (writeJSONResponse 200)))"

definition Handler_List ::
  "environment \<Rightarrow> list_engine \<Rightarrow> (list_params \<Rightarrow> validator_error option) \<Rightarrow> (presented_resource \<Rightarrow> gval) \<Rightarrow> req_context \<Rightarrow>
     entity_descriptor \<Rightarrow> http_request \<Rightarrow> http_response op" where
  "Handler_List env eng sv rf cx desc q =
     handle env q (parentIDIfExists env cx desc q) (\<lambda>parentID.
     handle env q (lift (parseListParams sv (rq_Query q))) (\<lambda>listArgs.
     handle env q (if parentID \<noteq> [] then ListByOwner env eng cx (desc_Kind desc) parentID (Some listArgs)
                   else Service_List env eng cx (desc_Kind desc) (Some listArgs)) (\<lambda>(resources, paging).
     handle env q (lift (list_payload rf listArgs (PresentResourceList (env_registry env) resources paging)))
       (writeJSONResponse 200))))"

definition Handler_Patch ::
  "environment \<Rightarrow> req_context \<Rightarrow> entity_descriptor \<Rightarrow> http_request \<Rightarrow> resource_patch_request decoder \<Rightarrow> http_response op" where
  "Handler_Patch env cx desc q body =
     handle env q (lift (decodeAndValidate body patch_validators [''strict''])) (\<lambda>req.
     handle env q (if rq_ParentID q \<noteq> []
                   then PatchByOwner env cx (desc_Kind desc) (rq_ID q) (rq_ParentID q) (convertResourcePatch req)
                   else Patch env cx (desc_Kind desc) (rq_ID q) (convertResourcePatch req)) (\<lambda>r.
     writeJSONResponse 200 (ResourceDoc (PresentResource (env_registry env) r))))"

definition Handler_Delete :: "environment \<Rightarrow> req_context \<Rightarrow> entity_descriptor \<Rightarrow> http_request \<Rightarrow> http_response op" where
  "Handler_Delete env cx desc q =
     handle env q (if rq_ParentID q \<noteq> [] then DeleteByOwner env cx (desc_Kind desc) (rq_ID q) (rq_ParentID q)
                   else Service_Delete env cx (desc_Kind desc) (rq_ID q)) (\<lambda>r.
     writeJSONResponse 202 (ResourceDoc (PresentResource (env_registry env) r)))"

definition Handler_ForceDelete ::
  "environment \<Rightarrow> req_context \<Rightarrow> entity_descriptor \<Rightarrow> http_request \<Rightarrow> force_delete_request decoder \<Rightarrow> http_response op" where
  "Handler_ForceDelete env cx desc q body =
     handle env q (lift (decodeAndValidate body force_delete_validators [])) (\<lambda>req.
     handle env q (if rq_ParentID q \<noteq> [] then ForceDeleteByOwner env cx (desc_Kind desc) (rq_ID q) (rq_ParentID q)
                   else ForceDelete env cx (desc_Kind desc) (rq_ID q)) (\<lambda>_. write_no_content))"

section \<open>Adapter statuses\<close>

text \<open>A limit of zero gives no rows; the offset wraps as in the listings.\<close>

definition Service_FindByResourcePaginated :: "string \<Rightarrow> string \<Rightarrow> list_arguments \<Rightarrow> (adapter_status list \<times> int) op" where
  "Service_FindByResourcePaginated resourceType resourceID listArgs =
     call (FindByResourcePaginated resourceType resourceID
             (nat (page_offset (la_Page listArgs) (la_Size listArgs))) (nat (la_Size listArgs)))
       (svc_err (general_err ''Unable to get adapter statuses'')) returnE"

definition verifyResource :: "environment \<Rightarrow> req_context \<Rightarrow> entity_descriptor \<Rightarrow> http_request \<Rightarrow> unit op" where
  "verifyResource env cx desc q =
     bindE (if rq_ParentID q \<noteq> [] then Service_GetByOwner env cx (desc_Kind desc) (rq_ID q) (rq_ParentID q)
            else Service_Get env cx (desc_Kind desc) (rq_ID q)) (\<lambda>_. returnE ())"

definition presented_page :: "list_arguments \<Rightarrow> int \<Rightarrow> presented_status list \<Rightarrow> presented_status_list" where
  "presented_page listArgs tot items =
     \<lparr>sl_Items = items, sl_Page = to_int32 (la_Page listArgs), sl_Size = to_int32 (int (length items)),
      sl_Total = to_int32 tot\<rparr>"

definition listStatuses :: "string \<Rightarrow> string \<Rightarrow> list_arguments \<Rightarrow> payload op" where
  "listStatuses kind resourceID listArgs =
     bindE (Service_FindByResourcePaginated kind resourceID listArgs) (\<lambda>(adapterStatuses, tot).
     case present_statuses adapterStatuses of
       Inl presErr \<Rightarrow> raiseE (Svc (GeneralError ''Failed to present adapter status'' []))
     | Inr items \<Rightarrow> returnE (StatusListDoc (presented_page listArgs tot items)))"

definition StatusHandler_List ::
  "environment \<Rightarrow> (list_params \<Rightarrow> validator_error option) \<Rightarrow> req_context \<Rightarrow> entity_descriptor \<Rightarrow> http_request \<Rightarrow> http_response op" where
  "StatusHandler_List env sv cx desc q =
     handle env q (lift (parseListParams sv (rq_Query q))) (\<lambda>listArgs.
     handle env q (verifyResource env cx desc q) (\<lambda>_.
     handle env q (listStatuses (desc_Kind desc) (rq_ID q) listArgs) (writeJSONResponse 200)))"

text \<open>\<open>None\<close>: the report was discarded.  Converting a decoded request cannot fail.\<close>

definition processStatus ::
  "environment \<Rightarrow> req_context \<Rightarrow> string \<Rightarrow> string \<Rightarrow> adapter_status_request \<Rightarrow> presented_status option op" where
  "processStatus env cx kind resourceID req =
     bindE (time_Now env) (\<lambda>now.
     bindE (ProcessAdapterStatus env cx kind resourceID (ConvertAdapterStatus now kind resourceID req)) (\<lambda>result.
     case result of
       None \<Rightarrow> returnE None
     | Some s \<Rightarrow>
         (case PresentAdapterStatus s of
            Inl presErr \<Rightarrow> raiseE (Svc (GeneralError ''Failed to present adapter status'' []))
          | Inr status \<Rightarrow> returnE (Some status))))"

definition write_status :: "presented_status option \<Rightarrow> http_response op" where
  "write_status result = (case result of None \<Rightarrow> write_no_content | Some s \<Rightarrow> writeJSONResponse 201 (StatusDoc s))"

definition StatusHandler_Create ::
  "environment \<Rightarrow> req_context \<Rightarrow> entity_descriptor \<Rightarrow> http_request \<Rightarrow> adapter_status_request decoder \<Rightarrow> http_response op" where
  "StatusHandler_Create env cx desc q body =
     bindE (time_Now env) (\<lambda>now.
     handle env q (lift (decodeAndValidate body (status_validators now) [])) (\<lambda>req.
     handle env q (verifyResource env cx desc q) (\<lambda>_.
     handle env q (processStatus env cx (desc_Kind desc) (rq_ID q) req) write_status)))"

section \<open>The handler of the root endpoint\<close>

definition with_kind_filter :: "entity_descriptor \<Rightarrow> list_arguments \<Rightarrow> list_arguments" where
  "with_kind_filter desc listArgs =
     (let kindFilter = Sprintf (''kind = '' @ quoted ''%s'') [FS (desc_Kind desc)] in
      listArgs\<lparr>la_Search := (if la_Search listArgs = [] then kindFilter
                             else ''('' @ la_Search listArgs @ '') AND '' @ kindFilter)\<rparr>)"

definition root_list_args :: "environment \<Rightarrow> http_request \<Rightarrow> list_arguments \<Rightarrow> service_error + list_arguments" where
  "root_list_args env q listArgs =
     (let kind = query_get (rq_Query q) ''kind'' in
      if kind = [] then Inr listArgs
      else case Get (env_registry env) kind of
             None \<Rightarrow> Inl (Validation ''Unknown entity kind: %s'' [FS kind])
           | Some desc \<Rightarrow> Inr (with_kind_filter desc listArgs))"

definition Root_List ::
  "environment \<Rightarrow> list_engine \<Rightarrow> (list_params \<Rightarrow> validator_error option) \<Rightarrow> (presented_resource \<Rightarrow> gval) \<Rightarrow> req_context \<Rightarrow>
     http_request \<Rightarrow> http_response op" where
  "Root_List env eng sv rf cx q =
     handle env q (lift (parseListParams sv (rq_Query q))) (\<lambda>parsed.
     handle env q (lift (root_list_args env q parsed)) (\<lambda>listArgs.
     handle env q (ListAll eng cx (Some listArgs)) (\<lambda>(resources, paging).
     handle env q (lift (list_payload rf listArgs (PresentResourceList (env_registry env) resources paging)))
       (writeJSONResponse 200))))"

definition Root_Get ::
  "environment \<Rightarrow> (presented_resource \<Rightarrow> gval) \<Rightarrow> req_context \<Rightarrow> http_request \<Rightarrow> http_response op" where
  "Root_Get env rf cx q =
     handle env q (Service_GetByID cx (rq_ID q)) (\<lambda>r.
     handle env q (lift (applyFieldFilter rf q (PresentResource (env_registry env) r))) (writeJSONResponse 200))"

definition root_create_validators :: "(resource_create_request \<Rightarrow> service_error option) list" where
  "root_create_validators =
     [\<lambda>req. validateSpec (Plain (crq_Spec req)) ''spec'', \<lambda>req. validateLabels (Pointer (crq_Labels req))]"

definition Root_Create ::
  "environment \<Rightarrow> req_context \<Rightarrow> http_request \<Rightarrow> resource_create_request decoder \<Rightarrow> http_response op" where
  "Root_Create env cx q body =
     handle env q (lift (decodeAndValidate body root_create_validators [])) (\<lambda>req.
     case Get (env_registry env) (crq_Kind req) of
       None \<Rightarrow> handleError env q (Validation ''Unknown entity kind: %s'' [FS (crq_Kind req)])
     | Some desc \<Rightarrow>
         if desc_ParentKind desc \<noteq> [] then bindE (childCreateRejection env desc) (handleError env q)
         else case validateEntityName (Plain (crq_Name req)) ''name'' (desc_NameMinLen desc) (desc_NameMaxLen desc) of
                Some svcErr \<Rightarrow> handleError env q svcErr
              | None \<Rightarrow> create_converted env cx q (desc_Kind desc) req (ConvertResource req))"

text \<open>The check of a patched spec; the validator may be absent.\<close>

definition check_patch_spec ::
  "environment \<Rightarrow> schema_validator option \<Rightarrow> resource \<Rightarrow> resource_patch_request \<Rightarrow> service_error option" where
  "check_patch_spec env v r req =
     (case (prq_Spec req, v) of
        (Some spec, Some sv) \<Rightarrow>
          (case Get (env_registry env) (res_Kind r) of
             None \<Rightarrow> Some (GeneralError ''Resource kind %q is no longer registered'' [FS (res_Kind r)])
           | Some desc \<Rightarrow> Validator_Validate sv (desc_Plural desc) spec)
      | _ \<Rightarrow> None)"

definition Root_Patch ::
  "environment \<Rightarrow> schema_validator option \<Rightarrow> req_context \<Rightarrow> http_request \<Rightarrow> resource_patch_request decoder \<Rightarrow> http_response op" where
  "Root_Patch env v cx q body =
     handle env q (lift (decodeAndValidate body patch_validators [''strict''])) (\<lambda>req.
     handle env q (Service_GetByID cx (rq_ID q)) (\<lambda>r.
     case check_patch_spec env v r req of
       Some specErr \<Rightarrow> handleError env q specErr
     | None \<Rightarrow>
         handle env q (Patch env cx (res_Kind r) (rq_ID q) (convertResourcePatch req)) (\<lambda>patched.
         writeJSONResponse 200 (ResourceDoc (PresentResource (env_registry env) patched)))))"

definition Root_ForceDelete ::
  "environment \<Rightarrow> req_context \<Rightarrow> http_request \<Rightarrow> force_delete_request decoder \<Rightarrow> http_response op" where
  "Root_ForceDelete env cx q body =
     handle env q (lift (decodeAndValidate body force_delete_validators [])) (\<lambda>req.
     handle env q (Service_GetByID cx (rq_ID q)) (\<lambda>r.
     handle env q (ForceDelete env cx (res_Kind r) (rq_ID q)) (\<lambda>_. write_no_content)))"

definition Root_Delete :: "environment \<Rightarrow> req_context \<Rightarrow> http_request \<Rightarrow> http_response op" where
  "Root_Delete env cx q =
     handle env q (Service_GetByID cx (rq_ID q)) (\<lambda>r.
     handle env q (Service_Delete env cx (res_Kind r) (rq_ID q)) (\<lambda>deleted.
     writeJSONResponse 202 (ResourceDoc (PresentResource (env_registry env) deleted))))"

definition Root_ListStatuses ::
  "environment \<Rightarrow> (list_params \<Rightarrow> validator_error option) \<Rightarrow> req_context \<Rightarrow> http_request \<Rightarrow> http_response op" where
  "Root_ListStatuses env sv cx q =
     handle env q (lift (parseListParams sv (rq_Query q))) (\<lambda>listArgs.
     handle env q (Service_GetByID cx (rq_ID q)) (\<lambda>r.
     handle env q (listStatuses (res_Kind r) (rq_ID q) listArgs) (writeJSONResponse 200)))"

definition Root_CreateStatus ::
  "environment \<Rightarrow> req_context \<Rightarrow> http_request \<Rightarrow> adapter_status_request decoder \<Rightarrow> http_response op" where
  "Root_CreateStatus env cx q body =
     bindE (time_Now env) (\<lambda>now.
     handle env q (lift (decodeAndValidate body (status_validators now) [])) (\<lambda>req.
     handle env q (Service_GetByID cx (rq_ID q)) (\<lambda>r.
     handle env q (processStatus env cx (res_Kind r) (rq_ID q) req) write_status)))"

end
