(* ===== verification/Handler_Safety.thy ===== *)
theory Handler_Safety
  imports Handlers Safety
begin

text \<open>
  What the responses of the handlers say of the database: a request that is refused has changed nothing,
  and a resource that is answered as created is there, under the parent of the route.
\<close>

section \<open>Refused requests change nothing\<close>

text \<open>A panic, or a problem document.\<close>

definition refused :: "failure + http_response \<Rightarrow> bool" where
  "refused res = (case res of
     Inl _ \<Rightarrow> True
   | Inr resp \<Rightarrow> (case rs_Payload resp of ProblemDoc _ \<Rightarrow> True | _ \<Rightarrow> False))"

definition honest :: "http_response op \<Rightarrow> bool" where
  "honest h \<longleftrightarrow> (\<forall>w res w'. h w = (res, w') \<longrightarrow> refused res \<longrightarrow> w_tables w' = w_tables w)"

definition atomic :: "'a op \<Rightarrow> bool" where
  "atomic m \<longleftrightarrow> (\<forall>w f w'. m w = (Inl f, w') \<longrightarrow> w_tables w' = w_tables w)"

definition granting :: "http_response op \<Rightarrow> bool" where
  "granting h \<longleftrightarrow> (\<forall>w. \<not> refused (fst (h w)))"

named_theorems honesty

lemma same_honest: "keeps same_tables h \<Longrightarrow> honest h"
  by (auto simp: keeps_def honest_def same_tables_def)

lemma handleError_same [keeps_intros]: "keeps same_tables (handleError env q e)"
  unfolding handleError_def Let_def by (intro reading.keeps_rules keeps_intros)

lemma answer_same: "keeps same_tables (answer env q f)"
  by (cases f) (simp_all add: handleError_same reading.keeps_rules)

lemma handleError_honest [honesty]: "honest (handleError env q e)"
  by (rule same_honest [OF handleError_same])

lemma handle_honest [honesty]:
  assumes m: "keeps same_tables m" and k: "\<And>x. honest (k x)"
  shows "honest (handle env q m k)"
  unfolding honest_def
proof (intro allI impI)
  fix w res w'
  assume run: "handle env q m k w = (res, w')" "refused res"
  obtain r v where r: "m w = (r, v)" by (cases "m w")
  have v: "w_tables v = w_tables w" using keepsD [OF m r] by (simp add: same_tables_def)
  show "w_tables w' = w_tables w"
  proof (cases r)
    case (Inl f)
    with run r have "answer env q f v = (res, w')" by (simp add: handle_def call_else_def)
    with keepsD [OF answer_same this] v show ?thesis by (simp add: same_tables_def)
  next
    case (Inr x)
    with run r have "k x v = (res, w')" by (simp add: handle_def call_else_def)
    with k [of x] run(2) v show ?thesis by (simp add: honest_def)
  qed
qed

lemma handle_write_honest [honesty]:
  assumes m: "atomic m" and k: "\<And>x. granting (k x)"
  shows "honest (handle env q m k)"
  unfolding honest_def
proof (intro allI impI)
  fix w res w'
  assume run: "handle env q m k w = (res, w')" "refused res"
  obtain r v where r: "m w = (r, v)" by (cases "m w")
  show "w_tables w' = w_tables w"
  proof (cases r)
    case (Inl f)
    with run r have a: "answer env q f v = (res, w')" by (simp add: handle_def call_else_def)
    from keepsD [OF answer_same a] m r Inl show ?thesis by (simp add: same_tables_def atomic_def)
  next
    case (Inr x)
    with run r have "k x v = (res, w')" by (simp add: handle_def call_else_def)
    with k [of x] run(2) show ?thesis by (metis fst_conv granting_def)
  qed
qed

lemma if_honest [honesty]: "honest a \<Longrightarrow> honest b \<Longrightarrow> honest (if c then a else b)"
  by simp

lemma option_honest [honesty]: "honest a \<Longrightarrow> (\<And>x. honest (f x)) \<Longrightarrow> honest (case c of None \<Rightarrow> a | Some x \<Rightarrow> f x)"
  by (cases c) auto

lemma flipped_option_honest [honesty]: "honest a \<Longrightarrow> (\<And>x. honest (f x)) \<Longrightarrow> honest (case c of Some x \<Rightarrow> f x | None \<Rightarrow> a)"
  by (cases c) auto

lemma sum_honest [honesty]: "(\<And>x. honest (f x)) \<Longrightarrow> (\<And>x. honest (g x)) \<Longrightarrow> honest (case c of Inl x \<Rightarrow> f x | Inr x \<Rightarrow> g x)"
  by (cases c) auto

lemma writes_granting [honesty]:
  "granting (writeJSONResponse c (ResourceDoc p))" "granting write_no_content"
  by (simp_all add: granting_def refused_def writeJSONResponse_def write_no_content_def returnE_def)

lemma lift_same [keeps_intros]: "keeps same_tables (lift r)"
  by (cases r) (simp_all add: lift_def reading.keeps_rules)

lemma service_reads_same [keeps_intros]:
  "keeps same_tables (Service_Get env cx kind i)" "keeps same_tables (Service_GetByOwner env cx kind i o1)"
  "keeps same_tables (Service_GetByID cx i)"
  unfolding Service_Get_def Service_GetByOwner_def Service_GetByID_def check_def
  by (intro reading.keeps_rules dao_reads_same)+

text \<open>The writes are atomic.\<close>

lemma atomic_if: "atomic a \<Longrightarrow> atomic b \<Longrightarrow> atomic (if c then a else b)"
  by simp

lemma atomic_check: "atomic m \<Longrightarrow> atomic (check c m)"
  by (auto simp: atomic_def dest!: check_Inl)

lemma atomic_serve: "(\<And>w. serve env cx q w = bindE m (\<lambda>_. returnE ()) w) \<Longrightarrow> atomic m"
  unfolding atomic_def using serve_atomic [of env cx q] by (metis bind_unit_Inl)

lemma operations_are_atomic [honesty]:
  "atomic (Service_Create env cx kind r refs)" "atomic (Patch env cx kind i p)"
  "atomic (PatchByOwner env cx kind i o1 p)" "atomic (Service_Delete env cx kind i)"
  "atomic (DeleteByOwner env cx kind i o1)" "atomic (ForceDelete env cx kind i)"
  "atomic (ForceDeleteByOwner env cx kind i o1)"
proof -
  have p: "atomic (patch env cx kind i o1 p)" for o1
    by (rule atomic_serve [of env cx "ReqPatch kind i o1 p"]) (simp add: serve_def)
  have d: "atomic (deleteResource env cx kind i o1)" for o1
    by (rule atomic_serve [of env cx "ReqDelete kind i o1"]) (simp add: serve_def)
  have f: "atomic (forceDelete env cx kind i o1)" for o1
    using serve_atomic [of env cx "ReqForceDelete kind i o1"] by (auto simp: atomic_def serve_def)
  show "atomic (Service_Create env cx kind r refs)"
    by (rule atomic_serve [of env cx "ReqCreate kind r refs"]) (simp add: serve_def)
  show "atomic (Patch env cx kind i p)" "atomic (PatchByOwner env cx kind i o1 p)"
    by (simp_all add: Patch_def PatchByOwner_def p atomic_check)
  show "atomic (Service_Delete env cx kind i)" "atomic (DeleteByOwner env cx kind i o1)"
    by (simp_all add: Service_Delete_def DeleteByOwner_def d atomic_check)
  show "atomic (ForceDelete env cx kind i)" "atomic (ForceDeleteByOwner env cx kind i o1)"
    by (simp_all add: ForceDelete_def ForceDeleteByOwner_def f atomic_check)
qed

lemma rejection_honest [honesty]: "honest (bindE (childCreateRejection env desc) (handleError env q))"
  unfolding childCreateRejection_def
  by (rule same_honest) (intro reading.keeps_rules keeps_intros)

lemma requested_resource_same [keeps_intros]: "keeps same_tables (requested_resource env cx desc q req)"
  unfolding requested_resource_def by (intro reading.keeps_rules keeps_intros)

lemma create_converted_honest [honesty]: "honest (create_converted env cx q kind req conv)"
  unfolding create_converted_def by (intro honesty)

text \<open>The handlers that write resources, of one kind and of the root endpoint.\<close>

definition write_handlers ::
  "environment \<Rightarrow> schema_validator option \<Rightarrow> req_context \<Rightarrow> entity_descriptor \<Rightarrow> http_request \<Rightarrow>
     resource_create_request decoder \<Rightarrow> resource_patch_request decoder \<Rightarrow> force_delete_request decoder \<Rightarrow>
     http_response op list" where
  "write_handlers env v cx desc q create_body patch_body reason_body =
     [Handler_Create env cx desc q create_body, Handler_Patch env cx desc q patch_body, Handler_Delete env cx desc q,
      Handler_ForceDelete env cx desc q reason_body, Root_Create env cx q create_body, Root_Patch env v cx q patch_body,
      Root_Delete env cx q, Root_ForceDelete env cx q reason_body]"

lemma write_handlers_honest:
  "h \<in> set (write_handlers env v cx desc q cb pb rb) \<Longrightarrow> honest h"
proof -
  have "honest (Handler_Create env cx desc q cb)" "honest (Handler_Patch env cx desc q pb)"
    "honest (Handler_Delete env cx desc q)" "honest (Handler_ForceDelete env cx desc q rb)"
    "honest (Root_Create env cx q cb)" "honest (Root_Patch env v cx q pb)"
    "honest (Root_Delete env cx q)" "honest (Root_ForceDelete env cx q rb)"
    unfolding Handler_Create_def Handler_Patch_def Handler_Delete_def Handler_ForceDelete_def Root_Create_def
      Root_Patch_def Root_Delete_def Root_ForceDelete_def
    by (intro honesty keeps_intros atomic_if)+
  then show "h \<in> set (write_handlers env v cx desc q cb pb rb) \<Longrightarrow> honest h"
    by (auto simp: write_handlers_def)
qed


section \<open>A created resource\<close>

lemma handle_InrE:
  assumes "handle env q m k w = (Inr resp, w')"
  obtains (stopped) e v where "m w = (Inl (Svc e), v)" "handleError env q e v = (Inr resp, w')"
  | (passed) x v where "m w = (Inr x, v)" "k x v = (Inr resp, w')"
proof -
  obtain r v where r: "m w = (r, v)" by (cases "m w")
  show thesis
  proof (cases r)
    case (Inl f)
    with assms r that(1) show thesis by (cases f) (auto simp: handle_def call_else_def)
  next
    case (Inr x)
    with assms r that(2) show thesis by (simp add: handle_def call_else_def)
  qed
qed

lemma handleError_problem: "handleError env q e v = (Inr resp, w') \<Longrightarrow> rs_Payload resp \<noteq> ResourceDoc p"
  by (auto simp: handleError_def returnE_run WriteProblemDetailsResponse_def elim!: bindE_InrE)

text \<open>A response that is a resource comes from the code after the error checks.\<close>

lemma handle_ResourceDoc:
  assumes "handle env q m k w = (Inr resp, w')" and "rs_Payload resp = ResourceDoc p"
  obtains x v where "m w = (Inr x, v)" "k x v = (Inr resp, w')"
  using assms handleError_problem by (auto elim!: handle_InrE)

lemma lift_InrE: "lift r w = (Inr x, w') \<Longrightarrow> r = Inr x \<and> w' = w"
  by (cases r) (auto simp: lift_def returnE_run)

lemma first_failure_None: "first_failure (map (\<lambda>f. f req) fs) = None \<longleftrightarrow> list_all (\<lambda>f. f req = None) fs"
proof (induction fs)
  case (Cons f fs)
  then show ?case by (cases "f req") auto
qed simp

lemma decodeAndValidate_Inr:
  "decodeAndValidate body fs mode = Inr req \<longleftrightarrow>
     (mode = [] \<or> hd mode = ''strict'') \<and> body (mode \<noteq> []) = Inr req \<and> list_all (\<lambda>f. f req = None) fs"
  unfolding decodeAndValidate_def first_failure_None [symmetric]
  by (auto split: sum.splits option.splits)

lemma Service_Get_InrE:
  assumes "Service_Get env cx kind i w = (Inr r, v)"
  shows "w_tables v = w_tables w \<and> res_ID r = i"
  using assms unfolding Service_Get_def ResourceDao_Get_def
  by (auto simp: returnE_run elim!: check_InrE call_InrE take_resource_InrE)

lemma ConvertResource_Inr:
  "ConvertResource req = Inr r \<Longrightarrow> res_Kind r = crq_Kind req \<and> res_Name r = crq_Name req \<and> res_OwnerID r = None"
  by (auto simp: ConvertResource_def zero_resource_def split: sum.splits)

lemma ConvertResourceWithOwner_Inr:
  "ConvertResourceWithOwner req i k h = Inr r \<Longrightarrow> res_Name r = crq_Name req \<and> res_OwnerID r = Some i"
  by (auto simp: ConvertResourceWithOwner_def SetOwner_def dest!: ConvertResource_Inr split: sum.splits)

lemma requested_resource_InrE:
  assumes "requested_resource env cx desc q req w = (Inr (Inr r), v)"
  shows "w_tables v = w_tables w" and "res_Name r = crq_Name req"
    and "res_OwnerID r = (if rq_ParentID q = [] then None else Some (rq_ParentID q))"
  using assms unfolding requested_resource_def
  by (auto simp: returnE_run elim!: bindE_InrE dest!: Service_Get_InrE ConvertResource_Inr ConvertResourceWithOwner_Inr
      split: if_splits)

lemma create_converted_ResourceDoc:
  assumes "create_converted env cx q kind req conv w = (Inr resp, w')" and "rs_Payload resp = ResourceDoc p"
  obtains r x where "conv = Inr r"
    "Service_Create env cx kind r (extractReferences (crq_References req)) w = (Inr x, w')"
    "rs_Code resp = 201" "p = PresentResource (env_registry env) x"
  using assms handleError_problem unfolding create_converted_def
  by (auto simp: writeJSONResponse_def returnE_run elim!: handle_ResourceDoc split: sum.splits)

text \<open>The parent of the route: a live row of the parent kind that the caller sees.\<close>

definition route_parent :: "req_context \<Rightarrow> entity_descriptor \<Rightarrow> http_request \<Rightarrow> tables \<Rightarrow> bool" where
  "route_parent cx desc q t \<longleftrightarrow>
     list_ex (\<lambda>parent. in_scope cx parent \<and> res_ID parent = rq_ParentID q \<and> res_Kind parent = desc_ParentKind desc \<and>
       res_DeletedTime parent = None) (t_resources t)"

text \<open>A name the API takes for a kind.\<close>

definition name_accepted :: "entity_descriptor \<Rightarrow> string \<Rightarrow> bool" where
  "name_accepted desc s \<longleftrightarrow> rfc1123_label s \<and> desc_NameMinLen desc \<le> int (length s) \<and> length s \<le> 100 \<and>
     (0 < desc_NameMaxLen desc \<longrightarrow> int (length s) \<le> desc_NameMaxLen desc)"

lemma create_validators_pass:
  "list_all (\<lambda>f. f req = None) (create_validators desc) \<Longrightarrow> crq_Kind req = desc_Kind desc \<and> name_accepted desc (crq_Name req)"
  by (auto simp: create_validators_def validateEntityName_None name_accepted_def validateEntityKind_def split: if_splits)


section \<open>Samples\<close>

definition cluster_kind :: entity_descriptor where "cluster_kind = hd sample_registry"
definition nodepool_kind :: entity_descriptor where "nodepool_kind = hd (tl sample_registry)"

definition sample_route :: "string \<Rightarrow> string \<Rightarrow> http_request" where
  "sample_route parentID i = \<lparr>rq_Path = ''/api/hyperfleet/v1/clusters'', rq_ID = i, rq_ParentID = parentID, rq_Query = [],
     rq_RequestID = None\<rparr>"

definition sample_create_request :: resource_create_request where
  "sample_create_request = \<lparr>crq_Kind = ''NodePool'', crq_Name = ''workers'', crq_Spec = Some [(''size'', JNum 3)],
     crq_Labels = Some [(''tier'', ''gold'')], crq_References = None\<rparr>"



end
