(* ===== verification/Routes.thy ===== *)
theory Routes
  imports Handlers
begin

text \<open>
  The routes of the server and the middleware around them: \<open>router.go\<close>, \<open>routes.go\<close> and
  \<open>routes_entities.go\<close> of \<open>cmd/hyperfleet-api/server\<close>, and \<open>BuildAPIServer\<close> of
  \<open>cmd/hyperfleet-api/servecmd/api_server.go\<close>.  The multiplexer of \<open>net/http\<close> is the list of the patterns that
  were registered, each with its wrapped handler.
\<close>

section \<open>The router\<close>

datatype middleware =
    MW_RequestID | MW_OTel | MW_RequestLogging | MW_Metrics | MW_Compress | MW_SchemaValidation
  | MW_RequestTimeout | MW_JWT | MW_CallerIdentity | MW_Tenant

datatype handler_op =
    OpList | OpCreate | OpGet | OpPatch | OpDelete | OpForceDelete | OpListStatuses | OpCreateStatus

text \<open>The methods of \<open>ResourceHandler\<close> and \<open>ResourceStatusHandler\<close> of a kind, those of
  \<open>RootResourceHandler\<close>, and the documentation handlers.\<close>

datatype route_handler =
    KindHandler entity_descriptor handler_op
  | RootHandler handler_op
  | MetadataHandler
  | OpenAPIUI
  | OpenAPIDoc

datatype served = Served route_handler | Wrapped middleware served

type_synonym mux = "(string \<times> served) list"

record router =
  ro_prefix :: string
  ro_middlewares :: "middleware list"

definition NewRouter :: router where
  "NewRouter = \<lparr>ro_prefix = [], ro_middlewares = []\<rparr>"

definition Use :: "middleware list \<Rightarrow> router \<Rightarrow> router" where
  "Use mw r = r\<lparr>ro_middlewares := ro_middlewares r @ mw\<rparr>"

definition Group :: "string list \<Rightarrow> router \<Rightarrow> router" where
  "Group pre r = \<lparr>ro_prefix = (if length pre > 0 then ro_prefix r @ hd pre else ro_prefix r),
                  ro_middlewares = ro_middlewares r\<rparr>"

definition withPrefix :: "router \<Rightarrow> string \<Rightarrow> string" where
  "withPrefix r pattern =
     (if ro_prefix r = [] then pattern
      else case Cut (CHR 0x20) pattern of (verb, path, ok) \<Rightarrow>
        if ok then verb @ '' '' @ ro_prefix r @ path else ro_prefix r @ pattern)"

text \<open>The last middleware is wrapped first, so that the first is outermost.\<close>

definition Handle :: "router \<Rightarrow> string \<Rightarrow> route_handler \<Rightarrow> mux \<Rightarrow> mux" where
  "Handle r pattern h m = m @ [(withPrefix r pattern, foldr Wrapped (ro_middlewares r) (Served h))]"

definition stripMethodPrefix :: "string \<Rightarrow> string" where
  "stripMethodPrefix pattern = (case Cut (CHR 0x20) pattern of (verb, path, ok) \<Rightarrow> if ok then path else pattern)"

section \<open>The routes of the resources\<close>

datatype startup_fault = StartupError string | StartupPanic registry_fault

definition registerEntityResourceRoutes :: "router \<Rightarrow> string \<Rightarrow> (handler_op \<Rightarrow> route_handler) \<Rightarrow> mux \<Rightarrow> mux" where
  "registerEntityResourceRoutes r pre h m =
     foldl (\<lambda>m (pattern, oper). Handle r pattern (h oper) m) m
       [(''GET '' @ pre, OpList), (''POST '' @ pre, OpCreate), (''GET '' @ pre @ ''/{id}'', OpGet),
        (''PATCH '' @ pre @ ''/{id}'', OpPatch), (''DELETE '' @ pre @ ''/{id}'', OpDelete),
        (''POST '' @ pre @ ''/{id}/force-delete'', OpForceDelete),
        (''GET '' @ pre @ ''/{id}/statuses'', OpListStatuses), (''PUT '' @ pre @ ''/{id}/statuses'', OpCreateStatus)]"

definition register_kind :: "registry \<Rightarrow> router \<Rightarrow> entity_descriptor \<Rightarrow> mux \<Rightarrow> startup_fault + mux" where
  "register_kind ds r d m =
     (if desc_Plural d = ''resources'' then
        Inl (StartupError (Sprintf ''entity kind %q uses reserved plural %q which would shadow /resources root endpoint''
          [FS (desc_Kind d), FS (desc_Plural d)]))
      else
        case (if desc_ParentKind d \<noteq> [] then
                (case MustGet ds (desc_ParentKind d) of
                   Inl fault \<Rightarrow> Inl (StartupPanic fault)
                 | Inr parent \<Rightarrow>
                     Inr (registerEntityResourceRoutes r (''/'' @ desc_Plural parent @ ''/{parent_id}/'' @ desc_Plural d)
                            (KindHandler d) m))
              else Inr m) of
          Inl fault \<Rightarrow> Inl fault
        | Inr m1 \<Rightarrow> Inr (registerEntityResourceRoutes r (''/'' @ desc_Plural d) (KindHandler d) m1))"

fun register_kinds :: "registry \<Rightarrow> router \<Rightarrow> entity_descriptor list \<Rightarrow> mux \<Rightarrow> startup_fault + mux" where
  "register_kinds ds r [] m = Inr m"
| "register_kinds ds r (d # rest) m =
     (case register_kind ds r d m of Inl fault \<Rightarrow> Inl fault | Inr m1 \<Rightarrow> register_kinds ds r rest m1)"

definition registerPerEntityRoutes :: "registry \<Rightarrow> router \<Rightarrow> mux \<Rightarrow> startup_fault + mux" where
  "registerPerEntityRoutes ds r m = register_kinds ds r (sort_key desc_Kind ds) m"

definition registerRootResourceRoutes :: "router \<Rightarrow> mux \<Rightarrow> mux" where
  "registerRootResourceRoutes r m =
     (let pre = ''/resources'' in
      foldl (\<lambda>m (pattern, oper). Handle r pattern (RootHandler oper) m) m
       [(''GET '' @ pre, OpList), (''POST '' @ pre, OpCreate), (''GET '' @ pre @ ''/{id}'', OpGet),
        (''PATCH '' @ pre @ ''/{id}'', OpPatch), (''DELETE '' @ pre @ ''/{id}'', OpDelete),
        (''POST '' @ pre @ ''/{id}/force-delete'', OpForceDelete),
        (''GET '' @ pre @ ''/{id}/statuses'', OpListStatuses), (''PUT '' @ pre @ ''/{id}/statuses'', OpCreateStatus)])"

definition RegisterEntityRoutes :: "registry \<Rightarrow> router \<Rightarrow> mux \<Rightarrow> startup_fault + mux" where
  "RegisterEntityRoutes ds r m =
     (case registerPerEntityRoutes ds r m of
        Inl (StartupError err) \<Rightarrow> Inl (StartupError (''register entity routes: '' @ err))
      | Inl fault \<Rightarrow> Inl fault
      | Inr m1 \<Rightarrow> Inr (registerRootResourceRoutes r m1))"

section \<open>The server\<close>

definition apiBasePath :: string where "apiBasePath = ''/api/hyperfleet''"
definition apiV1BasePath :: string where "apiV1BasePath = apiBasePath @ ''/v1''"

text \<open>A registrar has a name and, unless it is nil, a function.\<close>

type_synonym route_registrar = "string \<times> (router \<Rightarrow> mux \<Rightarrow> startup_fault + mux) option"

fun registerRoutes :: "router \<Rightarrow> route_registrar list \<Rightarrow> mux \<Rightarrow> startup_fault + mux" where
  "registerRoutes r [] m = Inr m"
| "registerRoutes r ((name, f) # rs) m =
     (case f of
        None \<Rightarrow> Inl (StartupError (Sprintf ''register %s routes: registrar is nil'' [FS name]))
      | Some reg \<Rightarrow>
          (case reg r m of
             Inl (StartupError err) \<Rightarrow> Inl (StartupError (Sprintf ''register %s routes: %s'' [FS name, FS err]))
           | Inl fault \<Rightarrow> Inl fault
           | Inr m1 \<Rightarrow> registerRoutes r rs m1))"

definition NewRouterFromConfig ::
  "middleware list \<Rightarrow> middleware list \<Rightarrow> middleware list \<Rightarrow> middleware list \<Rightarrow> route_registrar list \<Rightarrow> startup_fault + mux" where
  "NewRouterFromConfig mainMiddleware apiMiddleware protectedAPIMiddleware authMiddleware registrars =
     (let mainRouter = Use mainMiddleware NewRouter;
          apiRouter = Group [] mainRouter;
          m1 = Handle apiRouter (''GET '' @ apiBasePath) MetadataHandler [];
          apiV1Router = Use apiMiddleware (Group [apiV1BasePath] apiRouter);
          m2 = Handle apiV1Router ''GET /openapi.html'' OpenAPIUI m1;
          m3 = Handle apiV1Router ''GET /openapi'' OpenAPIDoc m2;
          protectedRouter = Use protectedAPIMiddleware (Use authMiddleware (Group [] apiV1Router))
      in registerRoutes protectedRouter registrars m3)"

record api_config =
  ap_TracingEnabled :: bool
  ap_JWTEnabled :: bool
  ap_TenantEnabled :: bool

definition auth_middleware :: "api_config \<Rightarrow> middleware list" where
  "auth_middleware cfg =
     (if ap_JWTEnabled cfg then [MW_JWT, MW_CallerIdentity] else []) @
     (if ap_TenantEnabled cfg then [MW_Tenant] else [])"

text \<open>\<open>jwtHandler\<close>: whether a JWT handler was provided.\<close>

definition BuildAPIServer :: "api_config \<Rightarrow> registry \<Rightarrow> bool \<Rightarrow> startup_fault + mux" where
  "BuildAPIServer cfg ds jwtHandler =
     (let mainMiddleware = [MW_RequestID] @ (if ap_TracingEnabled cfg then [MW_OTel] else []) @ [MW_RequestLogging];
          apiMiddleware = [MW_Metrics, MW_Compress];
          protectedAPIMiddleware = [MW_SchemaValidation, MW_RequestTimeout]
      in if ap_JWTEnabled cfg \<and> \<not> jwtHandler then
           Inl (StartupError ''JWT authentication is enabled but no JWT handler was provided'')
         else NewRouterFromConfig mainMiddleware apiMiddleware protectedAPIMiddleware (auth_middleware cfg)
                [(''entities'', Some (RegisterEntityRoutes ds))])"

section \<open>The table of routes\<close>

fun chain :: "served \<Rightarrow> middleware list" where
  "chain (Served h) = []"
| "chain (Wrapped mw s) = mw # chain s"

fun handler_of :: "served \<Rightarrow> route_handler" where
  "handler_of (Served h) = h"
| "handler_of (Wrapped mw s) = handler_of s"

definition wrap :: "router \<Rightarrow> route_handler \<Rightarrow> served" where
  "wrap r h = foldr Wrapped (ro_middlewares r) (Served h)"

lemma wrap_fields [simp]: "chain (wrap r h) = ro_middlewares r" "handler_of (wrap r h) = h"
proof -
  have "chain (foldr Wrapped mws s) = mws @ chain s" "handler_of (foldr Wrapped mws s) = handler_of s" for mws s
    by (induction mws) auto
  then show "chain (wrap r h) = ro_middlewares r" "handler_of (wrap r h) = h" by (simp_all add: wrap_def)
qed

lemma Handle_wrap: "Handle r pattern h m = m @ [(withPrefix r pattern, wrap r h)]"
  by (simp add: Handle_def wrap_def)

text \<open>A resource has eight routes: verb, what follows the base, operation.\<close>

definition resource_table :: "(string \<times> string \<times> handler_op) list" where
  "resource_table =
     [(''GET'', [], OpList), (''POST'', [], OpCreate), (''GET'', ''/{id}'', OpGet), (''PATCH'', ''/{id}'', OpPatch),
      (''DELETE'', ''/{id}'', OpDelete), (''POST'', ''/{id}/force-delete'', OpForceDelete),
      (''GET'', ''/{id}/statuses'', OpListStatuses), (''PUT'', ''/{id}/statuses'', OpCreateStatus)]"

definition entries :: "router \<Rightarrow> string \<Rightarrow> (handler_op \<Rightarrow> route_handler) \<Rightarrow> mux" where
  "entries r base h = map (\<lambda>(verb, t, oper). (verb @ '' '' @ ro_prefix r @ base @ t, wrap r (h oper))) resource_table"

lemma register_entries:
  "registerEntityResourceRoutes r base h m = m @ entries r base h"
  by (simp add: registerEntityResourceRoutes_def Handle_wrap entries_def resource_table_def withPrefix_def)

lemma register_root_entries: "registerRootResourceRoutes r m = m @ entries r ''/resources'' RootHandler"
  by (simp add: registerRootResourceRoutes_def Let_def Handle_wrap entries_def resource_table_def withPrefix_def)

definition nested_base :: "registry \<Rightarrow> entity_descriptor \<Rightarrow> string option" where
  "nested_base ds d =
     (if desc_ParentKind d = [] then None
      else map_option (\<lambda>parent. ''/'' @ desc_Plural parent @ ''/{parent_id}/'' @ desc_Plural d) (Get ds (desc_ParentKind d)))"

definition kind_entries :: "registry \<Rightarrow> router \<Rightarrow> entity_descriptor \<Rightarrow> mux" where
  "kind_entries ds r d =
     (case nested_base ds d of None \<Rightarrow> [] | Some b \<Rightarrow> entries r b (KindHandler d)) @
     entries r (''/'' @ desc_Plural d) (KindHandler d)"

lemma register_kind_Inr:
  "register_kind ds r d m = Inr m1 \<longleftrightarrow>
     desc_Plural d \<noteq> ''resources'' \<and> (desc_ParentKind d \<noteq> [] \<longrightarrow> Get ds (desc_ParentKind d) \<noteq> None) \<and>
     m1 = m @ kind_entries ds r d"
  by (auto simp: register_kind_def register_entries kind_entries_def nested_base_def MustGet_def split: option.splits)

lemma register_kinds_Inr:
  "register_kinds ds r rest m = Inr m1 \<longleftrightarrow>
     list_all (\<lambda>d. desc_Plural d \<noteq> ''resources'' \<and> (desc_ParentKind d \<noteq> [] \<longrightarrow> Get ds (desc_ParentKind d) \<noteq> None)) rest \<and>
     m1 = m @ concat (map (kind_entries ds r) rest)"
proof (induction rest arbitrary: m)
  case (Cons d rest)
  show ?case
  proof (cases "register_kind ds r d m")
    case (Inl f)
    then have "register_kind ds r d m \<noteq> Inr (m @ kind_entries ds r d)" by simp
    with Inl show ?thesis unfolding register_kind_Inr by auto
  next
    case (Inr m2)
    with Inr [unfolded register_kind_Inr] show ?thesis by (simp add: Cons.IH)
  qed
qed auto

lemma RegisterEntityRoutes_Inr:
  assumes "RegisterEntityRoutes ds r m = Inr m1"
  shows "list_all (\<lambda>d. desc_Plural d \<noteq> ''resources'') ds"
    and "set m1 = set m \<union> (\<Union>d\<in>set ds. set (kind_entries ds r d)) \<union> set (entries r ''/resources'' RootHandler)"
proof -
  from assms obtain m0 where m0: "register_kinds ds r (sort_key desc_Kind ds) m = Inr m0"
      and m1: "m1 = m0 @ entries r ''/resources'' RootHandler"
    by (auto simp: RegisterEntityRoutes_def registerPerEntityRoutes_def register_root_entries
        split: sum.splits startup_fault.splits)
  from m0 show "list_all (\<lambda>d. desc_Plural d \<noteq> ''resources'') ds" by (auto simp: register_kinds_Inr list_all_iff)
  from m0 m1 show "set m1 = set m \<union> (\<Union>d\<in>set ds. set (kind_entries ds r d)) \<union> set (entries r ''/resources'' RootHandler)"
    by (auto simp: register_kinds_Inr)
qed

text \<open>The router of the resources.\<close>

definition open_chain :: "api_config \<Rightarrow> middleware list" where
  "open_chain cfg = [MW_RequestID] @ (if ap_TracingEnabled cfg then [MW_OTel] else []) @ [MW_RequestLogging]"

definition protected_router :: "api_config \<Rightarrow> router" where
  "protected_router cfg = \<lparr>ro_prefix = apiV1BasePath,
     ro_middlewares = open_chain cfg @ [MW_Metrics, MW_Compress] @ auth_middleware cfg @ [MW_SchemaValidation, MW_RequestTimeout]\<rparr>"

lemma BuildAPIServer_Inr:
  assumes "BuildAPIServer cfg ds jh = Inr m"
  obtains docs where "RegisterEntityRoutes ds (protected_router cfg) docs = Inr m"
    "map fst docs = [''GET /api/hyperfleet'', ''GET /api/hyperfleet/v1/openapi.html'', ''GET /api/hyperfleet/v1/openapi'']"
    "map (handler_of \<circ> snd) docs = [MetadataHandler, OpenAPIUI, OpenAPIDoc]"
proof -
  let ?main = "\<lparr>ro_prefix = [], ro_middlewares = open_chain cfg\<rparr>"
  let ?v1 = "\<lparr>ro_prefix = apiV1BasePath, ro_middlewares = open_chain cfg @ [MW_Metrics, MW_Compress]\<rparr>"
  let ?docs = "[(''GET /api/hyperfleet'', wrap ?main MetadataHandler), (''GET /api/hyperfleet/v1/openapi.html'', wrap ?v1 OpenAPIUI),
     (''GET /api/hyperfleet/v1/openapi'', wrap ?v1 OpenAPIDoc)]"
  have "registerRoutes (protected_router cfg) [(''entities'', Some (RegisterEntityRoutes ds))] ?docs = Inr m"
    using assms [unfolded BuildAPIServer_def Let_def, folded open_chain_def]
    by (simp add: NewRouterFromConfig_def Let_def Use_def Group_def NewRouter_def Handle_wrap withPrefix_def
        apiBasePath_def apiV1BasePath_def protected_router_def del: registerRoutes.simps split: if_splits)
  then have "RegisterEntityRoutes ds (protected_router cfg) ?docs = Inr m"
    by (auto split: sum.splits startup_fault.splits)
  then show thesis by (rule that) simp_all
qed

section \<open>Matching\<close>

text \<open>A pattern matches a path segment by segment, a wildcard any one segment; \<open>GET\<close> answers \<open>HEAD\<close> too.\<close>

definition wildcard :: "string \<Rightarrow> bool" where
  "wildcard seg \<longleftrightarrow> seg \<noteq> [] \<and> hd seg = CHR ''{''"

definition segment_matches :: "string \<Rightarrow> string \<Rightarrow> bool" where
  "segment_matches pat seg \<longleftrightarrow> (if wildcard pat then seg \<noteq> [] else pat = seg)"

definition verb_matches :: "string \<Rightarrow> string \<Rightarrow> bool" where
  "verb_matches v verb \<longleftrightarrow> v = verb \<or> v = ''GET'' \<and> verb = ''HEAD''"

definition pattern_matches :: "string \<Rightarrow> string \<Rightarrow> string \<Rightarrow> bool" where
  "pattern_matches pattern verb path =
     (case Cut (CHR 0x20) pattern of (v, pat, ok) \<Rightarrow>
        verb_matches v verb \<and> list_all2 segment_matches (Split (CHR ''/'') pat) (Split (CHR ''/'') path))"

lemma Split_append: "Split c (a @ c # b) = Split c a @ Split c b"
proof (induction a)
  case (Cons x a)
  then show ?case by (cases "Split c a") auto
qed simp

lemma Split_plain: "c \<notin> set p \<Longrightarrow> Split c p = [p]"
  by (induction p) auto

text \<open>A plural that is one literal segment and no segment of the fixed routes.\<close>

definition plain_plural :: "string \<Rightarrow> bool" where
  "plain_plural p \<longleftrightarrow> p \<noteq> [] \<and> CHR ''/'' \<notin> set p \<and> hd p \<noteq> CHR ''{'' \<and>
     p \<notin> {''statuses'', ''force-delete'', ''openapi'', ''openapi.html''}"

text \<open>Where the routes of a handler begin, in segments.\<close>

inductive_set bases :: "registry \<Rightarrow> (string list \<times> (handler_op \<Rightarrow> route_handler)) set" for ds :: registry where
  base_root: "([''resources''], RootHandler) \<in> bases ds"
| base_flat: "d \<in> set ds \<Longrightarrow> ([desc_Plural d], KindHandler d) \<in> bases ds"
| base_nested: "d \<in> set ds \<Longrightarrow> desc_ParentKind d \<noteq> [] \<Longrightarrow> Get ds (desc_ParentKind d) = Some parent \<Longrightarrow>
    ([desc_Plural parent, ''{parent_id}'', desc_Plural d], KindHandler d) \<in> bases ds"

definition tail_segments :: "string \<Rightarrow> string list" where
  "tail_segments t = tl (Split (CHR ''/'') t)"

definition slash_base :: "string list \<Rightarrow> string" where
  "slash_base b = concat (map (\<lambda>seg. ''/'' @ seg) b)"

lemma Split_slash_base:
  "list_all (\<lambda>seg. CHR ''/'' \<notin> set seg) b \<Longrightarrow> CHR ''/'' \<notin> set a \<Longrightarrow>
    Split (CHR ''/'') (a @ slash_base b) = a # b"
proof (induction b arbitrary: a)
  case Nil
  then show ?case by (simp add: slash_base_def Split_plain)
next
  case (Cons seg b)
  have "Split (CHR ''/'') (a @ slash_base (seg # b)) = Split (CHR ''/'') a @ Split (CHR ''/'') (seg @ slash_base b)"
    using Split_append [of "CHR ''/''" a "seg @ slash_base b"] by (simp add: slash_base_def)
  with Cons show ?case by (simp add: Split_plain)
qed

lemma Split_tail: "t = [] \<or> hd t = CHR ''/'' \<Longrightarrow> Split (CHR ''/'') (a @ t) = Split (CHR ''/'') a @ tail_segments t"
  by (cases t) (auto simp: tail_segments_def Split_append)

lemma table_tails: "(v, t, oper) \<in> set resource_table \<Longrightarrow> t = [] \<or> hd t = CHR ''/''"
  by (auto simp: resource_table_def)

lemma resource_routes:
  assumes "RegisterEntityRoutes ds r docs = Inr m" and "(p, s) \<in> set m"
  obtains (doc) "(p, s) \<in> set docs"
  | (resource) b h v t oper where "(b, h) \<in> bases ds" "(v, t, oper) \<in> set resource_table"
      "p = v @ '' '' @ ro_prefix r @ slash_base b @ t" "s = wrap r (h oper)"
proof -
  have entry: thesis if "(p, s) \<in> set (entries r (slash_base b) h)" "(b, h) \<in> bases ds" for b h
    using that resource by (auto simp: entries_def)
  from assms(2) RegisterEntityRoutes_Inr(2) [OF assms(1)]
  consider "(p, s) \<in> set docs" | "(p, s) \<in> set (entries r ''/resources'' RootHandler)"
    | d where "d \<in> set ds" "(p, s) \<in> set (kind_entries ds r d)" by blast
  then show thesis
  proof cases
    case 2
    then show thesis using entry [of "[''resources'']" RootHandler] by (simp add: slash_base_def base_root)
  next
    case (3 d)
    then consider "(p, s) \<in> set (entries r (''/'' @ desc_Plural d) (KindHandler d))"
      | b where "nested_base ds d = Some b" "(p, s) \<in> set (entries r b (KindHandler d))"
      by (cases "nested_base ds d") (auto simp: kind_entries_def)
    then show thesis
    proof cases
      case 1
      then show thesis using entry [OF _ base_flat [OF 3(1)]] by (simp add: slash_base_def)
    next
      case (2 b)
      then obtain parent where "desc_ParentKind d \<noteq> []" "Get ds (desc_ParentKind d) = Some parent"
          "b = ''/'' @ desc_Plural parent @ ''/{parent_id}/'' @ desc_Plural d"
        by (auto simp: nested_base_def split: if_splits)
      then show thesis using entry [OF _ base_nested [OF 3(1)]] 2(2) by (simp add: slash_base_def)
    qed
  qed (rule doc)
qed

lemma table_verbs: "(v, t, oper) \<in> set resource_table \<Longrightarrow> v \<in> {''GET'', ''POST'', ''PATCH'', ''DELETE'', ''PUT''}"
  by (auto simp: resource_table_def)

lemma pattern_matches_route:
  assumes "(v, t, oper) \<in> set resource_table" and "list_all (\<lambda>seg. CHR ''/'' \<notin> set seg) b"
  shows "pattern_matches (v @ '' '' @ apiV1BasePath @ slash_base b @ t) verb path \<longleftrightarrow>
     verb_matches v verb \<and>
     list_all2 segment_matches ([[], ''api'', ''hyperfleet'', ''v1''] @ b @ tail_segments t) (Split (CHR ''/'') path)"
proof -
  have "Split (CHR ''/'') (apiV1BasePath @ slash_base b) = [[], ''api'', ''hyperfleet'', ''v1''] @ b"
    using Split_slash_base [of "[''api'', ''hyperfleet'', ''v1''] @ b" "[]"] assms(2)
    by (simp add: apiV1BasePath_def apiBasePath_def slash_base_def)
  then have "Split (CHR ''/'') (apiV1BasePath @ slash_base b @ t) = [[], ''api'', ''hyperfleet'', ''v1''] @ b @ tail_segments t"
    using Split_tail [OF table_tails [OF assms(1)], of "apiV1BasePath @ slash_base b"] by simp
  moreover have "Cut (CHR 0x20) (v @ '' '' @ x) = (v, x, True)" for x
    using table_verbs [OF assms(1)] by auto
  ultimately show ?thesis by (simp add: pattern_matches_def)
qed

lemma docs_match:
  "p \<in> {''GET /api/hyperfleet'', ''GET /api/hyperfleet/v1/openapi.html'', ''GET /api/hyperfleet/v1/openapi''} \<Longrightarrow>
   pattern_matches p verb path \<Longrightarrow>
   Split (CHR ''/'') path \<in> {[[], ''api'', ''hyperfleet''], [[], ''api'', ''hyperfleet'', ''v1'', ''openapi.html''],
      [[], ''api'', ''hyperfleet'', ''v1'', ''openapi'']}"
  by (auto simp: pattern_matches_def list_all2_Cons1 segment_matches_def wildcard_def split: if_splits)

section \<open>Dispatch is unambiguous\<close>

definition compatible :: "string \<Rightarrow> string \<Rightarrow> bool" where
  "compatible a b \<longleftrightarrow> wildcard a \<or> wildcard b \<or> a = b"

lemma both_match: "list_all2 segment_matches x z \<Longrightarrow> list_all2 segment_matches y z \<Longrightarrow> list_all2 compatible x y"
proof (induction x z arbitrary: y rule: list_all2_induct)
  case (Cons a x c z)
  then show ?case by (auto simp: list_all2_Cons2 compatible_def segment_matches_def split: if_splits)
qed simp

definition tails :: "string list set" where
  "tails = {[], [''{id}''], [''{id}'', ''force-delete''], [''{id}'', ''statuses'']}"

lemma table_segments: "(v, t, oper) \<in> set resource_table \<Longrightarrow> tail_segments t \<in> tails"
  by (auto simp: resource_table_def tail_segments_def tails_def)

lemma table_functional:
  "(v, t, oper) \<in> set resource_table \<Longrightarrow> (v', t', oper') \<in> set resource_table \<Longrightarrow> tail_segments t = tail_segments t' \<Longrightarrow>
   verb_matches v verb \<Longrightarrow> verb_matches v' verb \<Longrightarrow> v = v' \<and> t = t' \<and> oper = oper'"
  by (auto simp: resource_table_def tail_segments_def verb_matches_def)

text \<open>What the registry has to keep for that.\<close>

definition plurals_ok :: "registry \<Rightarrow> bool" where
  "plurals_ok ds \<longleftrightarrow> distinct (map desc_Plural ds) \<and> list_all plain_plural (map desc_Plural ds) \<and>
     list_all (\<lambda>d. desc_Plural d \<noteq> ''resources'') ds"

lemma plain_not_wild: "plain_plural p \<Longrightarrow> \<not> wildcard p"
  by (simp add: plain_plural_def wildcard_def)

lemma same_plural: "plurals_ok ds \<Longrightarrow> d \<in> set ds \<Longrightarrow> d' \<in> set ds \<Longrightarrow> desc_Plural d = desc_Plural d' \<Longrightarrow> d = d'"
  by (auto simp: plurals_ok_def distinct_map inj_on_def)

lemma plural_facts:
  assumes "plurals_ok ds" "d \<in> set ds"
  shows "\<not> wildcard (desc_Plural d)" "desc_Plural d \<noteq> ''resources''" "desc_Plural d \<noteq> ''statuses''"
    "desc_Plural d \<noteq> ''force-delete''" "desc_Plural d \<noteq> ''openapi''" "desc_Plural d \<noteq> ''openapi.html''"
    "CHR ''/'' \<notin> set (desc_Plural d)"
  using assms plain_not_wild [of "desc_Plural d"] by (auto simp: plurals_ok_def list_all_iff plain_plural_def)

lemma wild_facts: "wildcard ''{id}''" "wildcard ''{parent_id}''" "\<not> wildcard ''resources''" "\<not> wildcard ''statuses''"
    "\<not> wildcard ''force-delete''"
  by (simp_all add: wildcard_def)

lemma bases_no_slash: "plurals_ok ds \<Longrightarrow> (b, h) \<in> bases ds \<Longrightarrow> list_all (\<lambda>seg. CHR ''/'' \<notin> set seg) b"
  by (auto elim!: bases.cases dest!: Get_Some simp: plural_facts)

lemma compatible_iff: "\<not> wildcard a \<Longrightarrow> \<not> wildcard b \<Longrightarrow> compatible a b \<longleftrightarrow> a = b"
  by (simp add: compatible_def)

lemma tails_compatible: "t \<in> tails \<Longrightarrow> t' \<in> tails \<Longrightarrow> list_all2 compatible t t' \<Longrightarrow> t = t'"
  by (auto simp: tails_def compatible_def wild_facts)

lemma tails_length: "t \<in> tails \<Longrightarrow> length t \<le> 2"
  by (auto simp: tails_def)

text \<open>Routes of one shape: the plurals decide.\<close>

lemma bases_same_length:
  assumes ok: "plurals_ok ds" and b: "(b, h) \<in> bases ds" "(b', h') \<in> bases ds" and c: "list_all2 compatible b b'"
  shows "b = b' \<and> h = h'"
  using b(1)
proof cases
  case base_root
  from b(2) show ?thesis
    by cases (use base_root c ok plural_facts(1,2) [OF ok] in \<open>auto simp: compatible_iff wild_facts\<close>)
next
  case (base_flat d)
  from b(2) show ?thesis
  proof cases
    case base_root
    then show ?thesis using base_flat c plural_facts(1,2) [OF ok base_flat(3)] by (simp add: compatible_iff wild_facts)
  next
    case (base_flat e)
    with \<open>b = [desc_Plural d]\<close> c plural_facts(1) [OF ok] \<open>d \<in> set ds\<close> have "desc_Plural d = desc_Plural e"
      by (simp add: compatible_iff)
    then have "d = e" using same_plural [OF ok \<open>d \<in> set ds\<close> base_flat(3)] by simp
    then show ?thesis using base_flat \<open>b = [desc_Plural d]\<close> \<open>h = KindHandler d\<close> by simp
  next
    case base_nested
    then show ?thesis using base_flat c by simp
  qed
next
  case (base_nested d parent)
  from b(2) show ?thesis
  proof cases
    case (base_nested e parent')
    have "desc_Plural d = desc_Plural e"
      using base_nested(1) \<open>b = _\<close> c plural_facts(1) [OF ok] \<open>d \<in> set ds\<close> \<open>e \<in> set ds\<close> by (simp add: compatible_iff)
    then have "d = e" using same_plural [OF ok \<open>d \<in> set ds\<close> \<open>e \<in> set ds\<close>] by simp
    then show ?thesis using base_nested \<open>b = _\<close> \<open>h = _\<close> \<open>Get ds (desc_ParentKind d) = Some parent\<close> by simp
  qed (use base_nested c in simp_all)
qed

text \<open>A nested collection is not the sub-resource of another resource.\<close>

lemma bases_longer:
  assumes ok: "plurals_ok ds" and b: "(b, h) \<in> bases ds" "(b', h') \<in> bases ds"
    and t: "t \<in> tails" "t' \<in> tails" and c: "list_all2 compatible (b @ t) (b' @ t')" and "length b < length b'"
  shows False
proof -
  from assms(7) b obtain x where x: "b = [x]" by (auto elim!: bases.cases)
  from assms(7) b obtain pp d where d: "b' = [pp, ''{parent_id}'', desc_Plural d]" "d \<in> set ds" by (auto elim!: bases.cases)
  from list_all2_lengthD [OF c] x d tails_length [OF t(1)] have "length t = 2" by simp
  with t(1) obtain y where "t = [''{id}'', y]" "y = ''force-delete'' \<or> y = ''statuses''" by (auto simp: tails_def)
  with c x d plural_facts(1,3,4) [OF ok d(2)] show False by (auto simp: compatible_iff wild_facts)
qed

lemma compatible_sym: "list_all2 compatible x y \<Longrightarrow> list_all2 compatible y x"
  by (induction rule: list_all2_induct) (auto simp: compatible_def)

lemma bases_disjoint:
  assumes ok: "plurals_ok ds" and b: "(b, h) \<in> bases ds" "(b', h') \<in> bases ds"
    and t: "t \<in> tails" "t' \<in> tails" and c: "list_all2 compatible (b @ t) (b' @ t')"
  shows "b = b' \<and> h = h' \<and> t = t'"
proof -
  have "length b = length b'"
    using bases_longer [OF ok b t c] bases_longer [OF ok b(2,1) t(2,1) compatible_sym [OF c]] by (meson linorder_neqE_nat)
  then have "list_all2 compatible b b'" "list_all2 compatible t t'" using c by (simp_all add: list_all2_append)
  with bases_same_length [OF ok b] tails_compatible [OF t] show ?thesis by blast
qed

text \<open>The routes of a server: the documentation, and the resources.\<close>

lemma server_routes:
  assumes "BuildAPIServer cfg ds jh = Inr m" and "(p, s) \<in> set m"
  obtains (doc) "p \<in> {''GET /api/hyperfleet'', ''GET /api/hyperfleet/v1/openapi.html'', ''GET /api/hyperfleet/v1/openapi''}"
      "handler_of s \<in> {MetadataHandler, OpenAPIUI, OpenAPIDoc}"
  | (resource) b h v t oper where "(b, h) \<in> bases ds" "(v, t, oper) \<in> set resource_table"
      "p = v @ '' '' @ apiV1BasePath @ slash_base b @ t" "s = wrap (protected_router cfg) (h oper)"
proof -
  obtain docs where reg: "RegisterEntityRoutes ds (protected_router cfg) docs = Inr m"
    and names: "map fst docs = [''GET /api/hyperfleet'', ''GET /api/hyperfleet/v1/openapi.html'', ''GET /api/hyperfleet/v1/openapi'']"
    and hs: "map (handler_of \<circ> snd) docs = [MetadataHandler, OpenAPIUI, OpenAPIDoc]"
    using BuildAPIServer_Inr [OF assms(1)] by blast
  show thesis
  proof (rule resource_routes [OF reg assms(2)])
    assume d: "(p, s) \<in> set docs"
    then have "fst (p, s) \<in> set (map fst docs)" "(handler_of \<circ> snd) (p, s) \<in> set (map (handler_of \<circ> snd) docs)"
      unfolding set_map by (rule imageI)+
    then show thesis unfolding names hs by (intro doc) simp_all
  next
    fix b h v t oper
    assume "(b, h) \<in> bases ds" "(v, t, oper) \<in> set resource_table"
      "p = v @ '' '' @ ro_prefix (protected_router cfg) @ slash_base b @ t" "s = wrap (protected_router cfg) (h oper)"
    then show thesis by (intro resource) (simp_all add: protected_router_def)
  qed
qed

lemma bases_head:
  "plurals_ok ds \<Longrightarrow> (b, h) \<in> bases ds \<Longrightarrow> b \<noteq> [] \<and> \<not> wildcard (hd b) \<and> hd b \<notin> {''openapi'', ''openapi.html''}"
  by (auto elim!: bases.cases dest!: Get_Some simp: plural_facts wild_facts)

lemma bases_resource: "(b, h) \<in> bases ds \<Longrightarrow> h oper \<notin> {MetadataHandler, OpenAPIUI, OpenAPIDoc}"
  by (auto elim: bases.cases)

lemma guarded_chain:
  assumes "BuildAPIServer cfg ds jh = Inr m" and "ap_JWTEnabled cfg" and "ap_TenantEnabled cfg"
    and "(p, s) \<in> set m" and "handler_of s \<notin> {MetadataHandler, OpenAPIUI, OpenAPIDoc}"
  shows "jh \<and> (\<exists>before. chain s = before @ [MW_JWT, MW_CallerIdentity, MW_Tenant, MW_SchemaValidation, MW_RequestTimeout] \<and>
     set before \<subseteq> {MW_RequestID, MW_OTel, MW_RequestLogging, MW_Metrics, MW_Compress})"
proof -
  from assms(1,2) have jh by (simp add: BuildAPIServer_def Let_def split: if_splits)
  moreover have "s = wrap (protected_router cfg) (handler_of s)"
    using server_routes [OF assms(1,4)] assms(5) by (metis wrap_fields(2))
  then have "chain s = (open_chain cfg @ [MW_Metrics, MW_Compress]) @
      [MW_JWT, MW_CallerIdentity, MW_Tenant, MW_SchemaValidation, MW_RequestTimeout]"
    using assms(2,3) wrap_fields(1) [of "protected_router cfg" "handler_of s"] by (simp add: protected_router_def auth_middleware_def)
  moreover have "set (open_chain cfg @ [MW_Metrics, MW_Compress]) \<subseteq> {MW_RequestID, MW_OTel, MW_RequestLogging, MW_Metrics, MW_Compress}"
    by (auto simp: open_chain_def)
  ultimately show ?thesis by blast
qed

text \<open>C28. No resource is reachable around the guards: with JWT and tenancy switched on, the request to any
  resource route passes the JWT middleware, then the caller identity, then the tenant resolver, and only then the
  schema validation, the timeout and the handler; before the JWT middleware there are only the request
  identifier, tracing, logging, metrics and compression.  The server does not start without a JWT handler.\<close>

theorem resource_routes_guarded:
  assumes "BuildAPIServer cfg ds jh = Inr m" and "ap_JWTEnabled cfg" and "ap_TenantEnabled cfg"
    and "(p, s) \<in> set m" and "handler_of s \<notin> {MetadataHandler, OpenAPIUI, OpenAPIDoc}"
  shows "jh \<and> (\<exists>before. chain s = before @ [MW_JWT, MW_CallerIdentity, MW_Tenant, MW_SchemaValidation, MW_RequestTimeout] \<and>
     set before \<subseteq> {MW_RequestID, MW_OTel, MW_RequestLogging, MW_Metrics, MW_Compress})"
  using assms by (rule guarded_chain)

text \<open>C29. Dispatch is unambiguous: when the plurals of the kinds are distinct single segments other than the
  segments of the fixed routes, no request matches two routes of the server, whatever the kinds, their
  nesting and the path; the patterns are therefore free of the conflicts that would make \<open>net/http\<close> panic
  when they are registered.\<close>

theorem dispatch_unambiguous:
  assumes "BuildAPIServer cfg ds jh = Inr m" and "distinct (map desc_Plural ds)"
    and "list_all plain_plural (map desc_Plural ds)"
    and "(p, s) \<in> set m" and "(p', s') \<in> set m"
    and "handler_of s \<notin> {MetadataHandler, OpenAPIUI, OpenAPIDoc}"
    and "pattern_matches p verb path" and "pattern_matches p' verb path"
  shows "p = p' \<and> s = s'"
proof -
  obtain docs where "RegisterEntityRoutes ds (protected_router cfg) docs = Inr m"
    using BuildAPIServer_Inr [OF assms(1)] by blast
  then have ok: "plurals_ok ds" using RegisterEntityRoutes_Inr(1) assms(2,3) by (simp add: plurals_ok_def)
  from assms(4,6) obtain b h v t oper where r: "(b, h) \<in> bases ds" "(v, t, oper) \<in> set resource_table"
      "p = v @ '' '' @ apiV1BasePath @ slash_base b @ t" "s = wrap (protected_router cfg) (h oper)"
    by (auto elim!: server_routes [OF assms(1)])
  note segs = pattern_matches_route [OF r(2) bases_no_slash [OF ok r(1)], of verb path]
  from assms(7) segs r(3) have m: "verb_matches v verb"
      "list_all2 segment_matches ([[], ''api'', ''hyperfleet'', ''v1''] @ b @ tail_segments t) (Split (CHR ''/'') path)"
    by auto
  show ?thesis
  proof (rule server_routes [OF assms(1,5)])
    assume "p' \<in> {''GET /api/hyperfleet'', ''GET /api/hyperfleet/v1/openapi.html'', ''GET /api/hyperfleet/v1/openapi''}"
    from docs_match [OF this assms(8)] m(2) have "list_all2 segment_matches (b @ tail_segments t) [''openapi.html''] \<or>
        list_all2 segment_matches (b @ tail_segments t) [''openapi''] \<or> b = []"
      by (auto dest: list_all2_lengthD)
    with bases_head [OF ok r(1)] show ?thesis
      by (cases b) (auto simp: segment_matches_def)
  next
    fix b' h' v' t' oper'
    assume r': "(b', h') \<in> bases ds" "(v', t', oper') \<in> set resource_table"
      "p' = v' @ '' '' @ apiV1BasePath @ slash_base b' @ t'" "s' = wrap (protected_router cfg) (h' oper')"
    from assms(8) pattern_matches_route [OF r'(2) bases_no_slash [OF ok r'(1)], of verb path] r'(3)
    have m': "verb_matches v' verb"
      "list_all2 segment_matches ([[], ''api'', ''hyperfleet'', ''v1''] @ b' @ tail_segments t') (Split (CHR ''/'') path)"
      by auto
    have "list_all2 compatible (b @ tail_segments t) (b' @ tail_segments t')"
      using both_match [OF m(2) m'(2)] by simp
    from bases_disjoint [OF ok r(1) r'(1) table_segments [OF r(2)] table_segments [OF r'(2)] this]
    have e: "b = b'" "h = h'" "tail_segments t = tail_segments t'" by auto
    from table_functional [OF r(2) r'(2) e(3) m(1) m'(1)] e r r' show ?thesis by simp
  qed
qed

section \<open>Samples\<close>

definition guarded_config :: api_config where
  "guarded_config = \<lparr>ap_TracingEnabled = False, ap_JWTEnabled = True, ap_TenantEnabled = True\<rparr>"

lemma resource_routes_guarded_witness:
  "\<exists>m. BuildAPIServer guarded_config sample_registry True = Inr m \<and>
     (\<exists>s before. (''DELETE /api/hyperfleet/v1/clusters/{parent_id}/nodepools/{id}'', s) \<in> set m \<and>
        chain s = before @ [MW_JWT, MW_CallerIdentity, MW_Tenant, MW_SchemaValidation, MW_RequestTimeout])"
proof -
  let ?p = "''DELETE /api/hyperfleet/v1/clusters/{parent_id}/nodepools/{id}''"
  have "case BuildAPIServer guarded_config sample_registry True of Inl _ \<Rightarrow> False
    | Inr m \<Rightarrow> (case map_of m ?p of None \<Rightarrow> False
        | Some s \<Rightarrow> (case handler_of s of KindHandler d oper \<Rightarrow> True | _ \<Rightarrow> False))"
    by code_simp
  then obtain m s where m: "BuildAPIServer guarded_config sample_registry True = Inr m" "map_of m ?p = Some s"
      and h: "handler_of s \<notin> {MetadataHandler, OpenAPIUI, OpenAPIDoc}"
    by (auto split: sum.splits option.splits route_handler.splits)
  have "(?p, s) \<in> set m" using m(2) by (rule map_of_SomeD)
  from resource_routes_guarded [OF m(1) _ _ this h] this m(1) show ?thesis by (auto simp: guarded_config_def)
qed

lemma dispatch_unambiguous_witness:
  "\<exists>m s. BuildAPIServer guarded_config sample_registry True = Inr m \<and>
     filter (\<lambda>(p, s'). pattern_matches p ''PATCH'' ''/api/hyperfleet/v1/clusters/c1'' \<and> (p, s') \<noteq> (''PATCH /api/hyperfleet/v1/clusters/{id}'', s)) m = []"
proof -
  let ?p = "''PATCH /api/hyperfleet/v1/clusters/{id}''" and ?path = "''/api/hyperfleet/v1/clusters/c1''"
  have "case BuildAPIServer guarded_config sample_registry True of Inl _ \<Rightarrow> False
    | Inr m \<Rightarrow> (case map_of m ?p of None \<Rightarrow> False
        | Some s \<Rightarrow> (case handler_of s of KindHandler d oper \<Rightarrow> True | _ \<Rightarrow> False))"
    by code_simp
  then obtain m s where m: "BuildAPIServer guarded_config sample_registry True = Inr m" "map_of m ?p = Some s"
      and h: "handler_of s \<notin> {MetadataHandler, OpenAPIUI, OpenAPIDoc}"
    by (auto split: sum.splits option.splits route_handler.splits)
  have p: "(?p, s) \<in> set m" using m(2) by (rule map_of_SomeD)
  have d: "distinct (map desc_Plural sample_registry)" "list_all plain_plural (map desc_Plural sample_registry)" by code_simp+
  have match: "pattern_matches ?p ''PATCH'' ?path" by code_simp
  have "(p', s') = (?p, s)" if "(p', s') \<in> set m" "pattern_matches p' ''PATCH'' ?path" for p' s'
    using dispatch_unambiguous [OF m(1) d p that(1) h match that(2)] by simp
  with m(1) show ?thesis by (auto simp: filter_empty_conv)
qed

end
