(* ===== verification/Config.thy ===== *)
theory Config
  imports Tenant Registry
begin

text \<open>
  The configuration sections (\<open>pkg/config\<close>): their types, defaults and checks, the connection string
  of the database, and what is printed of a configuration.  \<open>url.Parse\<close> and \<open>regexp.Compile\<close> are
  arguments of the checks that use them, reading a file is an argument of the file overrides.
\<close>

section \<open>Durations\<close>

type_synonym duration = int

definition Microsecond :: duration where "Microsecond = 1000"
definition Millisecond :: duration where "Millisecond = 1000 * Microsecond"
definition Second :: duration where "Second = 1000 * Millisecond"
definition Minute :: duration where "Minute = 60 * Second"
definition Hour :: duration where "Hour = 60 * Minute"

lemmas duration_units = Hour_def Minute_def Second_def Millisecond_def Microsecond_def

text \<open>\<open>fmtFrac\<close>: the last digits of a number as a fraction without trailing zeros.\<close>

definition fraction :: "nat \<Rightarrow> nat \<Rightarrow> string" where
  "fraction v prec =
     (let digits = nat_text (v mod 10 ^ prec);
          padded = replicate (prec - length digits) (CHR ''0'') @ digits;
          shown = rev (dropWhile (\<lambda>c. c = CHR ''0'') (rev padded))
      in if prec = 0 \<or> shown = [] then [] else CHR ''.'' # shown)"

definition below_second :: "nat \<Rightarrow> nat \<Rightarrow> string \<Rightarrow> string" where
  "below_second u prec unit = nat_text (u div 10 ^ prec) @ fraction u prec @ unit"

text \<open>\<open>time.Duration.String\<close>, the text \<open>%v\<close> prints; the micro sign is two bytes of UTF-8.\<close>

definition Duration_String :: "duration \<Rightarrow> string" where
  "Duration_String d =
     (let u = nat \<bar>d\<bar>;
          s = u div 10 ^ 9;
          text =
            (if u = 0 then ''0s''
             else if u < 10 ^ 3 then below_second u 0 ''ns''
             else if u < 10 ^ 6 then below_second u 3 [char_of (194::nat), char_of (181::nat), CHR ''s'']
             else if u < 10 ^ 9 then below_second u 6 ''ms''
             else (if s div 3600 > 0 then nat_text (s div 3600) @ ''h'' else []) @
                  (if s div 60 > 0 then nat_text (s div 60 mod 60) @ ''m'' else []) @
                  nat_text (s mod 60) @ fraction u 9 @ ''s'')
      in if d < 0 then CHR ''-'' # text else text)"

section \<open>Server (\<open>server.go\<close>)\<close>

record timeouts_config =
  to_Read :: duration
  to_Write :: duration

definition TimeoutsConfig_Validate :: "timeouts_config \<Rightarrow> string option" where
  "TimeoutsConfig_Validate c =
     (if to_Read c < 1 * Second then
        Some (Sprintf ''read timeout must be at least 1 second, got %v'' [FS (Duration_String (to_Read c))])
      else if to_Write c < 1 * Second then
        Some (Sprintf ''write timeout must be at least 1 second, got %v'' [FS (Duration_String (to_Write c))])
      else None)"

record tls_config =
  tls_CertFile :: string
  tls_KeyFile :: string
  tls_Enabled :: bool

definition TLSConfig_Validate :: "tls_config \<Rightarrow> string option" where
  "TLSConfig_Validate c =
     (if \<not> tls_Enabled c then None
      else if tls_CertFile c = [] then Some ''TLS cert file is required when TLS is enabled''
      else if tls_KeyFile c = [] then Some ''TLS key file is required when TLS is enabled''
      else None)"

record jwt_config =
  jc_Configs :: "jwt_issuer_config list"
  jc_Enabled :: bool

definition DefaultJWTHeader :: string where "DefaultJWTHeader = ''Authorization''"

definition issuer_defaults :: "jwt_issuer_config \<Rightarrow> jwt_issuer_config" where
  "issuer_defaults c =
     (let c = (if ji_Header c = [] then c\<lparr>ji_Header := DefaultJWTHeader\<rparr> else c)
      in if ji_IdentityClaim c = [] then c\<lparr>ji_IdentityClaim := DefaultJWTIdentityClaim\<rparr> else c)"

definition ApplyDefaults :: "jwt_config \<Rightarrow> jwt_config" where
  "ApplyDefaults c = c\<lparr>jc_Configs := map issuer_defaults (jc_Configs c)\<rparr>"

text \<open>What the checks read of a parsed URL.\<close>

record url =
  u_Scheme :: string
  u_Host :: string
  u_Hostname :: string

text \<open>The library calls of the checks.\<close>

record config_library =
  cl_Parse :: "string \<Rightarrow> string + url"
  cl_Compile :: "string \<Rightarrow> string + (string \<Rightarrow> bool)"

definition requireHTTPSURL :: "config_library \<Rightarrow> string \<Rightarrow> string option" where
  "requireHTTPSURL lib rawURL =
     (case cl_Parse lib rawURL of
        Inl err \<Rightarrow> Some (Sprintf ''invalid URL %q: %w'' [FS rawURL, FS err])
      | Inr u \<Rightarrow>
          if u_Scheme u = ''https'' then
            (if u_Host u = [] then Some (Sprintf ''URL %q must include a host'' [FS rawURL]) else None)
          else if u_Scheme u = ''http'' \<and>
            (u_Hostname u = ''localhost'' \<or> u_Hostname u = ''127.0.0.1'' \<or> u_Hostname u = ''::1'') then None
          else Some (Sprintf ''URL %q must use https scheme (http is only allowed for localhost)'' [FS rawURL]))"

text \<open>The body of the loop of \<open>JWTConfig.Validate\<close>: an error, or the issuer with its pattern
  compiled.\<close>

definition issuer_header_error :: "nat \<Rightarrow> jwt_issuer_config \<Rightarrow> string option" where
  "issuer_header_error i cfg =
     (if ji_Header cfg \<noteq> [] \<and> IsForbiddenJWTSourceHeaderName (ji_Header cfg) then
        Some (Sprintf ''server.jwt.configs[%d].header %q is not allowed as a JWT source'' [FD (int i), FS (ji_Header cfg)])
      else if ji_IdentityHeader cfg \<noteq> [] \<and> IsForbiddenIdentityHeaderName (ji_IdentityHeader cfg) then
        Some (Sprintf ''server.jwt.configs[%d].identity_header %q is not allowed'' [FD (int i), FS (ji_IdentityHeader cfg)])
      else if ji_IdentityHeader cfg \<noteq> [] \<and> EqualFold (ji_Header cfg) (ji_IdentityHeader cfg) then
        Some (Sprintf ''server.jwt.configs[%d].identity_header must differ from header %q'' [FD (int i), FS (ji_Header cfg)])
      else None)"

definition issuer_url_error :: "config_library \<Rightarrow> nat \<Rightarrow> jwt_issuer_config \<Rightarrow> string option" where
  "issuer_url_error lib i cfg =
     (if ji_IssuerURL cfg = [] then Some (Sprintf ''server.jwt.configs[%d].issuer_url is required'' [FD (int i)])
      else case requireHTTPSURL lib (ji_IssuerURL cfg) of
        Some err \<Rightarrow> Some (Sprintf ''server.jwt.configs[%d].issuer_url: %w'' [FD (int i), FS err])
      | None \<Rightarrow>
      if ji_JWKCertURL cfg = [] \<and> ji_JWKCertFile cfg = [] then
        Some (Sprintf ''server.jwt.configs[%d] requires jwk_cert_url or jwk_cert_file'' [FD (int i)])
      else case (if ji_JWKCertURL cfg \<noteq> [] then requireHTTPSURL lib (ji_JWKCertURL cfg) else None) of
        Some err \<Rightarrow> Some (Sprintf ''server.jwt.configs[%d].jwk_cert_url: %w'' [FD (int i), FS err])
      | None \<Rightarrow>
      if ji_JWKCertCAFile cfg \<noteq> [] \<and> ji_JWKCertURL cfg = [] then
        Some (Sprintf ''server.jwt.configs[%d].jwk_cert_ca_file requires jwk_cert_url to be set'' [FD (int i)])
      else None)"

definition validate_issuer :: "config_library \<Rightarrow> nat \<Rightarrow> jwt_issuer_config \<Rightarrow> string + jwt_issuer_config" where
  "validate_issuer lib i cfg =
     (case issuer_url_error lib i cfg of
        Some err \<Rightarrow> Inl err
      | None \<Rightarrow>
      case issuer_header_error i cfg of
        Some err \<Rightarrow> Inl err
      | None \<Rightarrow>
      if ji_IdentityClaimPattern cfg = [] then Inr cfg
      else case cl_Compile lib (ji_IdentityClaimPattern cfg) of
        Inl err \<Rightarrow> Inl (Sprintf ''server.jwt.configs[%d].identity_claim_pattern is invalid: %w'' [FD (int i), FS err])
      | Inr re \<Rightarrow> Inr (cfg\<lparr>ji_CompiledPattern := Some re\<rparr>))"

fun validate_issuers :: "config_library \<Rightarrow> nat \<Rightarrow> jwt_issuer_config list \<Rightarrow> string + jwt_issuer_config list" where
  "validate_issuers lib i [] = Inr []"
| "validate_issuers lib i (cfg # cfgs) =
     (case validate_issuer lib i cfg of
        Inl err \<Rightarrow> Inl err
      | Inr cfg' \<Rightarrow> map_sum id (\<lambda>rest. cfg' # rest) (validate_issuers lib (i + 1) cfgs))"

definition JWTConfig_Validate :: "config_library \<Rightarrow> jwt_config \<Rightarrow> string + jwt_config" where
  "JWTConfig_Validate lib c =
     (if \<not> jc_Enabled c then Inr c
      else if jc_Configs c = [] then
        Inl ''server.jwt.configs requires at least one issuer when jwt is enabled''
      else map_sum id (\<lambda>cfgs. c\<lparr>jc_Configs := cfgs\<rparr>) (validate_issuers lib 0 (jc_Configs c)))"

record server_config =
  sc_Hostname :: string
  sc_Host :: string
  sc_OpenAPISchemaPath :: string
  sc_TLS :: tls_config
  sc_JWT :: jwt_config
  sc_Tenant :: tenant_config
  sc_Timeouts :: timeouts_config
  sc_Port :: int

definition no_tls :: tls_config where
  "no_tls = \<lparr>tls_CertFile = [], tls_KeyFile = [], tls_Enabled = False\<rparr>"

definition NewServerConfig :: server_config where
  "NewServerConfig = \<lparr>sc_Hostname = [], sc_Host = ''localhost'', sc_OpenAPISchemaPath = ''openapi/openapi.yaml'',
     sc_TLS = no_tls, sc_JWT = \<lparr>jc_Configs = [], jc_Enabled = True\<rparr>,
     sc_Tenant = \<lparr>tc_SystemHeader = [], tc_Dimensions = [], tc_Enabled = False, tc_ClaimsEnabled = False\<rparr>,
     sc_Timeouts = \<lparr>to_Read = 5 * Second, to_Write = 30 * Second\<rparr>, sc_Port = 8000\<rparr>"

text \<open>\<open>net.JoinHostPort\<close>: an address with a colon is put in brackets.\<close>

definition JoinHostPort :: "string \<Rightarrow> string \<Rightarrow> string" where
  "JoinHostPort host port =
     (if List.member host (CHR '':'') then ''['' @ host @ '']:'' @ port else host @ '':'' @ port)"

definition ServerConfig_BindAddress :: "server_config \<Rightarrow> string" where
  "ServerConfig_BindAddress s = JoinHostPort (sc_Host s) (int_text (sc_Port s))"

definition ServerConfig_ReadTimeout :: "server_config \<Rightarrow> duration" where
  "ServerConfig_ReadTimeout s = to_Read (sc_Timeouts s)"

definition ServerConfig_WriteTimeout :: "server_config \<Rightarrow> duration" where
  "ServerConfig_WriteTimeout s = to_Write (sc_Timeouts s)"

definition ServerConfig_TLSEnabled :: "server_config \<Rightarrow> bool" where
  "ServerConfig_TLSEnabled s = tls_Enabled (sc_TLS s)"

section \<open>Database (\<open>db.go\<close>)\<close>

definition RedactedValue :: string where "RedactedValue = ''***REDACTED***''"

record ssl_config =
  ssl_Mode :: string
  ssl_RootCertFile :: string

record pool_config =
  pc_MaxConnections :: int
  pc_MaxIdleConnections :: int
  pc_ConnMaxLifetime :: duration
  pc_ConnMaxIdleTime :: duration
  pc_RequestTimeout :: duration
  pc_ConnRetryAttempts :: int
  pc_ConnRetryInterval :: duration
  pc_AdvisoryLockTimeout :: duration

record database_config =
  dc_Dialect :: string
  dc_Host :: string
  dc_HostFile :: string
  dc_Name :: string
  dc_NameFile :: string
  dc_Username :: string
  dc_UsernameFile :: string
  dc_Password :: string
  dc_PasswordFile :: string
  dc_PortFile :: string
  dc_SSL :: ssl_config
  dc_Pool :: pool_config
  dc_Port :: int
  dc_Debug :: bool

definition redactIfSet :: "string \<Rightarrow> string" where
  "redactIfSet value = (if value = [] then [] else RedactedValue)"

definition NewDatabaseConfig :: database_config where
  "NewDatabaseConfig = \<lparr>dc_Dialect = ''postgres'', dc_Host = ''localhost'', dc_HostFile = [], dc_Name = ''hyperfleet'',
     dc_NameFile = [], dc_Username = ''hyperfleet'', dc_UsernameFile = [], dc_Password = [], dc_PasswordFile = [],
     dc_PortFile = [], dc_SSL = \<lparr>ssl_Mode = ''disable'', ssl_RootCertFile = []\<rparr>,
     dc_Pool = \<lparr>pc_MaxConnections = 50, pc_MaxIdleConnections = 10, pc_ConnMaxLifetime = 5 * Minute,
       pc_ConnMaxIdleTime = 1 * Minute, pc_RequestTimeout = 30 * Second, pc_ConnRetryAttempts = 10,
       pc_ConnRetryInterval = 3 * Second, pc_AdvisoryLockTimeout = 5 * Minute\<rparr>,
     dc_Port = 5432, dc_Debug = False\<rparr>"

text \<open>Files are read through an argument: an error, or the contents.\<close>

type_synonym read_file = "string \<Rightarrow> string + string"

definition resolveFileValue :: "read_file \<Rightarrow> string \<Rightarrow> string \<Rightarrow> string + string" where
  "resolveFileValue ReadFile envVar filePath =
     (case ReadFile filePath of
        Inl err \<Rightarrow> Inl (Sprintf ''failed to read %s (%s): %w'' [FS envVar, FS filePath, FS err])
      | Inr data \<Rightarrow> Inr (TrimSpace data))"

text \<open>\<open>if c.XFile != "" \<lbrace> value, err := resolveFileValue(..); ..; c.X = value \<rbrace>\<close>\<close>

definition file_override ::
  "read_file \<Rightarrow> string \<Rightarrow> string \<Rightarrow> (string \<Rightarrow> database_config \<Rightarrow> string + database_config) \<Rightarrow>
     database_config \<Rightarrow> string + database_config" where
  "file_override ReadFile envVar filePath store c =
     (if filePath = [] then Inr c
      else case resolveFileValue ReadFile envVar filePath of Inl err \<Rightarrow> Inl err | Inr value \<Rightarrow> store value c)"

text \<open>The error of \<open>strconv.Atoi\<close>.\<close>

definition Atoi_error :: "string \<Rightarrow> string" where
  "Atoi_error v = Sprintf ''strconv.Atoi: parsing %q: %s''
     [FS v, FS (if Atoi v = None then ''invalid syntax'' else ''value out of range'')]"

definition store_port :: "string \<Rightarrow> string \<Rightarrow> database_config \<Rightarrow> string + database_config" where
  "store_port file value c =
     (case ParseInt value of
        None \<Rightarrow> Inl (Sprintf ''HYPERFLEET_DATABASE_PORT_FILE (%s) does not contain a valid port number: %w''
          [FS file, FS (Atoi_error value)])
      | Some port \<Rightarrow> Inr (c\<lparr>dc_Port := port\<rparr>))"

text \<open>\<open>x, err := m; if err != nil \<lbrace> return err \<rbrace>\<close>, without state.\<close>

definition and_then :: "'e + 'a \<Rightarrow> ('a \<Rightarrow> 'e + 'b) \<Rightarrow> 'e + 'b" where
  "and_then m k = (case m of Inl e \<Rightarrow> Inl e | Inr x \<Rightarrow> k x)"

definition ResolveFileOverrides :: "read_file \<Rightarrow> database_config \<Rightarrow> string + database_config" where
  "ResolveFileOverrides ReadFile c =
     and_then (file_override ReadFile ''HYPERFLEET_DATABASE_HOST_FILE'' (dc_HostFile c)
       (\<lambda>value c. Inr (c\<lparr>dc_Host := value\<rparr>)) c) (\<lambda>c.
     and_then (file_override ReadFile ''HYPERFLEET_DATABASE_PORT_FILE'' (dc_PortFile c)
       (store_port (dc_PortFile c)) c) (\<lambda>c.
     and_then (file_override ReadFile ''HYPERFLEET_DATABASE_NAME_FILE'' (dc_NameFile c)
       (\<lambda>value c. Inr (c\<lparr>dc_Name := value\<rparr>)) c) (\<lambda>c.
     and_then (file_override ReadFile ''HYPERFLEET_DATABASE_USERNAME_FILE'' (dc_UsernameFile c)
       (\<lambda>value c. Inr (c\<lparr>dc_Username := value\<rparr>)) c) (\<lambda>c.
     file_override ReadFile ''HYPERFLEET_DATABASE_PASSWORD_FILE'' (dc_PasswordFile c)
       (\<lambda>value c. Inr (c\<lparr>dc_Password := value\<rparr>)) c))))"

definition simple_byte :: "char \<Rightarrow> bool" where
  "simple_byte c \<longleftrightarrow> is_alpha c \<or> is_digit c \<or> c = CHR ''.'' \<or> c = CHR ''-''"

text \<open>\<open>^[a-zA-Z0-9.-]+$\<close>\<close>

definition simpleDSNValuePattern :: "string \<Rightarrow> bool" where
  "simpleDSNValuePattern s \<longleftrightarrow> s \<noteq> [] \<and> list_all simple_byte s"

definition backslash :: char where "backslash = CHR 0x5C"
definition quote_mark :: char where "quote_mark = CHR 0x27"

text \<open>\<open>strings.ReplaceAll\<close> for a pattern of one byte.\<close>

definition ReplaceAll :: "string \<Rightarrow> char \<Rightarrow> string \<Rightarrow> string" where
  "ReplaceAll s old new = concat (map (\<lambda>c. if c = old then new else [c]) s)"

definition escapeDSNValue :: "string \<Rightarrow> string" where
  "escapeDSNValue value =
     (if value = [] then [quote_mark, quote_mark]
      else let escaped = ReplaceAll value backslash [backslash, backslash];
               escaped = ReplaceAll escaped quote_mark [backslash, quote_mark]
           in if simpleDSNValuePattern escaped then escaped
              else quote_mark # escaped @ [quote_mark])"

definition ssl_params :: "database_config \<Rightarrow> bool \<Rightarrow> string list" where
  "ssl_params c ssl =
     (if ssl \<and> ssl_Mode (dc_SSL c) \<noteq> ''disable'' then
        (''sslmode='' @ ssl_Mode (dc_SSL c)) #
        (if ssl_RootCertFile (dc_SSL c) \<noteq> [] then [''sslrootcert='' @ escapeDSNValue (ssl_RootCertFile (dc_SSL c))] else [])
      else [''sslmode=disable''])"

definition ConnectionString :: "database_config \<Rightarrow> bool \<Rightarrow> string" where
  "ConnectionString c ssl =
     Sprintf ''host=%s port=%d dbname=%s user=%s password=%s %s''
       [FS (escapeDSNValue (dc_Host c)), FD (dc_Port c), FS (escapeDSNValue (dc_Name c)),
        FS (escapeDSNValue (dc_Username c)), FS (escapeDSNValue (dc_Password c)), FS (Join '' '' (ssl_params c ssl))]"

definition redacted_credentials :: "database_config \<Rightarrow> database_config" where
  "redacted_credentials c = c\<lparr>dc_Username := RedactedValue, dc_Password := RedactedValue\<rparr>"

definition LogSafeConnectionString :: "database_config \<Rightarrow> bool \<Rightarrow> string" where
  "LogSafeConnectionString c ssl = ConnectionString (redacted_credentials c) ssl"

definition ConnectionStringWithName :: "database_config \<Rightarrow> string \<Rightarrow> bool \<Rightarrow> string" where
  "ConnectionStringWithName c name ssl = ConnectionString (c\<lparr>dc_Name := name\<rparr>) ssl"

definition LogSafeConnectionStringWithName :: "database_config \<Rightarrow> string \<Rightarrow> bool \<Rightarrow> string" where
  "LogSafeConnectionStringWithName c name ssl = ConnectionString (redacted_credentials (c\<lparr>dc_Name := name\<rparr>)) ssl"

datatype gorm_level = Silent | GormError | Warn | Info

definition SetLogLevel :: "database_config \<Rightarrow> string \<Rightarrow> gorm_level" where
  "SetLogLevel c globalLogLevel =
     (if dc_Debug c then Info
      else if globalLogLevel = ''debug'' then Info
      else if globalLogLevel = ''error'' then Silent
      else Warn)"

text \<open>\<open>MarshalJSON\<close>: the members in the order \<open>encoding/json\<close> writes them; the two credentials come from
  the outer struct, the fields of the alias are tagged to be left out.\<close>

definition json_int :: "int \<Rightarrow> json" where
  "json_int i = JNum (of_int i)"

definition ssl_json :: "ssl_config \<Rightarrow> json" where
  "ssl_json c = JObj [(''mode'', JStr (ssl_Mode c)), (''root_cert_file'', JStr (ssl_RootCertFile c))]"

definition pool_json :: "pool_config \<Rightarrow> json" where
  "pool_json c = JObj [(''max_connections'', json_int (pc_MaxConnections c)),
     (''max_idle_connections'', json_int (pc_MaxIdleConnections c)),
     (''conn_max_lifetime'', json_int (pc_ConnMaxLifetime c)), (''conn_max_idle_time'', json_int (pc_ConnMaxIdleTime c)),
     (''request_timeout'', json_int (pc_RequestTimeout c)), (''conn_retry_attempts'', json_int (pc_ConnRetryAttempts c)),
     (''conn_retry_interval'', json_int (pc_ConnRetryInterval c)),
     (''advisory_lock_timeout'', json_int (pc_AdvisoryLockTimeout c))]"

definition DatabaseConfig_MarshalJSON :: "database_config \<Rightarrow> json" where
  "DatabaseConfig_MarshalJSON c = JObj [
     (''dialect'', JStr (dc_Dialect c)), (''host'', JStr (dc_Host c)), (''host_file'', JStr (dc_HostFile c)),
     (''name'', JStr (dc_Name c)), (''name_file'', JStr (dc_NameFile c)),
     (''username_file'', JStr (dc_UsernameFile c)), (''password_file'', JStr (dc_PasswordFile c)),
     (''port_file'', JStr (dc_PortFile c)), (''ssl'', ssl_json (dc_SSL c)), (''pool'', pool_json (dc_Pool c)),
     (''port'', json_int (dc_Port c)), (''debug'', JBool (dc_Debug c)),
     (''username'', JStr (redactIfSet (dc_Username c))), (''password'', JStr (redactIfSet (dc_Password c)))]"

section \<open>Logging, metrics, health, tracing\<close>

record masking_config =
  mc_Headers :: "string list"
  mc_Fields :: "string list"
  mc_Enabled :: bool

record logging_config =
  lc_Level :: string
  lc_Format :: string
  lc_Output :: string
  lc_Masking :: masking_config
  lc_OTel_Enabled :: bool

definition NewLoggingConfig :: logging_config where
  "NewLoggingConfig = \<lparr>lc_Level = ''info'', lc_Format = ''json'', lc_Output = ''stdout'',
     lc_Masking = \<lparr>mc_Headers = [''Authorization'', ''X-API-Key'', ''Cookie'', ''X-Auth-Token'', ''X-Forwarded-Authorization''],
       mc_Fields = [''password'', ''secret'', ''token'', ''api_key'', ''access_token'', ''refresh_token'', ''client_secret''],
       mc_Enabled = True\<rparr>,
     lc_OTel_Enabled = False\<rparr>"

definition GetSensitiveHeadersList :: "logging_config \<Rightarrow> string list" where
  "GetSensitiveHeadersList l = mc_Headers (lc_Masking l)"

definition GetSensitiveFieldsList :: "logging_config \<Rightarrow> string list" where
  "GetSensitiveFieldsList l = mc_Fields (lc_Masking l)"

definition GetSensitiveHeadersString :: "logging_config \<Rightarrow> string" where
  "GetSensitiveHeadersString l = Join '','' (mc_Headers (lc_Masking l))"

definition GetSensitiveFieldsString :: "logging_config \<Rightarrow> string" where
  "GetSensitiveFieldsString l = Join '','' (mc_Fields (lc_Masking l))"

record metrics_config =
  me_Host :: string
  me_TLS :: tls_config
  me_Port :: int
  me_LabelMetricsInclusionDuration :: duration
  me_ReconciliationStuckThreshold :: duration

definition NewMetricsConfig :: metrics_config where
  "NewMetricsConfig = \<lparr>me_Host = ''localhost'', me_TLS = no_tls, me_Port = 9090,
     me_LabelMetricsInclusionDuration = 168 * Hour, me_ReconciliationStuckThreshold = 10 * Minute\<rparr>"

definition MetricsConfig_Validate :: "metrics_config \<Rightarrow> string option" where
  "MetricsConfig_Validate m =
     (if me_ReconciliationStuckThreshold m \<le> 0 then
        Some (Sprintf ''ReconciliationStuckThreshold must be positive, got %v''
          [FS (Duration_String (me_ReconciliationStuckThreshold m))])
      else None)"

definition MetricsConfig_BindAddress :: "metrics_config \<Rightarrow> string" where
  "MetricsConfig_BindAddress m = JoinHostPort (me_Host m) (int_text (me_Port m))"

record health_config =
  hc_Host :: string
  hc_TLS :: tls_config
  hc_Port :: int
  hc_ShutdownTimeout :: duration
  hc_DBPingTimeout :: duration

definition HealthConfig_Validate :: "health_config \<Rightarrow> string option" where
  "HealthConfig_Validate h =
     (if hc_ShutdownTimeout h < 1 * Second then
        Some (Sprintf ''shutdown timeout must be at least 1 second, got %v'' [FS (Duration_String (hc_ShutdownTimeout h))])
      else if hc_ShutdownTimeout h > 120 * Second then
        Some (Sprintf ''shutdown timeout must be at most 120 seconds, got %v'' [FS (Duration_String (hc_ShutdownTimeout h))])
      else None)"

definition NewHealthConfig :: health_config where
  "NewHealthConfig = \<lparr>hc_Host = ''localhost'', hc_TLS = no_tls, hc_Port = 8080, hc_ShutdownTimeout = 20 * Second,
     hc_DBPingTimeout = 2 * Second\<rparr>"

definition HealthConfig_BindAddress :: "health_config \<Rightarrow> string" where
  "HealthConfig_BindAddress h = JoinHostPort (hc_Host h) (int_text (hc_Port h))"

record tracing_config =
  tr_ServiceName :: string
  tr_Enabled :: bool

definition TracingConfig_Validate :: "tracing_config \<Rightarrow> string option" where
  "TracingConfig_Validate c =
     (if tr_Enabled c \<and> tr_ServiceName c = [] then
        Some ''tracing service_name is required when tracing is enabled'' else None)"

definition NewTracingConfig :: tracing_config where
  "NewTracingConfig = \<lparr>tr_ServiceName = ''hyperfleet-api'', tr_Enabled = True\<rparr>"

section \<open>The application configuration (\<open>config.go\<close>, \<open>dump.go\<close>)\<close>

record application_config =
  ac_Server :: server_config
  ac_Metrics :: metrics_config
  ac_Health :: health_config
  ac_Database :: database_config
  ac_Logging :: logging_config
  ac_Tracing :: tracing_config
  ac_Entities :: "entity_descriptor list"

definition NewApplicationConfig :: application_config where
  "NewApplicationConfig = \<lparr>ac_Server = NewServerConfig, ac_Metrics = NewMetricsConfig, ac_Health = NewHealthConfig,
     ac_Database = NewDatabaseConfig, ac_Logging = NewLoggingConfig, ac_Tracing = NewTracingConfig, ac_Entities = []\<rparr>"

definition newline :: string where "newline = [char_of (10::nat)]"

definition issuer_line :: "nat \<Rightarrow> jwt_issuer_config \<Rightarrow> string" where
  "issuer_line i cfg =
     (let jwkSource = (if ji_JWKCertURL cfg \<noteq> [] then ''url'' else if ji_JWKCertFile cfg \<noteq> [] then ''file'' else ''none'');
          caFlag = (if ji_JWKCertCAFile cfg \<noteq> [] then ''yes'' else ''no'')
      in newline @ Sprintf ''      [%d] IssuerURL: %s, Header: %s, JWK: %s, CustomCA: %s''
           [FD (int i), FS (ji_IssuerURL cfg), FS (ji_Header cfg), FS jwkSource, FS caFlag])"

definition formatIssuers :: "jwt_issuer_config list \<Rightarrow> string" where
  "formatIssuers configs = concat (map (\<lambda>(i, cfg). issuer_line i cfg) (enumerate 0 configs))"

definition entityKindNames :: "entity_descriptor list \<Rightarrow> string list" where
  "entityKindNames entities = map desc_Kind entities"

text \<open>\<open>%t\<close> of a flag and \<open>%v\<close> of a list of strings.\<close>

definition bool_text :: "bool \<Rightarrow> string" where
  "bool_text b = (if b then ''true'' else ''false'')"

definition list_text :: "string list \<Rightarrow> string" where
  "list_text xs = ''['' @ Join '' '' xs @ '']''"

definition DumpConfig :: "application_config option \<Rightarrow> string" where
  "DumpConfig config =
     (case config of None \<Rightarrow> ''nil config'' | Some c \<Rightarrow>
        concat (map (\<lambda>line. line @ newline) [
          ''ApplicationConfig:'',
          ''  Server:'',
          ''    BindAddress: '' @ ServerConfig_BindAddress (ac_Server c),
          ''    EnableHTTPS: '' @ bool_text (tls_Enabled (sc_TLS (ac_Server c))),
          ''    EnableJWT: '' @ bool_text (jc_Enabled (sc_JWT (ac_Server c))),
          ''    Issuers: '' @ nat_text (length (jc_Configs (sc_JWT (ac_Server c)))) @ '' configured'' @
            formatIssuers (jc_Configs (sc_JWT (ac_Server c))),
          ''  Database:'',
          ''    Host: '' @ dc_Host (ac_Database c),
          ''    Port: '' @ int_text (dc_Port (ac_Database c)),
          ''    Name: '' @ dc_Name (ac_Database c),
          ''    Username: '' @ redactIfSet (dc_Username (ac_Database c)),
          ''    Password: '' @ redactIfSet (dc_Password (ac_Database c)),
          ''    Debug: '' @ bool_text (dc_Debug (ac_Database c)),
          ''  Logging:'',
          ''    Level: '' @ lc_Level (ac_Logging c),
          ''    Format: '' @ lc_Format (ac_Logging c),
          ''  Tracing:'',
          ''    Enabled: '' @ bool_text (tr_Enabled (ac_Tracing c)),
          ''    ServiceName: '' @ tr_ServiceName (ac_Tracing c),
          ''  Metrics:'',
          ''    BindAddress: '' @ MetricsConfig_BindAddress (ac_Metrics c),
          ''  Health:'',
          ''    BindAddress: '' @ HealthConfig_BindAddress (ac_Health c),
          ''  Entities: '' @ nat_text (length (ac_Entities c)) @ '' registered (kinds: '' @
            list_text (entityKindNames (ac_Entities c)) @ '')'']))"

section \<open>What a connection string says\<close>

text \<open>
  The reading rule the comments of \<open>db.go\<close> state: keyword=value pairs separated by space; a value may
  stand between single quotes, and a backslash takes the next byte as it is.  Space after the equals
  sign is skipped, so an unquoted empty value would take the next pair.
\<close>

fun quoted_value :: "string \<Rightarrow> (string \<times> string) option" where
  "quoted_value [] = None"
| "quoted_value (c # s) =
     (if c = quote_mark then Some ([], s)
      else if c = backslash then
        (case s of [] \<Rightarrow> None | d # t \<Rightarrow> map_option (\<lambda>(v, r). (d # v, r)) (quoted_value t))
      else map_option (\<lambda>(v, r). (c # v, r)) (quoted_value s))"

fun plain_value :: "string \<Rightarrow> string \<times> string" where
  "plain_value [] = ([], [])"
| "plain_value (c # s) =
     (if is_space c then ([], c # s)
      else if c = backslash then
        (case s of [] \<Rightarrow> ([], []) | d # t \<Rightarrow> (case plain_value t of (v, r) \<Rightarrow> (d # v, r)))
      else case plain_value s of (v, r) \<Rightarrow> (c # v, r))"

definition dsn_value :: "string \<Rightarrow> (string \<times> string) option" where
  "dsn_value s =
     (case s of
        [] \<Rightarrow> Some ([], [])
      | c # t \<Rightarrow> if c = quote_mark then quoted_value t else Some (plain_value s))"

lemma quoted_value_shorter: "quoted_value s = Some (v, r) \<Longrightarrow> length r \<le> length s"
proof (induction s arbitrary: v r rule: quoted_value.induct)
  case (2 c s)
  show ?case
  proof (cases "c = backslash \<and> c \<noteq> quote_mark")
    case True
    with 2(1,3) show ?thesis by (cases s) (fastforce intro: le_SucI)+
  next
    case False
    with 2(2,3) show ?thesis by (auto split: if_splits intro: le_SucI)
  qed
qed simp

lemma plain_value_shorter: "plain_value s = (v, r) \<Longrightarrow> length r \<le> length s"
  by (induction s arbitrary: v r rule: plain_value.induct)
    (auto split: if_splits list.splits prod.splits intro: le_SucI)

lemma dsn_value_shorter: "dsn_value s = Some (v, r) \<Longrightarrow> length r \<le> length s"
proof (cases s)
  case (Cons c t)
  assume "dsn_value s = Some (v, r)"
  with Cons show ?thesis
    using quoted_value_shorter [of t v r] plain_value_shorter [of s v r]
    by (simp add: dsn_value_def del: plain_value.simps split: if_splits)
qed (simp add: dsn_value_def)

definition keyword_byte :: "char \<Rightarrow> bool" where
  "keyword_byte c \<longleftrightarrow> c \<noteq> CHR ''='' \<and> \<not> is_space c"

function conninfo :: "string \<Rightarrow> (string \<times> string) list option" where
  "conninfo s =
     (let s = dropWhile is_space s; key = takeWhile keyword_byte s in
      if s = [] then Some []
      else case dropWhile is_space (dropWhile keyword_byte s) of
             [] \<Rightarrow> None
           | c # v \<Rightarrow>
               if c \<noteq> CHR ''='' then None
               else case dsn_value (dropWhile is_space v) of
                      None \<Rightarrow> None
                    | Some (x, r) \<Rightarrow> map_option ((#) (key, x)) (conninfo r))"
  by pat_completeness auto
termination
proof (relation "measure length", goal_cases)
  case (2 s s' key c v p x r)
  have "length r \<le> length v"
    using dsn_value_shorter [of "dropWhile is_space v" x r] 2 length_dropWhile_le [of is_space v] by auto
  moreover have "length (c # v) \<le> length s'"
    using 2 by (metis length_dropWhile_le order_trans)
  ultimately show ?case using 2 length_dropWhile_le [of is_space s] by simp
qed simp

declare conninfo.simps [simp del]

definition escape_byte :: "char \<Rightarrow> string" where
  "escape_byte c = (if c = backslash then [backslash, backslash] else if c = quote_mark then [backslash, quote_mark] else [c])"

lemma backslash_facts [simp]: "backslash \<noteq> quote_mark" "quote_mark \<noteq> backslash" "\<not> is_space backslash" "\<not> is_space quote_mark"
  by (simp_all add: backslash_def quote_mark_def is_space_def)

lemma simple_byte_facts: "simple_byte c \<Longrightarrow> c \<noteq> backslash \<and> c \<noteq> quote_mark \<and> \<not> is_space c"
  by (auto simp: simple_byte_def backslash_def quote_mark_def is_space_def is_alpha_def is_lower_def is_upper_def is_digit_def)

lemma escaped_eq:
  "ReplaceAll (ReplaceAll v backslash [backslash, backslash]) quote_mark [backslash, quote_mark] = concat (map escape_byte v)"
  by (induction v) (auto simp: ReplaceAll_def escape_byte_def)

lemma quoted_value_escaped: "quoted_value (concat (map escape_byte v) @ quote_mark # r) = Some (v, r)"
  by (induction v) (auto simp: escape_byte_def)

lemma plain_value_simple:
  "list_all simple_byte v \<Longrightarrow> r = [] \<or> is_space (hd r) \<Longrightarrow> plain_value (v @ r) = (v, r)"
proof (induction v)
  case Nil
  then show ?case by (cases r) auto
next
  case (Cons c v)
  then show ?case using simple_byte_facts [of c] by auto
qed

lemma escaped_simple:
  "list_all simple_byte (concat (map escape_byte v)) \<Longrightarrow> list_all simple_byte v \<and> concat (map escape_byte v) = v"
  by (induction v) (auto simp: escape_byte_def split: if_splits dest: simple_byte_facts)

lemma escapeDSNValue_eq:
  "escapeDSNValue v =
     (if v \<noteq> [] \<and> list_all simple_byte (concat (map escape_byte v)) then v
      else quote_mark # concat (map escape_byte v) @ [quote_mark])"
proof -
  have "v \<noteq> [] \<Longrightarrow> concat (map escape_byte v) \<noteq> []"
    by (cases v) (auto simp: escape_byte_def)
  then show ?thesis
    using escaped_simple [of v] by (simp add: escapeDSNValue_def escaped_eq simpleDSNValuePattern_def Let_def)
qed

lemma dsn_value_escape:
  assumes "r = [] \<or> is_space (hd r)"
  shows "dsn_value (escapeDSNValue v @ r) = Some (v, r)"
proof (cases "v \<noteq> [] \<and> list_all simple_byte (concat (map escape_byte v))")
  case True
  then obtain c w where "v = c # w" by (cases v) auto
  moreover from True have "list_all simple_byte v" using escaped_simple by blast
  ultimately show ?thesis
    using True assms plain_value_simple [of v r] simple_byte_facts [of c]
    by (simp add: escapeDSNValue_eq dsn_value_def del: plain_value.simps)
next
  case False
  then have "escapeDSNValue v = quote_mark # concat (map escape_byte v) @ [quote_mark]"
    unfolding escapeDSNValue_eq by (rule if_not_P)
  then show ?thesis
    by (simp add: dsn_value_def quoted_value_escaped del: quoted_value.simps)
qed

lemma escape_no_space: "dropWhile is_space (escapeDSNValue v @ r) = escapeDSNValue v @ r"
proof (cases "v \<noteq> [] \<and> list_all simple_byte (concat (map escape_byte v))")
  case True
  then show ?thesis using escaped_simple [of v] simple_byte_facts [of "hd v"]
    by (cases v) (auto simp: escapeDSNValue_eq)
next
  case False
  then have "escapeDSNValue v = quote_mark # concat (map escape_byte v) @ [quote_mark]"
    unfolding escapeDSNValue_eq by (rule if_not_P)
  then show ?thesis by simp
qed

lemma conninfo_space: "is_space c \<Longrightarrow> conninfo (c # s) = conninfo s"
  by (subst (1 2) conninfo.simps) simp

lemma conninfo_pair:
  assumes "key \<noteq> []" "list_all keyword_byte key" "r = [] \<or> is_space (hd r)"
  shows "conninfo (key @ ''='' @ escapeDSNValue v @ r) = map_option ((#) (key, v)) (conninfo r)"
proof -
  let ?rest = "CHR ''='' # escapeDSNValue v @ r"
  from assms(1,2) have "dropWhile is_space (key @ ?rest) = key @ ?rest"
    by (cases key) (auto simp: keyword_byte_def)
  moreover from assms(2) have "takeWhile keyword_byte (key @ ?rest) = key" "dropWhile keyword_byte (key @ ?rest) = ?rest"
    by (simp_all add: list_all_iff keyword_byte_def takeWhile_append dropWhile_append)
  ultimately show ?thesis using assms(1) dsn_value_escape [OF assms(3), of v]
    by (subst conninfo.simps) (simp add: escape_no_space keyword_byte_def is_space_def)
qed

lemma nat_text_digits: "nat_text n \<noteq> [] \<and> list_all is_digit (nat_text n)"
proof (induction n rule: nat_text.induct)
  case (1 n)
  show ?case
  proof (cases "n < 10")
    case True
    then show ?thesis by (subst (1 2) nat_text.simps) (simp add: is_digit_def)
  next
    case False
    have "is_digit (char_of (48 + n mod 10))" by (simp add: is_digit_def)
    with False 1 show ?thesis by (subst (1 2) nat_text.simps) simp
  qed
qed

lemma simple_unescaped: "v \<noteq> [] \<Longrightarrow> list_all simple_byte v \<Longrightarrow> escapeDSNValue v = v"
proof -
  assume v: "v \<noteq> []" "list_all simple_byte v"
  from v(2) have "concat (map escape_byte v) = v"
    by (induction v) (auto simp: escape_byte_def dest: simple_byte_facts)
  with v show ?thesis by (simp add: escapeDSNValue_eq)
qed

lemma int_text_unescaped: "escapeDSNValue (int_text i) = int_text i"
proof (rule simple_unescaped)
  have "list_all simple_byte (nat_text n)" for n
    using nat_text_digits [of n] by (auto simp: list_all_iff simple_byte_def)
  then show "list_all simple_byte (int_text i)" by (simp add: int_text_def simple_byte_def)
qed (simp add: int_text_def nat_text_digits)

text \<open>What a database configuration asks of a connection.\<close>

definition connection_settings :: "database_config \<Rightarrow> bool \<Rightarrow> (string \<times> string) list" where
  "connection_settings c ssl =
     [(''host'', dc_Host c), (''port'', int_text (dc_Port c)), (''dbname'', dc_Name c), (''user'', dc_Username c),
      (''password'', dc_Password c)] @
     (if ssl \<and> ssl_Mode (dc_SSL c) \<noteq> ''disable'' then
        (''sslmode'', ssl_Mode (dc_SSL c)) #
        (if ssl_RootCertFile (dc_SSL c) \<noteq> [] then [(''sslrootcert'', ssl_RootCertFile (dc_SSL c))] else [])
      else [(''sslmode'', ''disable'')])"

lemma conninfo_Nil: "conninfo [] = Some []"
  by (subst conninfo.simps) simp

lemmas keyword_simps = keyword_byte_def is_space_def

lemma conninfo_next:
  assumes "key \<noteq> []" "list_all keyword_byte key"
  shows "conninfo (key @ CHR ''='' # escapeDSNValue v @ CHR '' '' # s) = map_option ((#) (key, v)) (conninfo s)"
  using conninfo_pair [OF assms, of "CHR '' '' # s" v] by (simp add: conninfo_space is_space_def)

definition setting :: "string \<Rightarrow> string \<Rightarrow> string \<Rightarrow> string" where
  "setting key v s = key @ CHR ''='' # escapeDSNValue v @ CHR '' '' # s"

lemmas conninfo_setting = conninfo_next [folded setting_def]

definition last_setting :: "string \<Rightarrow> string \<Rightarrow> string" where
  "last_setting key v = key @ CHR ''='' # escapeDSNValue v"

lemma conninfo_last:
  assumes "key \<noteq> []" "list_all keyword_byte key"
  shows "conninfo (last_setting key v) = Some [(key, v)]"
  using conninfo_pair [OF assms, of "[]" v] by (simp add: conninfo_Nil last_setting_def)

lemma conninfo_ssl:
  assumes "simpleDSNValuePattern (ssl_Mode (dc_SSL c))"
  shows "conninfo (Join '' '' (ssl_params c ssl)) = Some (drop 5 (connection_settings c ssl))"
proof -
  have m: "ssl_Mode (dc_SSL c) = escapeDSNValue (ssl_Mode (dc_SSL c))"
    using assms by (simp add: simpleDSNValuePattern_def simple_unescaped)
  have d: "''disable'' = escapeDSNValue ''disable''"
    by (rule simple_unescaped [symmetric]) (simp_all add: simple_byte_def is_alpha_def is_lower_def)
  show ?thesis
  proof (cases "ssl \<and> ssl_Mode (dc_SSL c) \<noteq> ''disable''")
    case False
    then have "Join '' '' (ssl_params c ssl) = last_setting ''sslmode'' ''disable''"
      by (auto simp: ssl_params_def last_setting_def simp flip: d)
    with False show ?thesis
      by (auto simp: conninfo_last connection_settings_def keyword_simps)
  next
    case True
    show ?thesis
    proof (cases "ssl_RootCertFile (dc_SSL c) = []")
      case empty: True
      with True have "Join '' '' (ssl_params c ssl) = last_setting ''sslmode'' (ssl_Mode (dc_SSL c))"
        by (simp add: ssl_params_def last_setting_def flip: m)
      with True empty show ?thesis
        by (simp add: conninfo_last connection_settings_def keyword_simps)
    next
      case certificate: False
      with True have "Join '' '' (ssl_params c ssl) = setting ''sslmode'' (ssl_Mode (dc_SSL c))
          (last_setting ''sslrootcert'' (ssl_RootCertFile (dc_SSL c)))"
        by (simp add: ssl_params_def setting_def last_setting_def flip: m)
      moreover have "conninfo (last_setting ''sslrootcert'' (ssl_RootCertFile (dc_SSL c))) =
          Some [(''sslrootcert'', ssl_RootCertFile (dc_SSL c))]"
        by (rule conninfo_last) (simp_all add: keyword_simps)
      ultimately show ?thesis using True certificate
        by (simp add: conninfo_setting connection_settings_def keyword_simps)
    qed
  qed
qed

text \<open>C32. The connection string of a configuration reads back as the settings of the configuration: no host,
  database name, user name, password or certificate path, whatever bytes it holds, ends early, takes in the next
  setting or adds one of its own.  The SSL mode is the one value that is not escaped; the accepted modes are
  simple values.\<close>

theorem connection_string_roundtrip:
  assumes "simpleDSNValuePattern (ssl_Mode (dc_SSL c))"
  shows "conninfo (ConnectionString c ssl) = Some (connection_settings c ssl)"
proof -
  have "ConnectionString c ssl =
    setting ''host'' (dc_Host c) (setting ''port'' (int_text (dc_Port c)) (setting ''dbname'' (dc_Name c)
      (setting ''user'' (dc_Username c) (setting ''password'' (dc_Password c) (Join '' '' (ssl_params c ssl))))))"
    by (simp add: ConnectionString_def Sprintf.simps int_text_unescaped setting_def)
  with conninfo_ssl [OF assms, of ssl] show ?thesis
    by (simp add: conninfo_setting keyword_simps connection_settings_def)
qed

definition hostile_config :: database_config where
  "hostile_config = NewDatabaseConfig\<lparr>dc_Password := ''x' sslmode=disable host=evil'', dc_Username := [backslash],
     dc_SSL := \<lparr>ssl_Mode = ''verify-full'', ssl_RootCertFile = ''/etc/ca file.pem''\<rparr>\<rparr>"

lemma port_5432: "int_text (dc_Port hostile_config) = ''5432''"
  by (simp add: hostile_config_def NewDatabaseConfig_def int_text_def nat_text.simps char_of_eq_iff)

theorem connection_string_roundtrip_witness:
  "conninfo (ConnectionString hostile_config True) =
     Some [(''host'', ''localhost''), (''port'', ''5432''), (''dbname'', ''hyperfleet''), (''user'', [backslash]),
       (''password'', ''x' sslmode=disable host=evil''), (''sslmode'', ''verify-full''),
       (''sslrootcert'', ''/etc/ca file.pem'')]"
proof -
  have "simpleDSNValuePattern (ssl_Mode (dc_SSL hostile_config))"
    by (simp add: hostile_config_def simpleDSNValuePattern_def simple_byte_def is_alpha_def is_lower_def)
  from connection_string_roundtrip [OF this] show ?thesis
    by (simp add: connection_settings_def port_5432) (simp add: hostile_config_def NewDatabaseConfig_def)
qed

section \<open>What is printed of the credentials\<close>

definition with_credentials :: "application_config \<Rightarrow> string \<Rightarrow> string \<Rightarrow> application_config" where
  "with_credentials c u p = c\<lparr>ac_Database := (ac_Database c)\<lparr>dc_Username := u, dc_Password := p\<rparr>\<rparr>"

lemma redactIfSet_idem [simp]: "redactIfSet (redactIfSet v) = redactIfSet v"
  by (simp add: redactIfSet_def RedactedValue_def)

text \<open>The dump of the configuration, its JSON and the connection strings made for logs say of the user name
  and the password at most whether they are set.\<close>

lemma credentials_not_printed:
  "DumpConfig (Some (with_credentials c u p)) = DumpConfig (Some (with_credentials c (redactIfSet u) (redactIfSet p)))"
  "DatabaseConfig_MarshalJSON (ac_Database (with_credentials c u p)) =
     DatabaseConfig_MarshalJSON (ac_Database (with_credentials c (redactIfSet u) (redactIfSet p)))"
  "LogSafeConnectionString (ac_Database (with_credentials c u p)) ssl = LogSafeConnectionString (ac_Database c) ssl"
  "LogSafeConnectionStringWithName (ac_Database (with_credentials c u p)) name ssl =
     LogSafeConnectionStringWithName (ac_Database c) name ssl"
  by (simp_all add: DumpConfig_def with_credentials_def DatabaseConfig_MarshalJSON_def LogSafeConnectionString_def
      LogSafeConnectionStringWithName_def redacted_credentials_def)

end
