(* ===== verification/Config_Loader.thy ===== *)
theory Config_Loader
  imports Config
begin

text \<open>
  Loading the configuration (\<open>pkg/config/loader.go\<close>, \<open>flags.go\<close>, \<open>keys.go\<close>): which file is read, which keys
  are bound to environment variables and flags, and what a loaded configuration has passed.  Viper, the
  struct validator, the file system and the environment are arguments.
\<close>

section \<open>Surroundings\<close>

text \<open>One failed struct tag, with the text \<open>%v\<close> prints of the value.\<close>

record tag_failure =
  tf_Namespace :: string
  tf_Tag :: string
  tf_Param :: string
  tf_Value :: string

datatype struct_error = TagFailures "tag_failure list" | OtherStructError string

text \<open>A command line flag: its name, whether the command line sets it, and its text.\<close>

record cli_flag =
  cf_Name :: string
  cf_Changed :: bool
  cf_Value :: string

text \<open>What the loader has told viper: the file, whether it was read, the bound variables and flags.\<close>

record viper_state =
  vp_ConfigFile :: "string option"
  vp_FileRead :: bool
  vp_Env :: "(string \<times> string option) list"
  vp_Flags :: "(string \<times> string) list"

record surroundings =
  su_Getenv :: "string \<Rightarrow> string"
  su_Exists :: "string \<Rightarrow> bool"
  su_ReadFile :: read_file
  su_ReadInConfig :: "string \<Rightarrow> string option"
  su_UnmarshalExact :: "viper_state \<Rightarrow> application_config \<Rightarrow> string + application_config"
  su_IsSet :: "viper_state \<Rightarrow> string \<Rightarrow> bool"
  su_Struct :: "application_config \<Rightarrow> struct_error option"
  su_Library :: config_library

definition new_viper :: viper_state where
  "new_viper = \<lparr>vp_ConfigFile = None, vp_FileRead = False, vp_Env = [], vp_Flags = []\<rparr>"

definition Lookup :: "cli_flag list \<Rightarrow> string \<Rightarrow> cli_flag option" where
  "Lookup fs name = find_first (\<lambda>f. cf_Name f = name) fs"

definition Changed :: "cli_flag list \<Rightarrow> string \<Rightarrow> bool" where
  "Changed fs name = (case Lookup fs name of None \<Rightarrow> False | Some f \<Rightarrow> cf_Changed f)"

definition GetString :: "cli_flag list \<Rightarrow> string \<Rightarrow> string" where
  "GetString fs name = (case Lookup fs name of None \<Rightarrow> [] | Some f \<Rightarrow> cf_Value f)"

section \<open>Flags (\<open>flags.go\<close>)\<close>

definition flag :: "string \<Rightarrow> string \<Rightarrow> cli_flag" where
  "flag name value = \<lparr>cf_Name = name, cf_Changed = False, cf_Value = value\<rparr>"

definition AddConfigFlag :: "cli_flag list" where
  "AddConfigFlag = [flag ''config'' []]"

definition AddServerFlags :: "cli_flag list" where
  "AddServerFlags = (let d = NewServerConfig in [
     flag ''server-hostname'' (sc_Hostname d), flag ''server-host'' (sc_Host d), flag ''server-port'' (int_text (sc_Port d)),
     flag ''server-openapi-schema-path'' (sc_OpenAPISchemaPath d),
     flag ''server-read-timeout'' (Duration_String (to_Read (sc_Timeouts d))),
     flag ''server-write-timeout'' (Duration_String (to_Write (sc_Timeouts d))),
     flag ''server-https-cert-file'' (tls_CertFile (sc_TLS d)), flag ''server-https-key-file'' (tls_KeyFile (sc_TLS d)),
     flag ''server-https-enabled'' (bool_text (tls_Enabled (sc_TLS d))),
     flag ''server-jwt-enabled'' (bool_text (jc_Enabled (sc_JWT d))),
     flag ''server-tenant-enabled'' (bool_text (tc_Enabled (sc_Tenant d))),
     flag ''server-tenant-system-header'' (tc_SystemHeader (sc_Tenant d))])"

definition AddDatabaseFlags :: "cli_flag list" where
  "AddDatabaseFlags = (let d = NewDatabaseConfig in [
     flag ''db-host'' [], flag ''db-port'' ''0'', flag ''db-username'' [], flag ''db-password'' [], flag ''db-name'' [],
     flag ''db-dialect'' (dc_Dialect d), flag ''db-ssl-mode'' (ssl_Mode (dc_SSL d)), flag ''db-debug'' (bool_text (dc_Debug d)),
     flag ''db-max-open-connections'' (int_text (pc_MaxConnections (dc_Pool d))),
     flag ''db-root-cert-file'' (ssl_RootCertFile (dc_SSL d))])"

definition AddLoggingFlags :: "cli_flag list" where
  "AddLoggingFlags = (let d = NewLoggingConfig in [
     flag ''log-level'' (lc_Level d), flag ''log-format'' (lc_Format d), flag ''log-output'' (lc_Output d),
     flag ''log-masking-enabled'' (bool_text (mc_Enabled (lc_Masking d))),
     flag ''log-masking-sensitive-headers'' (GetSensitiveHeadersString d),
     flag ''log-masking-sensitive-fields'' (GetSensitiveFieldsString d)])"

definition AddMetricsFlags :: "cli_flag list" where
  "AddMetricsFlags = (let d = NewMetricsConfig in [
     flag ''metrics-host'' (me_Host d), flag ''metrics-port'' (int_text (me_Port d)),
     flag ''metrics-tls-enabled'' (bool_text (tls_Enabled (me_TLS d))),
     flag ''metrics-tls-cert-file'' (tls_CertFile (me_TLS d)), flag ''metrics-tls-key-file'' (tls_KeyFile (me_TLS d)),
     flag ''metrics-label-metrics-inclusion-duration'' (Duration_String (me_LabelMetricsInclusionDuration d)),
     flag ''metrics-reconciliation-stuck-threshold'' (Duration_String (me_ReconciliationStuckThreshold d))])"

definition AddHealthFlags :: "cli_flag list" where
  "AddHealthFlags = (let d = NewHealthConfig in [
     flag ''health-host'' (hc_Host d), flag ''health-port'' (int_text (hc_Port d)),
     flag ''health-tls-enabled'' (bool_text (tls_Enabled (hc_TLS d))),
     flag ''health-tls-cert-file'' (tls_CertFile (hc_TLS d)), flag ''health-tls-key-file'' (tls_KeyFile (hc_TLS d)),
     flag ''health-shutdown-timeout'' (Duration_String (hc_ShutdownTimeout d)),
     flag ''health-db-ping-timeout'' (Duration_String (hc_DBPingTimeout d))])"

definition AddAllConfigFlags :: "cli_flag list" where
  "AddAllConfigFlags = AddConfigFlag @ AddServerFlags @ AddDatabaseFlags @ AddLoggingFlags @ AddMetricsFlags @ AddHealthFlags"

section \<open>The configuration file\<close>

definition prodPath :: string where "prodPath = ''/etc/hyperfleet/config.yaml''"
definition devPath :: string where "devPath = ''./configs/config.yaml''"

text \<open>The path, and whether it was named explicitly.\<close>

definition config_path :: "surroundings \<Rightarrow> cli_flag list \<Rightarrow> string \<times> bool" where
  "config_path su fs =
     (let (configPath, explicitPath) =
            (if Changed fs ''config'' then (GetString fs ''config'', True) else ([], False));
          (configPath, explicitPath) =
            (if configPath = [] \<and> su_Getenv su ''HYPERFLEET_CONFIG'' \<noteq> []
             then (su_Getenv su ''HYPERFLEET_CONFIG'', True) else (configPath, explicitPath))
      in if configPath \<noteq> [] then (configPath, explicitPath)
         else if su_Exists su prodPath then (prodPath, explicitPath)
         else if su_Exists su devPath then (devPath, explicitPath)
         else ([], explicitPath))"

definition resolveAndReadConfigFile :: "surroundings \<Rightarrow> cli_flag list \<Rightarrow> viper_state \<Rightarrow> string + viper_state" where
  "resolveAndReadConfigFile su fs vp =
     (let (configPath, explicitPath) = config_path su fs in
      if configPath = [] then Inr vp
      else if explicitPath \<and> \<not> su_Exists su configPath then
        Inl (Sprintf ''explicitly specified config file not found: %s'' [FS configPath])
      else
        let vp = vp\<lparr>vp_ConfigFile := Some configPath\<rparr> in
        case su_ReadInConfig su configPath of
          Some err \<Rightarrow>
            if explicitPath then Inl (Sprintf ''failed to read config file %s: %w'' [FS configPath, FS err])
            else Inr vp
        | None \<Rightarrow> Inr (vp\<lparr>vp_FileRead := True\<rparr>))"

section \<open>Bound keys\<close>

definition env_keys :: "string list" where
  "env_keys = [
     ''server.hostname'', ''server.host'', ''server.port'', ''server.openapi_schema_path'', ''server.timeouts.read'',
     ''server.timeouts.write'', ''server.tls.enabled'', ''server.tls.cert_file'', ''server.tls.key_file'',
     ''server.jwt.enabled'', ''server.tenant.enabled'', ''server.tenant.claims_enabled'', ''server.tenant.system_header'',
     ''database.dialect'', ''database.host'', ''database.host_file'', ''database.port'', ''database.port_file'',
     ''database.name'', ''database.name_file'', ''database.username'', ''database.username_file'', ''database.password'',
     ''database.password_file'', ''database.debug'', ''database.ssl.mode'', ''database.ssl.root_cert_file'',
     ''database.pool.max_connections'', ''database.pool.max_idle_connections'', ''database.pool.conn_max_lifetime'',
     ''database.pool.conn_max_idle_time'', ''database.pool.request_timeout'', ''database.pool.conn_retry_attempts'',
     ''database.pool.conn_retry_interval'',
     ''logging.level'', ''logging.format'', ''logging.output'', ''logging.masking.enabled'', ''logging.masking.headers'',
     ''logging.masking.fields'', ''logging.otel.enabled'',
     ''metrics.host'', ''metrics.port'', ''metrics.tls.enabled'', ''metrics.tls.cert_file'', ''metrics.tls.key_file'',
     ''metrics.label_metrics_inclusion_duration'', ''metrics.reconciliation_stuck_threshold'',
     ''health.host'', ''health.port'', ''health.tls.enabled'', ''health.tls.cert_file'', ''health.tls.key_file'',
     ''health.shutdown_timeout'', ''health.db_ping_timeout'',
     ''tracing.enabled'', ''tracing.service_name'']"

text \<open>\<open>BindEnv\<close> with a key alone takes the prefixed variable; the last binding names a variable.\<close>

definition bindAllEnvVars :: "viper_state \<Rightarrow> viper_state" where
  "bindAllEnvVars vp = vp\<lparr>vp_Env := vp_Env vp @ map (\<lambda>k. (k, None)) env_keys @
     [(''tracing.service_name'', Some ''OTEL_SERVICE_NAME'')]\<rparr>"

definition flag_keys :: "(string \<times> string) list" where
  "flag_keys = [
     (''server.hostname'', ''server-hostname''), (''server.host'', ''server-host''), (''server.port'', ''server-port''),
     (''server.openapi_schema_path'', ''server-openapi-schema-path''), (''server.timeouts.read'', ''server-read-timeout''),
     (''server.timeouts.write'', ''server-write-timeout''), (''server.tls.cert_file'', ''server-https-cert-file''),
     (''server.tls.key_file'', ''server-https-key-file''), (''server.tls.enabled'', ''server-https-enabled''),
     (''server.jwt.enabled'', ''server-jwt-enabled''), (''server.tenant.enabled'', ''server-tenant-enabled''),
     (''server.tenant.system_header'', ''server-tenant-system-header''),
     (''database.host'', ''db-host''), (''database.port'', ''db-port''), (''database.username'', ''db-username''),
     (''database.password'', ''db-password''), (''database.name'', ''db-name''), (''database.dialect'', ''db-dialect''),
     (''database.ssl.mode'', ''db-ssl-mode''), (''database.debug'', ''db-debug''),
     (''database.pool.max_connections'', ''db-max-open-connections''),
     (''database.ssl.root_cert_file'', ''db-root-cert-file''),
     (''logging.level'', ''log-level''), (''logging.format'', ''log-format''), (''logging.output'', ''log-output''),
     (''logging.masking.enabled'', ''log-masking-enabled''), (''logging.masking.headers'', ''log-masking-sensitive-headers''),
     (''logging.masking.fields'', ''log-masking-sensitive-fields''),
     (''metrics.host'', ''metrics-host''), (''metrics.port'', ''metrics-port''), (''metrics.tls.enabled'', ''metrics-tls-enabled''),
     (''metrics.tls.cert_file'', ''metrics-tls-cert-file''), (''metrics.tls.key_file'', ''metrics-tls-key-file''),
     (''metrics.label_metrics_inclusion_duration'', ''metrics-label-metrics-inclusion-duration''),
     (''metrics.reconciliation_stuck_threshold'', ''metrics-reconciliation-stuck-threshold''),
     (''health.host'', ''health-host''), (''health.port'', ''health-port''), (''health.tls.enabled'', ''health-tls-enabled''),
     (''health.tls.cert_file'', ''health-tls-cert-file''), (''health.tls.key_file'', ''health-tls-key-file''),
     (''health.shutdown_timeout'', ''health-shutdown-timeout''), (''health.db_ping_timeout'', ''health-db-ping-timeout'')]"

text \<open>A flag the command does not define is not bound.\<close>

definition bindPFlag :: "cli_flag list \<Rightarrow> viper_state \<Rightarrow> string \<times> string \<Rightarrow> viper_state" where
  "bindPFlag fs vp kf =
     (case Lookup fs (snd kf) of
        None \<Rightarrow> vp
      | Some f \<Rightarrow> vp\<lparr>vp_Flags := vp_Flags vp @ [(fst kf, cf_Name f)]\<rparr>)"

definition bindFlags :: "cli_flag list \<Rightarrow> viper_state \<Rightarrow> viper_state" where
  "bindFlags fs vp = foldl (bindPFlag fs) vp flag_keys"

text \<open>The tracked keys; the named variable is bound without being tracked.\<close>

definition explicitlyBoundKeys :: "viper_state \<Rightarrow> string list" where
  "explicitlyBoundKeys vp = map fst (filter (\<lambda>b. snd b = None) (vp_Env vp)) @ map fst (vp_Flags vp)"

section \<open>Valid keys\<close>

text \<open>A type as reflection shows it: a struct with the fields' export flag, \<open>mapstructure\<close> tag and type.\<close>

datatype go_type = TLeaf | TPtr go_type | TStruct "(bool \<times> string \<times> go_type) list"

definition elem_type :: "go_type \<Rightarrow> go_type" where
  "elem_type t = (case t of TPtr u \<Rightarrow> u | _ \<Rightarrow> t)"

lemma size_elem_type: "size (elem_type t) \<le> size t"
  by (cases t) (auto simp: elem_type_def)

lemma size_field: "f \<in> set fs \<Longrightarrow> size (snd (snd f)) < size (TStruct fs)"
proof (induction fs)
  case (Cons g fs)
  then show ?case by (cases g) auto
qed simp

function collectValidConfigKeys :: "go_type \<Rightarrow> string \<Rightarrow> string list" where
  "collectValidConfigKeys t prefx =
     (case elem_type t of
        TStruct fs \<Rightarrow>
          concat (map (\<lambda>f.
            let tag = fst (snd f); fullKey = (if prefx = [] then tag else prefx @ ''.'' @ tag) in
            if \<not> fst f \<or> tag = [] \<or> tag = ''-'' then []
            else case elem_type (snd (snd f)) of
                   TStruct _ \<Rightarrow> collectValidConfigKeys (elem_type (snd (snd f))) fullKey
                 | _ \<Rightarrow> [fullKey]) fs)
      | _ \<Rightarrow> [])"
  by pat_completeness auto
termination
proof (relation "measure (size \<circ> fst)", goal_cases)
  case (2 t prefx fs f x1 xa x)
  have "size (elem_type (snd (snd f))) < size (TStruct fs)"
    using size_elem_type [of "snd (snd f)"] size_field [OF 2(2)] by simp
  also have "\<dots> \<le> size t" using size_elem_type [of t] 2(1) by simp
  finally show ?case by simp
qed simp

declare collectValidConfigKeys.simps [simp del]

text \<open>The types of the sections, field by field.\<close>

definition leaf :: "string \<Rightarrow> bool \<times> string \<times> go_type" where "leaf tag = (True, tag, TLeaf)"

definition tls_type :: go_type where
  "tls_type = TStruct [leaf ''cert_file'', leaf ''key_file'', leaf ''enabled'']"

definition server_type :: go_type where
  "server_type = TStruct [leaf ''hostname'', leaf ''host'', leaf ''openapi_schema_path'', (True, ''tls'', tls_type),
     (True, ''jwt'', TStruct [leaf ''configs'', leaf ''enabled'']),
     (True, ''tenant'', TStruct [leaf ''system_header'', leaf ''dimensions'', leaf ''enabled'', leaf ''claims_enabled'']),
     (True, ''timeouts'', TStruct [leaf ''read'', leaf ''write'']), leaf ''port'']"

definition metrics_type :: go_type where
  "metrics_type = TStruct [leaf ''host'', (True, ''tls'', tls_type), leaf ''port'',
     leaf ''label_metrics_inclusion_duration'', leaf ''reconciliation_stuck_threshold'']"

definition health_type :: go_type where
  "health_type = TStruct [leaf ''host'', (True, ''tls'', tls_type), leaf ''port'', leaf ''shutdown_timeout'',
     leaf ''db_ping_timeout'']"

definition database_type :: go_type where
  "database_type = TStruct [leaf ''dialect'', leaf ''host'', leaf ''host_file'', leaf ''name'', leaf ''name_file'',
     leaf ''username'', leaf ''username_file'', leaf ''password'', leaf ''password_file'', leaf ''port_file'',
     (True, ''ssl'', TStruct [leaf ''mode'', leaf ''root_cert_file'']),
     (True, ''pool'', TStruct [leaf ''max_connections'', leaf ''max_idle_connections'', leaf ''conn_max_lifetime'',
        leaf ''conn_max_idle_time'', leaf ''request_timeout'', leaf ''conn_retry_attempts'', leaf ''conn_retry_interval'',
        leaf ''advisory_lock_timeout'']),
     leaf ''port'', leaf ''debug'']"

definition logging_type :: go_type where
  "logging_type = TStruct [leaf ''level'', leaf ''format'', leaf ''output'',
     (True, ''masking'', TStruct [leaf ''headers'', leaf ''fields'', leaf ''enabled'']),
     (True, ''otel'', TStruct [leaf ''enabled''])]"

definition ApplicationConfig_type :: go_type where
  "ApplicationConfig_type = TStruct [
     (True, ''server'', TPtr server_type), (True, ''metrics'', TPtr metrics_type), (True, ''health'', TPtr health_type),
     (True, ''database'', TPtr database_type), (True, ''logging'', TPtr logging_type),
     (True, ''tracing'', TPtr (TStruct [leaf ''service_name'', leaf ''enabled''])), leaf ''entities'']"

text \<open>The source collects the keys from a map, in any order; here they come in the order of binding.\<close>

definition validateBoundKeys :: "viper_state \<Rightarrow> string option" where
  "validateBoundKeys vp =
     (let validKeys = collectValidConfigKeys ApplicationConfig_type [];
          invalidKeys = filter (\<lambda>k. \<not> List.member validKeys k) (explicitlyBoundKeys vp)
      in if length invalidKeys > 0 then
           Some (Sprintf ''configuration binding error: the following keys do not match any struct fields: %v''
             [FS (list_text invalidKeys)] @ newline @
             ''This usually indicates a typo in bindAllEnvVars() or bindFlags()'')
         else None)"

section \<open>Validation\<close>

definition ToUpper :: "string \<Rightarrow> string" where "ToUpper s = map to_upper s"

definition bullet :: string where
  "bullet = newline @ ''      '' @ map char_of [226, 128, 162 :: nat] @ '' ''"

definition viperKeyToFlag :: "viper_state \<Rightarrow> string \<Rightarrow> string" where
  "viperKeyToFlag vp key = (case map_of (rev (vp_Flags vp)) key of None \<Rightarrow> [] | Some n \<Rightarrow> n)"

definition tag_message :: "viper_state \<Rightarrow> tag_failure \<Rightarrow> string" where
  "tag_message vp fe =
     (let fieldPath = tf_Namespace fe;
          viperPath = ToLower (CutPrefix fieldPath ''ApplicationConfig.'');
          flagName = viperKeyToFlag vp viperPath;
          flagName = (if flagName = [] then ReplaceAll viperPath CHR ''.'' ''-'' else flagName)
      in ''  - Field '' @ [quote_mark] @ fieldPath @ [quote_mark] @ '' failed validation: '' @ tf_Tag fe @
         (if tf_Param fe \<noteq> [] then '' (parameter: '' @ tf_Param fe @ '')'' else []) @
         newline @ ''    Value: '' @ tf_Value fe @
         newline @ ''    Please provide valid value via:'' @
         bullet @ ''Config file: '' @ viperPath @
         bullet @ ''Environment variable: HYPERFLEET_'' @ ToUpper (ReplaceAll viperPath CHR ''.'' ''_'') @
         bullet @ ''CLI flag: --'' @ flagName)"

text \<open>\<open>if valErr := check; valErr != nil \<lbrace> return wrapped \<rbrace>\<close>\<close>

definition check :: "string \<Rightarrow> string option \<Rightarrow> 'a \<Rightarrow> string + 'a" where
  "check msg c x = (case c of Some err \<Rightarrow> Inl (Sprintf msg [FS err]) | None \<Rightarrow> Inr x)"

definition claims_without_jwt :: "server_config \<Rightarrow> bool" where
  "claims_without_jwt s \<longleftrightarrow> tc_Enabled (sc_Tenant s) \<and> tc_ClaimsEnabled (sc_Tenant s) \<and> \<not> jc_Enabled (sc_JWT s)"

definition validate_server :: "config_library \<Rightarrow> server_config \<Rightarrow> string + server_config" where
  "validate_server lib s =
     and_then (check ''server timeouts validation failed: %w'' (TimeoutsConfig_Validate (sc_Timeouts s)) s) (\<lambda>s.
     and_then (check ''server TLS validation failed: %w'' (TLSConfig_Validate (sc_TLS s)) s) (\<lambda>s.
     and_then (case JWTConfig_Validate lib (ApplyDefaults (sc_JWT s)) of
         Inl err \<Rightarrow> Inl (Sprintf ''server JWT validation failed: %w'' [FS err])
       | Inr j \<Rightarrow> Inr (s\<lparr>sc_JWT := j\<rparr>)) (\<lambda>s.
     and_then (if claims_without_jwt s then
         Inl ''server tenant validation failed: server.tenant.claims_enabled requires server.jwt.enabled''
       else Inr s) (\<lambda>s.
     check ''server tenant validation failed: %w'' (TenantConfig_Validate (sc_Tenant s)) s))))"

definition validate_rest :: "application_config \<Rightarrow> string + application_config" where
  "validate_rest c =
     and_then (check ''health config validation failed: %w'' (HealthConfig_Validate (ac_Health c)) c) (\<lambda>c.
     and_then (check ''health TLS validation failed: %w'' (TLSConfig_Validate (hc_TLS (ac_Health c))) c) (\<lambda>c.
     and_then (check ''metrics TLS validation failed: %w'' (TLSConfig_Validate (me_TLS (ac_Metrics c))) c) (\<lambda>c.
     and_then (check ''metrics config validation failed: %w'' (MetricsConfig_Validate (ac_Metrics c)) c) (\<lambda>c.
     check ''tracing config validation failed: %w'' (TracingConfig_Validate (ac_Tracing c)) c))))"

definition validateConfig :: "surroundings \<Rightarrow> viper_state \<Rightarrow> application_config \<Rightarrow> string + application_config" where
  "validateConfig su vp c =
     (case su_Struct su c of
        None \<Rightarrow>
          and_then (validate_server (su_Library su) (ac_Server c)) (\<lambda>s. validate_rest (c\<lparr>ac_Server := s\<rparr>))
      | Some (OtherStructError err) \<Rightarrow> Inl (Sprintf ''configuration validation failed: %w'' [FS err])
      | Some (TagFailures fes) \<Rightarrow>
          Inl (Join newline (''Configuration validation failed:'' # map (tag_message vp) fes)))"

section \<open>Deprecated settings and precedence\<close>

definition propagateTLS :: "server_config \<Rightarrow> tls_config \<Rightarrow> tls_config" where
  "propagateTLS s t =
     (if tls_Enabled t \<and> tls_CertFile t = [] \<and> tls_KeyFile t = [] then
        t\<lparr>tls_CertFile := tls_CertFile (sc_TLS s), tls_KeyFile := tls_KeyFile (sc_TLS s)\<rparr>
      else t)"

definition migrateDeprecatedConfig :: "surroundings \<Rightarrow> viper_state \<Rightarrow> application_config \<Rightarrow> application_config" where
  "migrateDeprecatedConfig su vp c =
     (let c = c\<lparr>ac_Health := (ac_Health c)\<lparr>hc_TLS := propagateTLS (ac_Server c) (hc_TLS (ac_Health c))\<rparr>\<rparr>;
          c = c\<lparr>ac_Metrics := (ac_Metrics c)\<lparr>me_TLS := propagateTLS (ac_Server c) (me_TLS (ac_Metrics c))\<rparr>\<rparr>
      in if su_IsSet su vp ''logging.otel.enabled'' \<and> \<not> su_IsSet su vp ''tracing.enabled'' then
           c\<lparr>ac_Tracing := (ac_Tracing c)\<lparr>tr_Enabled := lc_OTel_Enabled (ac_Logging c)\<rparr>\<rparr>
         else c)"

definition suppressFlagOverriddenDatabaseFileFields :: "cli_flag list \<Rightarrow> database_config \<Rightarrow> database_config" where
  "suppressFlagOverriddenDatabaseFileFields fs d =
     d\<lparr>dc_HostFile := (if Changed fs ''db-host'' then [] else dc_HostFile d),
       dc_PortFile := (if Changed fs ''db-port'' then [] else dc_PortFile d),
       dc_NameFile := (if Changed fs ''db-name'' then [] else dc_NameFile d),
       dc_UsernameFile := (if Changed fs ''db-username'' then [] else dc_UsernameFile d),
       dc_PasswordFile := (if Changed fs ''db-password'' then [] else dc_PasswordFile d)\<rparr>"

section \<open>Load\<close>

definition wrap_error :: "string \<Rightarrow> string + 'a \<Rightarrow> string + 'a" where
  "wrap_error msg r = map_sum (\<lambda>err. Sprintf msg [FS err]) id r"

definition unmarshal_hint :: string where
  "unmarshal_hint = newline @ ''This usually means unknown/misspelled fields in config file''"

definition Load :: "surroundings \<Rightarrow> cli_flag list \<Rightarrow> string + application_config" where
  "Load su fs =
     and_then (wrap_error ''failed to read config file: %w'' (resolveAndReadConfigFile su fs new_viper)) (\<lambda>vp.
       let vp = bindFlags fs (bindAllEnvVars vp) in
       case validateBoundKeys vp of
         Some err \<Rightarrow> Inl err
       | None \<Rightarrow>
           and_then (map_sum (\<lambda>err. Sprintf ''configuration unmarshal failed: %w'' [FS err] @ unmarshal_hint) id
             (su_UnmarshalExact su vp NewApplicationConfig)) (\<lambda>c.
           let c = migrateDeprecatedConfig su vp c;
               d = suppressFlagOverriddenDatabaseFileFields fs (ac_Database c) in
           and_then (wrap_error ''database config file resolution failed: %w'' (ResolveFileOverrides (su_ReadFile su) d)) (\<lambda>d.
           validateConfig su vp (c\<lparr>ac_Database := d\<rparr>))))"

section \<open>Bound keys are keys\<close>

text \<open>Every key the loader binds names a field of the configuration, so the check of the bound keys passes
  whatever flags the command defines.\<close>

lemma bound_keys_listed:
  "list_all (List.member (collectValidConfigKeys ApplicationConfig_type [])) (env_keys @ map fst flag_keys)"
  by code_simp

text \<open>Every flag the serve command defines, other than the one that names the file, is bound to a key, and every flag
  that is bound is defined.\<close>

lemma flag_names:
  "map cf_Name AddAllConfigFlags = ''config'' # map cf_Name (AddServerFlags @ AddDatabaseFlags @ AddLoggingFlags @ AddMetricsFlags @ AddHealthFlags)"
  by (simp add: AddAllConfigFlags_def AddConfigFlag_def flag_def)

lemma flags_bound:
  "set (map snd flag_keys) = set (map cf_Name AddAllConfigFlags) - {''config''}"
proof -
  have "set (map snd flag_keys) =
      set (map cf_Name (AddServerFlags @ AddDatabaseFlags @ AddLoggingFlags @ AddMetricsFlags @ AddHealthFlags))"
    unfolding flag_keys_def AddServerFlags_def AddDatabaseFlags_def AddLoggingFlags_def AddMetricsFlags_def AddHealthFlags_def
      Let_def flag_def by (simp only: list.map append.simps cli_flag.simps snd_conv list.set insert_commute)
  moreover have "''config'' \<notin> set (map snd flag_keys)" by code_simp
  ultimately show ?thesis unfolding flag_names by auto
qed

lemma bindFlags_bound:
  "vp_Env (foldl (bindPFlag fs) vp kfs) = vp_Env vp \<and>
     set (vp_Flags (foldl (bindPFlag fs) vp kfs)) \<subseteq> set (vp_Flags vp) \<union> {(k, n). k \<in> fst ` set kfs}"
proof (induction kfs arbitrary: vp)
  case (Cons kf kfs)
  from Cons [of "bindPFlag fs vp kf"] show ?case
    by (auto simp: bindPFlag_def split: option.splits)
qed simp

lemma filter_named [simp]:
  "map fst (filter (\<lambda>b. snd b = None) (map (\<lambda>k. (k, None)) ks @ [(k', Some n)])) = ks"
  by (induction ks) auto

lemma validateBoundKeys_passes:
  assumes "vp_Env vp = []" "vp_Flags vp = []"
  shows "validateBoundKeys (bindFlags fs (bindAllEnvVars vp)) = None"
proof -
  let ?vp = "bindFlags fs (bindAllEnvVars vp)"
  have "set (explicitlyBoundKeys ?vp) \<subseteq> set (env_keys @ map fst flag_keys)"
    using bindFlags_bound [of fs "bindAllEnvVars vp" flag_keys] assms
    by (auto simp: bindFlags_def explicitlyBoundKeys_def bindAllEnvVars_def)
  with bound_keys_listed have "filter (\<lambda>k. \<not> List.member (collectValidConfigKeys ApplicationConfig_type []) k) (explicitlyBoundKeys ?vp) = []"
    unfolding list_all_iff by (intro filter_False) blast
  then show ?thesis by (simp add: validateBoundKeys_def Let_def)
qed

section \<open>A loaded configuration is safe\<close>

definition secure_url :: "config_library \<Rightarrow> string \<Rightarrow> bool" where
  "secure_url lib raw \<longleftrightarrow>
     (case cl_Parse lib raw of
        Inl err \<Rightarrow> False
      | Inr u \<Rightarrow> (u_Scheme u = ''https'' \<and> u_Host u \<noteq> []) \<or>
          (u_Scheme u = ''http'' \<and> u_Hostname u \<in> {''localhost'', ''127.0.0.1'', ''::1''}))"

lemma requireHTTPSURL_None: "requireHTTPSURL lib raw = None \<longleftrightarrow> secure_url lib raw"
  by (auto simp: requireHTTPSURL_def secure_url_def split: sum.splits)

definition safe_issuer :: "config_library \<Rightarrow> jwt_issuer_config \<Rightarrow> bool" where
  "safe_issuer lib c \<longleftrightarrow>
     secure_url lib (ji_IssuerURL c) \<and>
     (ji_JWKCertURL c \<noteq> [] \<or> ji_JWKCertFile c \<noteq> []) \<and>
     (ji_JWKCertURL c \<noteq> [] \<longrightarrow> secure_url lib (ji_JWKCertURL c)) \<and>
     ji_Header c \<noteq> [] \<and> \<not> IsForbiddenJWTSourceHeaderName (ji_Header c) \<and>
     (ji_IdentityHeader c \<noteq> [] \<longrightarrow>
        \<not> IsForbiddenIdentityHeaderName (ji_IdentityHeader c) \<and> \<not> EqualFold (ji_Header c) (ji_IdentityHeader c)) \<and>
     ji_IdentityClaim c \<noteq> [] \<and>
     (ji_IdentityClaimPattern c \<noteq> [] \<longrightarrow>
        (\<exists>re. cl_Compile lib (ji_IdentityClaimPattern c) = Inr re \<and> ji_CompiledPattern c = Some re))"

definition tls_complete :: "tls_config \<Rightarrow> bool" where
  "tls_complete t \<longleftrightarrow> tls_Enabled t \<longrightarrow> tls_CertFile t \<noteq> [] \<and> tls_KeyFile t \<noteq> []"

definition safe_server :: "config_library \<Rightarrow> server_config \<Rightarrow> bool" where
  "safe_server lib s \<longleftrightarrow>
     Second \<le> to_Read (sc_Timeouts s) \<and> Second \<le> to_Write (sc_Timeouts s) \<and> tls_complete (sc_TLS s) \<and>
     (jc_Enabled (sc_JWT s) \<longrightarrow> jc_Configs (sc_JWT s) \<noteq> [] \<and> (\<forall>c \<in> set (jc_Configs (sc_JWT s)). safe_issuer lib c)) \<and>
     (tc_Enabled (sc_Tenant s) \<and> tc_ClaimsEnabled (sc_Tenant s) \<longrightarrow> jc_Enabled (sc_JWT s)) \<and>
     TenantConfig_Validate (sc_Tenant s) = None"

definition safe_configuration :: "config_library \<Rightarrow> application_config \<Rightarrow> bool" where
  "safe_configuration lib c \<longleftrightarrow>
     safe_server lib (ac_Server c) \<and>
     Second \<le> hc_ShutdownTimeout (ac_Health c) \<and> hc_ShutdownTimeout (ac_Health c) \<le> 120 * Second \<and>
     tls_complete (hc_TLS (ac_Health c)) \<and> tls_complete (me_TLS (ac_Metrics c)) \<and>
     0 < me_ReconciliationStuckThreshold (ac_Metrics c) \<and>
     (tr_Enabled (ac_Tracing c) \<longrightarrow> tr_ServiceName (ac_Tracing c) \<noteq> [])"

lemma and_then_Inr [simp]: "and_then m k = Inr y \<longleftrightarrow> (\<exists>x. m = Inr x \<and> k x = Inr y)"
  by (auto simp: and_then_def split: sum.splits)

lemma check_Inr [simp]: "check msg c x = Inr y \<longleftrightarrow> c = None \<and> x = y"
  by (auto simp: check_def split: option.splits)

lemma wrap_error_Inr [simp]: "wrap_error msg r = Inr y \<longleftrightarrow> r = Inr y"
  by (cases r) (auto simp: wrap_error_def)

lemma map_sum_Inr [simp]: "map_sum f g r = Inr y \<longleftrightarrow> (\<exists>x. r = Inr x \<and> y = g x)"
  by (cases r) auto

lemma TLSConfig_Validate_None: "TLSConfig_Validate t = None \<longleftrightarrow> tls_complete t"
  by (auto simp: TLSConfig_Validate_def tls_complete_def)

lemma issuer_errors_None:
  assumes "issuer_url_error lib i c = None" "issuer_header_error i c = None" "ji_Header c \<noteq> []" "ji_IdentityClaim c \<noteq> []"
    "ji_IdentityClaimPattern c \<noteq> [] \<Longrightarrow> \<exists>re. cl_Compile lib (ji_IdentityClaimPattern c) = Inr re \<and> ji_CompiledPattern c = Some re"
  shows "safe_issuer lib c"
  using assms
  by (auto simp: issuer_url_error_def issuer_header_error_def safe_issuer_def requireHTTPSURL_None split: if_splits option.splits)

lemma issuer_errors_pattern [simp]:
  "issuer_url_error lib i (c\<lparr>ji_CompiledPattern := r\<rparr>) = issuer_url_error lib i c"
  "issuer_header_error i (c\<lparr>ji_CompiledPattern := r\<rparr>) = issuer_header_error i c"
  by (simp_all add: issuer_url_error_def issuer_header_error_def cong: option.case_cong)

lemma validate_issuer_safe:
  assumes "validate_issuer lib i c = Inr c'" "ji_Header c \<noteq> []" "ji_IdentityClaim c \<noteq> []"
  shows "safe_issuer lib c'"
proof (rule issuer_errors_None)
  have c': "c' = c \<and> ji_IdentityClaimPattern c = [] \<or>
      (\<exists>re. cl_Compile lib (ji_IdentityClaimPattern c) = Inr re \<and> c' = c\<lparr>ji_CompiledPattern := Some re\<rparr>)"
    and errors: "issuer_url_error lib i c = None" "issuer_header_error i c = None"
    using assms(1) by (auto simp: validate_issuer_def split: option.splits if_splits sum.splits)
  from c' errors show "issuer_url_error lib i c' = None" "issuer_header_error i c' = None" by auto
  from c' assms(2,3) show "ji_Header c' \<noteq> []" "ji_IdentityClaim c' \<noteq> []" by auto
  show "\<exists>re. cl_Compile lib (ji_IdentityClaimPattern c') = Inr re \<and> ji_CompiledPattern c' = Some re"
    if "ji_IdentityClaimPattern c' \<noteq> []" using c' that by auto
qed

lemma validate_issuers_safe:
  assumes "validate_issuers lib i cs = Inr cs'" "\<forall>c\<in>set cs. ji_Header c \<noteq> [] \<and> ji_IdentityClaim c \<noteq> []"
  shows "length cs' = length cs \<and> (\<forall>c\<in>set cs'. safe_issuer lib c)"
  using assms
proof (induction cs arbitrary: i cs')
  case (Cons c cs)
  from Cons.prems(1) obtain c' rest where "validate_issuer lib i c = Inr c'"
    "validate_issuers lib (i + 1) cs = Inr rest" "cs' = c' # rest"
    by (auto split: sum.splits)
  with Cons show ?case using validate_issuer_safe [of lib i c c'] by auto
qed simp

lemma issuer_defaults_set: "ji_Header (issuer_defaults c) \<noteq> [] \<and> ji_IdentityClaim (issuer_defaults c) \<noteq> []"
  by (simp add: issuer_defaults_def DefaultJWTHeader_def DefaultJWTIdentityClaim_def Let_def)

lemma JWTConfig_Validate_safe:
  assumes "JWTConfig_Validate lib (ApplyDefaults j) = Inr j'"
  shows "jc_Enabled j' = jc_Enabled j \<and>
    (jc_Enabled j \<longrightarrow> jc_Configs j' \<noteq> [] \<and> (\<forall>c \<in> set (jc_Configs j'). safe_issuer lib c))"
proof (cases "jc_Enabled j")
  case True
  with assms obtain cs where cs: "validate_issuers lib 0 (map issuer_defaults (jc_Configs j)) = Inr cs"
    "j' = ApplyDefaults j\<lparr>jc_Configs := cs\<rparr>" "jc_Configs j \<noteq> []"
    by (auto simp: JWTConfig_Validate_def ApplyDefaults_def split: if_splits)
  have "length cs = length (jc_Configs j) \<and> (\<forall>c\<in>set cs. safe_issuer lib c)"
    using validate_issuers_safe [OF cs(1)] issuer_defaults_set by auto
  with cs show ?thesis by (auto simp: ApplyDefaults_def)
next
  case False
  with assms show ?thesis by (auto simp: JWTConfig_Validate_def ApplyDefaults_def)
qed

lemma validate_server_safe:
  assumes "validate_server lib s = Inr s'"
  shows "safe_server lib s'"
proof -
  from assms obtain j where j: "JWTConfig_Validate lib (ApplyDefaults (sc_JWT s)) = Inr j"
    and s': "s' = s\<lparr>sc_JWT := j\<rparr>" "\<not> claims_without_jwt s'" "TenantConfig_Validate (sc_Tenant s') = None"
      "TimeoutsConfig_Validate (sc_Timeouts s) = None" "tls_complete (sc_TLS s)"
    by (auto simp: validate_server_def TLSConfig_Validate_None split: sum.splits if_splits)
  with JWTConfig_Validate_safe [OF j] show ?thesis
    by (auto simp: safe_server_def TimeoutsConfig_Validate_def claims_without_jwt_def split: if_splits)
qed

lemma validateConfig_safe:
  assumes "validateConfig su vp c = Inr c'"
  shows "safe_configuration (su_Library su) c' \<and> ac_Database c' = ac_Database c"
proof -
  from assms obtain s where "validate_server (su_Library su) (ac_Server c) = Inr s"
    and rest: "validate_rest (c\<lparr>ac_Server := s\<rparr>) = Inr c'"
    by (auto simp: validateConfig_def split: option.splits struct_error.splits)
  then have "safe_server (su_Library su) s" using validate_server_safe by blast
  with rest show ?thesis
    by (auto simp: validate_rest_def safe_configuration_def TLSConfig_Validate_None HealthConfig_Validate_def
        MetricsConfig_Validate_def TracingConfig_Validate_def split: if_splits)
qed

text \<open>One setting read from a file: with a file named it is the trimmed contents, otherwise as it was.\<close>

definition from_file :: "read_file \<Rightarrow> string \<Rightarrow> string \<Rightarrow> string \<Rightarrow> bool" where
  "from_file ReadFile file old new \<longleftrightarrow>
     (if file = [] then new = old else \<exists>data. ReadFile file = Inr data \<and> new = TrimSpace data)"

lemma file_override_Inr:
  "file_override ReadFile env file store c = Inr c' \<longleftrightarrow>
     (if file = [] then c' = c else \<exists>data. ReadFile file = Inr data \<and> store (TrimSpace data) c = Inr c')"
  by (auto simp: file_override_def resolveFileValue_def split: sum.splits)

lemma ResolveFileOverrides_exact:
  assumes "ResolveFileOverrides ReadFile d = Inr d'"
  shows "from_file ReadFile (dc_HostFile d) (dc_Host d) (dc_Host d')"
    "from_file ReadFile (dc_NameFile d) (dc_Name d) (dc_Name d')"
    "from_file ReadFile (dc_UsernameFile d) (dc_Username d) (dc_Username d')"
    "from_file ReadFile (dc_PasswordFile d) (dc_Password d) (dc_Password d')"
    "dc_PortFile d = [] \<Longrightarrow> dc_Port d' = dc_Port d"
    "dc_PasswordFile d' = dc_PasswordFile d"
proof -
  from assms obtain c1 c2 c3 c4 where
    c1: "file_override ReadFile ''HYPERFLEET_DATABASE_HOST_FILE'' (dc_HostFile d) (\<lambda>v c. Inr (c\<lparr>dc_Host := v\<rparr>)) d = Inr c1" and
    c2: "file_override ReadFile ''HYPERFLEET_DATABASE_PORT_FILE'' (dc_PortFile c1) (store_port (dc_PortFile c1)) c1 = Inr c2" and
    c3: "file_override ReadFile ''HYPERFLEET_DATABASE_NAME_FILE'' (dc_NameFile c2) (\<lambda>v c. Inr (c\<lparr>dc_Name := v\<rparr>)) c2 = Inr c3" and
    c4: "file_override ReadFile ''HYPERFLEET_DATABASE_USERNAME_FILE'' (dc_UsernameFile c3) (\<lambda>v c. Inr (c\<lparr>dc_Username := v\<rparr>)) c3 = Inr c4" and
    d': "file_override ReadFile ''HYPERFLEET_DATABASE_PASSWORD_FILE'' (dc_PasswordFile c4) (\<lambda>v c. Inr (c\<lparr>dc_Password := v\<rparr>)) c4 = Inr d'"
    unfolding ResolveFileOverrides_def and_then_Inr by blast
  obtain h n u p prt where
    "c1 = d\<lparr>dc_Host := h\<rparr>" "from_file ReadFile (dc_HostFile d) (dc_Host d) h"
    "c2 = c1\<lparr>dc_Port := prt\<rparr>" "dc_PortFile c1 = [] \<Longrightarrow> prt = dc_Port c1"
    "c3 = c2\<lparr>dc_Name := n\<rparr>" "from_file ReadFile (dc_NameFile c2) (dc_Name c2) n"
    "c4 = c3\<lparr>dc_Username := u\<rparr>" "from_file ReadFile (dc_UsernameFile c3) (dc_Username c3) u"
    "d' = c4\<lparr>dc_Password := p\<rparr>" "from_file ReadFile (dc_PasswordFile c4) (dc_Password c4) p"
  proof -
    have "\<exists>h. c1 = d\<lparr>dc_Host := h\<rparr> \<and> from_file ReadFile (dc_HostFile d) (dc_Host d) h"
      using c1 by (cases d) (auto simp: file_override_Inr from_file_def split: if_splits)
    moreover have "\<exists>prt. c2 = c1\<lparr>dc_Port := prt\<rparr> \<and> (dc_PortFile c1 = [] \<longrightarrow> prt = dc_Port c1)"
      using c2 by (cases c1) (auto simp: file_override_Inr store_port_def split: if_splits option.splits)
    moreover have "\<exists>n. c3 = c2\<lparr>dc_Name := n\<rparr> \<and> from_file ReadFile (dc_NameFile c2) (dc_Name c2) n"
      using c3 by (cases c2) (auto simp: file_override_Inr from_file_def split: if_splits)
    moreover have "\<exists>u. c4 = c3\<lparr>dc_Username := u\<rparr> \<and> from_file ReadFile (dc_UsernameFile c3) (dc_Username c3) u"
      using c4 by (cases c3) (auto simp: file_override_Inr from_file_def split: if_splits)
    moreover have "\<exists>p. d' = c4\<lparr>dc_Password := p\<rparr> \<and> from_file ReadFile (dc_PasswordFile c4) (dc_Password c4) p"
      using d' by (cases c4) (auto simp: file_override_Inr from_file_def split: if_splits)
    ultimately show ?thesis using that by blast
  qed
  then show "from_file ReadFile (dc_HostFile d) (dc_Host d) (dc_Host d')"
    "from_file ReadFile (dc_NameFile d) (dc_Name d) (dc_Name d')"
    "from_file ReadFile (dc_UsernameFile d) (dc_Username d) (dc_Username d')"
    "from_file ReadFile (dc_PasswordFile d) (dc_Password d) (dc_Password d')"
    "dc_PortFile d = [] \<Longrightarrow> dc_Port d' = dc_Port d"
    "dc_PasswordFile d' = dc_PasswordFile d"
    by simp_all
qed

lemma resolve_Inr:
  assumes "resolveAndReadConfigFile su fs vp = Inr vp'" "config_path su fs = (path, True)" "path \<noteq> []"
  shows "su_Exists su path \<and> su_ReadInConfig su path = None"
  using assms by (auto simp: resolveAndReadConfigFile_def Let_def split: if_splits option.splits)

lemma resolve_binds_nothing:
  "resolveAndReadConfigFile su fs vp = Inr vp' \<Longrightarrow> vp_Env vp' = vp_Env vp \<and> vp_Flags vp' = vp_Flags vp"
  by (auto simp: resolveAndReadConfigFile_def Let_def split: if_splits option.splits prod.splits)

lemma Load_is_safe:
  assumes "Load su fs = Inr c"
  shows "safe_configuration (su_Library su) c"
  using assms by (auto simp: Load_def Let_def split: option.splits dest: validateConfig_safe)


definition sample_issuer :: jwt_issuer_config where
  "sample_issuer = \<lparr>ji_CompiledPattern = None, ji_IssuerURL = ''https://issuer'', ji_JWKCertURL = [],
     ji_JWKCertFile = ''/etc/jwks'', ji_JWKCertCAFile = [], ji_Header = [], ji_IdentityHeader = [], ji_Audience = [],
     ji_IdentityClaim = [], ji_IdentityClaimPattern = []\<rparr>"

definition sample_surroundings :: surroundings where
  "sample_surroundings = \<lparr>su_Getenv = (\<lambda>_. []), su_Exists = (\<lambda>_. False),
     su_ReadFile = (\<lambda>f. if f = ''/run/password'' then Inr ''secret '' else Inl ''no such file''),
     su_ReadInConfig = (\<lambda>_. None),
     su_UnmarshalExact = (\<lambda>vp c. Inr (c\<lparr>ac_Server := (ac_Server c)\<lparr>sc_JWT := \<lparr>jc_Configs = [sample_issuer], jc_Enabled = True\<rparr>\<rparr>,
        ac_Database := (ac_Database c)\<lparr>dc_PasswordFile := ''/run/password''\<rparr>\<rparr>)),
     su_IsSet = (\<lambda>vp k. False), su_Struct = (\<lambda>c. None),
     su_Library = \<lparr>cl_Parse = (\<lambda>u. Inr \<lparr>u_Scheme = ''https'', u_Host = ''issuer'', u_Hostname = ''issuer''\<rparr>),
       cl_Compile = (\<lambda>p. Inl ''unsupported'')\<rparr>\<rparr>"

definition sample_config :: application_config where
  "sample_config = NewApplicationConfig\<lparr>
     ac_Server := NewServerConfig\<lparr>sc_JWT := \<lparr>jc_Configs = [issuer_defaults sample_issuer], jc_Enabled = True\<rparr>\<rparr>,
     ac_Database := NewDatabaseConfig\<lparr>dc_PasswordFile := ''/run/password'', dc_Password := TrimSpace ''secret ''\<rparr>\<rparr>"

lemma sample_loads: "Load sample_surroundings [] = Inr sample_config"
proof -
  have "resolveAndReadConfigFile sample_surroundings [] new_viper = Inr new_viper"
    by (simp add: resolveAndReadConfigFile_def config_path_def Changed_def Lookup_def sample_surroundings_def)
  moreover have "validateBoundKeys (bindFlags [] (bindAllEnvVars new_viper)) = None"
    by (rule validateBoundKeys_passes) (simp_all add: new_viper_def)
  moreover have "\<not> IsForbiddenJWTSourceHeaderName DefaultJWTHeader" by code_simp
  ultimately show ?thesis
    by (simp add: Load_def and_then_def wrap_error_def check_def)
      (simp add: sample_config_def sample_surroundings_def suppressFlagOverriddenDatabaseFileFields_def Changed_def Lookup_def
        migrateDeprecatedConfig_def propagateTLS_def NewApplicationConfig_def NewServerConfig_def NewDatabaseConfig_def
        NewHealthConfig_def NewMetricsConfig_def NewTracingConfig_def no_tls_def ResolveFileOverrides_def file_override_def
        resolveFileValue_def validateConfig_def validate_server_def validate_rest_def and_then_def check_def
        TimeoutsConfig_Validate_def TLSConfig_Validate_def JWTConfig_Validate_def ApplyDefaults_def
        validate_issuer_def issuer_url_error_def issuer_header_error_def requireHTTPSURL_def sample_issuer_def
        issuer_defaults_def DefaultJWTIdentityClaim_def claims_without_jwt_def TenantConfig_Validate_def
        HealthConfig_Validate_def MetricsConfig_Validate_def TracingConfig_Validate_def duration_units Let_def)
qed


end
