(* ===== verification/JWT_Handler.thy ===== *)
theory JWT_Handler
  imports Config_Loader
begin

text \<open>
  Building the token validators (\<open>NewJWTHandler\<close> and \<open>buildKeyfunc\<close> of \<open>pkg/auth/jwt_handler.go\<close>).  The libraries for
  key sets and tokens are arguments: how they make a key source, and how a parser with given options reads a token.
\<close>

text \<open>The options of \<open>jwt.NewParser\<close>.\<close>

record parser_options =
  po_ValidMethods :: "string list"
  po_ExpirationRequired :: bool
  po_Leeway :: duration
  po_Issuer :: string
  po_Audience :: "string option"

text \<open>An HTTP client that trusts the certificates of a PEM text in addition to the system's.\<close>

record http_client =
  ht_Timeout :: duration
  ht_Certificates :: string

text \<open>\<open>'k\<close> is a key source, \<open>'s\<close> a storage of keys.\<close>

record ('k, 's) jwt_library =
  jl_ReadFile :: read_file
  jl_AppendCertsFromPEM :: "string \<Rightarrow> bool"
  jl_NewJWKSetJSON :: "string \<Rightarrow> string + 'k"
  jl_NewDefault :: "string list \<Rightarrow> string + 'k"
  jl_Storage :: "'k \<Rightarrow> 's"
  jl_MemoryStorage :: 's
  jl_NewStorageFromHTTP :: "string \<Rightarrow> http_client \<Rightarrow> string + 's"
  jl_NewHTTPClient :: "'s option \<Rightarrow> (string \<times> 's) list \<Rightarrow> string + 's"
  jl_New :: "'s \<Rightarrow> string + 'k"
  jl_Parse :: "parser_options \<Rightarrow> 'k \<Rightarrow> string \<Rightarrow> jwt_error + jwt_token"
  jl_Config :: config_library

definition defaultSigningAlgorithm :: string where "defaultSigningAlgorithm = ''RS256''"
definition defaultLeeway :: duration where "defaultLeeway = 30 * Second"
definition defaultHTTPClientTimeout :: duration where "defaultHTTPClientTimeout = 30 * Second"

text \<open>\<open>if err != nil \<lbrace> return fmt.Errorf(msg, args.., err) \<rbrace>\<close>\<close>

definition failing :: "string \<Rightarrow> fmt_arg list \<Rightarrow> string + 'a \<Rightarrow> string + 'a" where
  "failing msg args r = map_sum (\<lambda>err. Sprintf msg (args @ [FS err])) id r"

lemma failing_Inr [simp]: "failing msg args r = Inr y \<longleftrightarrow> r = Inr y"
  by (cases r) (auto simp: failing_def)

definition buildHTTPClientWithCA :: "('k, 's) jwt_library \<Rightarrow> string \<Rightarrow> string + http_client" where
  "buildHTTPClientWithCA lib caFile =
     and_then (failing ''failed to read CA file %q: %w'' [FS caFile] (jl_ReadFile lib caFile)) (\<lambda>caCert.
       if \<not> jl_AppendCertsFromPEM lib caCert then Inl (Sprintf ''failed to parse CA certificate from %q'' [FS caFile])
       else Inr \<lparr>ht_Timeout = defaultHTTPClientTimeout, ht_Certificates = caCert\<rparr>)"

definition newStorageWithCA :: "('k, 's) jwt_library \<Rightarrow> string \<Rightarrow> string \<Rightarrow> string + 's" where
  "newStorageWithCA lib jwkURL caFile =
     and_then (buildHTTPClientWithCA lib caFile) (\<lambda>client.
       failing ''failed to create JWKS storage from URL %q with CA %q: %w'' [FS jwkURL, FS caFile]
         (jl_NewStorageFromHTTP lib jwkURL client))"

definition buildFileOnlyKeyfunc :: "('k, 's) jwt_library \<Rightarrow> jwt_issuer_config \<Rightarrow> string + 'k" where
  "buildFileOnlyKeyfunc lib i =
     and_then (failing ''failed to read JWKS file %q: %w'' [FS (ji_JWKCertFile i)] (jl_ReadFile lib (ji_JWKCertFile i))) (\<lambda>data.
       failing ''failed to parse JWKS file %q: %w'' [FS (ji_JWKCertFile i)] (jl_NewJWKSetJSON lib data))"

definition buildURLOnlyKeyfunc :: "('k, 's) jwt_library \<Rightarrow> jwt_issuer_config \<Rightarrow> string + 'k" where
  "buildURLOnlyKeyfunc lib i =
     (if ji_JWKCertCAFile i = [] then
        failing ''failed to create JWKS client from URL %q: %w'' [FS (ji_JWKCertURL i)]
          (jl_NewDefault lib [ji_JWKCertURL i])
      else
        and_then (newStorageWithCA lib (ji_JWKCertURL i) (ji_JWKCertCAFile i)) (\<lambda>urlStorage.
        and_then (failing ''failed to create HTTP JWKS client: %w'' []
          (jl_NewHTTPClient lib None [(ji_JWKCertURL i, urlStorage)])) (\<lambda>httpStorage.
        failing ''failed to create JWKS keyfunc from URL %q with CA: %w'' [FS (ji_JWKCertURL i)] (jl_New lib httpStorage))))"

definition buildCombinedKeyfunc :: "('k, 's) jwt_library \<Rightarrow> jwt_issuer_config \<Rightarrow> string + 'k" where
  "buildCombinedKeyfunc lib i =
     and_then (failing ''failed to read JWKS file %q: %w'' [FS (ji_JWKCertFile i)] (jl_ReadFile lib (ji_JWKCertFile i))) (\<lambda>data.
     and_then (failing ''failed to parse JWKS file: %w'' [] (jl_NewJWKSetJSON lib data)) (\<lambda>fileKF.
     and_then (if ji_JWKCertCAFile i \<noteq> [] then newStorageWithCA lib (ji_JWKCertURL i) (ji_JWKCertCAFile i)
               else Inr (jl_MemoryStorage lib)) (\<lambda>urlStorage.
     and_then (failing ''failed to create HTTP JWKS client: %w'' []
       (jl_NewHTTPClient lib (Some (jl_Storage lib fileKF)) [(ji_JWKCertURL i, urlStorage)])) (\<lambda>httpStorage.
     failing ''failed to create combined JWKS keyfunc: %w'' [] (jl_New lib httpStorage)))))"

definition buildKeyfunc :: "('k, 's) jwt_library \<Rightarrow> jwt_issuer_config \<Rightarrow> string + 'k" where
  "buildKeyfunc lib i =
     (let hasFile = ji_JWKCertFile i \<noteq> []; hasURL = ji_JWKCertURL i \<noteq> [] in
      if \<not> hasFile \<and> \<not> hasURL then Inl ''at least one of jwk_cert_file or jwk_cert_url must be provided''
      else if hasFile \<and> \<not> hasURL then buildFileOnlyKeyfunc lib i
      else if \<not> hasFile then buildURLOnlyKeyfunc lib i
      else buildCombinedKeyfunc lib i)"

definition parser_opts :: "jwt_issuer_config \<Rightarrow> parser_options" where
  "parser_opts i = \<lparr>po_ValidMethods = [defaultSigningAlgorithm], po_ExpirationRequired = True, po_Leeway = defaultLeeway,
     po_Issuer = ji_IssuerURL i, po_Audience = (if ji_Audience i \<noteq> [] then Some (ji_Audience i) else None)\<rparr>"

fun build_validators :: "('k, 's) jwt_library \<Rightarrow> nat \<Rightarrow> jwt_issuer_config list \<Rightarrow> string + issuer_validator list" where
  "build_validators lib n [] = Inr []"
| "build_validators lib n (i # is) =
     and_then (failing ''failed to build JWKS keyfunc for issuer %d (%s): %w'' [FD (int n), FS (ji_IssuerURL i)] (buildKeyfunc lib i)) (\<lambda>kf.
     and_then (build_validators lib (n + 1) is) (\<lambda>vs.
       Inr (\<lparr>iv_Parse = jl_Parse lib (parser_opts i) kf, iv_Header = ji_Header i, iv_Issuer = i\<rparr> # vs)))"

definition NewJWTHandler :: "('k, 's) jwt_library \<Rightarrow> jwt_issuer_config list \<Rightarrow> string + issuer_validator list" where
  "NewJWTHandler lib issuers =
     (if issuers = [] then Inl ''at least one issuer config is required''
      else and_then (failing ''issuer config validation failed: %w'' []
        (JWTConfig_Validate (jl_Config lib) (ApplyDefaults \<lparr>jc_Configs = issuers, jc_Enabled = True\<rparr>))) (\<lambda>jwtCfg.
      build_validators lib 0 (jc_Configs jwtCfg)))"

section \<open>What a built handler accepts\<close>

lemma build_validators_Inr:
  assumes "build_validators lib n is = Inr vs"
  shows "map iv_Issuer vs = is \<and>
    (\<forall>v\<in>set vs. iv_Header v = ji_Header (iv_Issuer v) \<and>
       (\<exists>kf. buildKeyfunc lib (iv_Issuer v) = Inr kf \<and> iv_Parse v = jl_Parse lib (parser_opts (iv_Issuer v)) kf))"
  using assms by (induction "is" arbitrary: n vs) fastforce+

lemma NewJWTHandler_Inr:
  assumes "NewJWTHandler lib issuers = Inr vs"
  shows "vs \<noteq> [] \<and> (\<forall>v\<in>set vs. safe_issuer (jl_Config lib) (iv_Issuer v) \<and> iv_Header v = ji_Header (iv_Issuer v) \<and>
       (\<exists>kf. buildKeyfunc lib (iv_Issuer v) = Inr kf \<and> iv_Parse v = jl_Parse lib (parser_opts (iv_Issuer v)) kf))"
proof -
  from assms obtain j where
    j: "JWTConfig_Validate (jl_Config lib) (ApplyDefaults \<lparr>jc_Configs = issuers, jc_Enabled = True\<rparr>) = Inr j" and
    vs: "build_validators lib 0 (jc_Configs j) = Inr vs"
    by (auto simp: NewJWTHandler_def split: if_splits)
  from build_validators_Inr [OF vs] have cs: "jc_Configs j = map iv_Issuer vs" by simp
  from JWTConfig_Validate_safe [OF j]
  have "vs \<noteq> []" "\<forall>v \<in> set vs. safe_issuer (jl_Config lib) (iv_Issuer v)" unfolding cs by simp_all
  with build_validators_Inr [OF vs] show ?thesis by blast
qed

lemma accepted_token:
  assumes "NewJWTHandler lib issuers = Inr validators" "JWT_Middleware validators r = Inr r'"
  shows "\<exists>i kf scheme raw token.
     safe_issuer (jl_Config lib) i \<and> buildKeyfunc lib i = Inr kf \<and>
     Fields (Header_Get r (ji_Header i)) = [scheme, raw] \<and> EqualFold scheme ''Bearer'' \<and>
     jl_Parse lib \<lparr>po_ValidMethods = [''RS256''], po_ExpirationRequired = True, po_Leeway = 30 * Second,
       po_Issuer = ji_IssuerURL i, po_Audience = (if ji_Audience i \<noteq> [] then Some (ji_Audience i) else None)\<rparr> kf raw = Inr token \<and>
     cx_Token (rq_Context r') = Some token \<and> cx_Issuer (rq_Context r') = Some i"
proof -
  from JWT_Middleware_accepts [OF assms(2)] obtain v scheme raw token where
    v: "v \<in> set validators" "Fields (Header_Get r (iv_Header v)) = [scheme, raw]" "EqualFold scheme ''Bearer''"
      "iv_Parse v raw = Inr token" "cx_Token (rq_Context r') = Some token" "cx_Issuer (rq_Context r') = Some (iv_Issuer v)"
    by blast
  from NewJWTHandler_Inr [OF assms(1)] v(1) obtain kf where
    "safe_issuer (jl_Config lib) (iv_Issuer v)" "iv_Header v = ji_Header (iv_Issuer v)"
    "buildKeyfunc lib (iv_Issuer v) = Inr kf" "iv_Parse v = jl_Parse lib (parser_opts (iv_Issuer v)) kf"
    by blast
  with v show ?thesis
    by (auto simp: parser_opts_def defaultSigningAlgorithm_def defaultLeeway_def)
qed

text \<open>C12. Behind a handler built from any list of issuers, a request goes on only with a token that the parser of one
  of them accepted from the bearer credentials in that issuer's own header.  The parser admits RS256 only, demands an
  expiry, the issuer of the configuration and, where one is configured, its audience, and its keys come from the
  sources of that issuer, whose configuration is safe; no cookie is such a header.  Token and issuer are attached
  together.\<close>

theorem requests_authenticated:
  assumes "NewJWTHandler lib issuers = Inr validators" "JWT_Middleware validators r = Inr r'"
  shows "\<exists>i kf scheme raw token.
     safe_issuer (jl_Config lib) i \<and> buildKeyfunc lib i = Inr kf \<and>
     Fields (Header_Get r (ji_Header i)) = [scheme, raw] \<and> EqualFold scheme ''Bearer'' \<and>
     jl_Parse lib \<lparr>po_ValidMethods = [''RS256''], po_ExpirationRequired = True, po_Leeway = 30 * Second,
       po_Issuer = ji_IssuerURL i, po_Audience = (if ji_Audience i \<noteq> [] then Some (ji_Audience i) else None)\<rparr> kf raw = Inr token \<and>
     cx_Token (rq_Context r') = Some token \<and> cx_Issuer (rq_Context r') = Some i"
  using assms by (rule accepted_token)

text \<open>A library whose parser accepts one token.\<close>

definition jwks_library :: "(string, string) jwt_library" where
  "jwks_library = \<lparr>jl_ReadFile = (\<lambda>f. Inr ''keys''), jl_AppendCertsFromPEM = (\<lambda>_. True), jl_NewJWKSetJSON = Inr,
     jl_NewDefault = (\<lambda>_. Inl ''no network''), jl_Storage = id, jl_MemoryStorage = [],
     jl_NewStorageFromHTTP = (\<lambda>_ _. Inl ''no network''), jl_NewHTTPClient = (\<lambda>_ _. Inl ''no network''), jl_New = Inr,
     jl_Parse = (\<lambda>po k raw. if raw = ''t0'' \<and> k = ''keys'' then Inr (MapClaims [(''email'', JStr ''ann@acme'')]) else Inl TokenExpired),
     jl_Config = su_Library sample_surroundings\<rparr>"

definition bearer_request :: http_request where
  "bearer_request = \<lparr>rq_Method = ''GET'', rq_Path = ''/api/hyperfleet/v1/clusters'',
     rq_Header = [(''Authorization'', [''Bearer t0''])], rq_Context = Background\<rparr>"

lemma sample_handler: "\<exists>v. NewJWTHandler jwks_library [sample_issuer] = Inr [v] \<and> iv_Header v = ''Authorization'' \<and>
  iv_Parse v ''t0'' = Inr (MapClaims [(''email'', JStr ''ann@acme'')])"
proof -
  have "\<not> IsForbiddenJWTSourceHeaderName DefaultJWTHeader" by code_simp
  then show ?thesis
    by (simp add: NewJWTHandler_def ApplyDefaults_def issuer_defaults_def sample_issuer_def JWTConfig_Validate_def
        validate_issuer_def issuer_url_error_def issuer_header_error_def requireHTTPSURL_def DefaultJWTIdentityClaim_def
        and_then_def failing_def buildKeyfunc_def buildFileOnlyKeyfunc_def Let_def jwks_library_def sample_surroundings_def
        DefaultJWTHeader_def)
qed

theorem requests_authenticated_witness:
  "\<exists>validators r'. NewJWTHandler jwks_library [sample_issuer] = Inr validators \<and>
     JWT_Middleware validators bearer_request = Inr r' \<and> cx_Token (rq_Context r') \<noteq> None"
proof -
  obtain v where h: "NewJWTHandler jwks_library [sample_issuer] = Inr [v]" and v: "iv_Header v = ''Authorization''"
    "iv_Parse v ''t0'' = Inr (MapClaims [(''email'', JStr ''ann@acme'')])"
    using sample_handler by blast
  have "Header_Get bearer_request ''Authorization'' = ''Bearer t0''" "Fields ''Bearer t0'' = [''Bearer'', ''t0'']"
    by code_simp+
  with v obtain r' where run: "JWT_Middleware [v] bearer_request = Inr r'"
    by (auto simp: JWT_Middleware_def EqualFold_def)
  from requests_authenticated [OF h run] h run show ?thesis by blast
qed

end
