(* ===== verification/Closer.thy ===== *)
theory Closer
  imports Prelude
begin

text \<open>
  Shutting down (\<open>pkg/closer\<close>) and readiness (\<open>pkg/health\<close>): the list of close steps, run once in reverse order
  whatever fails, and the two flags a readiness probe reads.  A step is a function on the state of the process,
  which returns an error or none.
\<close>

section \<open>The closer (\<open>closer.go\<close>)\<close>

type_synonym 'w step = "'w \<Rightarrow> string option \<times> 'w"

text \<open>\<open>result\<close> is the joined error: the number and the error of each failed step, in the order they ran.\<close>

record 'w closer =
  cl_result :: "(nat \<times> string) list"
  cl_fns :: "'w step list"
  cl_once :: bool
  cl_closed :: bool

definition New_closer :: "'w closer" where
  "New_closer = \<lparr>cl_result = [], cl_fns = [], cl_once = False, cl_closed = False\<rparr>"

text \<open>\<open>None\<close> is the panic of \<open>Add\<close> after \<open>Close\<close>.\<close>

definition Add :: "'w step \<Rightarrow> 'w closer \<Rightarrow> 'w closer option" where
  "Add fn c = (if cl_closed c then None else Some (c\<lparr>cl_fns := cl_fns c @ [fn]\<rparr>))"

text \<open>The loop of \<open>Close\<close>, counting down to step 0.\<close>

fun run_steps :: "'w step list \<Rightarrow> nat \<Rightarrow> 'w \<Rightarrow> (nat \<times> string) list \<Rightarrow> (nat \<times> string) list \<times> 'w" where
  "run_steps fns 0 w joined = (joined, w)"
| "run_steps fns (Suc i) w joined =
     (case (fns ! i) w of
        (Some err, w') \<Rightarrow> run_steps fns i w' (joined @ [(i, err)])
      | (None, w') \<Rightarrow> run_steps fns i w' joined)"

definition Close :: "'w closer \<Rightarrow> 'w \<Rightarrow> (nat \<times> string) list \<times> 'w closer \<times> 'w" where
  "Close c w =
     (let c = c\<lparr>cl_closed := True\<rparr>; fns = cl_fns c in
      if cl_once c then (cl_result c, c, w)
      else case run_steps fns (length fns) w [] of
             (joined, w') \<Rightarrow> (joined, c\<lparr>cl_once := True, cl_result := joined\<rparr>, w'))"

section \<open>Readiness (\<open>readiness.go\<close>)\<close>

record readiness =
  rd_ready :: bool
  rd_shuttingDown :: bool

definition initial_readiness :: readiness where
  "initial_readiness = \<lparr>rd_ready = False, rd_shuttingDown = False\<rparr>"

definition SetReady :: "readiness \<Rightarrow> readiness" where
  "SetReady r = r\<lparr>rd_ready := True, rd_shuttingDown := False\<rparr>"

definition SetShuttingDown :: "readiness \<Rightarrow> readiness" where
  "SetShuttingDown r = r\<lparr>rd_shuttingDown := True\<rparr>"

definition IsReady :: "readiness \<Rightarrow> bool" where
  "IsReady r \<longleftrightarrow> rd_ready r \<and> \<not> rd_shuttingDown r"

definition IsShuttingDown :: "readiness \<Rightarrow> bool" where
  "IsShuttingDown r \<longleftrightarrow> rd_shuttingDown r"

section \<open>Probes (\<open>handler.go\<close>)\<close>

text \<open>The outcome of a ping of the database.\<close>

datatype ping = PingOK | PingDeadlineExceeded | PingFailed

text \<open>The session factory of the handler: none, one without a connection, or one whose connection answers the
  ping this way.\<close>

datatype probe_db = NoFactory | NoConnection | Connection ping

record probe_answer =
  pa_Code :: nat
  pa_Body :: "(string \<times> string) list"

definition status_ok :: probe_answer where
  "status_ok = \<lparr>pa_Code = 200, pa_Body = [(''status'', ''ok'')]\<rparr>"

definition unavailable :: "string \<Rightarrow> string \<Rightarrow> probe_answer" where
  "unavailable status reason = \<lparr>pa_Code = 503, pa_Body = [(''status'', status), (''reason'', reason)]\<rparr>"

definition LivenessHandler :: probe_answer where
  "LivenessHandler = status_ok"

definition ReadinessHandler :: "readiness \<Rightarrow> probe_db \<Rightarrow> probe_answer" where
  "ReadinessHandler state db =
     (if IsShuttingDown state then unavailable ''shutting_down'' ''Application is shutting down''
      else if \<not> IsReady state then unavailable ''not_ready'' ''Application is not ready''
      else case db of
             NoFactory \<Rightarrow> status_ok
           | NoConnection \<Rightarrow> unavailable ''not_ready'' ''Database connection not available''
           | Connection PingOK \<Rightarrow> status_ok
           | Connection PingDeadlineExceeded \<Rightarrow> unavailable ''not_ready'' ''database ping timeout''
           | Connection PingFailed \<Rightarrow> unavailable ''not_ready'' ''database unavailable'')"

section \<open>Each step once, last added first\<close>

text \<open>Running steps one after the other, the results in the order they ran.\<close>

fun in_order :: "'w step list \<Rightarrow> 'w \<Rightarrow> string option list \<times> 'w" where
  "in_order [] w = ([], w)"
| "in_order (f # fs) w = (case f w of (e, w') \<Rightarrow> case in_order fs w' of (es, w'') \<Rightarrow> (e # es, w''))"

text \<open>The failures among the results of the steps below \<open>n\<close>, counted down.\<close>

fun failures :: "nat \<Rightarrow> string option list \<Rightarrow> (nat \<times> string) list" where
  "failures n [] = []"
| "failures n (e # es) = (case e of None \<Rightarrow> [] | Some err \<Rightarrow> [(n - 1, err)]) @ failures (n - 1) es"

lemma run_steps_in_order:
  "i \<le> length fns \<Longrightarrow>
     run_steps fns i w joined =
       (case in_order (rev (take i fns)) w of (es, w') \<Rightarrow> (joined @ failures i es, w'))"
proof (induction i arbitrary: w joined)
  case (Suc i)
  then show ?case
    by (auto simp: take_Suc_conv_app_nth split: prod.splits option.splits)
qed simp

lemma Close_runs:
  assumes "\<not> cl_once c"
  shows "Close c w =
    (case in_order (rev (cl_fns c)) w of (es, w') \<Rightarrow>
       (failures (length (cl_fns c)) es,
        c\<lparr>cl_closed := True, cl_once := True, cl_result := failures (length (cl_fns c)) es\<rparr>, w'))"
  using assms run_steps_in_order [of "length (cl_fns c)" "cl_fns c" w "[]"]
  by (simp add: Close_def Let_def split: prod.splits)

lemma Close_again:
  assumes "Close c w = (e, c', w')"
  shows "Close c' v = (e, c', v) \<and> Add fn c' = None"
  using assms by (auto simp: Close_def Add_def Let_def split: if_splits prod.splits)

text \<open>A process that registers the steps of a list and closes.\<close>

fun add_all :: "'w step list \<Rightarrow> 'w closer \<Rightarrow> 'w closer option" where
  "add_all [] c = Some c"
| "add_all (f # fs) c = (case Add f c of None \<Rightarrow> None | Some c' \<Rightarrow> add_all fs c')"

lemma add_all_open: "\<not> cl_closed c \<Longrightarrow> add_all fs c = Some (c\<lparr>cl_fns := cl_fns c @ fs\<rparr>)"
  by (induction fs arbitrary: c) (auto simp: Add_def)

lemma shutting_down_refused: "pa_Code (ReadinessHandler (SetShuttingDown r) db) = 503"
  by (simp add: ReadinessHandler_def IsShuttingDown_def SetShuttingDown_def unavailable_def)

lemma ready_iff:
  "pa_Code (ReadinessHandler r db) = 200 \<longleftrightarrow> IsReady r \<and> (db = NoFactory \<or> db = Connection PingOK)"
  by (cases db) (auto simp: ReadinessHandler_def IsReady_def IsShuttingDown_def unavailable_def status_ok_def split: ping.splits)

text \<open>The closer as a component that keeps its steps: what is registered first is closed last, each step runs exactly
  once, a failing step stops none of the others, the error names every failed step, and neither a second \<open>Close\<close> nor a
  late \<open>Add\<close> runs anything again.\<close>

lemma closed_in_reverse:
  assumes "in_order (rev fs) w = (es, w')" "add_all fs New_closer = Some c"
  shows "\<exists>c'. Close c w = (failures (length fs) es, c', w') \<and> length es = length fs \<and>
    (\<forall>v. Close c' v = (failures (length fs) es, c', v)) \<and> (\<forall>f. Add f c' = None)"
proof -
  have c: "c = New_closer\<lparr>cl_fns := fs\<rparr>" using assms(2) by (simp add: add_all_open New_closer_def)
  have "length es = length xs" if "in_order xs w = (es, w')" for xs :: "'a step list" and es w w'
    using that by (induction xs arbitrary: w es) (auto split: prod.splits)
  from this [OF assms(1)] have "length es = length fs" by simp
  moreover obtain c' where c': "Close c w = (failures (length fs) es, c', w')"
    using Close_runs [of c w] assms(1) c by (simp add: New_closer_def)
  ultimately show ?thesis using Close_again [OF c'] by blast
qed

end
