(* ===== verification/Startup.thy ===== *)
theory Startup
  imports Routes Config_Loader JWT_Handler Closer
begin

text \<open>
  The life of the process: the container of its parts (\<open>cmd/hyperfleet-api/container\<close>), connecting to the database
  (\<open>pkg/db/db_session/default.go\<close>), the command that serves (\<open>servecmd/cmd.go\<close>) and the servers (\<open>server/server.go\<close>).
  Drivers, key libraries, the exporter of traces and the file of the OpenAPI document are arguments.
\<close>

section \<open>Connecting to the database\<close>

text \<open>\<open>sql.Open\<close> of a connection string at an attempt, and \<open>gorm.Open\<close> over it, each with an error or none.\<close>

record db_driver =
  dd_Open :: "nat \<Rightarrow> string \<Rightarrow> string option"
  dd_GormOpen :: "nat \<Rightarrow> string \<Rightarrow> string option"

definition ssl_on :: "database_config \<Rightarrow> bool" where
  "ssl_on cfg \<longleftrightarrow> ssl_Mode (dc_SSL cfg) \<noteq> ''disable''"

text \<open>Opens with the configured SSL mode, and without SSL when that fails; \<open>Inr\<close> is the string in use.\<close>

definition open_db :: "db_driver \<Rightarrow> nat \<Rightarrow> database_config \<Rightarrow> string + string" where
  "open_db drv attempt cfg =
     (case dd_Open drv attempt (ConnectionString cfg (ssl_on cfg)) of
        None \<Rightarrow> Inr (ConnectionString cfg (ssl_on cfg))
      | Some _ \<Rightarrow>
          (case dd_Open drv attempt (ConnectionString cfg False) of
             None \<Rightarrow> Inr (ConnectionString cfg False)
           | Some err \<Rightarrow> Inl err))"

definition connect_panic :: "string \<Rightarrow> database_config \<Rightarrow> string \<Rightarrow> string" where
  "connect_panic lib cfg err =
     Sprintf ''%s failed to connect to %s database %s with connection string: %s''
       [FS lib, FS (dc_Dialect cfg), FS (dc_Name cfg), FS (LogSafeConnectionString cfg (ssl_on cfg))] @
     newline @ Sprintf ''Error: %s'' [FS err]"

text \<open>The retry loop of \<open>Init\<close>: \<open>Inl\<close> is the text of the panic, \<open>Inr\<close> the attempt that connected and its string.\<close>

function connect_loop :: "db_driver \<Rightarrow> database_config \<Rightarrow> nat \<Rightarrow> string \<Rightarrow> string + (nat \<times> string)" where
  "connect_loop drv cfg attempt dsn =
     (case dd_GormOpen drv attempt dsn of
        None \<Rightarrow> Inr (attempt, dsn)
      | Some err \<Rightarrow>
          if int attempt \<ge> pc_ConnRetryAttempts (dc_Pool cfg) then Inl (connect_panic ''GORM'' cfg err)
          else case open_db drv (attempt + 1) cfg of
                 Inl err' \<Rightarrow>
                   Inl (Sprintf ''SQL failed to reconnect to %s database %s: %s'' [FS (dc_Dialect cfg), FS (dc_Name cfg), FS err'])
               | Inr dsn' \<Rightarrow> connect_loop drv cfg (attempt + 1) dsn')"
  by pat_completeness auto
termination
  by (relation "measure (\<lambda>(drv, cfg, attempt, dsn). nat (pc_ConnRetryAttempts (dc_Pool cfg) - int attempt))") auto

declare connect_loop.simps [simp del]

definition Init :: "db_driver \<Rightarrow> database_config \<Rightarrow> string + (nat \<times> string)" where
  "Init drv cfg =
     (case open_db drv 0 cfg of
        Inl err \<Rightarrow> Inl (connect_panic ''SQL'' cfg err)
      | Inr dsn \<Rightarrow> connect_loop drv cfg 0 dsn)"

section \<open>The container\<close>

text \<open>The steps a run registers with its closer.\<close>

datatype stop_step = CloseDB | FlushOTel | CloseJWT | DrainAPI | DrainMetrics | DrainHealth | MarkNotReady

text \<open>What has been made so far, and the steps registered so far.\<close>

record container =
  ct_sessionFactory :: "(nat \<times> string) option"
  ct_resourceService :: "(string \<Rightarrow> condition_mapper option) option"
  ct_schemaValidator :: "schema_validator option"
  ct_jwtHandler :: "issuer_validator list option"
  ct_closer :: "stop_step list"

definition NewContainer :: container where
  "NewContainer = \<lparr>ct_sessionFactory = None, ct_resourceService = None, ct_schemaValidator = None, ct_jwtHandler = None,
     ct_closer = []\<rparr>"

text \<open>A getter: a panic with its text, or a value, and the container afterwards.\<close>

type_synonym 'a getter = "container \<Rightarrow> (string + 'a) \<times> container"

definition SessionFactory :: "db_driver \<Rightarrow> application_config \<Rightarrow> (nat \<times> string) getter" where
  "SessionFactory drv cfg c =
     (case ct_sessionFactory c of
        Some sf \<Rightarrow> (Inr sf, c)
      | None \<Rightarrow>
          (case Init drv (ac_Database cfg) of
             Inl err \<Rightarrow> (Inl err, c)
           | Inr sf \<Rightarrow> (Inr sf, c\<lparr>ct_sessionFactory := Some sf, ct_closer := ct_closer c @ [CloseDB]\<rparr>)))"

fun buildConditionMappers :: "cel_library \<Rightarrow> entity_descriptor list \<Rightarrow> (string \<Rightarrow> condition_mapper option) \<Rightarrow> string + (string \<Rightarrow> condition_mapper option)" where
  "buildConditionMappers cl [] m = Inr m"
| "buildConditionMappers cl (d # ds) m =
     (if desc_Conditions d = [] then buildConditionMappers cl ds m
      else case NewConditionMapper cl (desc_Kind d) (desc_Conditions d) of
             Inl err \<Rightarrow> Inl (Sprintf ''failed to create condition mapper for %s: %w'' [FS (desc_Kind d), FS err])
           | Inr mapper \<Rightarrow> buildConditionMappers cl ds (m(desc_Kind d \<mapsto> mapper)))"

definition NewResourceService :: "cel_library \<Rightarrow> registry \<Rightarrow> string + (string \<Rightarrow> condition_mapper option)" where
  "NewResourceService cl ds = failing ''initialize resource service: %w'' [] (buildConditionMappers cl ds Map.empty)"

text \<open>The DAOs, the generic service and the transaction runner need the session factory and nothing else.\<close>

definition ResourceService :: "db_driver \<Rightarrow> cel_library \<Rightarrow> application_config \<Rightarrow> registry \<Rightarrow> (string \<Rightarrow> condition_mapper option) getter" where
  "ResourceService drv cl cfg ds c =
     (case ct_resourceService c of
        Some svc \<Rightarrow> (Inr svc, c)
      | None \<Rightarrow>
          (case SessionFactory drv cfg c of
             (Inl err, c) \<Rightarrow> (Inl err, c)
           | (Inr sf, c) \<Rightarrow>
               (case NewResourceService cl ds of
                  Inl err \<Rightarrow> (Inl (''failed to create resource service: '' @ err), c)
                | Inr svc \<Rightarrow> (Inr svc, c\<lparr>ct_resourceService := Some svc\<rparr>))))"

text \<open>\<open>load\<close> reads the OpenAPI document at a path.\<close>

definition SchemaValidator :: "(string \<Rightarrow> string + openapi_doc) \<Rightarrow> application_config \<Rightarrow> registry \<Rightarrow> schema_validator getter" where
  "SchemaValidator load cfg ds c =
     (case ct_schemaValidator c of
        Some v \<Rightarrow> (Inr v, c)
      | None \<Rightarrow>
          (case load (sc_OpenAPISchemaPath (ac_Server cfg)) of
             Inl err \<Rightarrow> (Inl (Sprintf ''create schema validator: %v'' [FS err]), c)
           | Inr doc \<Rightarrow>
               (case NewSchemaValidator ds doc of
                  Inl (RPanic msg) \<Rightarrow> (Inl msg, c)
                | Inl ROutOfFuel \<Rightarrow> (Inl [], c)
                | Inr v \<Rightarrow> (Inr v, c\<lparr>ct_schemaValidator := Some v\<rparr>))))"

definition JWTHandler :: "('k, 's) jwt_library \<Rightarrow> application_config \<Rightarrow> issuer_validator list option getter" where
  "JWTHandler lib cfg c =
     (if \<not> jc_Enabled (sc_JWT (ac_Server cfg)) then (Inr None, c)
      else case ct_jwtHandler c of
        Some h \<Rightarrow> (Inr (Some h), c)
      | None \<Rightarrow>
          (case NewJWTHandler lib (jc_Configs (sc_JWT (ac_Server cfg))) of
             Inl err \<Rightarrow> (Inl (Sprintf ''create JWT handler: %v'' [FS err]), c)
           | Inr h \<Rightarrow> (Inr (Some h), c\<lparr>ct_jwtHandler := Some h, ct_closer := ct_closer c @ [CloseJWT]\<rparr>)))"

section \<open>Starting up\<close>

record ('k, 's) process =
  pr_surroundings :: surroundings
  pr_flags :: "cli_flag list"
  pr_cel_compiler :: cel_compiler
  pr_cel :: cel_library
  pr_driver :: db_driver
  pr_jwt :: "('k, 's) jwt_library"
  pr_openapi :: "string \<Rightarrow> string + openapi_doc"
  pr_InitTraceProvider :: "string \<Rightarrow> string option"

text \<open>What a run has when its servers are about to start.\<close>

record running =
  rn_cfg :: application_config
  rn_registry :: registry
  rn_mappers :: "string \<Rightarrow> condition_mapper option"
  rn_validator :: schema_validator
  rn_jwt :: "issuer_validator list option"
  rn_mux :: mux

definition api_config_of :: "application_config \<Rightarrow> api_config" where
  "api_config_of cfg = \<lparr>ap_TracingEnabled = tr_Enabled (ac_Tracing cfg), ap_JWTEnabled = jc_Enabled (sc_JWT (ac_Server cfg)),
     ap_TenantEnabled = tc_Enabled (sc_Tenant (ac_Server cfg))\<rparr>"

fun fault_text :: "startup_fault \<Rightarrow> string" where
  "fault_text (StartupError msg) = Sprintf ''build API server: %w'' [FS msg]"
| "fault_text (StartupPanic (RPanic msg)) = msg"
| "fault_text (StartupPanic ROutOfFuel) = []"

definition start_tracing :: "('k, 's) process \<Rightarrow> application_config \<Rightarrow> container \<Rightarrow> container" where
  "start_tracing p cfg c =
     (if tr_Enabled (ac_Tracing cfg) \<and> pr_InitTraceProvider p (tr_ServiceName (ac_Tracing cfg)) = None
      then c\<lparr>ct_closer := ct_closer c @ [FlushOTel]\<rparr> else c)"

definition build_server :: "('k, 's) process \<Rightarrow> application_config \<Rightarrow> registry \<Rightarrow> running getter" where
  "build_server p cfg ds c =
     (case ResourceService (pr_driver p) (pr_cel p) cfg ds c of
        (Inl err, c) \<Rightarrow> (Inl err, c)
      | (Inr svc, c) \<Rightarrow>
     (case SchemaValidator (pr_openapi p) cfg ds c of
        (Inl err, c) \<Rightarrow> (Inl err, c)
      | (Inr v, c) \<Rightarrow>
     (case JWTHandler (pr_jwt p) cfg c of
        (Inl err, c) \<Rightarrow> (Inl err, c)
      | (Inr h, c) \<Rightarrow>
     (case BuildAPIServer (api_config_of cfg) ds (h \<noteq> None) of
        Inl fault \<Rightarrow> (Inl (fault_text fault), c)
      | Inr m \<Rightarrow>
          (Inr \<lparr>rn_cfg = cfg, rn_registry = ds, rn_mappers = svc, rn_validator = v, rn_jwt = h, rn_mux = m\<rparr>,
           c\<lparr>ct_closer := ct_closer c @ [DrainAPI, DrainMetrics, DrainHealth, MarkNotReady]\<rparr>)))))"

text \<open>\<open>runServe\<close> up to the start of the servers: the error or panic it ends with, or what is served, and the steps
  registered so far.\<close>

definition startup :: "('k, 's) process \<Rightarrow> (string + running) \<times> stop_step list" where
  "startup p =
     (case Load (pr_surroundings p) (pr_flags p) of
        Inl err \<Rightarrow> (Inl (Sprintf ''load configuration: %w'' [FS err]), [])
      | Inr cfg \<Rightarrow>
     (case LoadDescriptors (ac_Entities cfg) [] of
        Inl fault \<Rightarrow> (Inl (fault_text (StartupPanic fault)), [])
      | Inr ds \<Rightarrow>
     (case Validate (pr_cel_compiler p) ds of
        Some fault \<Rightarrow> (Inl (fault_text (StartupPanic fault)), [])
      | None \<Rightarrow>
     (case SessionFactory (pr_driver p) cfg NewContainer of
        (Inl err, c) \<Rightarrow> (Inl err, ct_closer c)
      | (Inr sf, c) \<Rightarrow> (case build_server p cfg ds (start_tracing p cfg c) of (r, c) \<Rightarrow> (r, ct_closer c))))))"

section \<open>Serving and shutting down\<close>

text \<open>What the main goroutine can receive.  \<open>AllListening\<close> carries a server failure that is already waiting when the
  three servers have reported that they listen.\<close>

datatype serve_event = CtxDone | GotSignal | ServerFailed string | AllListening "string option"

text \<open>The second wait, with the process marked ready; \<open>None\<close> while nothing ends it.\<close>

fun await_trigger :: "serve_event list \<Rightarrow> string option option" where
  "await_trigger [] = None"
| "await_trigger (CtxDone # es) = Some None"
| "await_trigger (GotSignal # es) = Some None"
| "await_trigger (ServerFailed err # es) = Some (Some err)"
| "await_trigger (AllListening pending # es) = await_trigger es"

text \<open>The two waits of \<open>runServe\<close>: the error that triggers the shutdown, if the events end them, and the readiness.\<close>

fun serve :: "serve_event list \<Rightarrow> readiness \<Rightarrow> string option option \<times> readiness" where
  "serve [] r = (None, r)"
| "serve (CtxDone # es) r = (Some None, r)"
| "serve (GotSignal # es) r = (Some None, r)"
| "serve (ServerFailed err # es) r = (Some (Some err), r)"
| "serve (AllListening (Some err) # es) r = (Some (Some err), r)"
| "serve (AllListening None # es) r = (await_trigger es, SetReady r)"

text \<open>The world of the close steps: the steps run so far and the readiness.\<close>

record shutdown_world =
  sw_trace :: "stop_step list"
  sw_readiness :: readiness

text \<open>A step with the error its close, drain or flush returns; marking the process not ready cannot fail.\<close>

definition run_stop :: "(stop_step \<Rightarrow> string option) \<Rightarrow> stop_step \<Rightarrow> shutdown_world step" where
  "run_stop outcome s w =
     (if s = MarkNotReady then
        (None, w\<lparr>sw_trace := sw_trace w @ [s], sw_readiness := SetShuttingDown (sw_readiness w)\<rparr>)
      else (outcome s, w\<lparr>sw_trace := sw_trace w @ [s]\<rparr>))"

text \<open>\<open>addDrain\<close>: when the drain fails the server is closed, and both errors are kept.\<close>

definition drain_error :: "string option \<Rightarrow> string option \<Rightarrow> string option" where
  "drain_error shutdownErr closeErr =
     (case shutdownErr of
        None \<Rightarrow> None
      | Some err \<Rightarrow> Some (case closeErr of None \<Rightarrow> err | Some err' \<Rightarrow> err @ newline @ err'))"

text \<open>The deferred \<open>Close\<close> after a run that registered these steps: the failed steps and the world.\<close>

definition shutdown :: "(stop_step \<Rightarrow> string option) \<Rightarrow> stop_step list \<Rightarrow> shutdown_world \<Rightarrow> (nat \<times> string) list \<times> shutdown_world" where
  "shutdown outcome steps w =
     (case add_all (map (run_stop outcome) steps) New_closer of
        None \<Rightarrow> ([], w)
      | Some c \<Rightarrow> (case Close c w of (errs, c', w') \<Rightarrow> (errs, w')))"

section \<open>A server (\<open>server.go\<close>)\<close>

text \<open>The calls of \<open>Start\<close> and their outcomes: listening, loading the key pair, closing the listener, serving.  Serving ends
  without an error, with \<open>ErrServerClosed\<close> or with another error.\<close>

datatype serve_end = ServedOK | ErrServerClosed | ServeError string

record server_calls =
  sl_Listen :: "string option"
  sl_LoadX509KeyPair :: "string option"
  sl_Close :: "string option"
  sl_Serve :: serve_end

record start_result =
  st_error :: "string list"
  st_listening :: bool

definition joined :: "string \<Rightarrow> string option \<Rightarrow> string list" where
  "joined err e = err # (case e of None \<Rightarrow> [] | Some x \<Rightarrow> [x])"

definition Serve :: "string \<Rightarrow> tls_config \<Rightarrow> server_calls \<Rightarrow> string list" where
  "Serve name cfg calls =
     (if tls_Enabled cfg \<and> (tls_CertFile cfg = [] \<or> tls_KeyFile cfg = []) then
        joined (''HTTPS certificate or key not configured; set via tls.cert_file/key_file in config file, env vars, or flags'')
          (sl_Close calls)
      else case sl_Serve calls of
             ServeError err \<Rightarrow> [Sprintf ''%s terminated with errors: %w'' [FS name, FS err]]
           | _ \<Rightarrow> [])"

definition Start :: "string \<Rightarrow> string \<Rightarrow> tls_config \<Rightarrow> server_calls \<Rightarrow> start_result" where
  "Start name addr cfg calls =
     (case sl_Listen calls of
        Some err \<Rightarrow> \<lparr>st_error = [Sprintf ''unable to start %s on %s: %w'' [FS name, FS addr, FS err]], st_listening = False\<rparr>
      | None \<Rightarrow>
          (case (if tls_Enabled cfg then sl_LoadX509KeyPair calls else None) of
             Some err \<Rightarrow>
               \<lparr>st_error = joined (Sprintf ''%s: invalid TLS certificate/key: %w'' [FS name, FS err]) (sl_Close calls),
                st_listening = False\<rparr>
           | None \<Rightarrow> \<lparr>st_error = Serve name cfg calls, st_listening = True\<rparr>))"

text \<open>\<open>removeTrailingSlash\<close>: one slash is taken off.\<close>

definition removeTrailingSlash :: "string \<Rightarrow> string" where
  "removeTrailingSlash path = (if path \<noteq> [] \<and> last path = CHR ''/'' then butlast path else path)"

section \<open>Facts\<close>

lemma connect_loop_attempts:
  "connect_loop drv cfg attempt dsn = Inr (n, dsn') \<Longrightarrow> int attempt \<le> max (int attempt) (pc_ConnRetryAttempts (dc_Pool cfg)) \<Longrightarrow>
     attempt \<le> n \<and> int n \<le> max (int attempt) (pc_ConnRetryAttempts (dc_Pool cfg)) \<and> dd_GormOpen drv n dsn' = None"
proof (induction drv cfg attempt dsn rule: connect_loop.induct)
  case (1 drv cfg attempt dsn)
  show ?case
  proof (cases "dd_GormOpen drv attempt dsn")
    case None
    with "1.prems" show ?thesis by (simp add: connect_loop.simps)
  next
    case (Some err)
    with "1.prems"(1) obtain dsn2 where d: "\<not> int attempt \<ge> pc_ConnRetryAttempts (dc_Pool cfg)"
      "open_db drv (attempt + 1) cfg = Inr dsn2" "connect_loop drv cfg (attempt + 1) dsn2 = Inr (n, dsn')"
      by (subst (asm) connect_loop.simps) (auto split: if_splits sum.splits)
    from "1.IH" [OF Some d] d(1) show ?thesis by auto
  qed
qed

text \<open>Connecting ends after at most one attempt more than the configured retries, with a connection that works and one
  of the two strings of the configuration.\<close>

lemma open_db_string: "open_db drv n cfg = Inr dsn \<Longrightarrow> \<exists>ssl. dsn = ConnectionString cfg ssl"
  by (auto simp: open_db_def split: option.splits)

lemma connect_loop_string:
  "connect_loop drv cfg attempt dsn = Inr (n, dsn') \<Longrightarrow> \<exists>ssl. dsn = ConnectionString cfg ssl \<Longrightarrow>
     \<exists>ssl. dsn' = ConnectionString cfg ssl"
proof (induction drv cfg attempt dsn rule: connect_loop.induct)
  case (1 drv cfg attempt dsn)
  show ?case
  proof (cases "dd_GormOpen drv attempt dsn")
    case None
    with "1.prems" show ?thesis by (simp add: connect_loop.simps)
  next
    case (Some err)
    with "1.prems"(1) obtain dsn2 where d: "\<not> int attempt \<ge> pc_ConnRetryAttempts (dc_Pool cfg)"
      "open_db drv (attempt + 1) cfg = Inr dsn2" "connect_loop drv cfg (attempt + 1) dsn2 = Inr (n, dsn')"
      by (subst (asm) connect_loop.simps) (auto split: if_splits sum.splits)
    from "1.IH" [OF Some d open_db_string [OF d(2)]] show ?thesis .
  qed
qed

lemma Init_connected:
  assumes "Init drv cfg = Inr (n, dsn)" "0 \<le> pc_ConnRetryAttempts (dc_Pool cfg)"
  shows "int n \<le> pc_ConnRetryAttempts (dc_Pool cfg) \<and> dd_GormOpen drv n dsn = None \<and> (\<exists>ssl. dsn = ConnectionString cfg ssl)"
proof -
  from assms(1) obtain dsn0 where d: "open_db drv 0 cfg = Inr dsn0" "connect_loop drv cfg 0 dsn0 = Inr (n, dsn)"
    by (auto simp: Init_def split: sum.splits)
  from connect_loop_attempts [OF d(2)] connect_loop_string [OF d(2) open_db_string [OF d(1)]] assms(2)
  show ?thesis by simp
qed

lemma SessionFactory_Inr:
  assumes "SessionFactory drv cfg NewContainer = (Inr sf, c)"
  shows "c = NewContainer\<lparr>ct_sessionFactory := Some sf, ct_closer := [CloseDB]\<rparr> \<and> Init drv (ac_Database cfg) = Inr sf"
  using assms by (auto simp: SessionFactory_def NewContainer_def split: sum.splits)

lemma ResourceService_closer:
  "ResourceService drv cl cfg ds c = (r, c') \<Longrightarrow> ct_sessionFactory c = Some sf \<Longrightarrow>
     ct_closer c' = ct_closer c \<and> ct_jwtHandler c' = ct_jwtHandler c"
  by (auto simp: ResourceService_def SessionFactory_def split: option.splits sum.splits prod.splits)

lemma SchemaValidator_closer:
  "SchemaValidator load cfg ds c = (r, c') \<Longrightarrow> ct_closer c' = ct_closer c \<and> ct_jwtHandler c' = ct_jwtHandler c"
  by (auto simp: SchemaValidator_def split: option.splits sum.splits prod.splits registry_fault.splits)

definition jwt_on :: "application_config \<Rightarrow> bool" where
  "jwt_on cfg \<longleftrightarrow> jc_Enabled (sc_JWT (ac_Server cfg))"

lemma JWTHandler_result:
  assumes "JWTHandler lib cfg c = (r, c')" "ct_jwtHandler c = None"
  shows "case r of
      Inl err \<Rightarrow> ct_closer c' = ct_closer c
    | Inr h \<Rightarrow> ct_closer c' = ct_closer c @ (if jwt_on cfg then [CloseJWT] else []) \<and>
        (if jwt_on cfg then \<exists>vs. h = Some vs \<and> NewJWTHandler lib (jc_Configs (sc_JWT (ac_Server cfg))) = Inr vs
         else h = None)"
  using assms by (auto simp: JWTHandler_def jwt_on_def split: sum.splits if_splits)

text \<open>The steps of a container that has its session factory, before the servers are added.\<close>

definition base_steps :: "stop_step list \<Rightarrow> bool" where
  "base_steps steps \<longleftrightarrow> (\<exists>t j. steps = [CloseDB] @ (if t then [FlushOTel] else []) @ (if j then [CloseJWT] else []))"

lemma build_server_result:
  assumes "build_server p cfg ds c = (r, c')" "ct_sessionFactory c = Some sf" "ct_jwtHandler c = None"
  shows "case r of
      Inl err \<Rightarrow> ct_closer c' = ct_closer c \<or> ct_closer c' = ct_closer c @ [CloseJWT]
    | Inr rn \<Rightarrow> rn_cfg rn = cfg \<and> rn_registry rn = ds \<and>
        BuildAPIServer (api_config_of cfg) ds (rn_jwt rn \<noteq> None) = Inr (rn_mux rn) \<and>
        (if jwt_on cfg then \<exists>vs. rn_jwt rn = Some vs \<and> NewJWTHandler (pr_jwt p) (jc_Configs (sc_JWT (ac_Server cfg))) = Inr vs
         else rn_jwt rn = None) \<and>
        ct_closer c' = ct_closer c @ (if jwt_on cfg then [CloseJWT] else []) @ [DrainAPI, DrainMetrics, DrainHealth, MarkNotReady]"
proof -
  obtain r1 c1 where s1: "ResourceService (pr_driver p) (pr_cel p) cfg ds c = (r1, c1)" by (metis prod.exhaust)
  obtain r2 c2 where s2: "SchemaValidator (pr_openapi p) cfg ds c1 = (r2, c2)" by (metis prod.exhaust)
  obtain r3 c3 where s3: "JWTHandler (pr_jwt p) cfg c2 = (r3, c3)" by (metis prod.exhaust)
  note closers = ResourceService_closer [OF s1 assms(2)] SchemaValidator_closer [OF s2]
  with assms(3) have "ct_jwtHandler c2 = None" by simp
  note j = JWTHandler_result [OF s3 this]
  from assms(1) s1 s2 s3 closers j show ?thesis
    by (auto simp: build_server_def split: sum.splits if_splits)
qed

lemma add_all_New: "add_all fs New_closer = Some (New_closer\<lparr>cl_fns := fs\<rparr>)"
  by (simp add: add_all_open New_closer_def)

lemma in_order_trace:
  "in_order (map (run_stop outcome) steps) w = (es, w') \<Longrightarrow>
     sw_trace w' = sw_trace w @ steps \<and>
     (MarkNotReady \<in> set steps \<longrightarrow> rd_shuttingDown (sw_readiness w')) \<and>
     (rd_shuttingDown (sw_readiness w) \<longrightarrow> rd_shuttingDown (sw_readiness w'))"
  by (induction steps arbitrary: w es) (auto simp: run_stop_def SetShuttingDown_def split: prod.splits if_splits)

lemma shutdown_trace:
  "sw_trace (snd (shutdown outcome steps w)) = sw_trace w @ rev steps"
  "MarkNotReady \<in> set steps \<Longrightarrow> rd_shuttingDown (sw_readiness (snd (shutdown outcome steps w)))"
proof -
  let ?c = "New_closer\<lparr>cl_fns := map (run_stop outcome) steps\<rparr>"
  obtain es w' where o: "in_order (map (run_stop outcome) (rev steps)) w = (es, w')" by (metis prod.exhaust)
  then have "snd (shutdown outcome steps w) = w'"
    using Close_runs [of ?c w] unfolding shutdown_def add_all_New by (simp add: New_closer_def rev_map)
  with in_order_trace [OF o] show "sw_trace (snd (shutdown outcome steps w)) = sw_trace w @ rev steps"
    "MarkNotReady \<in> set steps \<Longrightarrow> rd_shuttingDown (sw_readiness (snd (shutdown outcome steps w)))" by simp_all
qed

lemma startup_Inr:
  assumes "startup p = (Inr rn, steps)"
  obtains cfg t where "Load (pr_surroundings p) (pr_flags p) = Inr cfg" "rn_cfg rn = cfg"
    "LoadDescriptors (ac_Entities cfg) [] = Inr (rn_registry rn)" "Validate (pr_cel_compiler p) (rn_registry rn) = None"
    "BuildAPIServer (api_config_of cfg) (rn_registry rn) (rn_jwt rn \<noteq> None) = Inr (rn_mux rn)"
    "if jwt_on cfg then \<exists>vs. rn_jwt rn = Some vs \<and> NewJWTHandler (pr_jwt p) (jc_Configs (sc_JWT (ac_Server cfg))) = Inr vs
       else rn_jwt rn = None"
    "steps = [CloseDB] @ (if t then [FlushOTel] else []) @ (if jwt_on cfg then [CloseJWT] else []) @
       [DrainAPI, DrainMetrics, DrainHealth, MarkNotReady]"
proof -
  from assms obtain cfg ds sf c c' where
    l: "Load (pr_surroundings p) (pr_flags p) = Inr cfg" "LoadDescriptors (ac_Entities cfg) [] = Inr ds"
      "Validate (pr_cel_compiler p) ds = None" and
    sf: "SessionFactory (pr_driver p) cfg NewContainer = (Inr sf, c)" and
    b: "build_server p cfg ds (start_tracing p cfg c) = (Inr rn, c')" and steps: "steps = ct_closer c'"
    by (auto simp: startup_def split: sum.splits option.splits prod.splits)
  let ?t = "tr_Enabled (ac_Tracing cfg) \<and> pr_InitTraceProvider p (tr_ServiceName (ac_Tracing cfg)) = None"
  from SessionFactory_Inr [OF sf] have c: "ct_sessionFactory (start_tracing p cfg c) = Some sf"
    "ct_jwtHandler (start_tracing p cfg c) = None"
    "ct_closer (start_tracing p cfg c) = [CloseDB] @ (if ?t then [FlushOTel] else [])"
    by (simp_all add: start_tracing_def NewContainer_def)
  from build_server_result [OF b c(1,2)] l steps c(3) show thesis
    by (intro that [of cfg ?t]) simp_all
qed

text \<open>Whatever startup ends with, the steps it leaves to the closer start with the database, so the database is closed
  after everything that was built on it.\<close>

lemma failed_startup_closes:
  assumes "startup p = (Inl err, steps)"
  shows "steps = [] \<or> (base_steps steps \<and> last (rev steps) = CloseDB)"
proof -
  have base: "base_steps ([CloseDB] @ (if t then [FlushOTel] else []) @ (if j then [CloseJWT] else []))" for t j
    unfolding base_steps_def by blast
  show ?thesis
  proof (cases "\<exists>cfg ds sf c. Load (pr_surroundings p) (pr_flags p) = Inr cfg \<and> LoadDescriptors (ac_Entities cfg) [] = Inr ds \<and>
      Validate (pr_cel_compiler p) ds = None \<and> SessionFactory (pr_driver p) cfg NewContainer = (Inr sf, c)")
    case True
    then obtain cfg ds sf c where l: "Load (pr_surroundings p) (pr_flags p) = Inr cfg" "LoadDescriptors (ac_Entities cfg) [] = Inr ds"
      "Validate (pr_cel_compiler p) ds = None" "SessionFactory (pr_driver p) cfg NewContainer = (Inr sf, c)" by blast
    let ?t = "tr_Enabled (ac_Tracing cfg) \<and> pr_InitTraceProvider p (tr_ServiceName (ac_Tracing cfg)) = None"
    obtain r c' where b: "build_server p cfg ds (start_tracing p cfg c) = (r, c')" by (metis prod.exhaust)
    from SessionFactory_Inr [OF l(4)] have c: "ct_sessionFactory (start_tracing p cfg c) = Some sf"
      "ct_jwtHandler (start_tracing p cfg c) = None"
      "ct_closer (start_tracing p cfg c) = [CloseDB] @ (if ?t then [FlushOTel] else [])"
      by (simp_all add: start_tracing_def NewContainer_def)
    from assms l b have "r = Inl err" "steps = ct_closer c'" by (simp_all add: startup_def)
    with build_server_result [OF b c(1,2)] c(3) base [of ?t False] base [of ?t True] show ?thesis by auto
  next
    case False
    with assms show ?thesis
      by (auto simp: startup_def SessionFactory_def NewContainer_def split: sum.splits option.splits prod.splits)
  qed
qed


definition sample_process :: "(string, string) process" where
  "sample_process = \<lparr>pr_surroundings = sample_surroundings, pr_flags = [], pr_cel_compiler = sample_compiler,
     pr_cel = sample_library, pr_driver = \<lparr>dd_Open = (\<lambda>n dsn. None), dd_GormOpen = (\<lambda>n dsn. if n < 2 then Some ''starting up'' else None)\<rparr>,
     pr_jwt = jwks_library, pr_openapi = (\<lambda>path. Inr (\<lambda>name. None)), pr_InitTraceProvider = (\<lambda>name. None)\<rparr>"

lemma sample_config_simps:
  "jc_Enabled (sc_JWT (ac_Server sample_config))" "tr_Enabled (ac_Tracing sample_config)" "ac_Entities sample_config = []"
  "jc_Configs (sc_JWT (ac_Server sample_config)) = [issuer_defaults sample_issuer]"
  "pc_ConnRetryAttempts (dc_Pool (ac_Database sample_config)) = 10"
  "tc_Enabled (sc_Tenant (ac_Server sample_config)) = False"
  by (simp_all add: sample_config_def NewApplicationConfig_def NewTracingConfig_def NewServerConfig_def NewDatabaseConfig_def)

lemma sample_jwt: "\<exists>vs. NewJWTHandler jwks_library [issuer_defaults sample_issuer] = Inr vs"
proof -
  have "NewJWTHandler jwks_library [issuer_defaults sample_issuer] = NewJWTHandler jwks_library [sample_issuer]"
    by (simp add: NewJWTHandler_def ApplyDefaults_def issuer_defaults_def DefaultJWTHeader_def DefaultJWTIdentityClaim_def Let_def)
  then show ?thesis using sample_handler by auto
qed

lemma sample_connects: "\<exists>dsn. Init (pr_driver sample_process) (ac_Database sample_config) = Inr (2, dsn)"
  by (simp add: Init_def open_db_def sample_process_def connect_loop.simps sample_config_simps)

lemma sample_api: "\<exists>m. BuildAPIServer (api_config_of sample_config) [] True = Inr m"
  by (simp add: BuildAPIServer_def NewRouterFromConfig_def RegisterEntityRoutes_def registerPerEntityRoutes_def Let_def)

lemma sample_startup:
  "\<exists>rn. startup sample_process =
     (Inr rn, [CloseDB, FlushOTel, CloseJWT, DrainAPI, DrainMetrics, DrainHealth, MarkNotReady])"
proof -
  obtain vs where vs: "NewJWTHandler jwks_library [issuer_defaults sample_issuer] = Inr vs" using sample_jwt by blast
  obtain dsn where dsn: "Init (pr_driver sample_process) (ac_Database sample_config) = Inr (2, dsn)" using sample_connects by blast
  obtain m where m: "BuildAPIServer (api_config_of sample_config) [] True = Inr m" using sample_api by blast
  have sf: "SessionFactory (pr_driver sample_process) sample_config NewContainer =
      (Inr (2, dsn), NewContainer\<lparr>ct_sessionFactory := Some (2, dsn), ct_closer := [CloseDB]\<rparr>)"
    using dsn by (simp add: SessionFactory_def NewContainer_def)
  have "Validate sample_compiler [] = None" by code_simp
  with sf vs m sample_loads show ?thesis
    by (simp add: startup_def sample_process_def sample_config_simps start_tracing_def build_server_def ResourceService_def
        SessionFactory_def NewContainer_def NewResourceService_def failing_def SchemaValidator_def NewSchemaValidator_def
        JWTHandler_def)
qed


text \<open>The process is marked ready only when the three servers listen and none of them has failed.\<close>

lemma ready_only_listening:
  assumes "serve es initial_readiness = (r, rd)" "IsReady rd"
  shows "\<exists>rest. es = AllListening None # rest"
  using assms by (cases "(es, initial_readiness)" rule: serve.cases) (auto simp: initial_readiness_def IsReady_def)

text \<open>A server tells that it listens only on a socket it has, with a key pair it has loaded when TLS is on.\<close>

lemma listening_sound:
  assumes "st_listening (Start name addr cfg calls)"
  shows "sl_Listen calls = None \<and> (tls_Enabled cfg \<longrightarrow> sl_LoadX509KeyPair calls = None)"
  using assms by (auto simp: Start_def split: option.splits if_splits)

end
