(* ===== verification/Observability.thy ===== *)
theory Observability
  imports Config
begin

text \<open>
  What is logged, traced and counted of requests and statements: masking (\<open>pkg/middleware/masking.go\<close>), the request
  log, the status codes the response wrappers record, the labels of the request metrics, the compression a client
  accepts, the GORM logger, the classes of database errors, and the choice of trace sampler and exporter.  The text
  heuristics of masking, JSON text and \<open>strconv.ParseFloat\<close> are arguments.
\<close>

section \<open>Masking\<close>

definition maxDepth :: nat where "maxDepth = 100"
definition maxBodySize :: nat where "maxBodySize = 1 * 1024 * 1024"

record masking_middleware =
  mm_sensitiveHeaders :: "string list"
  mm_sensitiveFields :: "string list"
  mm_enabled :: bool

definition NewMaskingMiddleware :: "logging_config \<Rightarrow> masking_middleware" where
  "NewMaskingMiddleware cfg = \<lparr>mm_sensitiveHeaders = GetSensitiveHeadersList cfg,
     mm_sensitiveFields = GetSensitiveFieldsList cfg, mm_enabled = mc_Enabled (lc_Masking cfg)\<rparr>"

definition isSensitiveHeader :: "masking_middleware \<Rightarrow> string \<Rightarrow> bool" where
  "isSensitiveHeader m header = list_ex (EqualFold header) (mm_sensitiveHeaders m)"

definition isSensitiveField :: "masking_middleware \<Rightarrow> string \<Rightarrow> bool" where
  "isSensitiveField m field = list_ex (\<lambda>s. Contains (ToLower field) (ToLower s)) (mm_sensitiveFields m)"

type_synonym headers = "(string \<times> string list) list"

definition MaskHeaders :: "masking_middleware \<Rightarrow> headers \<Rightarrow> headers" where
  "MaskHeaders m hs =
     (if \<not> mm_enabled m then hs
      else map (\<lambda>(key, vals). (key, if isSensitiveHeader m key then map (\<lambda>_. RedactedValue) vals else vals)) hs)"

lemma size_elem: "x \<in> set xs \<Longrightarrow> size x \<le> size_list size xs"
  by (induction xs) auto

lemma size_member: "(k, v) \<in> set ms \<Longrightarrow> size v \<le> size_list (size_prod (\<lambda>_. 0) size) ms"
  by (induction ms) auto

lemma size_nested: "(k, JArr xs) \<in> set ms \<Longrightarrow> x \<in> set xs \<Longrightarrow> size x \<le> size_list (size_prod (\<lambda>_. 0) size) ms"
  using size_member [of k "JArr xs" ms] size_elem [of x xs] by simp

text \<open>The depth is checked where a value is entered, not where a member of an object is an object.\<close>

function maskRecursiveDepth :: "masking_middleware \<Rightarrow> json \<Rightarrow> nat \<Rightarrow> json"
  and maskMapRecursiveDepth :: "masking_middleware \<Rightarrow> (string \<times> json) list \<Rightarrow> nat \<Rightarrow> (string \<times> json) list" where
  "maskRecursiveDepth m data depth =
     (if depth > maxDepth then data
      else case data of
             JObj v \<Rightarrow> JObj (maskMapRecursiveDepth m v depth)
           | JArr v \<Rightarrow> JArr (map (\<lambda>item. maskRecursiveDepth m item (depth + 1)) v)
           | _ \<Rightarrow> data)"
| "maskMapRecursiveDepth m data depth =
     map (\<lambda>(key, val).
        (key, if isSensitiveField m key then JStr RedactedValue
              else case val of
                     JObj v \<Rightarrow> JObj (maskMapRecursiveDepth m v (depth + 1))
                   | JArr v \<Rightarrow> JArr (map (\<lambda>item. maskRecursiveDepth m item (depth + 1)) v)
                   | _ \<Rightarrow> val)) data"
  by pat_completeness auto

termination
  by (relation "measure (\<lambda>x. case x of Inl (m, j, d) \<Rightarrow> 2 * size j + 1 | Inr (m, ms, d) \<Rightarrow> 2 * size (JObj ms))")
    (auto simp: less_Suc_eq_le dest: size_elem size_member size_nested)

declare maskRecursiveDepth.simps [simp del] maskMapRecursiveDepth.simps [simp del]

text \<open>The text heuristics, and JSON text to and from values.\<close>

record mask_library =
  ml_maskTextFallback :: "string \<Rightarrow> string"
  ml_Unmarshal :: "string \<Rightarrow> json option"
  ml_Marshal :: "json \<Rightarrow> string option"

definition MaskBody :: "mask_library \<Rightarrow> masking_middleware \<Rightarrow> string \<Rightarrow> string" where
  "MaskBody lib m body =
     (if body = [] then body
      else if \<not> mm_enabled m then body
      else if length body > maxBodySize then ml_maskTextFallback lib body
      else case ml_Unmarshal lib body of
             None \<Rightarrow> ml_maskTextFallback lib body
           | Some data \<Rightarrow>
               (case ml_Marshal lib (maskRecursiveDepth m data 0) of
                  None \<Rightarrow> ml_maskTextFallback lib body
                | Some masked \<Rightarrow> masked))"

section \<open>The request log\<close>

definition TrimSuffix :: "string \<Rightarrow> string \<Rightarrow> string" where
  "TrimSuffix s suffix = (if drop (length s - length suffix) s = suffix \<and> length suffix \<le> length s
     then take (length s - length suffix) s else s)"

text \<open>The headers logged of a request: none for the health check.\<close>

definition logged_headers :: "masking_middleware option \<Rightarrow> string \<Rightarrow> headers \<Rightarrow> headers option" where
  "logged_headers masker path hs =
     (if TrimSuffix path ''/'' = ''/healthcheck'' then None
      else case masker of None \<Rightarrow> Some hs | Some m \<Rightarrow> Some (MaskHeaders m hs))"

text \<open>What a handler does with the response.  \<open>ReadFrom\<close> counts as a write.\<close>

datatype writer_call = WriteHeader nat | Write string

text \<open>The wrapper of the request log and the one of the metrics: the code after one call.\<close>

fun responseWriter :: "nat \<Rightarrow> writer_call \<Rightarrow> nat" where
  "responseWriter statusCode (WriteHeader code) = code"
| "responseWriter statusCode (Write b) = (if statusCode = 0 then 200 else statusCode)"

fun metricsResponseWrapper :: "nat \<Rightarrow> writer_call \<Rightarrow> nat" where
  "metricsResponseWrapper statusCode (Write b) = (if statusCode = 0 then 200 else statusCode)"
| "metricsResponseWrapper statusCode (WriteHeader code) = code"

definition logged_status :: "writer_call list \<Rightarrow> nat" where
  "logged_status calls = (let c = foldl responseWriter 0 calls in if c = 0 then 200 else c)"

definition counted_status :: "writer_call list \<Rightarrow> nat" where
  "counted_status calls = foldl metricsResponseWrapper 0 calls"

text \<open>The status \<open>net/http\<close> sends: the first \<open>WriteHeader\<close> before any write, otherwise 200.\<close>

fun sent_status :: "writer_call list \<Rightarrow> nat" where
  "sent_status (WriteHeader code # calls) = code"
| "sent_status _ = 200"

section \<open>The labels of the request metrics\<close>

definition PathVarSub :: string where "PathVarSub = ''-''"

text \<open>\<open>{[^}]*}\<close> replaced by the substitute: an opening brace without a closing one stays.\<close>

function replace_vars :: "string \<Rightarrow> string" where
  "replace_vars [] = []"
| "replace_vars (c # s) =
     (if c = CHR 0x7B \<and> List.member s (CHR 0x7D)
      then PathVarSub @ replace_vars (drop 1 (dropWhile (\<lambda>d. d \<noteq> CHR 0x7D) s))
      else c # replace_vars s)"
  by pat_completeness auto
termination
proof (relation "measure length", goal_cases)
  case (2 c s)
  then show ?case using length_dropWhile_le [of "\<lambda>d. d \<noteq> CHR 0x7D" s] by simp
qed simp_all

definition pattern_path :: "string \<Rightarrow> string" where
  "pattern_path pattern =
     (case dropWhile (\<lambda>c. c \<noteq> CHR '' '') pattern of [] \<Rightarrow> pattern | _ # path \<Rightarrow> path)"

definition metrics_path :: "string \<Rightarrow> string" where
  "metrics_path pattern = (if pattern \<noteq> [] then replace_vars (pattern_path pattern) else ''/'' @ PathVarSub)"

definition MetricsMiddleware :: "string \<Rightarrow> string \<Rightarrow> string \<Rightarrow> writer_call list \<Rightarrow> (string \<times> string) list" where
  "MetricsMiddleware version rmethod pattern calls =
     [(''component'', ''api''), (''version'', version), (''method'', rmethod), (''path'', metrics_path pattern),
      (''code'', int_text (int (counted_status calls)))]"

text \<open>The name of a trace span (\<open>otel.go\<close>).\<close>

definition span_name :: "string \<Rightarrow> string \<Rightarrow> string \<Rightarrow> string" where
  "span_name rmethod pattern path =
     (if pattern \<noteq> [] then rmethod @ '' '' @ pattern_path pattern else rmethod @ '' '' @ path)"

section \<open>Compression (\<open>compress.go\<close>)\<close>

text \<open>The quality of the parameters of a token, the last readable one; \<open>ParseFloat\<close> is an argument,
  which reads what is not a number as 0, since neither is above 0.\<close>

fun quality :: "(string \<Rightarrow> rat option) \<Rightarrow> string list \<Rightarrow> rat \<Rightarrow> rat" where
  "quality ParseFloat [] q = q"
| "quality ParseFloat (param # ps) q =
     (let t = TrimSpace param in
      if HasPrefix t ''q='' then
        (case ParseFloat (TrimSpace (CutPrefix t ''q='')) of
           None \<Rightarrow> quality ParseFloat ps q
         | Some parsed \<Rightarrow> quality ParseFloat ps parsed)
      else quality ParseFloat ps q)"

definition token_accepts :: "(string \<Rightarrow> rat option) \<Rightarrow> string \<Rightarrow> bool" where
  "token_accepts ParseFloat token =
     (let parts = Split CHR '';'' token; coding = ToLower (TrimSpace (hd parts)) in
      (coding = ''gzip'' \<or> coding = ''*'') \<and> quality ParseFloat (tl parts) 1 > 0)"

definition accepts_gzip :: "(string \<Rightarrow> rat option) \<Rightarrow> string \<Rightarrow> bool" where
  "accepts_gzip ParseFloat acceptEncoding = list_ex (token_accepts ParseFloat) (Split CHR '','' acceptEncoding)"

text \<open>The headers of a compressed response when the handler first writes.\<close>

definition ensureHeaders :: "bool \<Rightarrow> headers \<Rightarrow> bool \<times> headers" where
  "ensureHeaders wroteHeader hs =
     (if wroteHeader then (True, hs)
      else let hs = filter (\<lambda>h. fst h \<noteq> ''Content-Encoding'') hs @ [(''Content-Encoding'', [''gzip''])];
               vary = (case map_of hs ''Vary'' of None \<Rightarrow> [] | Some vs \<Rightarrow> vs) @ [''Accept-Encoding''];
               hs = filter (\<lambda>h. fst h \<noteq> ''Vary'') hs @ [(''Vary'', vary)]
           in (True, filter (\<lambda>h. fst h \<noteq> ''Content-Length'') hs))"

section \<open>The GORM logger (\<open>gorm_logger.go\<close>)\<close>

text \<open>Levels are compared as GORM orders them.\<close>

fun level_rank :: "gorm_level \<Rightarrow> nat" where
  "level_rank Silent = 1"
| "level_rank GormError = 2"
| "level_rank Warn = 3"
| "level_rank Info = 4"

instantiation gorm_level :: linorder
begin

definition less_eq_gorm_level :: "gorm_level \<Rightarrow> gorm_level \<Rightarrow> bool" where
  "less_eq_gorm_level a b \<longleftrightarrow> level_rank a \<le> level_rank b"

definition less_gorm_level :: "gorm_level \<Rightarrow> gorm_level \<Rightarrow> bool" where
  "less_gorm_level a b \<longleftrightarrow> level_rank a < level_rank b"

instance
proof
  fix a b c :: gorm_level
  show "a < b \<longleftrightarrow> a \<le> b \<and> \<not> b \<le> a" by (auto simp: less_eq_gorm_level_def less_gorm_level_def)
  show "a \<le> a" by (simp add: less_eq_gorm_level_def)
  show "a \<le> b \<Longrightarrow> b \<le> c \<Longrightarrow> a \<le> c" by (simp add: less_eq_gorm_level_def)
  show "a \<le> b \<Longrightarrow> b \<le> a \<Longrightarrow> a = b" by (cases a; cases b) (simp_all add: less_eq_gorm_level_def)
  show "a \<le> b \<or> b \<le> a" by (auto simp: less_eq_gorm_level_def)
qed

end

record gorm_logger =
  gl_logLevel :: gorm_level
  gl_slowThreshold :: duration

definition slowQueryThreshold :: duration where "slowQueryThreshold = 200 * Millisecond"

definition LogMode :: "gorm_logger \<Rightarrow> gorm_level \<Rightarrow> gorm_logger" where
  "LogMode l level = l\<lparr>gl_logLevel := level\<rparr>"

text \<open>Whether a message of a level is written.\<close>

definition gorm_message :: "gorm_logger \<Rightarrow> gorm_level \<Rightarrow> bool" where
  "gorm_message l level \<longleftrightarrow> gl_logLevel l \<ge> level"

text \<open>How a statement ended: without an error, with \<open>ErrRecordNotFound\<close>, or with another error.\<close>

datatype query_end = QueryOK | RecordNotFound | QueryError

datatype query_entry = LogError | LogSlow | LogQuery

definition Trace :: "gorm_logger \<Rightarrow> duration \<Rightarrow> query_end \<Rightarrow> query_entry option" where
  "Trace l elapsed err =
     (if gl_logLevel l \<le> Silent then None
      else if err \<noteq> QueryOK \<and> gl_logLevel l \<ge> GormError \<and> err \<noteq> RecordNotFound then Some LogError
      else if elapsed > gl_slowThreshold l \<and> gl_slowThreshold l \<noteq> 0 \<and> gl_logLevel l \<ge> Warn then Some LogSlow
      else if gl_logLevel l \<ge> Info then Some LogQuery
      else None)"

section \<open>Classes of database errors (\<open>gorm_plugin.go\<close>)\<close>

definition classifyError :: "string option \<Rightarrow> string" where
  "classifyError err =
     (case err of
        None \<Rightarrow> []
      | Some msg \<Rightarrow>
          let has = Contains (ToLower msg) in
          if has ''unique'' \<or> has ''duplicate'' \<or> has ''violates'' \<or> has ''constraint'' then ''constraint_violation''
          else if has ''connection'' \<or> has ''refused'' \<or> has ''reset by peer'' \<or> has ''broken pipe'' then ''connection_error''
          else if has ''timeout'' \<or> has ''deadline exceeded'' \<or> has ''canceling statement'' then ''timeout''
          else ''other'')"

text \<open>The table and the schema's table of the statement, if it has them.\<close>

definition extractTableName :: "(string \<times> string option) option \<Rightarrow> string" where
  "extractTableName stmt =
     (case stmt of
        None \<Rightarrow> ''unknown''
      | Some (tbl, schema) \<Rightarrow> if tbl \<noteq> [] then tbl else (case schema of None \<Rightarrow> ''unknown'' | Some t \<Rightarrow> t))"

text \<open>What \<open>afterCallback\<close> counts of a statement: its duration under the first labels, its error under the second.\<close>

definition afterCallback ::
  "string \<Rightarrow> string \<Rightarrow> bool \<Rightarrow> (string \<times> string option) option \<Rightarrow> query_end \<Rightarrow> string \<Rightarrow>
     (string \<times> string) list option \<times> (string \<times> string) list option" where
  "afterCallback version operation started stmt err msg =
     (if \<not> started then (None, None)
      else (Some [(''operation'', operation), (''table'', extractTableName stmt), (''component'', ''api''), (''version'', version)],
            if err \<noteq> QueryOK \<and> err \<noteq> RecordNotFound then
              Some [(''operation'', operation), (''error_type'', classifyError (Some msg)), (''component'', ''api''), (''version'', version)]
            else None))"

section \<open>Tracing (\<open>pkg/telemetry/otel.go\<close>)\<close>

datatype sampler = AlwaysSample | NeverSample | TraceIDRatioBased rat | ParentBased sampler

datatype exporter = Stdout | OTLPHTTP | OTLPGRPC

definition parseSamplingRate :: "(string \<Rightarrow> rat option) \<Rightarrow> (string \<Rightarrow> string) \<Rightarrow> rat" where
  "parseSamplingRate ParseFloat Getenv =
     (let arg = Getenv ''OTEL_TRACES_SAMPLER_ARG'' in
      if arg \<noteq> [] then
        (case ParseFloat arg of None \<Rightarrow> 1 | Some r \<Rightarrow> if 0 \<le> r \<and> r \<le> 1 then r else 1)
      else 1)"

definition selectSampler :: "(string \<Rightarrow> rat option) \<Rightarrow> (string \<Rightarrow> string) \<Rightarrow> sampler" where
  "selectSampler ParseFloat Getenv =
     (let samplerType = ToLower (Getenv ''OTEL_TRACES_SAMPLER''); rate = parseSamplingRate ParseFloat Getenv in
      if samplerType = ''always_on'' then AlwaysSample
      else if samplerType = ''always_off'' then NeverSample
      else if samplerType = ''traceidratio'' then TraceIDRatioBased rate
      else if samplerType = ''parentbased_traceidratio'' \<or> samplerType = [] then ParentBased (TraceIDRatioBased rate)
      else if samplerType = ''parentbased_always_on'' then ParentBased AlwaysSample
      else if samplerType = ''parentbased_always_off'' then ParentBased NeverSample
      else ParentBased (TraceIDRatioBased rate))"

definition createExporter :: "(string \<Rightarrow> string) \<Rightarrow> exporter" where
  "createExporter Getenv =
     (if Getenv ''OTEL_EXPORTER_OTLP_ENDPOINT'' = [] then Stdout
      else let protocol = ToLower (Getenv ''OTEL_EXPORTER_OTLP_PROTOCOL'') in
           if protocol = ''http/protobuf'' then OTLPHTTP else OTLPGRPC)"

section \<open>Facts\<close>

text \<open>No credential is logged: a sensitive header, whatever the case of its name, keeps the number of its values and
  none of them.\<close>

lemma MaskHeaders_masks:
  assumes "mm_enabled m" "(key, vals) \<in> set (MaskHeaders m hs)" "isSensitiveHeader m key"
  shows "\<forall>v\<in>set vals. v = RedactedValue"
  using assms by (auto simp: MaskHeaders_def)

lemma MaskHeaders_others:
  assumes "\<not> isSensitiveHeader m key"
  shows "(key, vals) \<in> set (MaskHeaders m hs) \<longleftrightarrow> (key, vals) \<in> set hs"
  using assms by (force simp: MaskHeaders_def)

text \<open>Every member with a sensitive key holds the placeholder.\<close>

fun masked :: "masking_middleware \<Rightarrow> json \<Rightarrow> bool" where
  "masked m (JObj ms) =
     list_all (\<lambda>e. (if isSensitiveField m (fst e) then snd e = JStr RedactedValue else masked m (snd e))) ms"
| "masked m (JArr xs) = list_all (masked m) xs"
| "masked m _ = True"

text \<open>A body nested at most 101 deep is masked everywhere.\<close>

lemma mask_complete:
  "depth + nesting j \<le> Suc maxDepth \<Longrightarrow> masked m (maskRecursiveDepth m j depth)"
  "depth + nesting (JObj ms) \<le> Suc maxDepth \<Longrightarrow> masked m (JObj (maskMapRecursiveDepth m ms depth))"
proof (induction m j depth and m ms depth rule: maskRecursiveDepth_maskMapRecursiveDepth.induct)
  case (1 m j depth)
  show ?case
  proof (cases j)
    case (JObj v)
    with "1.prems" have "\<not> depth > maxDepth" by simp
    with 1 JObj show ?thesis by (subst maskRecursiveDepth.simps) (simp del: masked.simps)
  next
    case (JArr v)
    with "1.prems" have d: "\<not> depth > maxDepth" by simp
    have "masked m (maskRecursiveDepth m x (depth + 1))" if "x \<in> set v" for x
      using 1(1) [OF d JArr that] nesting_elem [of depth v "Suc maxDepth" x] "1.prems" JArr that by simp
    with d JArr show ?thesis by (subst maskRecursiveDepth.simps) (simp add: list_all_iff)
  qed (simp_all add: maskRecursiveDepth.simps)
next
  case (2 m ms depth)
  have "masked m (case val of JObj v \<Rightarrow> JObj (maskMapRecursiveDepth m v (depth + 1))
           | JArr v \<Rightarrow> JArr (map (\<lambda>item. maskRecursiveDepth m item (depth + 1)) v) | _ \<Rightarrow> val)"
    if e: "(key, val) \<in> set ms" and s: "\<not> isSensitiveField m key" for key val
  proof -
    have n: "Suc depth + nesting val \<le> Suc maxDepth" by (rule nesting_member [OF "2.prems" e])
    show ?thesis
    proof (cases val)
      case (JArr v)
      have "masked m (maskRecursiveDepth m x (depth + 1))" if "x \<in> set v" for x
        using 2(1) [OF e refl s JArr that] nesting_elem [of "depth + 1" v "Suc maxDepth" x] n JArr that by simp
      with JArr show ?thesis by (simp add: list_all_iff)
    qed (use 2(2) [OF e refl s] n in simp_all)
  qed
  then show ?case
    by (subst maskMapRecursiveDepth.simps) (auto simp: list_all_iff)
qed

text \<open>Inside more than 100 nested arrays nothing is masked.\<close>

definition in_arrays :: "nat \<Rightarrow> json \<Rightarrow> json" where
  "in_arrays n j = ((\<lambda>x. JArr [x]) ^^ n) j"

lemma deep_array_unmasked:
  "maxDepth < depth + n \<Longrightarrow> maskRecursiveDepth m (in_arrays n j) depth = in_arrays n j"
proof (induction n arbitrary: depth)
  case 0
  then show ?case by (simp add: maskRecursiveDepth.simps)
next
  case (Suc n)
  from Suc.IH [of "depth + 1"] Suc.prems show ?case
    by (subst maskRecursiveDepth.simps) (simp add: in_arrays_def)
qed

text \<open>A handler that sets the status first and once has it logged and counted as it was sent; a handler that writes
  nothing is answered and logged as 200 and counted as 0.\<close>

fun is_write :: "writer_call \<Rightarrow> bool" where
  "is_write (Write b) = True"
| "is_write (WriteHeader c) = False"

lemma writes_keep:
  assumes "list_all is_write calls" "c \<noteq> 0"
  shows "foldl responseWriter c calls = c \<and> foldl metricsResponseWrapper c calls = c"
  using assms
proof (induction calls)
  case (Cons w calls)
  then show ?case by (cases w) auto
qed simp

lemma status_recorded:
  assumes "list_all is_write calls" "c \<noteq> 0"
  shows "logged_status (WriteHeader c # calls) = c" "counted_status (WriteHeader c # calls) = c"
    "sent_status (WriteHeader c # calls) = c"
  using writes_keep [OF assms] assms(2) by (simp_all add: logged_status_def counted_status_def)

lemma silent_handler: "logged_status [] = 200" "sent_status [] = 200" "counted_status [] = 0"
  by (simp_all add: logged_status_def counted_status_def)

text \<open>Raising the level of the logger loses no entry.\<close>

lemma Trace_mono:
  assumes "Trace l elapsed err \<noteq> None" "gl_logLevel l \<le> level"
  shows "Trace (LogMode l level) elapsed err \<noteq> None"
proof -
  have "\<not> level \<le> Silent" "GormError \<le> gl_logLevel l \<Longrightarrow> GormError \<le> level" "Warn \<le> gl_logLevel l \<Longrightarrow> Warn \<le> level"
    "Info \<le> gl_logLevel l \<Longrightarrow> Info \<le> level"
    using assms by (auto simp: Trace_def dest: order_trans split: if_splits)
  with assms show ?thesis by (auto simp: Trace_def LogMode_def split: if_splits)
qed

text \<open>A client that refuses gzip and takes anything else is answered with gzip.\<close>

lemma refused_gzip_accepted:
  "(\<lambda>s. if s = ''0'' then Some 0 else None) = parse \<Longrightarrow> accepts_gzip parse ''gzip;q=0, *''"
  by (simp add: accepts_gzip_def token_accepts_def ToLower_def TrimSpace_def is_space_def to_lower_def is_upper_def)

lemma sampling_rate_bounds: "0 \<le> parseSamplingRate pf env \<and> parseSamplingRate pf env \<le> 1"
  by (auto simp: parseSamplingRate_def Let_def split: option.splits)

text \<open>The path label of the metrics is that of the route, with the variables struck out.\<close>

lemma metrics_path_example:
  "metrics_path ''GET /api/hyperfleet/v1/clusters/{id}'' = ''/api/hyperfleet/v1/clusters/-''"
  by code_simp

end
