(* ===== verification/Endpoints.thy ===== *)
theory Endpoints
  imports Observability Closer Errors
begin

text \<open>
  The answers that come from no resource handler: the not-found and the panic document (\<open>pkg/api/error.go\<close>), the writer that
  rewrites the 404 of \<open>net/http\<close> (\<open>router.go\<close>), the metadata and OpenAPI endpoints, and the routes of the health and
  metrics servers.  A response is the sequence of calls on the response writer.
\<close>

section \<open>Fixed documents (\<open>error.go\<close>)\<close>

definition not_found_document :: "gotime \<Rightarrow> string \<Rightarrow> string \<Rightarrow> problem_details" where
  "not_found_document now path traceID = \<lparr>pd_Type = ErrorTypeNotFound, pd_Title = ''Endpoint Not Found'', pd_Status = 404,
     pd_Detail = Sprintf ''The requested endpoint '' [] @ [quote_mark] @ path @ [quote_mark] @ '' does not exist'',
     pd_Code = code_text CodeNotFoundEndpoint, pd_Timestamp = now, pd_Instance = Some path, pd_TraceId = Some traceID,
     pd_Errors = None\<rparr>"

definition panic_detail :: string where
  "panic_detail = ''An unexpected error happened, please check the log of the service for details''"

definition panic_document :: "gotime \<Rightarrow> string \<Rightarrow> string \<Rightarrow> problem_details" where
  "panic_document now path traceID = \<lparr>pd_Type = ErrorTypeInternal, pd_Title = ''Internal Server Error'', pd_Status = 500,
     pd_Detail = panic_detail, pd_Code = code_text CodeInternalGeneral, pd_Timestamp = now, pd_Instance = Some path,
     pd_TraceId = Some traceID, pd_Errors = None\<rparr>"

text \<open>What is written: a status, bytes, a document, or the document prepared at start, which has no time and no trace.\<close>

datatype answer_call = HeaderCall nat | BodyCall string | ProblemCall problem_details | PanicBody

record answer =
  an_ContentType :: string
  an_Calls :: "answer_call list"

text \<open>\<open>marshals\<close>: whether \<open>json.Marshal\<close> succeeds.\<close>

definition SendPanic :: "bool \<Rightarrow> gotime \<Rightarrow> string \<Rightarrow> string \<Rightarrow> answer" where
  "SendPanic marshals now path traceID =
     \<lparr>an_ContentType = ''application/problem+json'',
      an_Calls = [HeaderCall 500, if marshals then ProblemCall (panic_document now path traceID) else PanicBody]\<rparr>"

definition SendNotFound :: "bool \<Rightarrow> gotime \<Rightarrow> string \<Rightarrow> string \<Rightarrow> answer" where
  "SendNotFound marshals now path traceID =
     (if marshals then
        \<lparr>an_ContentType = ''application/problem+json'',
         an_Calls = [HeaderCall 404, ProblemCall (not_found_document now path traceID)]\<rparr>
      else SendPanic marshals now path traceID)"

section \<open>The writer for unmatched requests (\<open>router.go\<close>)\<close>

text \<open>What reaches the underlying writer of the calls \<open>net/http\<close> makes when no pattern matches; \<open>handled\<close> is the flag of the
  writer.\<close>

fun notFoundResponseWriter :: "answer \<Rightarrow> bool \<Rightarrow> writer_call list \<Rightarrow> answer_call list" where
  "notFoundResponseWriter document handled [] = []"
| "notFoundResponseWriter document handled (WriteHeader code # calls) =
     (if code = 404 then an_Calls document @ notFoundResponseWriter document True calls
      else HeaderCall code # notFoundResponseWriter document handled calls)"
| "notFoundResponseWriter document handled (Write b # calls) =
     (if handled then notFoundResponseWriter document handled calls
      else BodyCall b # notFoundResponseWriter document handled calls)"

fun plain_call :: "writer_call \<Rightarrow> answer_call" where
  "plain_call (WriteHeader code) = HeaderCall code"
| "plain_call (Write b) = BodyCall b"

definition WithNotFoundHandler :: "answer \<Rightarrow> string \<Rightarrow> writer_call list \<Rightarrow> answer_call list" where
  "WithNotFoundHandler document pattern calls =
     (if pattern = [] then notFoundResponseWriter document False calls else map plain_call calls)"

section \<open>Metadata and OpenAPI\<close>

record api_metadata =
  md_ID :: string
  md_HREF :: string
  md_Kind :: string
  md_Version :: string
  md_BuildTime :: string

definition metadata_body :: "string \<Rightarrow> string \<Rightarrow> string \<Rightarrow> api_metadata" where
  "metadata_body version buildTime path =
     \<lparr>md_ID = ''hyperfleet'', md_HREF = path, md_Kind = ''API'', md_Version = version, md_BuildTime = buildTime\<rparr>"

text \<open>\<open>Get\<close>: the document or the panic answer.\<close>

definition MetadataHandler_Get :: "(api_metadata \<Rightarrow> string option) \<Rightarrow> gotime \<Rightarrow> string \<Rightarrow> string \<Rightarrow> string \<Rightarrow> string \<Rightarrow> answer" where
  "MetadataHandler_Get Marshal now traceID version buildTime path =
     (case Marshal (metadata_body version buildTime path) of
        None \<Rightarrow> SendPanic True now path traceID
      | Some data \<Rightarrow> \<lparr>an_ContentType = ''application/json'', an_Calls = [BodyCall data]\<rparr>)"

record openapi_handler =
  oh_openAPIDefinitions :: string
  oh_uiContent :: string

text \<open>The embedded specification, its JSON and the embedded page, each with its error.\<close>

definition NewOpenAPIHandler :: "string option \<Rightarrow> string + string \<Rightarrow> string + string \<Rightarrow> service_error + openapi_handler" where
  "NewOpenAPIHandler specErr json page =
     (case specErr of
        Some err \<Rightarrow> Inl (GeneralError ''can't load OpenAPI specification from generated code: %v'' [FS err])
      | None \<Rightarrow>
          (case json of
             Inl err \<Rightarrow> Inl (GeneralError ''can't marshal OpenAPI specification to JSON: %v'' [FS err])
           | Inr data \<Rightarrow>
               (case page of
                  Inl err \<Rightarrow> Inl (GeneralError ''can't load OpenAPI UI HTML from embedded file: %v'' [FS err])
                | Inr ui \<Rightarrow> Inr \<lparr>oh_openAPIDefinitions = data, oh_uiContent = ui\<rparr>)))"

definition GetOpenAPI :: "openapi_handler \<Rightarrow> answer" where
  "GetOpenAPI h = \<lparr>an_ContentType = ''application/json'', an_Calls = [HeaderCall 200, BodyCall (oh_openAPIDefinitions h)]\<rparr>"

definition GetOpenAPIUI :: "openapi_handler \<Rightarrow> answer" where
  "GetOpenAPIUI h = \<lparr>an_ContentType = ''text/html'', an_Calls = [HeaderCall 200, BodyCall (oh_uiContent h)]\<rparr>"

section \<open>The health and metrics servers\<close>

datatype side_handler = Liveness | Readiness | Prometheus

definition health_routes :: "(string \<times> side_handler) list" where
  "health_routes = [(''GET /healthz'', Liveness), (''GET /readyz'', Readiness)]"

definition metrics_routes :: "(string \<times> side_handler) list" where
  "metrics_routes = [(''GET /metrics'', Prometheus)]"

record http_server =
  hs_Addr :: string
  hs_ReadTimeout :: duration
  hs_WriteTimeout :: duration
  hs_IdleTimeout :: duration
  hs_ReadHeaderTimeout :: duration

definition NewHealthServer :: "health_config \<Rightarrow> http_server" where
  "NewHealthServer cfg = \<lparr>hs_Addr = HealthConfig_BindAddress cfg, hs_ReadTimeout = 5 * Second, hs_WriteTimeout = 10 * Second,
     hs_IdleTimeout = 60 * Second, hs_ReadHeaderTimeout = 10 * Second\<rparr>"

definition NewMetricsServer :: "metrics_config \<Rightarrow> http_server" where
  "NewMetricsServer cfg = \<lparr>hs_Addr = MetricsConfig_BindAddress cfg, hs_ReadTimeout = 5 * Second, hs_WriteTimeout = 10 * Second,
     hs_IdleTimeout = 60 * Second, hs_ReadHeaderTimeout = 10 * Second\<rparr>"

definition NewAPIServer :: "server_config \<Rightarrow> http_server" where
  "NewAPIServer cfg = \<lparr>hs_Addr = ServerConfig_BindAddress cfg, hs_ReadTimeout = ServerConfig_ReadTimeout cfg,
     hs_WriteTimeout = ServerConfig_WriteTimeout cfg, hs_IdleTimeout = 0, hs_ReadHeaderTimeout = 10 * Second\<rparr>"

section \<open>Facts\<close>

text \<open>The standard 404 of \<open>net/http\<close> is replaced as a whole; any other answer to an unmatched request, such as the 405 for
  the wrong method, and every answer of a matched route pass unchanged.\<close>

lemma not_found_rewritten:
  "WithNotFoundHandler (SendNotFound True now path traceID) [] [WriteHeader 404, Write b] =
     [HeaderCall 404, ProblemCall (not_found_document now path traceID)]"
  by (simp add: WithNotFoundHandler_def SendNotFound_def)

lemma other_answers_pass:
  assumes "WriteHeader 404 \<notin> set calls \<or> pattern \<noteq> []"
  shows "WithNotFoundHandler document pattern calls = map plain_call calls"
proof -
  have "WriteHeader 404 \<notin> set calls \<Longrightarrow> notFoundResponseWriter document False calls = map plain_call calls"
  proof (induction calls)
    case (Cons c calls)
    then show ?case by (cases c) auto
  qed simp
  with assms show ?thesis by (auto simp: WithNotFoundHandler_def)
qed

end
