(* ===== verification/Reconciliation_Metrics.thy ===== *)
theory Reconciliation_Metrics
  imports Database
begin

text \<open>
  The gauges of pending reconciliation (\<open>pkg/metrics/reconciliation.go\<close>): the query over resources and their Reconciled
  conditions, and what the collector emits for its rows.
\<close>

record gauge_row =
  gr_resourceType :: string
  gr_isDelete :: string
  gr_pending :: nat
  gr_stuck :: nat
  gr_maxDuration :: int

text \<open>The rows of \<open>unreconciled\<close>: lower-cased kind, whether deletion is under way, transition time.\<close>

definition unreconciled :: "tables \<Rightarrow> (string \<times> string \<times> gotime) list" where
  "unreconciled t =
     concat (map (\<lambda>r. map (\<lambda>c. (ToLower (res_Kind r), if res_DeletedTime r \<noteq> None then ''true'' else ''false'', rc_LastTransitionTime c))
       (filter (\<lambda>c. rc_ResourceID c = res_ID r \<and> rc_Type c = ''Reconciled'' \<and> rc_Status c = ''False'') (t_conditions t)))
       (t_resources t))"

text \<open>One group: counts, and the longest time in nanoseconds a stuck resource has waited at \<open>now\<close>.\<close>

definition gauge_of :: "gotime \<Rightarrow> gotime \<Rightarrow> (string \<times> string \<times> gotime) list \<Rightarrow> string \<times> string \<Rightarrow> gauge_row" where
  "gauge_of now threshold rows key =
     (let times = map (snd \<circ> snd) (filter (\<lambda>r. (fst r, fst (snd r)) = key) rows);
          stuck = filter (\<lambda>s. s < threshold) times
      in \<lparr>gr_resourceType = fst key, gr_isDelete = snd key, gr_pending = length times, gr_stuck = length stuck,
          gr_maxDuration = (if stuck = [] then 0 else Max (set (map (\<lambda>s. now - s) stuck)))\<rparr>)"

definition reconciliationQuery :: "gotime \<Rightarrow> gotime \<Rightarrow> tables \<Rightarrow> gauge_row list" where
  "reconciliationQuery now threshold t =
     (let rows = unreconciled t in map (gauge_of now threshold rows) (remdups (map (\<lambda>r. (fst r, fst (snd r))) rows)))"

datatype emitted = Pending string string nat | Stuck string string nat | StuckDuration string string int | Invalid string

definition emitInvalid :: "emitted list" where
  "emitInvalid = [Invalid ''pending'', Invalid ''stuck'', Invalid ''duration'']"

text \<open>Scanning stops at the first row that cannot be read; \<open>scan\<close> tells which, \<open>rowsErr\<close> whether iterating failed.\<close>

fun emit_rows :: "(gauge_row \<Rightarrow> bool) \<Rightarrow> bool \<Rightarrow> gauge_row list \<Rightarrow> emitted list" where
  "emit_rows scan rowsErr [] = (if rowsErr then emitInvalid else [])"
| "emit_rows scan rowsErr (r # rs) =
     (if \<not> scan r then emitInvalid
      else [Pending (gr_resourceType r) (gr_isDelete r) (gr_pending r), Stuck (gr_resourceType r) (gr_isDelete r) (gr_stuck r),
            StuckDuration (gr_resourceType r) (gr_isDelete r) (gr_maxDuration r)] @ emit_rows scan rowsErr rs)"

definition Collect_metrics ::
  "bool \<Rightarrow> gotime \<Rightarrow> int \<Rightarrow> bool \<Rightarrow> (gauge_row \<Rightarrow> bool) \<Rightarrow> bool \<Rightarrow> tables \<Rightarrow> emitted list" where
  "Collect_metrics hasDB now stuckThreshold queryOK scan rowsErr t =
     (if \<not> hasDB then []
      else if \<not> queryOK then emitInvalid
      else emit_rows scan rowsErr (reconciliationQuery now (now - stuckThreshold) t))"

section \<open>Facts\<close>

lemma length_filter_keys:
  "set (map f rows) \<subseteq> set keys \<Longrightarrow> distinct keys \<Longrightarrow>
     (\<Sum>k\<leftarrow>keys. length (filter (\<lambda>r. f r = k) rows)) = length rows"
proof (induction rows)
  case Nil
  then show ?case by (induction keys) auto
next
  case (Cons r rows)
  have "(\<Sum>k\<leftarrow>keys. length (filter (\<lambda>x. f x = k) (r # rows))) =
      (\<Sum>k\<leftarrow>keys. (if k = f r then 1 else 0) + length (filter (\<lambda>x. f x = k) rows))"
    by (intro arg_cong [where f = sum_list] map_cong) auto
  also have "\<dots> = (\<Sum>k\<leftarrow>keys. if k = f r then 1 else 0) + length rows"
    using Cons by (simp add: sum_list_addf)
  also have "(\<Sum>k\<leftarrow>keys. if k = f r then 1 else (0 :: nat)) = 1"
    using Cons.prems by (simp add: sum_list_distinct_conv_sum_set sum.If_cases Int_absorb1)
  finally show ?case by simp
qed

text \<open>The pending gauges add up to the unreconciled resources, each counted in one group, and stuck ones are pending ones.\<close>

lemma pending_partition:
  "(\<Sum>g\<leftarrow>reconciliationQuery now threshold t. gr_pending g) = length (unreconciled t)"
proof -
  let ?f = "\<lambda>r :: string \<times> string \<times> gotime. (fst r, fst (snd r))"
  have "(\<Sum>g\<leftarrow>reconciliationQuery now threshold t. gr_pending g) =
      (\<Sum>k\<leftarrow>remdups (map ?f (unreconciled t)). length (filter (\<lambda>r. ?f r = k) (unreconciled t)))"
    by (simp add: reconciliationQuery_def gauge_of_def Let_def o_def)
  also have "\<dots> = length (unreconciled t)" by (rule length_filter_keys) auto
  finally show ?thesis .
qed

lemma query_row:
  assumes "g \<in> set (reconciliationQuery now threshold t)"
  obtains ts where "gr_pending g = length ts" "gr_stuck g = length (filter (\<lambda>s. s < threshold) ts)"
    "gr_maxDuration g = (if filter (\<lambda>s. s < threshold) ts = [] then 0
       else Max (set (map (\<lambda>s. now - s) (filter (\<lambda>s. s < threshold) ts))))"
proof -
  from assms obtain key where "g = gauge_of now threshold (unreconciled t) key"
    by (auto simp: reconciliationQuery_def Let_def)
  then show thesis
    by (intro that [of "map (snd \<circ> snd) (filter (\<lambda>r. (fst r, fst (snd r)) = key) (unreconciled t))"])
      (simp_all only: gauge_of_def Let_def gauge_row.simps)
qed

lemma stuck_le_pending:
  assumes "g \<in> set (reconciliationQuery now threshold t)"
  shows "gr_stuck g \<le> gr_pending g"
  using assms by (rule query_row) simp

lemma stuck_duration:
  assumes "g \<in> set (reconciliationQuery now (now - d) t)" "gr_stuck g > 0"
  shows "gr_maxDuration g > d"
proof (rule query_row [OF assms(1)])
  fix ts
  let ?stuck = "filter (\<lambda>s. s < now - d) ts"
  assume s: "gr_stuck g = length ?stuck"
    and m: "gr_maxDuration g = (if ?stuck = [] then 0 else Max (set (map (\<lambda>s. now - s) ?stuck)))"
  from s assms(2) obtain x where x: "x \<in> set ?stuck" by (cases ?stuck) auto
  then have "now - x \<le> Max (set (map (\<lambda>s. now - s) ?stuck))" by (intro Max_ge) auto
  moreover have "?stuck \<noteq> []" using x by (metis empty_iff empty_set)
  ultimately have "now - x \<le> gr_maxDuration g" using m by simp
  with x show ?thesis by simp
qed

end
