(* ===== verification/Advisory_Lock.thy ===== *)
theory Advisory_Lock
  imports Prelude
begin

text \<open>
  Advisory locks (\<open>pkg/db/context.go\<close>, \<open>advisory_locks.go\<close>) and the migration that runs under one
  (\<open>migrations.go\<close>).  The map of locks a context carries is shared by every context derived from it, so it lives in
  a store and contexts hold its address.  PostgreSQL is the list of keys its transactions hold: a key is granted to
  one transaction at a time, a wait ends with the statement timeout, and the end of a transaction, however it ends,
  gives its keys back.
\<close>

section \<open>Lock keys\<close>

text \<open>\<open>hash/fnv\<close>: the 32-bit FNV-1a hash; \<open>int32(h.Sum32())\<close> has the same bits.\<close>

definition fnv_offset :: "32 word" where "fnv_offset = 2166136261"
definition fnv_prime :: "32 word" where "fnv_prime = 16777619"

definition fnv_byte :: "32 word \<Rightarrow> char \<Rightarrow> 32 word" where
  "fnv_byte h c = (xor h (word_of_nat (of_char c))) * fnv_prime"

definition hash_int32 :: "string \<Rightarrow> int32" where
  "hash_int32 s = foldl fnv_byte fnv_offset s"

definition Migrations :: string where "Migrations = ''Migrations''"
definition MigrationsLockID :: string where "MigrationsLockID = ''migrations''"

type_synonym lock_key = "int32 \<times> int32"

definition lock_key :: "string \<Rightarrow> string \<Rightarrow> lock_key" where
  "lock_key i lockType = (hash_int32 i, hash_int32 lockType)"

section \<open>Locks, contexts and the store\<close>

text \<open>\<open>g2\<close> is the open transaction of the lock, or nil.\<close>

record advisory_lock =
  al_ownerUUID :: string
  al_id :: string
  al_lockType :: string
  al_g2 :: bool

type_synonym lock_map = "(string \<times> advisory_lock) list"

record lock_context =
  lx_Tx :: bool
  lx_Locks :: "nat option"

text \<open>The maps by address, the number of identifiers and statements so far, the keys held in PostgreSQL.\<close>

record lock_state =
  ls_maps :: "lock_map list"
  ls_ids :: nat
  ls_statements :: nat
  ls_held :: "lock_key list"

text \<open>The stream of identifiers, the error of the n-th statement, whether there is a session factory.\<close>

record lock_env =
  le_uuid :: "nat \<Rightarrow> string"
  le_error :: "nat \<Rightarrow> string option"
  le_connection :: bool

definition map_key :: "string \<Rightarrow> string \<Rightarrow> string" where
  "map_key i lockType = i @ '':'' @ lockType"

definition lock_of :: "lock_state \<Rightarrow> lock_context \<Rightarrow> string \<Rightarrow> string \<Rightarrow> advisory_lock option" where
  "lock_of st cx i lockType =
     (case lx_Locks cx of None \<Rightarrow> None | Some a \<Rightarrow> map_of (ls_maps st ! a) (map_key i lockType))"

definition statement :: "lock_env \<Rightarrow> lock_state \<Rightarrow> string option \<times> lock_state" where
  "statement env st = (le_error env (ls_statements st), st\<lparr>ls_statements := ls_statements st + 1\<rparr>)"

text \<open>\<open>newAdvisoryLock\<close> opens a transaction, \<open>lock\<close> sets the timeout and asks for the key.\<close>

definition newAdvisoryLock ::
  "lock_env \<Rightarrow> string \<Rightarrow> string \<Rightarrow> string \<Rightarrow> lock_state \<Rightarrow> (string + advisory_lock) \<times> lock_state" where
  "newAdvisoryLock env ownerUUID i lockType st =
     (if \<not> le_connection env then (Inl ''AdvisoryLock: connection factory is missing'', st)
      else case statement env st of
             (Some err, st') \<Rightarrow> (Inl err, st')
           | (None, st') \<Rightarrow>
               (Inr \<lparr>al_ownerUUID = ownerUUID, al_id = i, al_lockType = lockType, al_g2 = True\<rparr>, st'))"

definition timeout_text :: string where
  "timeout_text = ''canceling statement due to statement timeout''"

definition acquire :: "lock_env \<Rightarrow> advisory_lock \<Rightarrow> lock_state \<Rightarrow> string option \<times> lock_state" where
  "acquire env l st =
     (if \<not> al_g2 l then (Some ''AdvisoryLock: transaction is missing'', st)
      else case statement env st of
             (Some err, st1) \<Rightarrow> (Some err, st1)
           | (None, st1) \<Rightarrow>
               (case statement env st1 of
                  (Some err, st2) \<Rightarrow> (Some err, st2)
                | (None, st2) \<Rightarrow>
                    if lock_key (al_id l) (al_lockType l) \<in> set (ls_held st2) then (Some timeout_text, st2)
                    else (None, st2\<lparr>ls_held := lock_key (al_id l) (al_lockType l) # ls_held st2\<rparr>)))"

definition locks_set :: "nat \<Rightarrow> string \<Rightarrow> advisory_lock \<Rightarrow> lock_state \<Rightarrow> lock_state" where
  "locks_set a k l st = st\<lparr>ls_maps := (ls_maps st)[a := (k, l) # filter (\<lambda>e. fst e \<noteq> k) (ls_maps st ! a)]\<rparr>"

definition in_transaction_text :: string where
  "in_transaction_text =
     (let nl = [char_of (10 :: nat)] in
      ''advisory lock cannot be acquired within an existing transaction.'' @ nl @
      ''This causes a race condition where lock is released before transaction commits.'' @ nl @ nl @
      ''Correct patterns:'' @ nl @
      ''  1. For pod coordination: Acquire lock BEFORE transaction'' @ nl @
      ''  2. For row-level concurrency: Use SELECT FOR UPDATE instead'')"

text \<open>The context, the owner identifier and the error it returns.\<close>

definition NewAdvisoryLockContext ::
  "lock_env \<Rightarrow> lock_context \<Rightarrow> string \<Rightarrow> string \<Rightarrow> lock_state \<Rightarrow>
     (lock_context \<times> string \<times> string option) \<times> lock_state" where
  "NewAdvisoryLockContext env cx i lockType st =
     (if lx_Tx cx then ((cx, [], Some in_transaction_text), st)
      else
        let lockOwnerID = le_uuid env (ls_ids st); st = st\<lparr>ls_ids := ls_ids st + 1\<rparr> in
        if lock_of st cx i lockType \<noteq> None then ((cx, lockOwnerID, None), st)
        else case newAdvisoryLock env lockOwnerID i lockType st of
               (Inl err, st1) \<Rightarrow> ((cx, lockOwnerID, Some err), st1)
             | (Inr lock, st1) \<Rightarrow>
                 (case acquire env lock st1 of
                    (Some err, st2) \<Rightarrow> ((cx, lockOwnerID, Some err), st2)
                  | (None, st2) \<Rightarrow>
                      (case lx_Locks cx of
                         Some a \<Rightarrow> ((cx, lockOwnerID, None), locks_set a (map_key i lockType) lock st2)
                       | None \<Rightarrow>
                           ((cx\<lparr>lx_Locks := Some (length (ls_maps st2))\<rparr>, lockOwnerID, None),
                            st2\<lparr>ls_maps := ls_maps st2 @ [[(map_key i lockType, lock)]]\<rparr>))))"

text \<open>\<open>unlock\<close> commits: the lock, its error, the state.\<close>

definition unlock :: "lock_env \<Rightarrow> advisory_lock \<Rightarrow> lock_state \<Rightarrow> (advisory_lock \<times> string option) \<times> lock_state" where
  "unlock env l st =
     (if \<not> al_g2 l then ((l, Some ''AdvisoryLock: transaction is missing''), st)
      else case statement env st of
             (err, st1) \<Rightarrow>
               ((l\<lparr>al_g2 := False\<rparr>, err),
                st1\<lparr>ls_held := remove1 (lock_key (al_id l) (al_lockType l)) (ls_held st1)\<rparr>))"

text \<open>The loop of \<open>Unlock\<close> over the map: an entry stays when it is another owner's or when its unlock failed.\<close>

fun unlock_entries :: "lock_env \<Rightarrow> string \<Rightarrow> lock_map \<Rightarrow> lock_state \<Rightarrow> lock_map \<times> lock_state" where
  "unlock_entries env callerUUID [] st = ([], st)"
| "unlock_entries env callerUUID ((k, l) # m) st =
     (if al_ownerUUID l = callerUUID then
        (case unlock env l st of
           ((l', Some err), st') \<Rightarrow> (case unlock_entries env callerUUID m st' of (m', st'') \<Rightarrow> ((k, l') # m', st''))
         | ((l', None), st') \<Rightarrow> unlock_entries env callerUUID m st')
      else case unlock_entries env callerUUID m st of (m', st'') \<Rightarrow> ((k, l) # m', st''))"

definition Unlock :: "lock_env \<Rightarrow> lock_context \<Rightarrow> string \<Rightarrow> lock_state \<Rightarrow> lock_state" where
  "Unlock env cx callerUUID st =
     (case lx_Locks cx of
        None \<Rightarrow> st
      | Some a \<Rightarrow>
          (case unlock_entries env callerUUID (ls_maps st ! a) st of
             (m, st') \<Rightarrow> st'\<lparr>ls_maps := (ls_maps st')[a := m]\<rparr>))"

text \<open>\<open>MigrateWithLock\<close>: the error, the state in which the migrations ran, if they ran, and the state afterwards.  What
  the migrations do to the tables is an argument; here only their error counts.\<close>

definition MigrateWithLock ::
  "lock_env \<Rightarrow> (lock_state \<Rightarrow> string option) \<Rightarrow> lock_context \<Rightarrow> lock_state \<Rightarrow>
     string option \<times> lock_state option \<times> lock_state" where
  "MigrateWithLock env Migrate cx st =
     (case NewAdvisoryLockContext env cx MigrationsLockID Migrations st of
        ((cx', lockOwnerID, Some err), st') \<Rightarrow> (Some err, None, st')
      | ((cx', lockOwnerID, None), st') \<Rightarrow> (Migrate st', Some st', Unlock env cx' lockOwnerID st'))"

text \<open>\<open>GetAdvisoryLockTimeout\<close> and the milliseconds it becomes.\<close>

definition GetAdvisoryLockTimeout :: "int \<Rightarrow> int" where
  "GetAdvisoryLockTimeout configured =
     (let secs = sgn configured * (\<bar>configured\<bar> div 10 ^ 9) in if secs = 0 then 300 else secs)"

section \<open>Who holds what\<close>

text \<open>The keys of the locks of a map whose transaction is open.\<close>

definition open_keys :: "lock_map \<Rightarrow> lock_key list" where
  "open_keys m = map (\<lambda>(k, l). lock_key (al_id l) (al_lockType l)) (filter (\<lambda>(k, l). al_g2 l) m)"

lemma statement_simps [simp]:
  "ls_maps (snd (statement env st)) = ls_maps st" "ls_held (snd (statement env st)) = ls_held st"
  "ls_ids (snd (statement env st)) = ls_ids st"
  by (simp_all add: statement_def)

text \<open>An identifier that owns no entry unlocks nothing.\<close>

lemma unlock_entries_other:
  "\<forall>(k, l) \<in> set m. al_ownerUUID l \<noteq> u \<Longrightarrow> unlock_entries env u m st = (m, st)"
  by (induction m) auto

lemma Unlock_other:
  assumes "lx_Locks cx = Some a" "\<forall>(k, l) \<in> set (ls_maps st ! a). al_ownerUUID l \<noteq> u"
  shows "Unlock env cx u st = st"
  using unlock_entries_other [OF assms(2)] assms(1) by (simp add: Unlock_def)

text \<open>A nested request for a lock the context already has takes a new identifier and nothing else; unlocking with it
  leaves the lock with its owner.\<close>

lemma lock_of_ids [simp]: "lock_of (st\<lparr>ls_ids := n\<rparr>) cx i lockType = lock_of st cx i lockType"
  by (simp add: lock_of_def split: option.splits)

lemma nested_acquire:
  assumes "\<not> lx_Tx cx" "lock_of st cx i lockType = Some l"
  shows "NewAdvisoryLockContext env cx i lockType st = ((cx, le_uuid env (ls_ids st), None), st\<lparr>ls_ids := ls_ids st + 1\<rparr>)"
  using assms by (simp add: NewAdvisoryLockContext_def Let_def)

lemma nested_round:
  assumes "\<not> lx_Tx cx" "lx_Locks cx = Some a" "lock_of st cx i lockType = Some l"
    and fresh: "\<forall>(k, l) \<in> set (ls_maps st ! a). al_ownerUUID l \<noteq> le_uuid env (ls_ids st)"
    and "NewAdvisoryLockContext env cx i lockType st = ((cx', u, e), st')"
  shows "e = None \<and> ls_held (Unlock env cx' u st') = ls_held st \<and> ls_maps (Unlock env cx' u st') = ls_maps st"
proof -
  from assms(5) nested_acquire [OF assms(1,3)] have
    r: "cx' = cx" "u = le_uuid env (ls_ids st)" "e = None" "st' = st\<lparr>ls_ids := ls_ids st + 1\<rparr>" by simp_all
  then have "Unlock env cx' u st' = st'"
    using Unlock_other [of cx a st' u] assms(2) fresh by simp
  with r show ?thesis by simp
qed

text \<open>A request that gets a new lock holds its key, which nobody held; one that fails leaves the keys as they were.\<close>

lemma acquire_cases:
  assumes "acquire env l st = (r, st')" "al_g2 l"
  shows "ls_maps st' = ls_maps st \<and> ls_ids st' = ls_ids st \<and>
    (case r of
       None \<Rightarrow> lock_key (al_id l) (al_lockType l) \<notin> set (ls_held st) \<and>
               ls_held st' = lock_key (al_id l) (al_lockType l) # ls_held st
     | Some _ \<Rightarrow> ls_held st' = ls_held st)"
  using assms by (auto simp: acquire_def statement_def split: option.splits if_splits prod.splits)

lemma fresh_acquire:
  assumes "NewAdvisoryLockContext env cx i lockType st = ((cx', u, e), st')" "lx_Locks cx = None"
  shows "case e of
      Some _ \<Rightarrow> ls_held st' = ls_held st
    | None \<Rightarrow> lock_key i lockType \<notin> set (ls_held st) \<and> ls_held st' = lock_key i lockType # ls_held st \<and>
        (\<exists>a. lx_Locks cx' = Some a \<and> a < length (ls_maps st') \<and>
           ls_maps st' ! a = [(map_key i lockType, \<lparr>al_ownerUUID = u, al_id = i, al_lockType = lockType, al_g2 = True\<rparr>)])"
proof -
  have none: "lock_of (st\<lparr>ls_ids := n\<rparr>) cx i lockType = None" for n using assms(2) by (simp add: lock_of_def)
  show ?thesis
    using assms none
    by (auto simp: NewAdvisoryLockContext_def newAdvisoryLock_def statement_def Let_def nth_append
        split: option.splits if_splits prod.splits sum.splits dest!: acquire_cases) metis
qed

lemma Unlock_sole:
  assumes "lx_Locks cx = Some a" "a < length (ls_maps st)"
    "ls_maps st ! a = [(k, \<lparr>al_ownerUUID = u, al_id = i, al_lockType = lockType, al_g2 = True\<rparr>)]"
  shows "ls_held (Unlock env cx u st) = remove1 (lock_key i lockType) (ls_held st)"
  using assms by (simp add: Unlock_def unlock_def statement_def split: option.splits)

text \<open>Migrations started from a context without locks run only while their process holds the migration lock, which
  nobody held before; however they end, and whatever statement fails, the lock is given back.\<close>

lemma migrations_locked:
  assumes "MigrateWithLock env Migrate cx st = (err, during, st')" "lx_Locks cx = None"
  shows "ls_held st' = ls_held st \<and>
    (case during of
       None \<Rightarrow> err \<noteq> None
     | Some s \<Rightarrow> err = Migrate s \<and> lock_key MigrationsLockID Migrations \<notin> set (ls_held st) \<and>
         ls_held s = lock_key MigrationsLockID Migrations # ls_held st)"
proof -
  obtain cx' u e s where n: "NewAdvisoryLockContext env cx MigrationsLockID Migrations st = ((cx', u, e), s)"
    by (metis prod.exhaust)
  note f = fresh_acquire [OF n assms(2)]
  show ?thesis
  proof (cases e)
    case (Some m)
    with assms(1) n f show ?thesis by (auto simp: MigrateWithLock_def)
  next
    case None
    with f obtain a where a: "lx_Locks cx' = Some a" "a < length (ls_maps s)"
      "ls_maps s ! a = [(map_key MigrationsLockID Migrations,
         \<lparr>al_ownerUUID = u, al_id = MigrationsLockID, al_lockType = Migrations, al_g2 = True\<rparr>)]"
      and h: "lock_key MigrationsLockID Migrations \<notin> set (ls_held st)"
        "ls_held s = lock_key MigrationsLockID Migrations # ls_held st" by auto
    from Unlock_sole [OF a, of env] h have "ls_held (Unlock env cx' u s) = ls_held st" by simp
    with assms(1) n None h show ?thesis by (auto simp: MigrateWithLock_def)
  qed
qed

text \<open>When the commit of \<open>Unlock\<close> fails, the entry stays in the map of the context with its transaction gone: the next
  request of that context is answered as if the lock were held, and it is not.\<close>

definition lossy_env :: lock_env where
  "lossy_env = \<lparr>le_uuid = (\<lambda>n. replicate n (CHR ''u'')), le_error = (\<lambda>n. if n = 3 then Some ''connection lost'' else None),
     le_connection = True\<rparr>"

definition idle :: lock_state where
  "idle = \<lparr>ls_maps = [], ls_ids = 0, ls_statements = 0, ls_held = []\<rparr>"

lemma lock_reused_after_failed_commit:
  "\<exists>cx u st st'. NewAdvisoryLockContext lossy_env \<lparr>lx_Tx = False, lx_Locks = None\<rparr> MigrationsLockID Migrations idle = ((cx, u, None), st) \<and>
     (\<exists>u'. NewAdvisoryLockContext lossy_env cx MigrationsLockID Migrations (Unlock lossy_env cx u st) = ((cx, u', None), st')) \<and>
     ls_held st' = []"
  by (simp add: NewAdvisoryLockContext_def lock_of_def idle_def lossy_env_def newAdvisoryLock_def acquire_def Unlock_def
      unlock_def statement_def Let_def)

end
