(* ===== verification/Server.thy ===== *)
theory Server
  imports Startup Endpoints Handler_Safety Phases
begin

text \<open>
  The server as a whole: a request is matched to a route, passes the middleware the route is wrapped in, and is
  answered by the handler, which runs the service on the database.  What the other theories state of the parts is put
  together here for the requests a started process serves.
\<close>

section \<open>Requests\<close>

text \<open>A request as it comes from the network.  The body is given as the middleware reads it and as the decoder of
  each request type reads it; \<open>in_RequestID\<close> is the identifier \<open>WithRequestID\<close> gives it, unless making one fails.\<close>

record incoming =
  in_Method :: string
  in_Path :: string
  in_Header :: "(string \<times> string list) list"
  in_Query :: url_values
  in_RequestID :: "string option"
  in_Body :: "jsonb option"
  in_Create :: "resource_create_request decoder"
  in_Patch :: "resource_patch_request decoder"
  in_Reason :: "force_delete_request decoder"
  in_Status :: "adapter_status_request decoder"

text \<open>What the middleware and the handlers of a server are built from.  \<open>sv_unmatched\<close> is what \<open>net/http\<close> writes for a
  request that matches no pattern, \<open>sv_marshals\<close> whether the not-found document can be encoded.\<close>

record server =
  sv_env :: environment
  sv_validators :: "issuer_validator list"
  sv_tenant :: tenant_config
  sv_schema :: schema_validator
  sv_engine :: list_engine
  sv_params :: "list_params \<Rightarrow> validator_error option"
  sv_reflect :: "presented_resource \<Rightarrow> gval"
  sv_Marshal :: "api_metadata \<Rightarrow> string option"
  sv_Version :: string
  sv_BuildTime :: string
  sv_openapi :: openapi_handler
  sv_unmatched :: "incoming \<Rightarrow> writer_call list"
  sv_marshals :: bool

text \<open>A response of the API, a document, or the answer to a request that matches no pattern.\<close>

datatype reply = Api http_response | Document Endpoints.answer | Unrouted "answer_call list"

section \<open>Handlers\<close>

text \<open>\<open>r.PathValue\<close>: the segment at the wildcard of the pattern that matched; an escaped slash within a segment is left
  out of the model.\<close>

definition PathValue :: "string \<Rightarrow> string \<Rightarrow> string \<Rightarrow> string" where
  "PathValue pattern path name =
     (case map_of (zip (Split (CHR ''/'') (stripMethodPrefix pattern)) (Split (CHR ''/'') path)) (''{'' @ name @ ''}'') of
        None \<Rightarrow> []
      | Some seg \<Rightarrow> seg)"

definition handler_request :: "string \<Rightarrow> incoming \<Rightarrow> string option \<Rightarrow> Handlers.http_request" where
  "handler_request pattern q rid =
     \<lparr>Handlers.http_request.rq_Path = in_Path q, rq_ID = PathValue pattern (in_Path q) ''id'',
      rq_ParentID = PathValue pattern (in_Path q) ''parent_id'', rq_Query = in_Query q, rq_RequestID = rid\<rparr>"

fun kind_handler ::
  "server \<Rightarrow> req_context \<Rightarrow> incoming \<Rightarrow> Handlers.http_request \<Rightarrow> entity_descriptor \<Rightarrow> handler_op \<Rightarrow> http_response op" where
  "kind_handler sv cx q h d OpList = Handler_List (sv_env sv) (sv_engine sv) (sv_params sv) (sv_reflect sv) cx d h"
| "kind_handler sv cx q h d OpCreate = Handler_Create (sv_env sv) cx d h (in_Create q)"
| "kind_handler sv cx q h d OpGet = Handler_Get (sv_env sv) (sv_reflect sv) cx d h"
| "kind_handler sv cx q h d OpPatch = Handler_Patch (sv_env sv) cx d h (in_Patch q)"
| "kind_handler sv cx q h d OpDelete = Handler_Delete (sv_env sv) cx d h"
| "kind_handler sv cx q h d OpForceDelete = Handler_ForceDelete (sv_env sv) cx d h (in_Reason q)"
| "kind_handler sv cx q h d OpListStatuses = StatusHandler_List (sv_env sv) (sv_params sv) cx d h"
| "kind_handler sv cx q h d OpCreateStatus = StatusHandler_Create (sv_env sv) cx d h (in_Status q)"

fun root_handler ::
  "server \<Rightarrow> req_context \<Rightarrow> incoming \<Rightarrow> Handlers.http_request \<Rightarrow> handler_op \<Rightarrow> http_response op" where
  "root_handler sv cx q h OpList = Root_List (sv_env sv) (sv_engine sv) (sv_params sv) (sv_reflect sv) cx h"
| "root_handler sv cx q h OpCreate = Root_Create (sv_env sv) cx h (in_Create q)"
| "root_handler sv cx q h OpGet = Root_Get (sv_env sv) (sv_reflect sv) cx h"
| "root_handler sv cx q h OpPatch = Root_Patch (sv_env sv) (Some (sv_schema sv)) cx h (in_Patch q)"
| "root_handler sv cx q h OpDelete = Root_Delete (sv_env sv) cx h"
| "root_handler sv cx q h OpForceDelete = Root_ForceDelete (sv_env sv) cx h (in_Reason q)"
| "root_handler sv cx q h OpListStatuses = Root_ListStatuses (sv_env sv) (sv_params sv) cx h"
| "root_handler sv cx q h OpCreateStatus = Root_CreateStatus (sv_env sv) cx h (in_Status q)"

text \<open>The handler of a route; the documents need no database.\<close>

definition document :: "Endpoints.answer \<Rightarrow> reply op" where
  "document a = returnE (Document a)"

definition handle_route ::
  "server \<Rightarrow> req_context \<Rightarrow> string \<Rightarrow> incoming \<Rightarrow> string option \<Rightarrow> route_handler \<Rightarrow> reply op" where
  "handle_route sv cx pattern q rid h =
     (case h of
        KindHandler d oper \<Rightarrow>
          bindE (kind_handler sv cx q (handler_request pattern q rid) d oper) (\<lambda>resp. returnE (Api resp))
      | RootHandler oper \<Rightarrow>
          bindE (root_handler sv cx q (handler_request pattern q rid) oper) (\<lambda>resp. returnE (Api resp))
      | MetadataHandler \<Rightarrow>
          bindE (time_Now (sv_env sv)) (\<lambda>now.
          document (MetadataHandler_Get (sv_Marshal sv) now (case rid of None \<Rightarrow> [] | Some t \<Rightarrow> t)
            (sv_Version sv) (sv_BuildTime sv) (in_Path q)))
      | OpenAPIUI \<Rightarrow> document (GetOpenAPIUI (sv_openapi sv))
      | OpenAPIDoc \<Rightarrow> document (GetOpenAPI (sv_openapi sv)))"

section \<open>Middleware\<close>

text \<open>The refusal of a middleware.  The identity and tenant middleware answer through \<open>pkg/api/response\<close>, which sets
  \<open>Vary\<close>; the schema validation writes its own headers.\<close>

definition refuse :: "server \<Rightarrow> incoming \<Rightarrow> string option \<Rightarrow> string \<Rightarrow> service_error \<Rightarrow> reply op" where
  "refuse sv q rid vary err =
     bindE (time_Now (sv_env sv)) (\<lambda>now.
     let traceID = (case rid of None \<Rightarrow> ''unknown'' | Some t \<Rightarrow> t) in
     returnE (Api ((WriteProblemDetailsResponse (se_HTTPCode err) (AsProblemDetails now err (in_Path q) traceID))
       \<lparr>rs_Vary := vary\<rparr>)))"

definition guarded :: "server \<Rightarrow> incoming \<Rightarrow> string option \<Rightarrow> service_error + 'a \<Rightarrow> ('a \<Rightarrow> reply op) \<Rightarrow> reply op" where
  "guarded sv q rid outcome k =
     (case outcome of Inl err \<Rightarrow> refuse sv q rid ''Authorization'' err | Inr x \<Rightarrow> k x)"

text \<open>A request keeps the identifier it has; \<open>fresh\<close> is what the generator gives, unless it fails.\<close>

definition WithRequestID :: "string option \<Rightarrow> string option \<Rightarrow> string option" where
  "WithRequestID fresh rid = (case rid of Some t \<Rightarrow> Some t | None \<Rightarrow> fresh)"

text \<open>Tracing, logging, metrics and compression pass a request on and leave the reply alone, up to its encoding; the
  timeout shows as a failure of a statement.\<close>

fun through ::
  "server \<Rightarrow> string \<Rightarrow> incoming \<Rightarrow> string option \<Rightarrow> Auth.http_request \<Rightarrow> served \<Rightarrow> reply op" where
  "through sv pattern q rid r (Served h) = handle_route sv (rq_Context r) pattern q rid h"
| "through sv pattern q rid r (Wrapped mw s) =
     (case mw of
        MW_RequestID \<Rightarrow> through sv pattern q (WithRequestID (in_RequestID q) rid) r s
      | MW_JWT \<Rightarrow> guarded sv q rid (JWT_Middleware (sv_validators sv) r) (\<lambda>r1. through sv pattern q rid r1 s)
      | MW_CallerIdentity \<Rightarrow> guarded sv q rid (ResolveCallerIdentity r) (\<lambda>r1. through sv pattern q rid r1 s)
      | MW_Tenant \<Rightarrow> guarded sv q rid (ResolveTenant (sv_tenant sv) r) (\<lambda>r1. through sv pattern q rid r1 s)
      | MW_SchemaValidation \<Rightarrow>
          (case SchemaValidationMiddleware (env_registry (sv_env sv)) (sv_schema sv) (in_Method q) (in_Path q) (in_Body q) of
             Some err \<Rightarrow> refuse sv q rid [] err
           | None \<Rightarrow> through sv pattern q rid r s)
      | _ \<Rightarrow> through sv pattern q rid r s)"

section \<open>Dispatch\<close>

definition incoming_request :: "incoming \<Rightarrow> Auth.http_request" where
  "incoming_request q = \<lparr>Auth.http_request.rq_Method = in_Method q, Auth.http_request.rq_Path = in_Path q,
     rq_Header = in_Header q, rq_Context = Background\<rparr>"

text \<open>The server takes one slash off the end of the path (\<open>NewAPIServer\<close>), and its multiplexer finds the route; a path
  with dot segments is redirected to its clean form.  At most one route matches, whatever the precedence between
  patterns (\<open>Routes.dispatch_unambiguous\<close>).\<close>

definition dispatch :: "mux \<Rightarrow> incoming \<Rightarrow> (string \<times> served) option" where
  "dispatch m q =
     (if list_ex (\<lambda>seg. seg = ''.'' \<or> seg = ''..'') (Split (CHR ''/'') (in_Path q)) then None
      else find_first (\<lambda>(pattern, s). pattern_matches pattern (in_Method q) (in_Path q)) m)"

definition served_request :: "incoming \<Rightarrow> incoming" where
  "served_request q = q\<lparr>in_Path := removeTrailingSlash (in_Path q)\<rparr>"

definition ServeHTTP :: "server \<Rightarrow> mux \<Rightarrow> incoming \<Rightarrow> reply op" where
  "ServeHTTP sv m q0 =
     (let q = served_request q0 in
      case dispatch m q of
        None \<Rightarrow>
          bindE (time_Now (sv_env sv)) (\<lambda>now.
          returnE (Unrouted (WithNotFoundHandler (SendNotFound (sv_marshals sv) now (in_Path q) []) [] (sv_unmatched sv q))))
      | Some (pattern, s) \<Rightarrow> through sv pattern q None (incoming_request q) s)"

section \<open>What passes the middleware\<close>

text \<open>The context in which the request is handled, if JWT, caller identity and tenant middleware let it through.\<close>

definition admit :: "server \<Rightarrow> incoming \<Rightarrow> req_context option" where
  "admit sv q =
     (case JWT_Middleware (sv_validators sv) (incoming_request q) of Inl _ \<Rightarrow> None | Inr r1 \<Rightarrow>
     (case ResolveCallerIdentity r1 of Inl _ \<Rightarrow> None | Inr r2 \<Rightarrow>
     (case ResolveTenant (sv_tenant sv) r2 of Inl _ \<Rightarrow> None | Inr r3 \<Rightarrow> Some (rq_Context r3))))"

definition problem_reply :: "reply \<Rightarrow> bool" where
  "problem_reply rep = (case rep of Api resp \<Rightarrow> (case rs_Payload resp of ProblemDoc _ \<Rightarrow> True | _ \<Rightarrow> False) | _ \<Rightarrow> False)"

lemma refuse_run:
  assumes "refuse sv q rid vary err w = (res, w')"
  shows "w_tables w' = w_tables w \<and> (\<forall>rep. res = Inr rep \<longrightarrow> problem_reply rep)"
proof -
  have "keeps same_tables (refuse sv q rid vary err)"
    unfolding refuse_def Let_def by (intro reading.keeps_rules keeps_intros)
  from keepsD [OF this assms] assms show ?thesis
    by (auto simp: same_tables_def refuse_def problem_reply_def WriteProblemDetailsResponse_def returnE_run Let_def
        elim!: bindE_InrE)
qed

definition passing :: "middleware list" where
  "passing = [MW_RequestID, MW_OTel, MW_RequestLogging, MW_Metrics, MW_Compress]"

definition guards :: "middleware list" where
  "guards = [MW_JWT, MW_CallerIdentity, MW_Tenant, MW_SchemaValidation, MW_RequestTimeout]"

lemma through_passing:
  "chain s = before @ rest \<Longrightarrow> set before \<subseteq> set passing \<Longrightarrow>
     \<exists>rid' s'. through sv pattern q rid r s = through sv pattern q rid' r s' \<and> chain s' = rest \<and> handler_of s' = handler_of s"
proof (induction before arbitrary: s rid)
  case (Cons mw before)
  then obtain s1 where s: "s = Wrapped mw s1" "chain s1 = before @ rest" by (cases s) auto
  from Cons.prems(2) have mw: "mw \<in> set passing" "set before \<subseteq> set passing" by auto
  have "\<exists>rid1. through sv pattern q rid r s = through sv pattern q rid1 r s1"
    using mw(1) by (auto simp: s(1) passing_def)
  with Cons.IH [OF s(2) mw(2)] s(1) show ?case by (metis handler_of.simps(2))
qed auto

lemma chain_Cons: "chain s = mw # rest \<longleftrightarrow> (\<exists>s1. s = Wrapped mw s1 \<and> chain s1 = rest)"
  by (cases s) auto

lemma chain_Nil: "chain s = [] \<Longrightarrow> s = Served (handler_of s)"
  by (cases s) auto

text \<open>A guarded route refuses a request, changing nothing, or handles it in the context it was admitted with.\<close>

lemma through_guards:
  assumes "chain s = before @ guards" "set before \<subseteq> set passing"
    and run: "through sv pattern q rid (incoming_request q) s w = (res, w')"
  obtains (refused) "w_tables w' = w_tables w" "\<And>rep. res = Inr rep \<Longrightarrow> problem_reply rep"
  | (handled) cx rid' where "admit sv q = Some cx" "handle_route sv cx pattern q rid' (handler_of s) w = (res, w')"
proof -
  from through_passing [OF assms(1,2)] run obtain rid' s' where
    run': "through sv pattern q rid' (incoming_request q) s' w = (res, w')" and c: "chain s' = guards"
      "handler_of s' = handler_of s" by metis
  from c(1) obtain s1 s2 s3 s4 s5 where s: "s' = Wrapped MW_JWT s1" "s1 = Wrapped MW_CallerIdentity s2"
      "s2 = Wrapped MW_Tenant s3" "s3 = Wrapped MW_SchemaValidation s4" "s4 = Wrapped MW_RequestTimeout s5" "chain s5 = []"
    unfolding guards_def chain_Cons by blast
  from chain_Nil [OF s(6)] s(1-5) c(2) have s5: "s5 = Served (handler_of s)" by simp
  show thesis
  proof (cases "\<exists>vary err. refuse sv q rid' vary err w = (res, w')")
    case True
    then show thesis using refuse_run refused by metis
  next
    case no: False
    with run' obtain r1 where "JWT_Middleware (sv_validators sv) (incoming_request q) = Inr r1"
      "through sv pattern q rid' r1 s1 w = (res, w')" by (auto simp: s(1) guarded_def split: sum.splits)
    moreover from no this(2) obtain r2 where "ResolveCallerIdentity r1 = Inr r2" "through sv pattern q rid' r2 s2 w = (res, w')"
      by (auto simp: s(2) guarded_def split: sum.splits)
    moreover from no this(2) obtain r3 where "ResolveTenant (sv_tenant sv) r2 = Inr r3" "through sv pattern q rid' r3 s3 w = (res, w')"
      by (auto simp: s(3) guarded_def split: sum.splits)
    moreover from no this(2) have "handle_route sv (rq_Context r3) pattern q rid' (handler_of s) w = (res, w')"
      by (auto simp: s(4,5) s5 split: option.splits)
    ultimately show thesis using handled [of "rq_Context r3"] by (simp add: admit_def)
  qed
qed

text \<open>A request that is admitted and has a valid body is handled.\<close>

lemma through_admitted:
  assumes "chain s = before @ guards" "set before \<subseteq> set passing" "admit sv q = Some cx"
    and "SchemaValidationMiddleware (env_registry (sv_env sv)) (sv_schema sv) (in_Method q) (in_Path q) (in_Body q) = None"
  shows "\<exists>rid'. through sv pattern q rid (incoming_request q) s = handle_route sv cx pattern q rid' (handler_of s)"
proof -
  from through_passing [OF assms(1,2)] obtain rid' s' where
    t: "through sv pattern q rid (incoming_request q) s = through sv pattern q rid' (incoming_request q) s'" and
    c: "chain s' = guards" "handler_of s' = handler_of s" by metis
  from c(1) obtain s5 where s: "s' = Wrapped MW_JWT (Wrapped MW_CallerIdentity (Wrapped MW_Tenant
      (Wrapped MW_SchemaValidation (Wrapped MW_RequestTimeout s5))))" "chain s5 = []"
    unfolding guards_def chain_Cons by blast
  from chain_Nil [OF s(2)] s(1) c(2) have "s5 = Served (handler_of s)" by simp
  with s(1) assms(3,4) have "through sv pattern q rid' (incoming_request q) s' = handle_route sv cx pattern q rid' (handler_of s)"
    by (auto simp: admit_def guarded_def split: sum.splits)
  with t show ?thesis by metis
qed

end
