(* ===== verification/Request_Effects.thy ===== *)
theory Request_Effects
  imports Handler_Safety Phases
begin

text \<open>
  What the handlers do to the database, as a whole: every handler, of every route, either leaves the tables alone or
  runs one of the five write requests of the service for its caller.
\<close>

section \<open>A handler runs one request of the service\<close>

definition same_or_served :: "environment \<Rightarrow> req_context \<Rightarrow> world \<Rightarrow> world \<Rightarrow> bool" where
  "same_or_served env cx w w' \<longleftrightarrow>
     w_tables w' = w_tables w \<or>
     (\<exists>q v r v'. w_tables v = w_tables w \<and> serve env cx q v = (r, v') \<and> w_tables w' = w_tables v')"

definition serves :: "environment \<Rightarrow> req_context \<Rightarrow> 'a op \<Rightarrow> bool" where
  "serves env cx m \<longleftrightarrow> (\<forall>w res w'. m w = (res, w') \<longrightarrow> same_or_served env cx w w')"

named_theorems serving

lemma servesI: "(\<And>w res w'. m w = (res, w') \<Longrightarrow> same_or_served env cx w w') \<Longrightarrow> serves env cx m"
  by (simp add: serves_def)

lemma same_then: "w_tables v = w_tables w \<Longrightarrow> same_or_served env cx v w' \<Longrightarrow> same_or_served env cx w w'"
  unfolding same_or_served_def by metis

lemma then_same: "same_or_served env cx w v \<Longrightarrow> w_tables w' = w_tables v \<Longrightarrow> same_or_served env cx w w'"
  unfolding same_or_served_def by metis

lemma same_serves: "keeps same_tables m \<Longrightarrow> serves env cx m"
  by (auto simp: keeps_def serves_def same_tables_def same_or_served_def)

text \<open>Reading before the write, or after it.\<close>

lemma serves_call_else:
  assumes "keeps same_tables m" "\<And>e. keeps same_tables (h e)" "\<And>x. serves env cx (k x)"
  shows "serves env cx (call_else m h k)"
proof (rule servesI)
  fix w res w' assume run: "call_else m h k w = (res, w')"
  obtain r v where m: "m w = (r, v)" by (cases "m w")
  have v: "w_tables v = w_tables w" using keepsD [OF assms(1) m] by (simp add: same_tables_def)
  have "same_or_served env cx v w'"
  proof (cases r)
    case (Inl e)
    with run m have "h e v = (res, w')" by (simp add: call_else_def)
    from keepsD [OF assms(2) this] show ?thesis by (simp add: same_or_served_def same_tables_def)
  next
    case (Inr x)
    with run m assms(3) [of x] show ?thesis by (simp add: call_else_def serves_def)
  qed
  with v show "same_or_served env cx w w'" by (rule same_then)
qed

lemma serves_then:
  assumes "serves env cx m" "\<And>e. keeps same_tables (h e)" "\<And>x. keeps same_tables (k x)"
  shows "serves env cx (call_else m h k)"
proof (rule servesI)
  fix w res w' assume run: "call_else m h k w = (res, w')"
  obtain r v where m: "m w = (r, v)" by (cases "m w")
  have "w_tables w' = w_tables v"
    using run m keepsD [OF assms(2)] keepsD [OF assms(3)] by (cases r) (auto simp: call_else_def same_tables_def)
  moreover have "same_or_served env cx w v" using assms(1) m by (simp add: serves_def)
  ultimately show "same_or_served env cx w w'" using then_same by metis
qed

lemma call_as_call_else: "call m h k = call_else m (\<lambda>e. raiseE (h e)) k"
  by (rule ext) (simp add: call_run call_else_def raiseE_def split: prod.splits sum.splits)

lemma serves_handle [serving]:
  "keeps same_tables m \<Longrightarrow> (\<And>x. serves env cx (k x)) \<Longrightarrow> serves env cx (handle env' q m k)"
  unfolding handle_def by (intro serves_call_else answer_same)

lemma serves_bindE [serving]:
  "keeps same_tables m \<Longrightarrow> (\<And>x. serves env cx (k x)) \<Longrightarrow> serves env cx (bindE m k)"
  unfolding bindE_def call_as_call_else by (intro serves_call_else reading.keeps_rules)

lemma serves_handle_write [serving]:
  "serves env cx m \<Longrightarrow> (\<And>x. keeps same_tables (k x)) \<Longrightarrow> serves env cx (handle env' q m k)"
  unfolding handle_def by (intro serves_then answer_same)

lemma serves_bindE_write [serving]:
  "serves env cx m \<Longrightarrow> (\<And>x. keeps same_tables (k x)) \<Longrightarrow> serves env cx (bindE m k)"
  unfolding bindE_def call_as_call_else by (intro serves_then reading.keeps_rules)

lemma serves_if [serving]: "serves env cx a \<Longrightarrow> serves env cx b \<Longrightarrow> serves env cx (if c then a else b)"
  by simp

lemma serves_check [serving]: "serves env cx m \<Longrightarrow> serves env cx (check c m)"
  by (cases c) (auto simp: check_def guardE_run serves_def same_or_served_def bindE_run)

lemma serves_cases:
  "serves env cx a \<Longrightarrow> (\<And>x. serves env cx (f x)) \<Longrightarrow> serves env cx (case c of None \<Rightarrow> a | Some x \<Rightarrow> f x)"
  "(\<And>x. serves env cx (g x)) \<Longrightarrow> (\<And>x. serves env cx (h x)) \<Longrightarrow> serves env cx (case s of Inl x \<Rightarrow> g x | Inr x \<Rightarrow> h x)"
  by (auto split: option.split sum.split)

text \<open>The service operations are requests.\<close>

lemma serves_served:
  assumes "\<And>w. serve env cx q w = bindE m (\<lambda>_. returnE ()) w"
  shows "serves env cx m"
proof (rule servesI)
  fix w res w' assume m: "m w = (res, w')"
  obtain r where "serve env cx q w = (r, w')" using assms [of w] m by (cases res) (auto simp: bindE_run returnE_run)
  then show "same_or_served env cx w w'" unfolding same_or_served_def by blast
qed

lemma operations_serve [serving]:
  "serves env cx (Service_Create env cx kind r refs)" "serves env cx (Patch env cx kind i p)"
  "serves env cx (PatchByOwner env cx kind i o1 p)" "serves env cx (Service_Delete env cx kind i)"
  "serves env cx (DeleteByOwner env cx kind i o1)" "serves env cx (ForceDelete env cx kind i)"
  "serves env cx (ForceDeleteByOwner env cx kind i o1)" "serves env cx (ProcessAdapterStatus env cx kind i s)"
proof -
  have p: "serves env cx (patch env cx kind i o1 p)" for o1
    by (rule serves_served [of _ _ "ReqPatch kind i o1 p"]) (simp add: serve_def)
  have d: "serves env cx (deleteResource env cx kind i o1)" for o1
    by (rule serves_served [of _ _ "ReqDelete kind i o1"]) (simp add: serve_def)
  have f: "serves env cx (forceDelete env cx kind i o1)" for o1
    by (rule serves_served [of _ _ "ReqForceDelete kind i o1"])
      (auto simp: serve_def bindE_run returnE_run split: prod.splits sum.splits)
  show "serves env cx (Service_Create env cx kind r refs)"
    by (rule serves_served [of _ _ "ReqCreate kind r refs"]) (simp add: serve_def)
  show "serves env cx (ProcessAdapterStatus env cx kind i s)"
    by (rule serves_served [of _ _ "ReqProcess kind i s"]) (simp add: serve_def)
  show "serves env cx (Patch env cx kind i p)" "serves env cx (PatchByOwner env cx kind i o1 p)"
    by (simp_all add: Patch_def PatchByOwner_def p serves_check)
  show "serves env cx (Service_Delete env cx kind i)" "serves env cx (DeleteByOwner env cx kind i o1)"
    by (simp_all add: Service_Delete_def DeleteByOwner_def d serves_check)
  show "serves env cx (ForceDelete env cx kind i)" "serves env cx (ForceDeleteByOwner env cx kind i o1)"
    by (simp_all add: ForceDelete_def ForceDeleteByOwner_def f serves_check)
qed

text \<open>The reads of the handlers.\<close>

lemma responses_same [keeps_intros]:
  "keeps same_tables (writeJSONResponse c p)" "keeps same_tables write_no_content" "keeps same_tables (write_status s)"
  unfolding write_status_def writeJSONResponse_def write_no_content_def
  by (cases s; simp add: reading.keeps_rules)+

lemma same_call_else:
  assumes "keeps same_tables m" "\<And>e. keeps same_tables (h e)" "\<And>x. keeps same_tables (k x)"
  shows "keeps same_tables (call_else m h k)"
proof (rule keepsI)
  fix w r w' assume run: "call_else m h k w = (r, w')"
  obtain r1 w1 where m1: "m w = (r1, w1)" by (cases "m w")
  with run have "same_tables w1 w'"
    by (cases r1) (auto simp: call_else_def dest: keepsD [OF assms(2)] keepsD [OF assms(3)])
  with keepsD [OF assms(1) m1] show "same_tables w w'" by (simp add: same_tables_def)
qed

lemma same_check: "keeps same_tables m \<Longrightarrow> keeps same_tables (check c m)"
  unfolding check_def by (rule reading.keeps_guardE)

lemma same_db_error: "(\<And>e. keeps same_tables (f e)) \<Longrightarrow> keeps same_tables (on_db_error f e)"
  by (cases e) (simp_all add: reading.keeps_rules)

lemmas reading_rules = reading.keeps_rules same_check same_call_else same_db_error keeps_case_prod keeps_case_option
  keeps_case_sum query_same

lemma lists_same [keeps_intros]:
  "keeps same_tables (Service_List env eng cx kind a)" "keeps same_tables (ListByOwner env eng cx kind o1 a)"
  "keeps same_tables (ListAll eng cx a)" "keeps same_tables (Service_FindByResourcePaginated kind i la)"
proof -
  have g: "keeps same_tables (Generic_List eng cx args)" for args
    unfolding Generic_List_def loadList_def
    by (intro reading_rules)
  have f: "keeps same_tables (applyRefFilter env kind args)" for args
    unfolding applyRefFilter_def by (intro reading.keeps_rules must_same dao_reads_same)
  show "keeps same_tables (Service_List env eng cx kind a)" "keeps same_tables (ListByOwner env eng cx kind o1 a)"
    "keeps same_tables (ListAll eng cx a)"
    unfolding Service_List_def ListByOwner_def ListAll_def Let_def by (intro reading_rules f g)+
  show "keeps same_tables (Service_FindByResourcePaginated kind i la)"
    unfolding Service_FindByResourcePaginated_def FindByResourcePaginated_def by (intro reading.keeps_rules query_same)
qed

lemma handler_reads_same [keeps_intros]:
  "keeps same_tables (parentIDIfExists env cx d q)" "keeps same_tables (verifyResource env cx d q)"
  "keeps same_tables (listStatuses kind i la)" "keeps same_tables (childCreateRejection env d)"
  unfolding parentIDIfExists_def verifyResource_def listStatuses_def childCreateRejection_def
  by (intro reading_rules keeps_intros)+

lemma processStatus_serves [serving]: "serves env cx (processStatus env cx kind i r)"
  unfolding processStatus_def
  by (intro serving keeps_intros reading_rules)

lemma create_converted_serves [serving]: "serves env cx (create_converted env cx q kind req conv)"
  unfolding create_converted_def by (intro serves_cases serving same_serves keeps_intros)

lemma rejected_serves [serving]: "serves env cx (bindE (childCreateRejection env d) (handleError env q))"
  by (intro same_serves reading.keeps_rules keeps_intros)

lemma handleError_serves [serving]: "serves env cx (handleError env q e)"
  by (intro same_serves keeps_intros)

lemma keeps_handle:
  "keeps same_tables m \<Longrightarrow> (\<And>x. keeps same_tables (k x)) \<Longrightarrow> keeps same_tables (handle env q m k)"
  unfolding handle_def by (intro same_call_else answer_same)

lemma reading_handlers:
  "keeps same_tables (Handler_List env eng sv rf cx d q)" "keeps same_tables (Handler_Get env rf cx d q)"
  "keeps same_tables (StatusHandler_List env sv cx d q)" "keeps same_tables (Root_List env eng sv rf cx q)"
  "keeps same_tables (Root_Get env rf cx q)" "keeps same_tables (Root_ListStatuses env sv cx q)"
  unfolding Handler_List_def Handler_Get_def StatusHandler_List_def Root_List_def Root_Get_def Root_ListStatuses_def
  by (intro keeps_handle reading_rules keeps_intros)+

lemma writing_handlers:
  "serves env cx (Handler_Create env cx d q cb)" "serves env cx (Handler_Patch env cx d q pb)"
  "serves env cx (Handler_Delete env cx d q)" "serves env cx (Handler_ForceDelete env cx d q rb)"
  "serves env cx (StatusHandler_Create env cx d q sb)" "serves env cx (Root_Create env cx q cb)"
  "serves env cx (Root_Patch env v cx q pb)" "serves env cx (Root_Delete env cx q)"
  "serves env cx (Root_ForceDelete env cx q rb)" "serves env cx (Root_CreateStatus env cx q sb)"
  unfolding Handler_Create_def Handler_Patch_def Handler_Delete_def Handler_ForceDelete_def StatusHandler_Create_def
    Root_Create_def Root_Patch_def Root_Delete_def Root_ForceDelete_def Root_CreateStatus_def
  by (intro serving serves_cases keeps_intros)+

end
