(* ===== verification/Request_Answers.thy ===== *)
theory Request_Answers
  imports Request_Effects
begin

text \<open>
  What the handlers answer: every handler, of every route, tells its caller of resources within his tenancy scope only, and
  of those the request has just created.
\<close>

section \<open>What a handler answers\<close>

text \<open>An identifier that no row outside the caller's scope has.\<close>

definition in_reach :: "req_context \<Rightarrow> tables \<Rightarrow> string \<Rightarrow> bool" where
  "in_reach cx t i \<longleftrightarrow> list_all (\<lambda>x. res_ID x = i \<longrightarrow> in_scope cx x) (t_resources t)"

text \<open>A payload is about resources whose identifiers have a property: it presents them, projects what is presented of
  them, or presents the reports on them.\<close>

fun about :: "registry \<Rightarrow> (presented_resource \<Rightarrow> gval) \<Rightarrow> (string \<Rightarrow> bool) \<Rightarrow> payload \<Rightarrow> bool" where
  "about ds rf P NoContent = True"
| "about ds rf P (ProblemDoc p) = True"
| "about ds rf P (ResourceDoc p) = (\<exists>r. P (res_ID r) \<and> p = PresentResource ds r)"
| "about ds rf P (ProjectedDoc out) = (\<exists>r keys. P (res_ID r) \<and> FilterSingle keys (Some (rf (PresentResource ds r))) = Inr out)"
| "about ds rf P (ResourceListDoc l) = (\<forall>p\<in>set (pl_Items l). \<exists>r. P (res_ID r) \<and> p = PresentResource ds r)"
| "about ds rf P (ProjectedListDoc l) = (\<exists>rs keys meta. (\<forall>r\<in>set rs. P (res_ID r)) \<and>
     SliceFilter keys (Some (map (rf \<circ> PresentResource ds) rs, meta)) = Inr l)"
| "about ds rf P (StatusDoc s) = (\<exists>a. P (as_ResourceID a) \<and> PresentAdapterStatus a = Inr s)"
| "about ds rf P (StatusListDoc l) = (\<forall>s\<in>set (sl_Items l). \<exists>a. P (as_ResourceID a) \<and> PresentAdapterStatus a = Inr s)"

text \<open>What a handler answers on the tables \<open>t\<close> is about what its caller reaches in them.\<close>

definition tells :: "environment \<Rightarrow> (presented_resource \<Rightarrow> gval) \<Rightarrow> req_context \<Rightarrow> tables \<Rightarrow> http_response op \<Rightarrow> bool" where
  "tells env rf cx t m \<longleftrightarrow>
     (\<forall>w resp w'. w_tables w = t \<longrightarrow> m w = (Inr resp, w') \<longrightarrow> about (env_registry env) rf (in_reach cx t) (rs_Payload resp))"

definition always_tells :: "environment \<Rightarrow> (presented_resource \<Rightarrow> gval) \<Rightarrow> req_context \<Rightarrow> tables \<Rightarrow> http_response op \<Rightarrow> bool" where
  "always_tells env rf cx t m \<longleftrightarrow>
     (\<forall>w resp w'. m w = (Inr resp, w') \<longrightarrow> about (env_registry env) rf (in_reach cx t) (rs_Payload resp))"

lemma always_tellsD:
  "always_tells env rf cx t m \<Longrightarrow> m w = (Inr resp, w') \<Longrightarrow> about (env_registry env) rf (in_reach cx t) (rs_Payload resp)"
  unfolding always_tells_def by blast

lemma tellsD:
  "tells env rf cx t m \<Longrightarrow> w_tables w = t \<Longrightarrow> m w = (Inr resp, w') \<Longrightarrow>
     about (env_registry env) rf (in_reach cx t) (rs_Payload resp)"
  unfolding tells_def by blast

named_theorems telling

lemma always_then [telling]: "always_tells env rf cx t m \<Longrightarrow> tells env rf cx t m"
  by (simp add: always_tells_def tells_def)

lemma about_intros [telling]:
  "P (res_ID r) \<Longrightarrow> about ds rf P (ResourceDoc (PresentResource ds r))"
  "(\<And>s. s \<in> set (sl_Items l) \<Longrightarrow> \<exists>a. P (as_ResourceID a) \<and> PresentAdapterStatus a = Inr s) \<Longrightarrow> about ds rf P (StatusListDoc l)"
  "\<forall>r\<in>set rs. P (res_ID r) \<Longrightarrow> about ds rf P (ResourceListDoc (PresentResourceList ds rs pm))"
  "\<forall>r\<in>set rs. P (res_ID r) \<Longrightarrow> SliceFilter keys (Some (map (rf \<circ> PresentResource ds) rs, meta)) = Inr pl \<Longrightarrow>
     about ds rf P (ProjectedListDoc pl)"
  unfolding about.simps PresentResourceList_def presented_list.simps set_map by blast+

lemma handleError_tells [telling]: "always_tells env rf cx t (handleError env q e)"
  by (auto simp: always_tells_def handleError_def returnE_run WriteProblemDetailsResponse_def elim!: bindE_InrE)

lemma writes_tell [telling]:
  "about (env_registry env) rf (in_reach cx t) p \<Longrightarrow> always_tells env rf cx t (writeJSONResponse c p)"
  "always_tells env rf cx t write_no_content"
  by (auto simp: always_tells_def writeJSONResponse_def write_no_content_def returnE_run)

lemma tells_if [telling]: "tells env rf cx t a \<Longrightarrow> tells env rf cx t b \<Longrightarrow> tells env rf cx t (if c then a else b)"
  by simp

lemma handle_tells:
  assumes "keeps same_tables m"
    and "\<And>x w w'. w_tables w = t \<Longrightarrow> m w = (Inr x, w') \<Longrightarrow> tells env rf cx t (k x)"
  shows "tells env rf cx t (handle env q m k)"
  unfolding tells_def
proof (intro allI impI)
  fix w resp w' assume w: "w_tables w = t" and run: "handle env q m k w = (Inr resp, w')"
  from run show "about (env_registry env) rf (in_reach cx t) (rs_Payload resp)"
  proof (cases rule: handle_InrE)
    case (stopped e v)
    from always_tellsD [OF handleError_tells stopped(2)] show ?thesis .
  next
    case (passed x v)
    have "w_tables v = t" using keepsD [OF assms(1) passed(1)] w by (simp add: same_tables_def)
    from tellsD [OF assms(2) [OF w passed(1)] this passed(2)] show ?thesis .
  qed
qed

lemma handle_write_tells:
  assumes "\<And>x w w'. w_tables w = t \<Longrightarrow> m w = (Inr x, w') \<Longrightarrow> always_tells env rf cx t (k x)"
  shows "tells env rf cx t (handle env q m k)"
  unfolding tells_def
proof (intro allI impI)
  fix w resp w' assume w: "w_tables w = t" and run: "handle env q m k w = (Inr resp, w')"
  from run show "about (env_registry env) rf (in_reach cx t) (rs_Payload resp)"
  proof (cases rule: handle_InrE)
    case (stopped e v)
    from always_tellsD [OF handleError_tells stopped(2)] show ?thesis .
  next
    case (passed x v)
    from always_tellsD [OF assms [OF w passed(1)] passed(2)] show ?thesis .
  qed
qed

lemma bindE_tells:
  assumes "keeps same_tables m" and "\<And>x. tells env rf cx t (k x)"
  shows "tells env rf cx t (bindE m k)"
  unfolding tells_def
proof (intro allI impI)
  fix w resp w' assume w: "w_tables w = t" and run: "bindE m k w = (Inr resp, w')"
  from run show "about (env_registry env) rf (in_reach cx t) (rs_Payload resp)"
  proof (rule bindE_InrE)
    fix x v assume m: "m w = (Inr x, v)" "k x v = (Inr resp, w')"
    have "w_tables v = t" using keepsD [OF assms(1) m(1)] w by (simp add: same_tables_def)
    from tellsD [OF assms(2) this m(2)] show ?thesis .
  qed
qed

section \<open>What the service returns is in reach\<close>

lemma row_in_reach: "schema_ok t \<Longrightarrow> x \<in> set (t_resources t) \<Longrightarrow> in_scope cx x \<Longrightarrow> in_reach cx t (res_ID x)"
  by (auto simp: in_reach_def list_all_iff schema_ok_def distinct_map inj_on_def)

lemma new_in_reach: "i \<notin> resource_ids t \<Longrightarrow> in_reach cx t i"
  by (auto simp: in_reach_def list_all_iff resource_ids_def)

lemma Service_Get_reach:
  "schema_ok t \<Longrightarrow> w_tables w = t \<Longrightarrow> Service_Get env cx kind i w = (Inr r, w') \<Longrightarrow> in_reach cx t (res_ID r) \<and> res_ID r = i"
  "schema_ok t \<Longrightarrow> w_tables w = t \<Longrightarrow> Service_GetByOwner env cx kind i o1 w = (Inr r, w') \<Longrightarrow> in_reach cx t (res_ID r) \<and> res_ID r = i"
  "schema_ok t \<Longrightarrow> w_tables w = t \<Longrightarrow> Service_GetByID cx i w = (Inr r, w') \<Longrightarrow> in_reach cx t (res_ID r) \<and> res_ID r = i"
  unfolding Service_Get_def Service_GetByOwner_def Service_GetByID_def ResourceDao_Get_def GetByOwner_def GetByID_def
  by (auto simp: returnE_run row_in_reach elim!: check_InrE call_InrE take_resource_InrE)

lemma patch_reach:
  assumes "schema_ok (w_tables w)" "patch env cx kind i o1 p w = (Inr r, w')"
  shows "in_reach cx (w_tables w) (res_ID r)"
proof -
  from patch_touches [OF assms] obtain old where "old \<in> set (t_resources (w_tables w))" "in_scope cx old" "res_ID old = i"
    "res_ID (strip r) = i" by metis
  with row_in_reach [OF assms(1)] show ?thesis by fastforce
qed

lemma same_ID: "same_but_conditions r r' \<Longrightarrow> res_ID r' = res_ID r"
  unfolding same_but_conditions_def by (metis strip_fields(1))

lemma soft_delete_result:
  assumes "soft_delete env cx r w = (Inr (outcome, r'), w')"
  shows "res_ID r' = res_ID r"
proof -
  from assms obtain r1 w1 statuses w2 where s: "Save env r w = (Inr r1, w1)"
    and c: "recomputeAndSaveResourceConditions env cx r1 statuses w2 = (Inr (outcome, r'), w')"
    unfolding soft_delete_def by (auto elim!: call_InrE)
  from s have "res_ID r1 = res_ID r" by (auto elim: Save_InrE)
  with same_ID [OF recompute_result [OF c]] show ?thesis by simp
qed

lemma tree_result:
  assumes "deleteResourceTree n env cx who t0 r w = (Inr (outcomes, r'), w')"
  shows "res_ID r' = res_ID r"
proof (cases n)
  case 0
  with assms show ?thesis by (simp add: raiseE_run)
next
  case (Suc m)
  from assms [unfolded Suc deleteResourceTree.simps Let_def] obtain soft :: bool and out v where
    "(if soft then bindE (soft_delete env cx r) (\<lambda>(outcome, r1). returnE (out @ (case outcome of None \<Rightarrow> [] | Some o1 \<Rightarrow> [o1]), r1))
      else call (ResourceDao_Delete cx (res_Kind r) (res_ID r)) (svc_err (handleDeleteError (res_Kind r)))
             (\<lambda>_. returnE (out, r))) v = (Inr (outcomes, r'), w')"
    by (elim bindE_InrE)
  then show ?thesis
    by (auto simp: returnE_run elim!: bindE_InrE call_InrE dest: soft_delete_result split: if_splits)
qed

lemma deleteResource_reach:
  assumes "schema_ok (w_tables w)" "deleteResource env cx kind i o1 w = (Inr r, w')"
  shows "in_reach cx (w_tables w) (res_ID r)"
proof -
  from assms(2) obtain outcomes v where d: "Do (delete_tx env cx kind i o1) w = (Inr (outcomes, r), v)"
    unfolding deleteResource_def by (auto simp: record_started_run bindE_run returnE_run elim!: check_InrE call_InrE)
  from d obtain w1 w2 where w1: "w_tables w1 = w_tables w" and tx: "delete_tx env cx kind i o1 w1 = (Inr (outcomes, r), w2)"
    by (rule Do_Inr)
  from tx obtain old now v1 where old: "old \<in> set (t_resources (w_tables w1))" "in_scope cx old"
    and tree: "deleteResourceTree (Suc (length (env_registry env))) env cx (actorFromContext cx) now
       (mark_for_deletion (actorFromContext cx) now (withAssociations (w_tables w1) old)) v1 = (Inr (outcomes, r), w2)"
    by (rule delete_tx_InrE)
  from tree_result [OF tree] have "res_ID r = res_ID old"
    by (simp add: mark_for_deletion_def MarkDeleted_def IncrementGeneration_def)
  with row_in_reach [OF assms(1)] old w1 show ?thesis by simp
qed

lemma writes_reach:
  "schema_ok t \<Longrightarrow> w_tables w = t \<Longrightarrow> Patch env cx kind i p w = (Inr r, w') \<Longrightarrow> in_reach cx t (res_ID r)"
  "schema_ok t \<Longrightarrow> w_tables w = t \<Longrightarrow> PatchByOwner env cx kind i o1 p w = (Inr r, w') \<Longrightarrow> in_reach cx t (res_ID r)"
  "schema_ok t \<Longrightarrow> w_tables w = t \<Longrightarrow> Service_Delete env cx kind i w = (Inr r, w') \<Longrightarrow> in_reach cx t (res_ID r)"
  "schema_ok t \<Longrightarrow> w_tables w = t \<Longrightarrow> DeleteByOwner env cx kind i o1 w = (Inr r, w') \<Longrightarrow> in_reach cx t (res_ID r)"
  "w_tables w = t \<Longrightarrow> Service_Create env cx kind r0 refs w = (Inr r, w') \<Longrightarrow> in_reach cx t (res_ID r)"
  by (auto simp: Patch_def PatchByOwner_def Service_Delete_def DeleteByOwner_def dest: patch_reach deleteResource_reach
      Service_Create_InrE(5) new_in_reach elim!: check_InrE)

text \<open>The reports on a resource.\<close>

lemma Upsert_ID:
  assumes "Upsert env s existing w = (Inr a, w')" and "\<And>x. existing = Some x \<Longrightarrow> as_ResourceID x = as_ResourceID s"
  shows "as_ResourceID a = as_ResourceID s"
proof -
  have f: "as_ResourceID a = i" if "FindByResourceAndAdapter k i ad v = (Inr a, v')" for k i ad v v'
    using that unfolding FindByResourceAndAdapter_def take_status_def of_resource_def
    by (auto elim!: query_InrE split: option.splits dest!: find_first_Some)
  have b: "as_ResourceID s1 = as_ResourceID s" if "AdapterStatus_BeforeCreate env s v = (Inr s1, v')" for s1 v v'
    using that unfolding AdapterStatus_BeforeCreate_def by (auto simp: returnE_run elim!: bindE_InrE)
  from assms f b show ?thesis unfolding Upsert_def
    by (auto simp: returnE_run elim!: bindE_InrE split: option.splits if_splits)
qed

lemma setConditionTransitionTimes_ID: "as_ResourceID (setConditionTransitionTimes now s existing) = as_ResourceID s"
  by (auto simp: setConditionTransitionTimes_def Let_def split: option.splits)

lemma process_tx_ID:
  assumes "process_tx env cx kind i s w = (Inr (outcome, Some a), w')"
  shows "as_ResourceID a = i"
proof -
  from assms obtain r allStatuses v0 v1 conditions trigger s1 v2 where
    f: "FindByResource kind i v0 = (Inr allStatuses, v1)" and
    s1: "set_transition_times env (s\<lparr>as_ResourceType := kind, as_ResourceID := i\<rparr>)
      (findAdapterStatusInList allStatuses (as_Adapter s)) v1 = (Inr s1, v2)" and
    ap: "apply_report env cx r allStatuses s1 (findAdapterStatusInList allStatuses (as_Adapter s)) conditions trigger v2 =
      (Inr (outcome, Some a), w')"
    unfolding process_tx_def Let_def by (auto simp: returnE_run elim!: call_InrE bindE_InrE split: sum.splits option.splits)
  have i: "as_ResourceID s1 = i"
    using s1 by (auto simp: set_transition_times_def returnE_run setConditionTransitionTimes_ID elim!: bindE_InrE split: if_splits)
  have "x \<in> set allStatuses \<Longrightarrow> as_ResourceID x = i" for x
    using f by (auto simp: FindByResource_def of_resource_def elim!: query_InrE)
  then have e: "as_ResourceID x = as_ResourceID s1" if "findAdapterStatusInList allStatuses (as_Adapter s) = Some x" for x
    using that i by (auto simp: findAdapterStatusInList_def dest!: find_first_Some)
  from ap obtain u v3 where "Upsert env s1 (findAdapterStatusInList allStatuses (as_Adapter s)) v2 = (Inr u, v3)" "u = a"
    unfolding apply_report_def Let_def by (auto simp: returnE_run elim!: call_InrE bindE_InrE split: if_splits prod.splits)
  from Upsert_ID [OF this(1) e] this(2) i show ?thesis by simp
qed

lemma processStatus_ID:
  assumes "processStatus env cx kind i req w = (Inr (Some p), w')"
  shows "\<exists>a. as_ResourceID a = i \<and> PresentAdapterStatus a = Inr p"
  using assms unfolding processStatus_def ProcessAdapterStatus_def
  by (auto simp: returnE_run elim!: bindE_InrE check_InrE commit_one_InrE dest!: process_tx_ID split: option.splits sum.splits)

lemma present_statuses_each:
  "present_statuses ss = Inr ps \<Longrightarrow> p \<in> set ps \<Longrightarrow> \<exists>a\<in>set ss. PresentAdapterStatus a = Inr p"
  by (induction ss arbitrary: ps) (auto split: sum.splits)

lemma listStatuses_ID:
  assumes "listStatuses kind i la w = (Inr pay, w')"
  shows "\<exists>l. pay = StatusListDoc l \<and> (\<forall>p\<in>set (sl_Items l). \<exists>a. as_ResourceID a = i \<and> PresentAdapterStatus a = Inr p)"
proof -
  from assms obtain ss tot v items where f: "Service_FindByResourcePaginated kind i la w = (Inr (ss, tot), v)"
    and ps: "present_statuses ss = Inr items" "pay = StatusListDoc (presented_page la tot items)"
    unfolding listStatuses_def by (auto simp: returnE_run elim!: bindE_InrE split: sum.splits)
  have "as_ResourceID a = i" if "a \<in> set ss" for a
    using f that unfolding Service_FindByResourcePaginated_def FindByResourcePaginated_def
    by (auto simp: returnE_run of_resource_def elim!: call_InrE bindE_InrE query_InrE dest!: in_set_takeD in_set_dropD)
  with ps show ?thesis by (fastforce simp: presented_page_def dest: present_statuses_each)
qed

lemma verifyResource_reach:
  "schema_ok t \<Longrightarrow> w_tables w = t \<Longrightarrow> verifyResource env cx d q w = (Inr u, w') \<Longrightarrow> in_reach cx t (rq_ID q)"
  unfolding verifyResource_def
  by (auto simp: returnE_run elim!: bindE_InrE split: if_splits dest: Service_Get_reach(1,2) [OF _ refl])

lemma write_status_tells:
  "(\<And>p. result = Some p \<Longrightarrow> about (env_registry env) rf (in_reach cx t) (StatusDoc p)) \<Longrightarrow>
     always_tells env rf cx t (write_status result)"
  unfolding write_status_def by (cases result) (auto intro!: telling)

section \<open>Every handler tells of what is in reach\<close>

lemma listed_reach:
  assumes "m \<in> {Service_List env eng cx kind args, ListByOwner env eng cx kind o1 args, ListAll eng cx args}"
    and "m w = (Inr (rows, pm), w')" and "permutes_rows eng" and "schema_ok (w_tables w)"
  shows "\<forall>r\<in>set rows. in_reach cx (w_tables w) (res_ID r)"
  using listed_rows [OF assms(1-3)] row_in_reach [OF assms(4)] by fastforce

lemma applyFieldFilter_about:
  "P (res_ID r) \<Longrightarrow> applyFieldFilter rf q (PresentResource ds r) = Inr pay \<Longrightarrow> about ds rf P pay"
  unfolding applyFieldFilter_def by (auto split: option.splits sum.splits intro!: exI [of _ r])

lemma list_payload_about:
  assumes "\<forall>r\<in>set rows. P (res_ID r)" "list_payload rf la (PresentResourceList ds rows pm) = Inr pay"
  shows "about ds rf P pay"
proof (cases "la_Fields la")
  case None
  with assms show ?thesis by (auto simp: list_payload_def simp del: about.simps intro: about_intros(3))
next
  case (Some keys)
  with assms(2) obtain l meta where "SliceFilter keys (Some (map (rf \<circ> PresentResource ds) rows, meta)) = Inr l"
    "pay = ProjectedListDoc l"
    by (auto simp: list_payload_def PresentResourceList_def split: sum.splits)
  with about_intros(4) [OF assms(1)] show ?thesis by simp
qed

lemma lifted_tells:
  assumes "\<And>pay. r = Inr pay \<Longrightarrow> about (env_registry env) rf (in_reach cx t) pay"
  shows "tells env rf cx t (handle env q (lift r) (writeJSONResponse c))"
  by (rule handle_tells) (auto intro!: keeps_intros telling dest!: lift_InrE assms)

lemma write_tells:
  assumes "\<And>r w w'. w_tables w = t \<Longrightarrow> m w = (Inr r, w') \<Longrightarrow> in_reach cx t (res_ID r)"
  shows "tells env rf cx t (handle env q m (\<lambda>r. writeJSONResponse c (ResourceDoc (PresentResource (env_registry env) r))))"
  by (rule handle_write_tells, rule writes_tell(1), rule about_intros(1), rule assms)

lemma created_tells: "tells env rf cx t (create_converted env cx q kind req conv)"
proof (cases conv)
  case (Inl e)
  then show ?thesis using always_then [OF handleError_tells] by (simp add: create_converted_def)
next
  case (Inr r)
  have "tells env rf cx t (handle env q (Service_Create env cx kind r (extractReferences (crq_References req)))
      (\<lambda>r. writeJSONResponse 201 (ResourceDoc (PresentResource (env_registry env) r))))"
    by (rule write_tells) (rule writes_reach(5))
  with Inr show ?thesis by (simp add: create_converted_def)
qed

lemma rejection_tells: "tells env rf cx t (bindE (childCreateRejection env d) (handleError env q))"
  by (intro bindE_tells keeps_intros telling)

lemma status_tells:
  assumes "in_reach cx t i"
  shows "tells env rf cx t (handle env q (processStatus env cx kind i req) write_status)"
    and "tells env rf cx t (handle env q (listStatuses kind i la) (writeJSONResponse 200))"
proof -
  show "tells env rf cx t (handle env q (processStatus env cx kind i req) write_status)"
    using assms by (intro handle_write_tells write_status_tells) (auto dest!: processStatus_ID)
  show "tells env rf cx t (handle env q (listStatuses kind i la) (writeJSONResponse 200))"
    using assms by (intro handle_write_tells telling) (fastforce dest!: listStatuses_ID)
qed

lemma kind_reads_tell:
  assumes "schema_ok t" "permutes_rows eng"
  shows "tells env rf cx t (Handler_List env eng sv rf cx d q)" "tells env rf cx t (Handler_Get env rf cx d q)"
    "tells env rf cx t (StatusHandler_List env sv cx d q)"
proof -
  have parent: "keeps same_tables (if p \<noteq> [] then Service_GetByOwner env cx k i p else Service_Get env cx k i)" for k i p
    by (intro reading.keeps_rules keeps_intros)
  show "tells env rf cx t (Handler_List env eng sv rf cx d q)"
    unfolding Handler_List_def
  proof (rule handle_tells [OF handler_reads_same(1)], rule handle_tells [OF lift_same], rule handle_tells)
    fix p la x w w' assume w: "w_tables w = t" and "(if p \<noteq> [] then ListByOwner env eng cx (desc_Kind d) p (Some la)
                   else Service_List env eng cx (desc_Kind d) (Some la)) w = (Inr x, w')"
    moreover obtain rows pm where x: "x = (rows, pm)" by (cases x)
    ultimately have "\<forall>r\<in>set rows. in_reach cx t (res_ID r)"
      using listed_reach [OF _ _ assms(2), of _ env cx "desc_Kind d" "Some la" p w rows pm w'] assms(1) by (auto split: if_splits)
    then show "tells env rf cx t (case x of (resources, paging) \<Rightarrow>
       handle env q (lift (list_payload rf la (PresentResourceList (env_registry env) resources paging))) (writeJSONResponse 200))"
      by (auto simp: x intro!: lifted_tells dest: list_payload_about)
  qed (intro reading.keeps_rules keeps_intros)
  show "tells env rf cx t (Handler_Get env rf cx d q)"
    unfolding Handler_Get_def
  proof (rule handle_tells [OF handler_reads_same(1)], rule handle_tells [OF parent])
    fix p r w w' assume "w_tables w = t" "(if p \<noteq> [] then Service_GetByOwner env cx (desc_Kind d) (rq_ID q) p
                   else Service_Get env cx (desc_Kind d) (rq_ID q)) w = (Inr r, w')"
    with assms(1) have "in_reach cx t (res_ID r)" by (auto split: if_splits dest: Service_Get_reach)
    then show "tells env rf cx t (handle env q (lift (applyFieldFilter rf q (PresentResource (env_registry env) r))) (writeJSONResponse 200))"
      by (auto intro!: lifted_tells dest: applyFieldFilter_about)
  qed
  show "tells env rf cx t (StatusHandler_List env sv cx d q)"
    unfolding StatusHandler_List_def
  proof (rule handle_tells [OF lift_same], rule handle_tells [OF handler_reads_same(2)])
    fix la u w w' assume "w_tables w = t" "verifyResource env cx d q w = (Inr u, w')"
    then have "in_reach cx t (rq_ID q)" using verifyResource_reach assms(1) by blast
    then show "tells env rf cx t (handle env q (listStatuses (desc_Kind d) (rq_ID q) la) (writeJSONResponse 200))"
      by (rule status_tells)
  qed
qed

lemma root_reads_tell:
  assumes "schema_ok t" "permutes_rows eng"
  shows "tells env rf cx t (Root_List env eng sv rf cx q)" "tells env rf cx t (Root_Get env rf cx q)"
    "tells env rf cx t (Root_ListStatuses env sv cx q)"
proof -
  show "tells env rf cx t (Root_List env eng sv rf cx q)"
    unfolding Root_List_def
  proof (rule handle_tells [OF lift_same], rule handle_tells [OF lift_same], rule handle_tells [OF lists_same(3)])
    fix la x w w' assume w: "w_tables w = t" and "ListAll eng cx (Some la) w = (Inr x, w')"
    moreover obtain rows pm where x: "x = (rows, pm)" by (cases x)
    ultimately have "\<forall>r\<in>set rows. in_reach cx t (res_ID r)"
      using listed_reach [OF _ _ assms(2), of "ListAll eng cx (Some la)" env cx "[]" "Some la" "[]" w rows pm w'] assms(1) by auto
    then show "tells env rf cx t (case x of (resources, paging) \<Rightarrow>
       handle env q (lift (list_payload rf la (PresentResourceList (env_registry env) resources paging))) (writeJSONResponse 200))"
      by (auto simp: x intro!: lifted_tells dest: list_payload_about)
  qed
  show "tells env rf cx t (Root_Get env rf cx q)"
    unfolding Root_Get_def
  proof (rule handle_tells [OF service_reads_same(3)])
    fix r w w' assume "w_tables w = t" "Service_GetByID cx (rq_ID q) w = (Inr r, w')"
    with assms(1) have "in_reach cx t (res_ID r)" by (auto dest: Service_Get_reach)
    then show "tells env rf cx t (handle env q (lift (applyFieldFilter rf q (PresentResource (env_registry env) r))) (writeJSONResponse 200))"
      by (auto intro!: lifted_tells dest: applyFieldFilter_about)
  qed
  show "tells env rf cx t (Root_ListStatuses env sv cx q)"
    unfolding Root_ListStatuses_def
  proof (rule handle_tells [OF lift_same], rule handle_tells [OF service_reads_same(3)])
    fix la r w w' assume "w_tables w = t" "Service_GetByID cx (rq_ID q) w = (Inr r, w')"
    with assms(1) have "in_reach cx t (rq_ID q)" by (auto dest: Service_Get_reach)
    then show "tells env rf cx t (handle env q (listStatuses (res_Kind r) (rq_ID q) la) (writeJSONResponse 200))"
      by (rule status_tells)
  qed
qed

lemma removal_tells: "tells env rf cx t (handle env q m (\<lambda>_. write_no_content))"
  by (rule handle_write_tells) (rule writes_tell(2))

lemma kind_writes_tell:
  assumes "schema_ok t"
  shows "tells env rf cx t (Handler_Create env cx d q cb)" "tells env rf cx t (Handler_Patch env cx d q pb)"
    "tells env rf cx t (Handler_Delete env cx d q)" "tells env rf cx t (Handler_ForceDelete env cx d q rb)"
    "tells env rf cx t (StatusHandler_Create env cx d q sb)"
proof -
  show "tells env rf cx t (Handler_Create env cx d q cb)"
    unfolding Handler_Create_def by (intro handle_tells tells_if rejection_tells created_tells keeps_intros)
  show "tells env rf cx t (Handler_Patch env cx d q pb)"
    unfolding Handler_Patch_def
    by (rule handle_tells [OF lift_same], rule write_tells) (use assms writes_reach(1,2) in \<open>auto split: if_splits\<close>)
  show "tells env rf cx t (Handler_Delete env cx d q)"
    unfolding Handler_Delete_def
    by (rule write_tells) (use assms writes_reach(3,4) in \<open>auto split: if_splits\<close>)
  show "tells env rf cx t (Handler_ForceDelete env cx d q rb)"
    unfolding Handler_ForceDelete_def by (intro handle_tells lift_same removal_tells)
  show "tells env rf cx t (StatusHandler_Create env cx d q sb)"
    unfolding StatusHandler_Create_def
    by (rule bindE_tells [OF time_Now_same], rule handle_tells [OF lift_same], rule handle_tells [OF handler_reads_same(2)],
        rule status_tells) (use assms in \<open>auto dest: verifyResource_reach\<close>)
qed

lemma root_writes_tell:
  assumes "schema_ok t"
  shows "tells env rf cx t (Root_Create env cx q cb)" "tells env rf cx t (Root_Patch env v cx q pb)"
    "tells env rf cx t (Root_Delete env cx q)" "tells env rf cx t (Root_ForceDelete env cx q rb)"
    "tells env rf cx t (Root_CreateStatus env cx q sb)"
proof -
  show "tells env rf cx t (Root_Create env cx q cb)"
    unfolding Root_Create_def
    by (intro handle_tells lift_same) (auto intro!: tells_if rejection_tells created_tells telling split: option.split)
  show "tells env rf cx t (Root_Patch env v cx q pb)"
    unfolding Root_Patch_def
  proof (rule handle_tells [OF lift_same], rule handle_tells [OF service_reads_same(3)])
    fix req and r :: resource
    have "tells env rf cx t (handle env q (Patch env cx (res_Kind r) (rq_ID q) (convertResourcePatch req))
        (\<lambda>patched. writeJSONResponse 200 (ResourceDoc (PresentResource (env_registry env) patched))))"
      by (rule write_tells) (use assms writes_reach(1) in auto)
    then show "tells env rf cx t (case check_patch_spec env v r req of Some specErr \<Rightarrow> handleError env q specErr
      | None \<Rightarrow> handle env q (Patch env cx (res_Kind r) (rq_ID q) (convertResourcePatch req)) (\<lambda>patched.
          writeJSONResponse 200 (ResourceDoc (PresentResource (env_registry env) patched))))"
      using always_then [OF handleError_tells] by (simp split: option.split)
  qed
  show "tells env rf cx t (Root_Delete env cx q)"
    unfolding Root_Delete_def
    by (rule handle_tells [OF service_reads_same(3)], rule write_tells) (use assms writes_reach(3) in auto)
  show "tells env rf cx t (Root_ForceDelete env cx q rb)"
    unfolding Root_ForceDelete_def by (intro handle_tells lift_same service_reads_same removal_tells)
  show "tells env rf cx t (Root_CreateStatus env cx q sb)"
    unfolding Root_CreateStatus_def
    by (rule bindE_tells [OF time_Now_same], rule handle_tells [OF lift_same], rule handle_tells [OF service_reads_same(3)],
        rule status_tells) (use assms in \<open>auto dest: Service_Get_reach(3)\<close>)
qed

end
