(* ===== verification/Server_Safety.thy ===== *)
theory Server_Safety
  imports Server Request_Answers
begin

text \<open>
  What a started process guarantees to whoever talks to it over HTTP: who is let in, what a request can change and what it
  is told, and what any sequence of requests does to the resources.
\<close>

section \<open>A route changes and tells what its handler does\<close>

lemma kind_handler_serves: "serves (sv_env sv) cx (kind_handler sv cx q h d oper)"
  by (cases oper) (simp_all add: writing_handlers same_serves reading_handlers)

lemma root_handler_serves: "serves (sv_env sv) cx (root_handler sv cx q h oper)"
  by (cases oper) (simp_all add: writing_handlers same_serves reading_handlers)

lemma document_same: "keeps same_tables (document a)"
  unfolding document_def by (rule reading.keeps_rules)

lemma api_serves: "serves env cx m \<Longrightarrow> serves env cx (bindE m (\<lambda>resp. returnE (Api resp)))"
  by (rule serves_bindE_write) (simp_all add: reading.keeps_rules)

lemma handle_route_serves: "serves (sv_env sv) cx (handle_route sv cx pattern q rid h)"
  by (cases h)
    (simp_all add: handle_route_def api_serves kind_handler_serves root_handler_serves same_serves document_same
      reading.keeps_rules time_Now_same)

lemma kind_handler_tells:
  "schema_ok t \<Longrightarrow> permutes_rows (sv_engine sv) \<Longrightarrow> tells (sv_env sv) (sv_reflect sv) cx t (kind_handler sv cx q h d oper)"
  by (cases oper) (simp_all add: kind_reads_tell kind_writes_tell)

lemma root_handler_tells:
  "schema_ok t \<Longrightarrow> permutes_rows (sv_engine sv) \<Longrightarrow> tells (sv_env sv) (sv_reflect sv) cx t (root_handler sv cx q h oper)"
  by (cases oper) (simp_all add: root_reads_tell root_writes_tell)

text \<open>A reply of the API is about resources with a property; a document is about none.\<close>

definition reply_about :: "server \<Rightarrow> (string \<Rightarrow> bool) \<Rightarrow> reply \<Rightarrow> bool" where
  "reply_about sv P rep =
     (case rep of Api resp \<Rightarrow> about (env_registry (sv_env sv)) (sv_reflect sv) P (rs_Payload resp) | _ \<Rightarrow> True)"

lemma handle_route_tells:
  assumes "schema_ok (w_tables w)" "permutes_rows (sv_engine sv)"
    and "handle_route sv cx pattern q rid h w = (Inr rep, w')"
  shows "reply_about sv (in_reach cx (w_tables w)) rep"
proof (cases h)
  case (KindHandler d oper)
  with assms(3) obtain resp where "kind_handler sv cx q (handler_request pattern q rid) d oper w = (Inr resp, w')" "rep = Api resp"
    by (auto simp: handle_route_def returnE_run elim!: bindE_InrE)
  with tellsD [OF kind_handler_tells [OF assms(1,2)] refl] show ?thesis by (simp add: reply_about_def)
next
  case (RootHandler oper)
  with assms(3) obtain resp where "root_handler sv cx q (handler_request pattern q rid) oper w = (Inr resp, w')" "rep = Api resp"
    by (auto simp: handle_route_def returnE_run elim!: bindE_InrE)
  with tellsD [OF root_handler_tells [OF assms(1,2)] refl] show ?thesis by (simp add: reply_about_def)
qed (use assms(3) in \<open>auto simp: handle_route_def reply_about_def document_def returnE_run elim!: bindE_InrE\<close>)

lemma problem_about: "problem_reply rep \<Longrightarrow> reply_about sv P rep"
  by (auto simp: problem_reply_def reply_about_def split: reply.splits payload.splits)

section \<open>Requests that are not for a resource\<close>

text \<open>A reply that tells nothing: a problem, a document, or no route.\<close>

definition empty_reply :: "reply \<Rightarrow> bool" where
  "empty_reply rep \<longleftrightarrow> problem_reply rep \<or> (\<exists>calls. rep = Unrouted calls) \<or> (\<exists>a. rep = Document a)"

lemma empty_about: "empty_reply rep \<Longrightarrow> reply_about sv P rep"
  by (auto simp: empty_reply_def problem_about) (simp_all add: reply_about_def)

lemma through_document:
  assumes "handler_of s \<in> {MetadataHandler, OpenAPIUI, OpenAPIDoc}" "through sv pattern q rid r s w = (res, w')"
  shows "w_tables w' = w_tables w \<and> (\<forall>rep. res = Inr rep \<longrightarrow> empty_reply rep)"
  using assms
proof (induction s arbitrary: rid r)
  case (Served h)
  have "keeps same_tables (handle_route sv (rq_Context r) pattern q rid h)"
    using Served.prems(1) by (auto simp: handle_route_def intro!: reading.keeps_rules time_Now_same document_same)
  from keepsD [OF this] Served.prems show ?case
    by (auto simp: same_tables_def handle_route_def document_def returnE_run empty_reply_def elim!: bindE_InrE)
next
  case (Wrapped mw s)
  note IH = Wrapped.IH [OF Wrapped.prems(1) [unfolded handler_of.simps]]
  have refused: "w_tables w' = w_tables w \<and> (\<forall>rep. res = Inr rep \<longrightarrow> empty_reply rep)"
    if "refuse sv q rid vary err w = (res, w')" for vary err
    using refuse_run [OF that] by (simp add: empty_reply_def)
  show ?case using Wrapped.prems(2) IH refused
    by (cases mw) (auto simp: guarded_def split: sum.splits option.splits)
qed

section \<open>Which paths are exempt\<close>

text \<open>A plural that is one segment, and that the prefix test of the identity and tenant middleware leaves alone.\<close>

definition safe_plural :: "string \<Rightarrow> bool" where
  "safe_plural p \<longleftrightarrow> plain_plural p \<and> \<not> HasPrefix p ''openapi'' \<and> \<not> HasPrefix p ''errors''"

lemma Split_prefix: "c \<notin> set a \<Longrightarrow> \<exists>b bs. Split c (a @ rest) = (a @ b) # bs"
proof (induction a)
  case Nil
  then show ?case by (cases "Split c rest") auto
next
  case (Cons x a)
  then obtain b bs where "Split c (a @ rest) = (a @ b) # bs" by auto
  with Cons.prems show ?case by auto
qed

lemma prefix_segment:
  assumes "HasPrefix path (''/api/hyperfleet/v1/'' @ a)" "CHR ''/'' \<notin> set a"
  shows "\<exists>b bs. Split (CHR ''/'') path = [[], ''api'', ''hyperfleet'', ''v1''] @ (a @ b) # bs"
proof -
  let ?p = "''/api/hyperfleet/v1/'' @ a"
  have "path = ?p @ drop (length ?p) path" using assms(1) append_take_drop_id [of "length ?p" path] unfolding HasPrefix_def by metis
  then obtain rest where path: "path = ''/api/hyperfleet/v1'' @ CHR ''/'' # a @ rest" by fastforce
  from Split_prefix [OF assms(2)] obtain b bs where "Split (CHR ''/'') (a @ rest) = (a @ b) # bs" by blast
  then show ?thesis unfolding path Split_append by simp
qed

lemma resource_path_guarded:
  assumes "BuildAPIServer cfg ds jh = Inr m" "registry_sound ds" "list_all (safe_plural \<circ> desc_Plural) ds"
    and "(p, s) \<in> set m" "handler_of s \<notin> {MetadataHandler, OpenAPIUI, OpenAPIDoc}" "pattern_matches p verb path"
  shows "\<not> ShouldSkipCallerIdentity path"
proof -
  obtain docs where "RegisterEntityRoutes ds (protected_router cfg) docs = Inr m"
    using BuildAPIServer_Inr [OF assms(1)] by blast
  then have ok: "plurals_ok ds"
    using RegisterEntityRoutes_Inr(1) assms(2,3) by (auto simp: plurals_ok_def registry_sound_def list_all_iff safe_plural_def)
  from assms(4,5) obtain b h v t oper where r: "(b, h) \<in> bases ds" "(v, t, oper) \<in> set resource_table"
      "p = v @ '' '' @ apiV1BasePath @ slash_base b @ t"
    by (auto elim!: server_routes [OF assms(1)])
  from assms(6) pattern_matches_route [OF r(2) bases_no_slash [OF ok r(1)], of verb path] r(3)
  have m: "list_all2 segment_matches ([[], ''api'', ''hyperfleet'', ''v1''] @ b @ tail_segments t) (Split (CHR ''/'') path)" by auto
  have hd: "b \<noteq> []" "\<not> HasPrefix (hd b) ''openapi''" "\<not> HasPrefix (hd b) ''errors''" "\<not> wildcard (hd b)"
    using bases_head [OF ok r(1)] r(1) assms(3)
    by (auto elim!: bases.cases dest!: Get_Some simp: list_all_iff safe_plural_def HasPrefix_def)
  have seg: "\<not> HasPrefix path (''/api/hyperfleet/v1/'' @ a)" if "CHR ''/'' \<notin> set a" "\<not> HasPrefix (hd b) a" for a
  proof
    assume "HasPrefix path (''/api/hyperfleet/v1/'' @ a)"
    from prefix_segment [OF this that(1)] obtain x xs where "Split (CHR ''/'') path = [[], ''api'', ''hyperfleet'', ''v1''] @ (a @ x) # xs"
      by blast
    with m hd(1,4) have "hd b = a @ x" by (cases b) (auto simp: segment_matches_def)
    with that(2) show False by (simp add: HasPrefix_def)
  qed
  from seg [of "''openapi''"] seg [of "''errors''"] hd show ?thesis by (simp add: ShouldSkipCallerIdentity_def)
qed

section \<open>A started server\<close>

text \<open>What a run puts into its server; clock, identifiers, database engine and documents come from outside.\<close>

definition serving :: "running \<Rightarrow> server \<Rightarrow> server" where
  "serving rn sv =
     sv\<lparr>sv_env := (sv_env sv)\<lparr>env_registry := rn_registry rn, env_mappers := rn_mappers rn\<rparr>,
        sv_validators := (case rn_jwt rn of None \<Rightarrow> [] | Some vs \<Rightarrow> vs),
        sv_tenant := sc_Tenant (ac_Server (rn_cfg rn)), sv_schema := rn_validator rn\<rparr>"

lemma unrouted_run:
  assumes "dispatch m (served_request q0) = None" "ServeHTTP sv m q0 w = (res, w')"
  shows "w_tables w' = w_tables w" "\<And>rep. res = Inr rep \<Longrightarrow> empty_reply rep"
proof -
  let ?m = "bindE (time_Now (sv_env sv)) (\<lambda>now. returnE (Unrouted (WithNotFoundHandler
      (SendNotFound (sv_marshals sv) now (in_Path (served_request q0)) []) [] (sv_unmatched sv (served_request q0)))))"
  from assms have run: "?m w = (res, w')" by (simp add: ServeHTTP_def Let_def)
  have "keeps same_tables ?m" by (intro reading.keeps_rules time_Now_same)
  from keepsD [OF this run] show "w_tables w' = w_tables w" by (simp add: same_tables_def)
  from run show "empty_reply rep" if "res = Inr rep" for rep using that by (auto simp: returnE_run empty_reply_def elim!: bindE_InrE)
qed

lemma dispatch_Some: "dispatch m q = Some (p, s) \<Longrightarrow> (p, s) \<in> set m \<and> pattern_matches p (in_Method q) (in_Path q)"
  by (auto simp: dispatch_def split: if_splits dest!: find_first_Some)

text \<open>What becomes of a request to a server with JWT and tenancy on.\<close>

lemma ServeHTTP_cases:
  assumes "BuildAPIServer cfg ds jh = Inr m" "ap_JWTEnabled cfg" "ap_TenantEnabled cfg"
    and run: "ServeHTTP sv m q0 w = (res, w')"
  obtains (unserved) "w_tables w' = w_tables w" "\<And>rep. res = Inr rep \<Longrightarrow> empty_reply rep"
  | (handled) p s cx rid where "(p, s) \<in> set m" "handler_of s \<notin> {MetadataHandler, OpenAPIUI, OpenAPIDoc}"
      "pattern_matches p (in_Method q0) (in_Path (served_request q0))" "admit sv (served_request q0) = Some cx"
      "handle_route sv cx p (served_request q0) rid (handler_of s) w = (res, w')"
proof (cases "dispatch m (served_request q0)")
  case None
  from unrouted_run [OF None run] unserved show thesis by blast
next
  case (Some ps)
  then obtain p s where d: "dispatch m (served_request q0) = Some (p, s)" by (cases ps) auto
  with run have t: "through sv p (served_request q0) None (incoming_request (served_request q0)) s w = (res, w')"
    by (simp add: ServeHTTP_def Let_def)
  note d = dispatch_Some [OF d]
  show thesis
  proof (cases "handler_of s \<in> {MetadataHandler, OpenAPIUI, OpenAPIDoc}")
    case True
    from through_document [OF True t] unserved show thesis by blast
  next
    case False
    from guarded_chain [OF assms(1-3) _ False] d obtain before where
      c: "chain s = before @ guards" "set before \<subseteq> set passing"
      unfolding guards_def passing_def by auto
    show thesis
    proof (rule through_guards [OF c t])
      assume "w_tables w' = w_tables w" "\<And>rep. res = Inr rep \<Longrightarrow> problem_reply rep"
      then show thesis by (intro unserved) (simp_all add: empty_reply_def)
    next
      fix cx rid' assume "admit sv (served_request q0) = Some cx"
        "handle_route sv cx p (served_request q0) rid' (handler_of s) w = (res, w')"
      with d False show thesis by (intro handled) (simp_all add: served_request_def)
    qed
  qed
qed

section \<open>Who is let in\<close>

text \<open>A caller whose token the parser of a safe issuer accepted from the bearer credentials in that issuer's header.\<close>

definition vouched :: "('k, 's) jwt_library \<Rightarrow> Auth.http_request \<Rightarrow> req_context \<Rightarrow> bool" where
  "vouched lib r cx \<longleftrightarrow>
     (\<exists>i kf scheme raw token.
        safe_issuer (jl_Config lib) i \<and> buildKeyfunc lib i = Inr kf \<and>
        Fields (Header_Get r (ji_Header i)) = [scheme, raw] \<and> EqualFold scheme ''Bearer'' \<and>
        jl_Parse lib \<lparr>po_ValidMethods = [''RS256''], po_ExpirationRequired = True, po_Leeway = 30 * Second,
          po_Issuer = ji_IssuerURL i, po_Audience = (if ji_Audience i \<noteq> [] then Some (ji_Audience i) else None)\<rparr> kf raw = Inr token \<and>
        cx_Token cx = Some token \<and> cx_Issuer cx = Some i)"

text \<open>A caller who is let in: he has a token, a tenant the configuration grants and, where the method mutates, an
  identity fit for the audit columns.\<close>

definition let_in :: "('k, 's) jwt_library \<Rightarrow> tenant_config \<Rightarrow> Auth.http_request \<Rightarrow> req_context \<Rightarrow> bool" where
  "let_in lib tc r cx \<longleftrightarrow>
     vouched lib r cx \<and> (\<exists>t. cx_Tenant cx = Some t \<and> tenant_granted tc t) \<and>
     (isMutatingMethod (Auth.http_request.rq_Method r) \<longrightarrow>
        GetUsernameFromContext cx \<noteq> [] \<and> (\<exists>i. cx_Issuer cx = Some i \<and> identity_fit i (GetUsernameFromContext cx)))"

lemma ResolveCallerIdentity_frame:
  "ResolveCallerIdentity r = Inr r' \<Longrightarrow> \<exists>u. r' = r\<lparr>rq_Context := (rq_Context r)\<lparr>cx_Username := u\<rparr>\<rparr>"
  unfolding ResolveCallerIdentity_def SetUsernameContext_def
  by (auto split: if_splits sum.splits list.splits) (metis Auth.http_request.surjective Auth.http_request.update_convs(4) req_context.surjective req_context.update_convs(1))+

lemma ResolveTenant_frame:
  "ResolveTenant tc r = Inr r' \<Longrightarrow> \<exists>t. r' = r\<lparr>rq_Context := (rq_Context r)\<lparr>cx_Tenant := t\<rparr>\<rparr>"
  unfolding ResolveTenant_def resolveFromClaims_def WithTenant_def Let_def
  by (auto split: if_splits sum.splits) (metis Auth.http_request.surjective Auth.http_request.update_convs(4) req_context.surjective req_context.update_convs(4))+

lemma JWT_Middleware_frame:
  "JWT_Middleware vs r = Inr r' \<Longrightarrow> \<exists>cx. r' = r\<lparr>rq_Context := cx\<rparr>"
  unfolding JWT_Middleware_def by (auto split: sum.splits prod.splits option.splits jwt_error.splits bool.splits)

lemma admit_let_in:
  assumes "admit sv q = Some cx" "NewJWTHandler lib issuers = Inr (sv_validators sv)"
    and "\<not> ShouldSkipCallerIdentity (in_Path q)"
  shows "let_in lib (sv_tenant sv) (incoming_request q) cx"
proof -
  let ?r = "incoming_request q"
  from assms(1) obtain r1 r2 r3 where r: "JWT_Middleware (sv_validators sv) ?r = Inr r1" "ResolveCallerIdentity r1 = Inr r2"
    "ResolveTenant (sv_tenant sv) r2 = Inr r3" "cx = rq_Context r3"
    by (auto simp: admit_def split: sum.splits)
  from JWT_Middleware_frame [OF r(1)] ResolveCallerIdentity_frame [OF r(2)] ResolveTenant_frame [OF r(3)]
  obtain cx1 u t where f: "r1 = ?r\<lparr>rq_Context := cx1\<rparr>" "r2 = r1\<lparr>rq_Context := (rq_Context r1)\<lparr>cx_Username := u\<rparr>\<rparr>"
    "r3 = r2\<lparr>rq_Context := (rq_Context r2)\<lparr>cx_Tenant := t\<rparr>\<rparr>" by blast
  have skip: "\<not> ShouldSkipCallerIdentity (Auth.http_request.rq_Path r1)" "\<not> shouldSkipTenant (Auth.http_request.rq_Path r2)"
    using assms(3) by (simp_all add: f incoming_request_def shouldSkipTenant_def)
  have "vouched lib ?r cx"
    using accepted_token [OF assms(2) r(1)] unfolding vouched_def r(4) f by simp
  moreover have "\<exists>t. cx_Tenant cx = Some t \<and> tenant_granted (sv_tenant sv) t"
    using ResolveTenant_grants [OF r(3) skip(2)] r(4) by blast
  moreover have "GetUsernameFromContext cx \<noteq> [] \<and> (\<exists>i. cx_Issuer cx = Some i \<and> identity_fit i (GetUsernameFromContext cx))"
    if "isMutatingMethod (Auth.http_request.rq_Method ?r)"
    using ResolveCallerIdentity_fit [OF r(2) _ skip(1)] that unfolding r(4) f GetUsernameFromContext_def by simp
  ultimately show ?thesis by (simp add: let_in_def)
qed

text \<open>The condition on the plurals is needed: nothing in the registry rules out a kind with a plural like \<open>errors\<close>, and
  on its routes a caller has neither identity nor tenant, so that every row is in his scope.\<close>

lemma exempt_unscoped:
  assumes "admit sv q = Some cx" "ShouldSkipCallerIdentity (in_Path q)"
  shows "cx_Username cx = None \<and> cx_Tenant cx = None \<and> in_scope cx x"
proof -
  from assms(1) obtain r1 where r1: "JWT_Middleware (sv_validators sv) (incoming_request q) = Inr r1"
    by (auto simp: admit_def split: sum.splits)
  then have "rq_Context r1 = Background\<lparr>cx_Token := cx_Token (rq_Context r1), cx_Issuer := cx_Issuer (rq_Context r1)\<rparr>"
    and p: "Auth.http_request.rq_Path r1 = in_Path q"
    by (auto simp: JWT_Middleware_def incoming_request_def split: sum.splits option.splits jwt_error.splits bool.splits)
  moreover have "cx = rq_Context r1"
    using assms r1 p by (simp add: admit_def ResolveCallerIdentity_def ResolveTenant_def shouldSkipTenant_def)
  ultimately have "cx_Username cx = None" "cx_Tenant cx = None" by (metis Background_def req_context.simps)+
  then show ?thesis by (simp add: in_scope_def ScopeDB_def ScopeClause_def)
qed

lemma exempt_plural_valid:
  "Validate sample_compiler [sample_descriptor ''Error'' ''errors'' [] []] = None"
  "ShouldSkipCallerIdentity ''/api/hyperfleet/v1/errors/e1''"
  by code_simp+

text \<open>A request to a started server with both guards on.\<close>

lemma started_cases:
  assumes "startup p = (Inr rn, steps)" and on: "jwt_on (rn_cfg rn)" "tc_Enabled (sc_Tenant (ac_Server (rn_cfg rn)))"
    and plurals: "list_all (safe_plural \<circ> desc_Plural) (rn_registry rn)"
    and run: "ServeHTTP (serving rn sv) (rn_mux rn) q w = (res, w')"
  obtains (unserved) "w_tables w' = w_tables w" "\<And>rep. res = Inr rep \<Longrightarrow> empty_reply rep"
  | (handled) pat cx rid h where "admit (serving rn sv) (served_request q) = Some cx"
      "let_in (pr_jwt p) (sc_Tenant (ac_Server (rn_cfg rn))) (incoming_request (served_request q)) cx"
      "handle_route (serving rn sv) cx pat (served_request q) rid h w = (res, w')"
proof -
  from startup_Inr [OF assms(1)] obtain cfg where
    cfg: "rn_cfg rn = cfg" and reg: "LoadDescriptors (ac_Entities cfg) [] = Inr (rn_registry rn)" "Validate (pr_cel_compiler p) (rn_registry rn) = None"
    and api: "BuildAPIServer (api_config_of cfg) (rn_registry rn) (rn_jwt rn \<noteq> None) = Inr (rn_mux rn)"
    and jwt: "if jwt_on cfg then \<exists>vs. rn_jwt rn = Some vs \<and> NewJWTHandler (pr_jwt p) (jc_Configs (sc_JWT (ac_Server cfg))) = Inr vs
       else rn_jwt rn = None" by metis
  have sound: "registry_sound (rn_registry rn)"
    using reg Validate_iff [of "rn_registry rn" "pr_cel_compiler p"] by (auto simp: LoadDescriptors_exact)
  from jwt on(1) cfg have v: "NewJWTHandler (pr_jwt p) (jc_Configs (sc_JWT (ac_Server cfg))) = Inr (sv_validators (serving rn sv))"
    by (auto simp: serving_def)
  have guards: "ap_JWTEnabled (api_config_of cfg)" "ap_TenantEnabled (api_config_of cfg)"
    using on by (simp_all add: api_config_of_def jwt_on_def cfg)
  show thesis
  proof (rule ServeHTTP_cases [OF api guards run])
    fix pat s cx rid
    assume h: "(pat, s) \<in> set (rn_mux rn)" "handler_of s \<notin> {MetadataHandler, OpenAPIUI, OpenAPIDoc}"
      "pattern_matches pat (in_Method q) (in_Path (served_request q))" "admit (serving rn sv) (served_request q) = Some cx"
      "handle_route (serving rn sv) cx pat (served_request q) rid (handler_of s) w = (res, w')"
    from resource_path_guarded [OF api sound plurals h(1-3)] have "\<not> ShouldSkipCallerIdentity (in_Path (served_request q))" .
    from admit_let_in [OF h(4) v this] have "let_in (pr_jwt p) (sc_Tenant (ac_Server (rn_cfg rn))) (incoming_request (served_request q)) cx"
      by (simp add: serving_def)
    then show thesis by (rule handled [OF h(4) _ h(5)])
  qed (rule unserved)
qed

text \<open>C2. Nobody is served who is not let in: a started server with JWT and tenancy on, and plurals the prefix test of its
  middleware leaves alone, changes a table or answers with anything but a problem or a document only for a request whose
  bearer token the parser of a configured, safe issuer accepted, whose tenant its configuration grants and, if its method
  mutates, whose caller has an identity fit for the audit columns of that issuer.\<close>

theorem only_let_in_served:
  assumes "startup p = (Inr rn, steps)" and "jwt_on (rn_cfg rn)" and "tc_Enabled (sc_Tenant (ac_Server (rn_cfg rn)))"
    and "list_all (safe_plural \<circ> desc_Plural) (rn_registry rn)"
    and "ServeHTTP (serving rn sv) (rn_mux rn) q w = (res, w')"
    and "w_tables w' \<noteq> w_tables w \<or> (\<exists>rep. res = Inr rep \<and> \<not> empty_reply rep)"
  shows "\<exists>cx. admit (serving rn sv) (served_request q) = Some cx \<and>
     let_in (pr_jwt p) (sc_Tenant (ac_Server (rn_cfg rn))) (incoming_request (served_request q)) cx"
  by (rule started_cases [OF assms(1-5)]) (use assms(6) in blast)+

section \<open>What a request can change and what it is told\<close>

lemma same_or_served_foreign:
  assumes "schema_ok (w_tables w)" "same_or_served env cx w w'"
  shows "filter (\<lambda>x. res_ID x \<in> resource_ids (w_tables w)) (foreign cx (w_tables w')) = foreign cx (w_tables w)"
  using assms(2) unfolding same_or_served_def
proof (elim disjE exE conjE)
  assume "w_tables w' = w_tables w"
  then show ?thesis by (auto simp: foreign_def resource_ids_def intro!: filter_cong)
next
  fix r v res v' assume v: "w_tables v = w_tables w" "Resource_Service.serve env cx r v = (res, v')" "w_tables w' = w_tables v'"
  from serve_foreign [OF _ v(2)] v(1,3) assms(1) show ?thesis by simp
qed

text \<open>C1. Tenants do not see or touch each other's resources over HTTP: whatever a request is, to a started server with both
  guards on, either nothing changes and the reply tells nothing, or there is an admitted caller such that every row
  outside his tenancy scope is exactly as it was, no row outside it is new but under a new identifier, and a reply presents
  only resources, or reports on resources, whose identifier no row outside his scope has.  PostgreSQL's ordering is assumed
  to permute the rows.\<close>

theorem tenants_isolated_over_HTTP:
  assumes "startup p = (Inr rn, steps)" and "jwt_on (rn_cfg rn)" and "tc_Enabled (sc_Tenant (ac_Server (rn_cfg rn)))"
    and "list_all (safe_plural \<circ> desc_Plural) (rn_registry rn)"
    and "ServeHTTP (serving rn sv) (rn_mux rn) q w = (res, w')"
    and "schema_ok (w_tables w)" and "permutes_rows (sv_engine sv)"
  shows "(w_tables w' = w_tables w \<and> (\<forall>rep. res = Inr rep \<longrightarrow> empty_reply rep)) \<or>
     (\<exists>cx. admit (serving rn sv) (served_request q) = Some cx \<and>
        let_in (pr_jwt p) (sc_Tenant (ac_Server (rn_cfg rn))) (incoming_request (served_request q)) cx \<and>
        filter (\<lambda>x. \<not> in_scope cx x \<and> res_ID x \<in> resource_ids (w_tables w)) (t_resources (w_tables w')) =
          filter (\<lambda>x. \<not> in_scope cx x) (t_resources (w_tables w)) \<and>
        (\<forall>rep. res = Inr rep \<longrightarrow> reply_about (serving rn sv) (in_reach cx (w_tables w)) rep))"
proof (rule started_cases [OF assms(1-5)])
  fix pat cx rid h
  assume h: "admit (serving rn sv) (served_request q) = Some cx"
    "let_in (pr_jwt p) (sc_Tenant (ac_Server (rn_cfg rn))) (incoming_request (served_request q)) cx"
    "handle_route (serving rn sv) cx pat (served_request q) rid h w = (res, w')"
  have "same_or_served (sv_env (serving rn sv)) cx w w'" using handle_route_serves h(3) by (simp add: serves_def)
  from same_or_served_foreign [OF assms(6) this]
  have f: "filter (\<lambda>x. \<not> in_scope cx x \<and> res_ID x \<in> resource_ids (w_tables w)) (t_resources (w_tables w')) =
      filter (\<lambda>x. \<not> in_scope cx x) (t_resources (w_tables w))" by (simp add: foreign_def conj_commute)
  have "permutes_rows (sv_engine (serving rn sv))" using assms(7) by (simp add: serving_def)
  with h(3) have "reply_about (serving rn sv) (in_reach cx (w_tables w)) rep" if "res = Inr rep" for rep
    using handle_route_tells [OF assms(6)] that by simp
  with h f show ?thesis by blast
qed blast

section \<open>What any sequence of requests does\<close>

definition reading_op :: "handler_op \<Rightarrow> bool" where
  "reading_op oper \<longleftrightarrow> oper \<in> {OpList, OpGet, OpListStatuses}"

lemma handle_route_reads:
  assumes "\<And>d oper. h = KindHandler d oper \<or> h = RootHandler oper \<Longrightarrow> reading_op oper"
  shows "keeps same_tables (handle_route sv cx pattern q rid h)"
proof (cases h)
  case (KindHandler d oper)
  with assms show ?thesis
    by (cases oper) (simp_all add: reading_op_def handle_route_def reading.keeps_rules reading_handlers)
next
  case (RootHandler oper)
  with assms show ?thesis
    by (cases oper) (simp_all add: reading_op_def handle_route_def reading.keeps_rules reading_handlers)
qed (simp_all add: handle_route_def reading.keeps_rules time_Now_same document_same)

lemma through_effect:
  assumes "through sv pattern q rid r s w = (res, w')"
  shows "\<exists>cx. same_or_served (sv_env sv) cx w w'"
    and "(\<And>cx rid. keeps same_tables (handle_route sv cx pattern q rid (handler_of s))) \<Longrightarrow> w_tables w' = w_tables w"
proof -
  have "(\<exists>cx rid. handle_route sv cx pattern q rid (handler_of s) w = (res, w')) \<or> w_tables w' = w_tables w"
    using assms
  proof (induction s arbitrary: rid r)
    case (Wrapped mw s)
    have refused: "w_tables w' = w_tables w" if "refuse sv q rid vary err w = (res, w')" for vary err
      using refuse_run [OF that] by blast
    show ?case using Wrapped.prems Wrapped.IH refused
      by (cases mw) (auto simp: guarded_def split: sum.splits option.splits)
  qed auto
  then consider (run) cx rid where "handle_route sv cx pattern q rid (handler_of s) w = (res, w')"
    | (same) "w_tables w' = w_tables w" by blast
  note c = this
  show "\<exists>cx. same_or_served (sv_env sv) cx w w'"
  proof (cases rule: c)
    case run
    then show ?thesis using handle_route_serves unfolding serves_def by blast
  qed (auto simp: same_or_served_def)
  show "w_tables w' = w_tables w" if "\<And>cx rid. keeps same_tables (handle_route sv cx pattern q rid (handler_of s))"
  proof (cases rule: c)
    case run
    from keepsD [OF that run] show ?thesis by (simp add: same_tables_def)
  qed
qed

lemma route_reads:
  assumes "BuildAPIServer cfg ds jh = Inr m" "(p, s) \<in> set m" "pattern_matches p verb path" "\<not> isMutatingMethod verb"
  shows "keeps same_tables (handle_route sv cx p q rid (handler_of s))"
  using assms(1,2)
proof (cases rule: server_routes)
  case doc
  then show ?thesis by (intro handle_route_reads) auto
next
  case (resource b h v t oper)
  have "Cut (CHR 0x20) (v @ '' '' @ x) = (v, x, True)" for x using table_verbs [OF resource(2)] by auto
  with assms(3) resource(3) have "verb_matches v verb" by (simp add: pattern_matches_def)
  with resource(2) assms(4) have "reading_op oper"
    by (auto simp: resource_table_def reading_op_def verb_matches_def isMutatingMethod_def)
  with resource(1,4) show ?thesis by (intro handle_route_reads) (auto elim: bases.cases)
qed

text \<open>Any number of requests, one after the other; between two of them anything but the tables may change.\<close>

inductive http_run :: "server \<Rightarrow> mux \<Rightarrow> world \<Rightarrow> incoming list \<Rightarrow> world \<Rightarrow> bool" where
  http_done: "http_run sv m w [] w"
| http_next: "w_tables w1 = w_tables w \<Longrightarrow> ServeHTTP sv m q w1 = (res, w2) \<Longrightarrow> http_run sv m w2 qs w' \<Longrightarrow>
     http_run sv m w (q # qs) w'"

lemma ServeHTTP_effect:
  assumes "BuildAPIServer cfg ds jh = Inr m" "ServeHTTP sv m q w = (res, w')"
  shows "(\<exists>cx. same_or_served (sv_env sv) cx w w') \<and> (isMutatingMethod (in_Method q) \<or> w_tables w' = w_tables w)"
proof (cases "dispatch m (served_request q)")
  case None
  from unrouted_run(1) [OF None assms(2)] show ?thesis by (auto simp: same_or_served_def)
next
  case (Some ps)
  then obtain p s where d: "dispatch m (served_request q) = Some (p, s)" by (cases ps) auto
  with assms(2) have t: "through sv p (served_request q) None (incoming_request (served_request q)) s w = (res, w')"
    by (simp add: ServeHTTP_def Let_def)
  from dispatch_Some [OF d] have "(p, s) \<in> set m" "pattern_matches p (in_Method q) (in_Path (served_request q))"
    by (simp_all add: served_request_def)
  with through_effect [OF t] route_reads [OF assms(1)] show ?thesis by blast
qed

lemma history_tables:
  assumes "history env w qs w'" "w_tables v = w_tables w"
  shows "\<exists>v'. history env v qs v' \<and> w_tables v' = w_tables w'"
  using assms(1)
proof cases
  case h_done
  with assms(2) show ?thesis by (auto intro: history.h_done)
next
  case h_serve
  have "history env v qs w'"
    unfolding h_serve(1) by (rule history.h_serve [OF _ h_serve(3,4)]) (simp add: h_serve(2) assms(2))
  then show ?thesis by blast
qed

lemma http_history:
  assumes "http_run sv m w qs w'" "BuildAPIServer cfg ds jh = Inr m"
  shows "\<exists>rs v'. history (sv_env sv) w rs v' \<and> w_tables v' = w_tables w' \<and>
     length rs \<le> length (filter (\<lambda>q. isMutatingMethod (in_Method q)) qs)"
  using assms
proof (induction rule: http_run.induct)
  case (http_done sv m w)
  then show ?case using history.h_done by fastforce
next
  case (http_next w1 w sv m q res w2 qs w')
  from http_next.IH [OF http_next.prems] obtain rs v' where rs: "history (sv_env sv) w2 rs v'" "w_tables v' = w_tables w'"
    "length rs \<le> length (filter (\<lambda>q. isMutatingMethod (in_Method q)) qs)" by blast
  from ServeHTTP_effect [OF http_next.prems http_next.hyps(2)] obtain cx where
    s: "same_or_served (sv_env sv) cx w1 w2" "isMutatingMethod (in_Method q) \<or> w_tables w2 = w_tables w1" by blast
  show ?case
  proof (cases "w_tables w2 = w_tables w1")
    case True
    with history_tables [OF rs(1), of w] http_next.hyps(1) rs(2,3) show ?thesis
      by (auto intro: le_SucI)
  next
    case False
    with s(1) obtain r v res' v2 where v: "w_tables v = w_tables w1" "Resource_Service.serve (sv_env sv) cx r v = (res', v2)"
      "w_tables w2 = w_tables v2" by (auto simp: same_or_served_def)
    from history_tables [OF rs(1), of v2] v(3) obtain v3 where v3: "history (sv_env sv) v2 rs v3" "w_tables v3 = w_tables v'" by auto
    have "history (sv_env sv) w (r # rs) v3"
      using v http_next.hyps(1) v3(1) by (intro history.h_serve [of v]) simp_all
    with v3(2) rs(2,3) s(2) False show ?thesis by (intro exI [of _ "r # rs"] exI [of _ v3]) simp
  qed
qed

text \<open>C3. Whatever is sent to a started server, with any configuration and any failures of the database: the schema stays an
  invariant, and the life of every identifier takes only the moves of the abstract lifecycle, one for each request with
  a mutating method at most.  So \<open>GET\<close> and \<open>HEAD\<close> change no resource, generations advance one by one, and a
  resource marked for deletion is finalizing until it is gone.\<close>

theorem requests_follow_lifecycle:
  assumes "startup p = (Inr rn, steps)" and "http_run (serving rn sv) (rn_mux rn) w qs w'" and "schema_ok (w_tables w)"
  shows "schema_ok (w_tables w') \<and>
     (\<exists>rs. length rs \<le> length (filter (\<lambda>q. isMutatingMethod (in_Method q)) qs) \<and>
        (\<forall>i. lifecycle_trace rs i (phase w i) (phase w' i)))"
proof -
  from startup_Inr [OF assms(1)] obtain cfg where
    reg: "LoadDescriptors (ac_Entities cfg) [] = Inr (rn_registry rn)" "Validate (pr_cel_compiler p) (rn_registry rn) = None"
    and api: "BuildAPIServer (api_config_of cfg) (rn_registry rn) (rn_jwt rn \<noteq> None) = Inr (rn_mux rn)" by metis
  have ok: "registry_ok (rn_registry rn)" "registry_sound (rn_registry rn)"
    using reg Validate_iff [of "rn_registry rn" "pr_cel_compiler p"] by (auto simp: LoadDescriptors_exact)
  have env: "env_registry (sv_env (serving rn sv)) = rn_registry rn" by (simp add: serving_def)
  from http_history [OF assms(2) api] obtain rs v' where rs: "history (sv_env (serving rn sv)) w rs v'" "w_tables v' = w_tables w'"
    "length rs \<le> length (filter (\<lambda>q. isMutatingMethod (in_Method q)) qs)" by blast
  have "phase v' = phase w'" using rs(2) by (intro phase_tables) simp
  with history_refines [OF rs(1) assms(3)] ok env rs(2,3) show ?thesis by auto
qed

section \<open>The server of two tenants\<close>

text \<open>A process with JWT and tenancy on and two kinds.\<close>

definition tenant_surroundings :: surroundings where
  "tenant_surroundings = sample_surroundings\<lparr>
     su_UnmarshalExact := (\<lambda>vp c. Inr (c\<lparr>
        ac_Server := (ac_Server c)\<lparr>sc_JWT := \<lparr>jc_Configs = [sample_issuer], jc_Enabled = True\<rparr>, sc_Tenant := sample_tenant_config\<rparr>,
        ac_Database := (ac_Database c)\<lparr>dc_PasswordFile := ''/run/password''\<rparr>, ac_Entities := sample_registry\<rparr>))\<rparr>"

definition tenant_app :: application_config where
  "tenant_app = sample_config\<lparr>ac_Server := (ac_Server sample_config)\<lparr>sc_Tenant := sample_tenant_config\<rparr>, ac_Entities := sample_registry\<rparr>"

lemma tenant_loads: "Load tenant_surroundings [] = Inr tenant_app"
proof -
  have "resolveAndReadConfigFile tenant_surroundings [] new_viper = Inr new_viper"
    by (simp add: resolveAndReadConfigFile_def config_path_def Changed_def Lookup_def tenant_surroundings_def sample_surroundings_def)
  moreover have "validateBoundKeys (bindFlags [] (bindAllEnvVars new_viper)) = None"
    by (rule validateBoundKeys_passes) (simp_all add: new_viper_def)
  moreover have "\<not> IsForbiddenJWTSourceHeaderName DefaultJWTHeader" by code_simp
  moreover have "TenantConfig_Validate sample_tenant_config = None" by code_simp
  ultimately show ?thesis
    by (simp add: Load_def and_then_def wrap_error_def check_def)
      (simp add: tenant_app_def tenant_surroundings_def sample_config_def sample_surroundings_def suppressFlagOverriddenDatabaseFileFields_def
        Changed_def Lookup_def
        migrateDeprecatedConfig_def propagateTLS_def NewApplicationConfig_def NewServerConfig_def NewDatabaseConfig_def
        NewHealthConfig_def NewMetricsConfig_def NewTracingConfig_def no_tls_def ResolveFileOverrides_def file_override_def
        resolveFileValue_def validateConfig_def validate_server_def validate_rest_def and_then_def check_def
        TimeoutsConfig_Validate_def TLSConfig_Validate_def JWTConfig_Validate_def ApplyDefaults_def
        validate_issuer_def issuer_url_error_def issuer_header_error_def requireHTTPSURL_def sample_issuer_def
        issuer_defaults_def DefaultJWTIdentityClaim_def claims_without_jwt_def
        HealthConfig_Validate_def MetricsConfig_Validate_def TracingConfig_Validate_def duration_units Let_def)
qed

definition tenant_process :: "(string, string) process" where
  "tenant_process = sample_process\<lparr>pr_surroundings := tenant_surroundings\<rparr>"

lemma tenant_app_simps:
  "jc_Enabled (sc_JWT (ac_Server tenant_app))" "ac_Entities tenant_app = sample_registry"
  "jc_Configs (sc_JWT (ac_Server tenant_app)) = [issuer_defaults sample_issuer]"
  "sc_Tenant (ac_Server tenant_app) = sample_tenant_config" "ac_Database tenant_app = ac_Database sample_config"
  "tr_Enabled (ac_Tracing tenant_app)"
  by (simp_all add: tenant_app_def sample_config_simps)

lemma tenant_startup:
  obtains rn steps v m where "startup tenant_process = (Inr rn, steps)"
    "rn = \<lparr>rn_cfg = tenant_app, rn_registry = sample_registry, rn_mappers = Map.empty, rn_validator = \<lparr>sv_schemas = Map.empty\<rparr>,
       rn_jwt = Some [v], rn_mux = m\<rparr>"
    "iv_Header v = ''Authorization''" "iv_Parse v ''t0'' = Inr (MapClaims [(''email'', JStr ''ann@acme'')])"
    "BuildAPIServer (api_config_of tenant_app) sample_registry True = Inr m"
proof -
  obtain v where v: "NewJWTHandler jwks_library [issuer_defaults sample_issuer] = Inr [v]" "iv_Header v = ''Authorization''"
    "iv_Parse v ''t0'' = Inr (MapClaims [(''email'', JStr ''ann@acme'')])"
  proof -
    have "NewJWTHandler jwks_library [issuer_defaults sample_issuer] = NewJWTHandler jwks_library [sample_issuer]"
      by (simp add: NewJWTHandler_def ApplyDefaults_def issuer_defaults_def DefaultJWTHeader_def DefaultJWTIdentityClaim_def Let_def)
    then show thesis using sample_handler that by auto
  qed
  have "\<not> isl (BuildAPIServer \<lparr>ap_TracingEnabled = t, ap_JWTEnabled = True, ap_TenantEnabled = True\<rparr> sample_registry True)" for t
    by (cases t) code_simp+
  then obtain m where m: "BuildAPIServer (api_config_of tenant_app) sample_registry True = Inr m"
    by (cases "BuildAPIServer (api_config_of tenant_app) sample_registry True")
      (auto simp: api_config_of_def tenant_app_simps sample_tenant_config_def isl_def)
  obtain dsn where dsn: "Init (pr_driver sample_process) (ac_Database sample_config) = Inr (2, dsn)" using sample_connects by blast
  have sf: "SessionFactory (pr_driver sample_process) tenant_app NewContainer =
      (Inr (2, dsn), NewContainer\<lparr>ct_sessionFactory := Some (2, dsn), ct_closer := [CloseDB]\<rparr>)"
    using dsn by (simp add: SessionFactory_def NewContainer_def tenant_app_simps)
  have val: "Validate sample_compiler sample_registry = None" by code_simp
  have load: "LoadDescriptors sample_registry [] = Inr sample_registry"
    using sample_registry_ok by (simp add: LoadDescriptors_exact)
  have svc: "buildConditionMappers cl sample_registry Map.empty = Inr Map.empty" for cl
    by (simp add: sample_registry_def sample_descriptor_def)
  have "ValidateSpecSchemas (\<lambda>name. False) sample_registry = None" by code_simp
  moreover have "WithSpecSchema sample_registry = []" by (simp add: WithSpecSchema_def sample_registry_def sample_descriptor_def)
  ultimately have sch: "NewSchemaValidator sample_registry (\<lambda>name. None) = Inr \<lparr>sv_schemas = Map.empty\<rparr>"
    by (simp add: NewSchemaValidator_def buildSchemasMap_def)
  show thesis
    by (rule that [OF _ refl v(2,3) m])
      (use v(1) m sf val load svc sch tenant_loads in \<open>simp add: startup_def tenant_process_def sample_process_def
        tenant_app_simps start_tracing_def build_server_def ResourceService_def SessionFactory_def NewContainer_def
        NewResourceService_def failing_def SchemaValidator_def JWTHandler_def\<close>)
qed

text \<open>Ann of the tenant acme asks for a cluster.\<close>

definition tenant_request :: incoming where
  "tenant_request = \<lparr>in_Method = ''GET'', in_Path = ''/api/hyperfleet/v1/clusters/c1/'',
     in_Header = [(''Authorization'', [''Bearer t0'']), (''X-Org'', [''acme''])], in_Query = [], in_RequestID = None, in_Body = None,
     in_Create = (\<lambda>_. Inl EOF), in_Patch = (\<lambda>_. Inl EOF), in_Reason = (\<lambda>_. Inl EOF), in_Status = (\<lambda>_. Inl EOF)\<rparr>"

definition tenant_server :: server where
  "tenant_server = \<lparr>sv_env = sample_env, sv_validators = [], sv_tenant = sample_tenant_config, sv_schema = \<lparr>sv_schemas = Map.empty\<rparr>,
     sv_engine = sample_engine, sv_params = (\<lambda>_. None), sv_reflect = (\<lambda>_. GNil), sv_Marshal = (\<lambda>_. None), sv_Version = ''v1'',
     sv_BuildTime = [], sv_openapi = \<lparr>oh_openAPIDefinitions = [], oh_uiContent = []\<rparr>,
     sv_unmatched = (\<lambda>q. [WriteHeader 404]), sv_marshals = True\<rparr>"

lemma tenant_admitted:
  assumes "iv_Header v = ''Authorization''" "iv_Parse v ''t0'' = Inr (MapClaims [(''email'', JStr ''ann@acme'')])"
    and "sv_validators sv = [v]" "sv_tenant sv = sample_tenant_config"
  shows "\<exists>cx. admit sv (served_request tenant_request) = Some cx \<and>
     cx_Tenant cx = Some \<lparr>rt_Dimensions = [(''org'', ''acme'')], rt_System = False\<rparr>"
proof -
  let ?r = "incoming_request (served_request tenant_request)"
  have path: "removeTrailingSlash ''/api/hyperfleet/v1/clusters/c1/'' = ''/api/hyperfleet/v1/clusters/c1''" by code_simp
  have hs: "Header_Get ?r ''Authorization'' = ''Bearer t0''" "Fields ''Bearer t0'' = [''Bearer'', ''t0'']"
    "Header_Get ?r ''X-System'' = []" "Header_Get ?r ''X-Org'' = ''acme''"
    "\<not> EqualFold (TrimSpace []) ''true''" "TrimSpace ''acme'' = ''acme''" "dimensionValuePattern ''acme''" by code_simp+
  from assms hs obtain r1 where r1: "JWT_Middleware (sv_validators sv) ?r = Inr r1"
    by (auto simp: JWT_Middleware_def EqualFold_def)
  from JWT_Middleware_frame [OF r1] obtain cx1 where f1: "r1 = ?r\<lparr>rq_Context := cx1\<rparr>" by blast
  have "\<not> isMutatingMethod (Auth.http_request.rq_Method r1)"
    by (simp add: f1 incoming_request_def served_request_def tenant_request_def isMutatingMethod_def)
  then have "\<exists>r2. ResolveCallerIdentity r1 = Inr r2"
    by (simp add: ResolveCallerIdentity_def split: sum.split list.split)
  then obtain r2 where r2: "ResolveCallerIdentity r1 = Inr r2" by blast
  from ResolveCallerIdentity_frame [OF r2] f1 obtain cx2 where f2: "r2 = ?r\<lparr>rq_Context := cx2\<rparr>" by auto
  have "Header_Get r2 = Header_Get ?r" by (rule ext) (simp add: f2 Header_Get_def)
  moreover have "\<not> shouldSkipTenant (Auth.http_request.rq_Path r2)"
    by (simp add: f2 incoming_request_def served_request_def tenant_request_def path shouldSkipTenant_def ShouldSkipCallerIdentity_def HasPrefix_def)
  ultimately have "ResolveTenant (sv_tenant sv) r2 = Inr (WithTenant r2 \<lparr>rt_Dimensions = [(''org'', ''acme'')], rt_System = False\<rparr>)"
    using hs by (simp add: assms(4) ResolveTenant_def sample_tenant_config_def resolveDimensions_def maxDimensionValueLen_def)
  with r1 r2 show ?thesis by (simp add: admit_def WithTenant_def)
qed

text \<open>The handler of the cluster, for any caller of the tenant.\<close>

lemma tenant_answered:
  assumes "cx_Tenant cx = Some \<lparr>rt_Dimensions = [(''org'', ''acme'')], rt_System = False\<rparr>"
  shows "\<exists>resp w' pr. Handler_Get sample_env rf cx (sample_descriptor ''Cluster'' ''clusters'' [] [''dns'', ''validation''])
     \<lparr>Handlers.http_request.rq_Path = p, rq_ID = ''c1'', rq_ParentID = [], rq_Query = [], rq_RequestID = rid\<rparr> (calm sample_tables) =
     (Inr resp, w') \<and> rs_Payload resp = ResourceDoc pr"
proof -
  have scope: "in_scope cx = in_scope sample_caller"
    using assms by (auto simp: in_scope_def ScopeDB_def ScopeClause_def TenancyJSON_def sample_caller_def fun_eq_iff)
  have "Handler_Get env rf cx d q = Handler_Get env rf sample_caller d q" for env d q
    unfolding Handler_Get_def parentIDIfExists_def Service_Get_def Service_GetByOwner_def ResourceDao_Get_def GetByOwner_def scope ..
  moreover have "case Handler_Get sample_env rf sample_caller (sample_descriptor ''Cluster'' ''clusters'' [] [''dns'', ''validation''])
     \<lparr>Handlers.http_request.rq_Path = p, rq_ID = ''c1'', rq_ParentID = [], rq_Query = [], rq_RequestID = rid\<rparr> (calm sample_tables) of
     (Inr resp, w') \<Rightarrow> (case rs_Payload resp of ResourceDoc pr \<Rightarrow> True | _ \<Rightarrow> False) | _ \<Rightarrow> False"
    by code_simp
  ultimately show ?thesis by (auto split: prod.splits sum.splits payload.splits)
qed

lemma tenant_served:
  obtains rn steps rep w' where "startup tenant_process = (Inr rn, steps)" "jwt_on (rn_cfg rn)"
    "tc_Enabled (sc_Tenant (ac_Server (rn_cfg rn)))" "list_all (safe_plural \<circ> desc_Plural) (rn_registry rn)"
    "ServeHTTP (serving rn tenant_server) (rn_mux rn) tenant_request (calm sample_tables) = (Inr rep, w')" "\<not> empty_reply rep"
proof -
  obtain rn steps v m where st: "startup tenant_process = (Inr rn, steps)"
    and rn: "rn = \<lparr>rn_cfg = tenant_app, rn_registry = sample_registry, rn_mappers = Map.empty, rn_validator = \<lparr>sv_schemas = Map.empty\<rparr>,
       rn_jwt = Some [v], rn_mux = m\<rparr>"
    and v: "iv_Header v = ''Authorization''" "iv_Parse v ''t0'' = Inr (MapClaims [(''email'', JStr ''ann@acme'')])"
    and m: "BuildAPIServer (api_config_of tenant_app) sample_registry True = Inr m" by (rule tenant_startup)
  have on: "jwt_on (rn_cfg rn)" "tc_Enabled (sc_Tenant (ac_Server (rn_cfg rn)))"
    by (simp_all add: rn jwt_on_def tenant_app_simps sample_tenant_config_def)
  have plurals: "list_all (safe_plural \<circ> desc_Plural) sample_registry" by code_simp
  let ?sv = "serving rn tenant_server" and ?q = "served_request tenant_request"
    and ?pat = "''GET /api/hyperfleet/v1/clusters/{id}''" and ?d = "sample_descriptor ''Cluster'' ''clusters'' [] [''dns'', ''validation'']"
  have api: "api_config_of tenant_app = \<lparr>ap_TracingEnabled = True, ap_JWTEnabled = True, ap_TenantEnabled = True\<rparr>"
    by (simp add: api_config_of_def tenant_app_simps sample_tenant_config_def)
  have "case BuildAPIServer \<lparr>ap_TracingEnabled = True, ap_JWTEnabled = True, ap_TenantEnabled = True\<rparr> sample_registry True of
      Inl _ \<Rightarrow> False | Inr m \<Rightarrow> (case dispatch m ?q of None \<Rightarrow> False | Some (p, s) \<Rightarrow> p = ?pat \<and>
        (case handler_of s of KindHandler d OpGet \<Rightarrow> d = ?d | _ \<Rightarrow> False))"
    by code_simp
  with m obtain s where d: "dispatch m ?q = Some (?pat, s)" and h: "handler_of s = KindHandler ?d OpGet"
    by (auto simp: api split: option.splits prod.splits route_handler.splits handler_op.splits)
  have "ap_JWTEnabled (api_config_of tenant_app)" "ap_TenantEnabled (api_config_of tenant_app)" by (simp_all add: api)
  from guarded_chain [OF m this conjunct1 [OF dispatch_Some [OF d]]] h obtain before where
    c: "chain s = before @ guards" "set before \<subseteq> set passing" unfolding guards_def passing_def by auto
  obtain cx where cx: "admit ?sv ?q = Some cx" "cx_Tenant cx = Some \<lparr>rt_Dimensions = [(''org'', ''acme'')], rt_System = False\<rparr>"
    using tenant_admitted [OF v, of ?sv] by (auto simp: serving_def rn tenant_app_simps)
  have "SchemaValidationMiddleware (env_registry (sv_env ?sv)) (sv_schema ?sv) (in_Method ?q) (in_Path ?q) (in_Body ?q) = None"
    by (simp add: SchemaValidationMiddleware_def shouldValidateRequest_def served_request_def tenant_request_def)
  from through_admitted [OF c cx(1) this] obtain rid where
    "through ?sv ?pat ?q None (incoming_request ?q) s = handle_route ?sv cx ?pat ?q rid (handler_of s)" by blast
  with d have "ServeHTTP ?sv m tenant_request = handle_route ?sv cx ?pat ?q rid (handler_of s)"
    by (simp add: ServeHTTP_def)
  moreover have "handler_request ?pat ?q rid = \<lparr>Handlers.http_request.rq_Path = ''/api/hyperfleet/v1/clusters/c1'', rq_ID = ''c1'', rq_ParentID = [],
      rq_Query = [], rq_RequestID = rid\<rparr>" by code_simp
  moreover have "sv_env ?sv = sample_env" by (simp add: serving_def rn tenant_server_def sample_env_def)
  ultimately have run: "ServeHTTP ?sv m tenant_request = bindE (Handler_Get sample_env (sv_reflect ?sv) cx ?d
      \<lparr>Handlers.http_request.rq_Path = ''/api/hyperfleet/v1/clusters/c1'', rq_ID = ''c1'', rq_ParentID = [],
      rq_Query = [], rq_RequestID = rid\<rparr>) (\<lambda>resp. returnE (Api resp))"
    by (simp add: h handle_route_def)
  from tenant_answered [OF cx(2), of "sv_reflect ?sv" "''/api/hyperfleet/v1/clusters/c1''" rid] obtain resp w' pr where
    g: "Handler_Get sample_env (sv_reflect ?sv) cx ?d \<lparr>Handlers.http_request.rq_Path = ''/api/hyperfleet/v1/clusters/c1'', rq_ID = ''c1'',
      rq_ParentID = [], rq_Query = [], rq_RequestID = rid\<rparr> (calm sample_tables) = (Inr resp, w')" "rs_Payload resp = ResourceDoc pr"
    by blast
  have "ServeHTTP ?sv m tenant_request (calm sample_tables) = (Inr (Api resp), w')"
    unfolding run bindE_run g(1) by (simp add: returnE_run)
  with g(2) show thesis using st on plurals
    by (intro that [of rn steps "Api resp" w']) (simp_all add: rn empty_reply_def problem_reply_def)
qed

lemma only_let_in_served_witness:
  "\<exists>rn steps rep w'. startup tenant_process = (Inr rn, steps) \<and>
     ServeHTTP (serving rn tenant_server) (rn_mux rn) tenant_request (calm sample_tables) = (Inr rep, w') \<and> \<not> empty_reply rep \<and>
     (\<exists>cx. let_in (pr_jwt tenant_process) (sc_Tenant (ac_Server (rn_cfg rn))) (incoming_request (served_request tenant_request)) cx)"
proof (rule tenant_served)
  fix rn steps rep w'
  assume a: "startup tenant_process = (Inr rn, steps)" "jwt_on (rn_cfg rn)"
    "tc_Enabled (sc_Tenant (ac_Server (rn_cfg rn)))" "list_all (safe_plural \<circ> desc_Plural) (rn_registry rn)"
    "ServeHTTP (serving rn tenant_server) (rn_mux rn) tenant_request (calm sample_tables) = (Inr rep, w')" "\<not> empty_reply rep"
  from only_let_in_served [OF a(1-5)] a show ?thesis by blast
qed

lemma tenants_isolated_over_HTTP_witness:
  "\<exists>rn steps rep w'. startup tenant_process = (Inr rn, steps) \<and>
     ServeHTTP (serving rn tenant_server) (rn_mux rn) tenant_request (calm sample_tables) = (Inr rep, w') \<and> \<not> empty_reply rep \<and>
     (\<exists>cx. reply_about (serving rn tenant_server) (in_reach cx sample_tables) rep)"
proof (rule tenant_served)
  fix rn steps rep w'
  assume a: "startup tenant_process = (Inr rn, steps)" "jwt_on (rn_cfg rn)"
    "tc_Enabled (sc_Tenant (ac_Server (rn_cfg rn)))" "list_all (safe_plural \<circ> desc_Plural) (rn_registry rn)"
    "ServeHTTP (serving rn tenant_server) (rn_mux rn) tenant_request (calm sample_tables) = (Inr rep, w')" "\<not> empty_reply rep"
  have "permutes_rows (sv_engine tenant_server)" by (simp add: tenant_server_def permutes_rows_def sample_engine_def)
  with tenants_isolated_over_HTTP [OF a(1-5)] sample_schema_ok a(6) have
    "\<exists>cx. reply_about (serving rn tenant_server) (in_reach cx sample_tables) rep" by auto
  with a show ?thesis by blast
qed

lemma requests_follow_lifecycle_witness:
  "\<exists>rn steps w'. startup tenant_process = (Inr rn, steps) \<and>
     http_run (serving rn tenant_server) (rn_mux rn) (calm sample_tables) [tenant_request, tenant_request] w' \<and>
     phase w' ''c1'' = phase (calm sample_tables) ''c1''"
proof (rule tenant_served)
  fix rn steps rep w'
  assume a: "startup tenant_process = (Inr rn, steps)"
  obtain res1 w1 where 1: "ServeHTTP (serving rn tenant_server) (rn_mux rn) tenant_request (calm sample_tables) = (res1, w1)"
    by (meson surj_pair)
  obtain res2 w2 where 2: "ServeHTTP (serving rn tenant_server) (rn_mux rn) tenant_request w1 = (res2, w2)" by (meson surj_pair)
  have run: "http_run (serving rn tenant_server) (rn_mux rn) (calm sample_tables) [tenant_request, tenant_request] w2"
    by (rule http_next [OF refl 1 http_next [OF refl 2 http_done]])
  have "\<not> isMutatingMethod (in_Method tenant_request)" by code_simp
  with requests_follow_lifecycle [OF a run] sample_schema_ok have "phase w2 ''c1'' = phase (calm sample_tables) ''c1''" by auto
  with a run show ?thesis by blast
qed

end
