(* ===== verification/Spec2Isabelle.thy ===== *)
theory Spec2Isabelle
  imports Auth Tenant Lifecycle Safety Deletion Search Listing Finalization List_Params Projection Handler_Safety Routes
    Startup Endpoints Reconciliation_Metrics Advisory_Lock Observability Server_Safety
begin

text \<open>
  A model of the HyperFleet API, a REST service in Go that keeps declarative resources (clusters, node pools and
  whatever kinds its configuration declares), takes status reports from adapters, and sums them up as conditions.

  \<^bold>\<open>Parts and how they interact.\<close>  The process loads a configuration (\<open>pkg/config\<close>), checks the registry of entity
  descriptors in it (\<open>pkg/registry\<close>), opens the database, and serves a router whose routes are generated from the
  registry (\<open>cmd/hyperfleet-api\<close>).  A request passes the JWT, caller identity, tenant and schema middleware
  (\<open>pkg/auth\<close>, \<open>pkg/tenant\<close>, \<open>pkg/middleware\<close>), a handler (\<open>pkg/handlers\<close>) that validates it and converts it
  (\<open>pkg/api/presenters\<close>), and the resource service (\<open>pkg/services\<close>), which runs the DAOs (\<open>pkg/dao\<close>) in a
  transaction (\<open>pkg/db\<close>).  A patch or a report makes the service aggregate the reports (\<open>aggregation.go\<close>) and evaluate the
  CEL condition rules (\<open>condition_mapper.go\<close>); the last finalizer report of a deleted resource removes it.

  \<^bold>\<open>Which theory models what.\<close>
  \<^item> \<open>Prelude\<close>, \<open>Json\<close>, \<open>Errors\<close>, \<open>Api_Types\<close>, \<open>Util\<close>: Go values (times as nanoseconds, \<open>int32\<close> as a 32-bit word, strings as
    bytes), JSON values, \<open>pkg/errors\<close>, the records of \<open>pkg/api\<close> with the Go field names, \<open>pkg/util\<close>.
  \<^item> \<open>Registry\<close>: \<open>pkg/registry\<close>; a registry is the list of its descriptors.
  \<^item> \<open>Auth\<close>, \<open>JWT_Handler\<close>, \<open>Tenant\<close>: a middleware is a function from a request to a refusal or the request passed on;
    the context of a request is a record of what middleware attaches.
  \<^item> \<open>Aggregation\<close>, \<open>Status_Report\<close>, \<open>Condition_Mapper\<close>: pure functions of reports, previous conditions and rules; the
    cache of the mapper is passed explicitly.
  \<^item> \<open>Database\<close>, \<open>Dao\<close>: a world holds the tables, the clock, the identifiers to come, the metrics and a list of faults that
    decides which statement fails how; an operation \<open>'a op\<close> threads the world and ends in an error or a value.  Keys,
    unique indexes and foreign keys are those of \<open>pkg/db/migrations\<close>.  \<open>Do\<close> is a transaction.
  \<^item> \<open>Service_Support\<close>, \<open>Resource_Service\<close>: every method of \<open>pkg/services/resource.go\<close>.
  \<^item> \<open>Search\<close>, \<open>Listing\<close>, \<open>List_Params\<close>: the walk from a parsed query to SQL (\<open>sql_tsl.go\<close>), the list methods, paging and
    the query parameters.
  \<^item> \<open>Patterns\<close>, \<open>Request_Validation\<close>, \<open>Presenters\<close>, \<open>Projection\<close>, \<open>Schema_Validation\<close>, \<open>Handlers\<close>: the request and response
    side; a handler is an operation that ends in a response.
  \<^item> \<open>Routes\<close>, \<open>Endpoints\<close>: the router, its table, the middleware around each route, and the answers without a handler.
  \<^item> \<open>Server\<close>: the whole: \<open>ServeHTTP\<close> takes a request through dispatch, the middleware of its route (\<open>through\<close>) and
    its handler (\<open>handle_route\<close>) to the service on the database.
  \<^item> \<open>Config\<close>, \<open>Config_Loader\<close>, \<open>Closer\<close>, \<open>Advisory_Lock\<close>, \<open>Startup\<close>: the configuration and its loader, shutdown and readiness, the lock
    around migrations, and the run of the process from its flags to its end.
  \<^item> \<open>Observability\<close>, \<open>Reconciliation_Metrics\<close>: what is logged, masked, traced and counted.

  \<^bold>\<open>What the lemmas show.\<close>
  \<^item> \<open>Lifecycle\<close>: a failing write changes nothing, every request keeps the schema, a patch changes one row by one
    generation.  \<open>Safety\<close>: no resurrection, tenant isolation, the effect of a create.  \<open>Deletion\<close>, \<open>Finalization\<close>: what a delete
    marks and removes, that its recursion ends, and that the last finalizer removes the resource.
  \<^item> \<open>Phases\<close>: an abstract machine (absent, live, finalizing), given by an inductive step relation, which every request and
    every history of requests refines.
  \<^item> \<open>Aggregation\<close> and \<open>Dao\<close>: when \<open>Reconciled\<close> and \<open>LastKnownReconciled\<close> hold, continuity of times, idempotence.
  \<^item> \<open>Routes\<close>, \<open>Handler_Safety\<close>: no resource route escapes the middleware, no two routes match one request, refused requests
    leave the tables alone.
  \<^item> \<open>Request_Effects\<close>, \<open>Request_Answers\<close>, \<open>Server_Safety\<close>: every handler runs at most one request of the service and tells of
    what its caller may see only; so, over HTTP and from a started process on, only callers with a valid token, tenant and
    identity are served, tenants are isolated, and any sequence of requests follows the abstract machine of \<open>Phases\<close>.
  \<^item> \<open>Search\<close>, \<open>Listing\<close>, \<open>Projection\<close>: generated SQL is contained, lists are scoped, projections are exact.
  \<^item> \<open>Config_Loader\<close>, \<open>JWT_Handler\<close>, \<open>Startup\<close>: what is served is safely configured, authenticated as configured, and shut down in
    order; \<open>Config\<close>: no setting escapes its place in the connection string.

  The interfaces are locales: \<open>world_relation\<close>, \<open>row_relation\<close> and \<open>op_relation\<close> (\<open>Prelude\<close>, \<open>Database\<close>) carry a
  relation between worlds through every operation once it holds of single statements, and are interpreted for the schema, the
  metrics, unchanged rows, withering, no resurrection and isolation; \<open>owned_rows\<close> (\<open>Dao\<close>) is the contract of the tables a
  resource owns; \<open>dimension_source\<close> (\<open>Tenant\<close>) covers headers and claims.

  \<^bold>\<open>Bounds.\<close>  \<open>deleteResourceTree\<close> has one unit of fuel more than there are kinds, enough because a validated registry has no
  ownership cycle; force-delete has one more than there are rows, enough because owners are acyclic
  (\<open>Deletion.delete_terminates\<close>, \<open>Deletion.force_delete_terminates\<close>).  The search for reference cycles has as much fuel
  as there are kinds.  Running out is an outcome of its own, never a result.  The retries of the connection are bounded by
  the configured number.

  \<^bold>\<open>Parameters.\<close>  Code outside the repository is an argument: the CEL compiler and evaluator, the token parser and
  the key-set library, the parser of the query language, what PostgreSQL makes of a \<open>WHERE\<close> or \<open>ORDER BY\<close> text, the struct
  validators, the OpenAPI schema validator, the decoding of bodies into generated types and the reflection on those types, viper,
  \<open>url.Parse\<close>, \<open>regexp.Compile\<close> of configured patterns and \<open>strconv.ParseFloat\<close>, the drivers below \<open>database/sql\<close> and GORM, the
  clock, the identifiers, files and the environment.  A theorem that needs more than their types says so in
  its hypotheses and has a witness with concrete functions.

  \<^bold>\<open>Not modelled.\<close>  The bytes \<open>net/http\<close> writes, sockets and TLS; the generated OpenAPI types; the registration of
  collectors with Prometheus; the log handler and its text; the regular expressions that mask text which is not JSON; signals
  and goroutine scheduling (a run of the process is a list of the events its main goroutine receives); row locks, since each
  transaction is one step of the model and, over HTTP, each request, and column lengths; escaped slashes within a path segment,
  the \<open>X-Request-ID\<close> header of responses; the notification listener and the pool settings of the database; \<open>main.go\<close>
  and the flags of the migrate command; tests, mocks and factories.  These are calls into libraries without logic of their own, or
  belong to no running service.
\<close>

end
